(* ===== verification/Prelude.thy ===== *)
theory Prelude
  imports Main "HOL-Library.Word"
begin

section \<open>Shared types, string functions and byte codecs\<close>

text \<open>
  What every component of the model shares: the names of the machine types, poll results
  and Rust results, the functions of Rust's standard library on strings that the crates
  use, big-endian 32-bit integers, and the two interfaces of an encoder with its decoder.
  Nothing here is specific to one component.

  A Rust \<^verbatim>\<open>String\<close>, \<^verbatim>\<open>&str\<close>, header name or header value is a
  \<open>string\<close>: a list of 8-bit characters, the bytes of its UTF-8 encoding. The bytes of a
  message body are a list of \<open>8 word\<close>.
\<close>

unbundle bit_operations_syntax

type_synonym u8 = "8 word"
type_synonym u32 = "32 word"
type_synonym bytes = "u8 list"

named_theorems wire \<open>rewriting rules for the wire format\<close>
named_theorems hdr \<open>rewriting rules for header maps\<close>

text \<open>\<^verbatim>\<open>std::task::Poll\<close>; a Rust \<^verbatim>\<open>Result<T, E>\<close> is
  the sum \<open>E + T\<close>, with \<open>Inl\<close> for \<^verbatim>\<open>Err\<close>.\<close>

datatype 'a poll = Pending | Ready 'a

subsection \<open>Decimal numbers\<close>

definition digit_char :: "nat \<Rightarrow> char" where
  "digit_char d = ''0123456789'' ! d"

fun show_nat :: "nat \<Rightarrow> string" where
  "show_nat n = (if n < 10 then [digit_char n] else show_nat (n div 10) @ [digit_char (n mod 10)])"

declare show_nat.simps [simp del]

lemma digit_cases: "(d::nat) < 10 \<Longrightarrow> d \<in> {0, 1, 2, 3, 4, 5, 6, 7, 8, 9}"
  by simp presburger

definition digit_val :: "char \<Rightarrow> nat" where
  "digit_val c = of_char c - (48::nat)"

definition read_nat :: "string \<Rightarrow> nat" where
  "read_nat s = foldl (\<lambda>n c. 10 * n + digit_val c) 0 s"

lemma read_nat_snoc [simp]: "read_nat (s @ [c]) = 10 * read_nat s + digit_val c"
  by (simp add: read_nat_def)

lemma digit_val_digit [simp]: "d < 10 \<Longrightarrow> digit_val (digit_char d) = d"
  by (drule digit_cases) (auto simp: digit_val_def digit_char_def)

lemma digit_char_range: "d < 10 \<Longrightarrow> 48 \<le> (of_char (digit_char d) :: nat) \<and> (of_char (digit_char d) :: nat) \<le> 57"
  by (drule digit_cases) (auto simp: digit_char_def)

lemma read_show_nat [simp]: "read_nat (show_nat n) = n"
proof (induction n rule: show_nat.induct)
  case (1 n)
  show ?case
  proof (cases "n < 10")
    case True
    then show ?thesis
      by (simp add: show_nat.simps [of n] read_nat_def)
  next
    case False
    with 1 have "read_nat (show_nat (n div 10)) = n div 10" by simp
    with False show ?thesis
      by (simp add: show_nat.simps [of n])
  qed
qed

lemma show_nat_inj: "show_nat m = show_nat n \<longleftrightarrow> m = n"
  by (metis read_show_nat)

lemma show_nat_nonempty [simp]: "show_nat n \<noteq> []"
  by (subst show_nat.simps) simp

lemma length_show_nat: "n < 10 ^ k \<Longrightarrow> 0 < k \<Longrightarrow> length (show_nat n) \<le> k"
proof (induction n arbitrary: k rule: show_nat.induct)
  case (1 n)
  show ?case
  proof (cases "n < 10")
    case True
    with "1.prems" show ?thesis by (simp add: show_nat.simps [of n])
  next
    case False
    then have "1 < k" using "1.prems" by (cases "k = 1") auto
    then obtain j where j: "k = Suc j" "0 < j" by (cases k) auto
    then have "n div 10 < 10 ^ j" using "1.prems" by (simp add: div_less_iff_less_mult mult.commute)
    with 1 False j have "length (show_nat (n div 10)) \<le> j" by blast
    with False j show ?thesis by (simp add: show_nat.simps [of n])
  qed
qed

lemma show_nat_digits: "c \<in> set (show_nat n) \<Longrightarrow> 48 \<le> (of_char c :: nat) \<and> (of_char c :: nat) \<le> 57"
proof (induction n rule: show_nat.induct)
  case (1 n)
  then show ?case
    by (cases "n < 10") (auto simp: show_nat.simps [of n] digit_char_range)
qed

subsection \<open>Strings\<close>

text \<open>\<^verbatim>\<open>str::split(sep)\<close> on a one-character separator: always at least one part.\<close>

fun str_split :: "char \<Rightarrow> string \<Rightarrow> string list" where
  "str_split sep [] = [[]]"
| "str_split sep (c # s) =
     (if c = sep then [] # str_split sep s
      else (case str_split sep s of [] \<Rightarrow> [[c]] | p # ps \<Rightarrow> (c # p) # ps))"

text \<open>\<^verbatim>\<open>str::trim\<close> on ASCII text: the white space below U+0080.\<close>

definition is_ws :: "char \<Rightarrow> bool" where
  "is_ws c = ((of_char c :: nat) = 32 \<or> (9 \<le> (of_char c :: nat) \<and> (of_char c :: nat) \<le> 13))"

definition str_trim :: "string \<Rightarrow> string" where
  "str_trim s = rev (dropWhile is_ws (rev (dropWhile is_ws s)))"

text \<open>\<^verbatim>\<open>str::starts_with\<close>, \<^verbatim>\<open>strip_prefix\<close>,
  \<^verbatim>\<open>contains\<close> and \<^verbatim>\<open>[..].join(sep)\<close>.\<close>

fun strip_prefix :: "string \<Rightarrow> string \<Rightarrow> string option" where
  "strip_prefix [] s = Some s"
| "strip_prefix (p # ps) [] = None"
| "strip_prefix (p # ps) (c # s) = (if p = c then strip_prefix ps s else None)"

definition starts_with :: "string \<Rightarrow> string \<Rightarrow> bool" where
  "starts_with s p = (strip_prefix p s \<noteq> None)"

fun str_contains :: "string \<Rightarrow> string \<Rightarrow> bool" where
  "str_contains [] p = (p = [])"
| "str_contains (c # s) p = (starts_with (c # s) p \<or> str_contains s p)"

fun str_join :: "string \<Rightarrow> string list \<Rightarrow> string" where
  "str_join sep [] = []"
| "str_join sep [p] = p"
| "str_join sep (p # q # ps) = p @ sep @ str_join sep (q # ps)"

lemma strip_prefix_Some_iff: "strip_prefix p s = Some r \<longleftrightarrow> s = p @ r"
  by (induction p s rule: strip_prefix.induct) auto

lemma starts_with_iff: "starts_with s p \<longleftrightarrow> (\<exists>r. s = p @ r)"
proof -
  have "starts_with s p \<longleftrightarrow> (\<exists>r. strip_prefix p s = Some r)"
    by (cases "strip_prefix p s") (auto simp: starts_with_def)
  then show ?thesis by (simp add: strip_prefix_Some_iff)
qed

lemma str_split_nonempty [simp]: "str_split sep s \<noteq> []"
  by (induction s) (auto split: list.splits)

lemma str_split_no_sep: "sep \<notin> set s \<Longrightarrow> str_split sep s = [s]"
  by (induction s) auto

lemma str_split_append: "sep \<notin> set p \<Longrightarrow> str_split sep (p @ sep # s) = p # str_split sep s"
  by (induction p) auto

lemma str_split_join:
  "ps \<noteq> [] \<Longrightarrow> \<forall>p\<in>set ps. sep \<notin> set p \<Longrightarrow> str_split sep (str_join [sep] ps) = ps"
  by (induction "[sep]" ps rule: str_join.induct) (auto simp: str_split_no_sep str_split_append)

lemma str_trim_id: "\<forall>c\<in>set s. \<not> is_ws c \<Longrightarrow> str_trim s = s"
proof -
  assume a: "\<forall>c\<in>set s. \<not> is_ws c"
  have d: "dropWhile is_ws t = t" if "\<forall>c\<in>set t. \<not> is_ws c" for t
    using that by (cases t) auto
  from a show "str_trim s = s" by (simp add: str_trim_def d)
qed

subsection \<open>UTF-8\<close>

text \<open>
  \<^verbatim>\<open>core::str::from_utf8\<close> accepts exactly the well-formed byte sequences of
  the Unicode standard (table 3-7): no overlong forms, no surrogates, nothing above
  U+10FFFF.
\<close>

definition utf8_cont :: "nat \<Rightarrow> bool" where
  "utf8_cont b = (128 \<le> b \<and> b \<le> 191)"

fun utf8_ok :: "nat list \<Rightarrow> bool" where
  "utf8_ok [] = True"
| "utf8_ok (b # bs) =
     (if b < 128 then utf8_ok bs
      else if 194 \<le> b \<and> b \<le> 223 then
        (case bs of c # r \<Rightarrow> utf8_cont c \<and> utf8_ok r | [] \<Rightarrow> False)
      else if 224 \<le> b \<and> b \<le> 239 then
        (case bs of c # d # r \<Rightarrow>
             utf8_cont c \<and> utf8_cont d \<and> (b = 224 \<longrightarrow> 160 \<le> c) \<and> (b = 237 \<longrightarrow> c \<le> 159) \<and> utf8_ok r
         | _ \<Rightarrow> False)
      else if 240 \<le> b \<and> b \<le> 244 then
        (case bs of c # d # e # r \<Rightarrow>
             utf8_cont c \<and> utf8_cont d \<and> utf8_cont e \<and> (b = 240 \<longrightarrow> 144 \<le> c)
             \<and> (b = 244 \<longrightarrow> c \<le> 143) \<and> utf8_ok r
         | _ \<Rightarrow> False)
      else False)"

definition utf8_valid :: "string \<Rightarrow> bool" where
  "utf8_valid s = utf8_ok (map of_char s)"

lemma utf8_ok_ascii: "\<forall>b\<in>set bs. b < 128 \<Longrightarrow> utf8_ok bs"
  by (induction bs) auto

lemma utf8_valid_Nil [simp]: "utf8_valid []"
  by (simp add: utf8_valid_def)

text \<open>Header values that \<^verbatim>\<open>HeaderValue::to_str\<close> accepts are visible ASCII and tab.\<close>

definition visible_ascii :: "string \<Rightarrow> bool" where
  "visible_ascii s = (\<forall>c\<in>set s. (of_char c :: nat) = 9 \<or> (32 \<le> (of_char c :: nat) \<and> (of_char c :: nat) < 127))"

subsection \<open>Encoders with their decoders\<close>

text \<open>
  The contract between an encoder and its decoder: decoding an encoded value gives the
  value back. The strict form adds that nothing else decodes to it, so that the encoding
  is the only spelling of a value.
\<close>

locale codec_pair =
  fixes enc :: "'a \<Rightarrow> 'b" and dec :: "'b \<Rightarrow> 'a option"
  assumes dec_enc: "dec (enc a) = Some a"
begin

lemma enc_inj: "enc a = enc b \<longleftrightarrow> a = b"
  by (metis dec_enc option.inject)

lemma dec_enc_iff: "dec (enc a) = Some b \<longleftrightarrow> b = a"
  by (auto simp: dec_enc)

end

locale strict_codec = codec_pair +
  assumes enc_dec: "dec b = Some a \<Longrightarrow> enc a = b"
begin

lemma dec_iff: "dec b = Some a \<longleftrightarrow> b = enc a"
  by (metis dec_enc enc_dec)

lemma dec_None_iff: "dec b = None \<longleftrightarrow> (\<forall>a. b \<noteq> enc a)"
  by (metis dec_enc enc_dec not_Some_eq option.simps(3))

end

subsection \<open>Big-endian 32-bit integers\<close>

text \<open>
  \<^verbatim>\<open>put_u32\<close>, \<^verbatim>\<open>to_be_bytes\<close> and \<^verbatim>\<open>get_u32\<close>:
  most significant byte first. \<open>be_nat\<close> reads any number of bytes.
\<close>

definition u32_be :: "u32 \<Rightarrow> bytes" where
  "u32_be w = [of_nat (unat w div 2 ^ 24), of_nat (unat w div 2 ^ 16 mod 256),
               of_nat (unat w div 2 ^ 8 mod 256), of_nat (unat w mod 256)]"

definition be_nat :: "bytes \<Rightarrow> nat" where
  "be_nat bs = foldl (\<lambda>n b. 256 * n + unat b) 0 bs"

definition be_u32 :: "bytes \<Rightarrow> u32 option" where
  "be_u32 bs = (if length bs = 4 then Some (of_nat (be_nat bs)) else None)"

lemma length_u32_be [simp]: "length (u32_be w) = 4"
  by (simp add: u32_be_def)

lemma unat_u8_of_nat [simp]: "unat (of_nat n :: u8) = n mod 256"
  by (simp add: unat_of_nat)

lemma unat_u32_bound: "unat (w :: u32) < 4294967296"
  using unsigned_less [of w, where 'a = nat] by simp

lemma unat_u8_bound: "unat (b :: u8) < 256"
  using unsigned_less [of b, where 'a = nat] by simp

lemma nat_base256:
  fixes n :: nat
  shows "256 * (256 * (256 * (n div 2 ^ 24) + n div 2 ^ 16 mod 256) + n div 2 ^ 8 mod 256) + n mod 256 = n"
proof -
  have d: "n div 2 ^ 16 = n div 2 ^ 8 div 256" "n div 2 ^ 24 = n div 2 ^ 8 div 256 div 256"
    by (simp_all add: div_mult2_eq [symmetric])
  show ?thesis
    unfolding d by simp
qed

lemma be_nat_u32_be [wire]: "be_nat (u32_be w) = unat w"
proof -
  have "unat w div 2 ^ 24 < 256"
    using unat_u32_bound [of w] by simp
  then show ?thesis
    using nat_base256 [of "unat w"] by (simp add: be_nat_def u32_be_def)
qed

lemma unat_of_be_nat:
  assumes "length bs = 4" shows "unat (of_nat (be_nat bs) :: u32) = be_nat bs"
proof -
  obtain a b c d where bs: "bs = [a, b, c, d]"
    using assms by (auto simp: numeral_eq_Suc length_Suc_conv)
  have "be_nat bs < 2 ^ 32"
    using unat_u8_bound [of a] unat_u8_bound [of b] unat_u8_bound [of c] unat_u8_bound [of d]
    by (simp add: be_nat_def bs)
  then show ?thesis by (simp add: unat_of_nat)
qed

lemma digit_256:
  fixes r m n q d :: nat
  assumes "r < m" "n = (q * 256 + d) * m + r" "d < 256"
  shows "n div m mod 256 = d"
proof -
  have "n div m = q * 256 + d"
    using assms by (simp add: div_mult_self3)
  with assms(3) show ?thesis by simp
qed

lemma u32_be_be_nat: "length bs = 4 \<Longrightarrow> u32_be (of_nat (be_nat bs)) = bs"
proof -
  assume len: "length bs = 4"
  then obtain a b c d where bs: "bs = [a, b, c, d]"
    by (auto simp: numeral_eq_Suc length_Suc_conv)
  have n: "be_nat bs = unat a * 2 ^ 24 + unat b * 2 ^ 16 + unat c * 2 ^ 8 + unat d"
    by (simp add: be_nat_def bs)
  note bounds = unat_u8_bound [of a] unat_u8_bound [of b] unat_u8_bound [of c] unat_u8_bound [of d]
  have w: "of_nat k = x" if "k = unat x" for k and x :: u8
    using that by simp
  have "be_nat bs div 2 ^ 24 = unat a"
    unfolding n using bounds by simp
  moreover have "be_nat bs div 2 ^ 16 mod 256 = unat b"
    using digit_256 [of "unat c * 256 + unat d" "2 ^ 16" "be_nat bs" "unat a" "unat b"] bounds
    by (simp add: n)
  moreover have "be_nat bs div 2 ^ 8 mod 256 = unat c"
    using digit_256 [of "unat d" "2 ^ 8" "be_nat bs" "unat a * 256 + unat b" "unat c"] bounds
    by (simp add: n)
  moreover have "be_nat bs mod 256 = unat d"
    using digit_256 [of 0 1 "be_nat bs" "(unat a * 256 + unat b) * 256 + unat c" "unat d"] bounds
    by (simp add: n)
  ultimately show ?thesis
    by (simp add: u32_be_def unat_of_be_nat [OF len] w) (simp add: bs)
qed

interpretation be32: strict_codec u32_be be_u32
proof
  show "be_u32 (u32_be w) = Some w" for w
    by (simp add: be_u32_def be_nat_u32_be)
  show "be_u32 bs = Some w \<Longrightarrow> u32_be w = bs" for bs w
    by (auto simp: be_u32_def u32_be_be_nat split: if_splits)
qed

subsection \<open>Text as bytes\<close>

text \<open>A string that travels in a body: its characters are the bytes.\<close>

definition str_bytes :: "string \<Rightarrow> bytes" where
  "str_bytes s = map of_char s"

definition bytes_str :: "bytes \<Rightarrow> string" where
  "bytes_str bs = map (\<lambda>b. char_of (unat b)) bs"

lemma of_char_u8: "(of_char c :: u8) = of_nat (of_char c)"
  by (rule of_nat_of_char [symmetric])

lemma char_of_u8 [simp]: "char_of (unat (of_char c :: u8)) = c"
proof -
  have "(of_char c :: nat) < 256" by simp
  then show ?thesis unfolding of_char_u8 by (simp add: unat_of_nat)
qed

lemma u8_of_char [simp]: "(of_char (char_of (unat b)) :: u8) = b"
  unfolding of_char_u8 using unat_u8_bound [of b] by simp

lemma bytes_str_bytes [simp]: "bytes_str (str_bytes s) = s"
  by (induction s) (simp_all add: bytes_str_def str_bytes_def)

lemma str_bytes_str [simp]: "str_bytes (bytes_str bs) = bs"
  by (induction bs) (simp_all add: bytes_str_def str_bytes_def)

lemma bytes_str_append: "bytes_str (as @ bs) = bytes_str as @ bytes_str bs"
  by (simp add: bytes_str_def)

interpretation text_bytes: strict_codec str_bytes "\<lambda>bs. Some (bytes_str bs)"
  by unfold_locales auto

lemma of_char_u8_inj: "(of_char c :: u8) = of_char d \<longleftrightarrow> c = d"
  by (metis char_of_u8)

lemma str_bytes_in: "(of_char c :: u8) \<in> set (str_bytes s) \<longleftrightarrow> c \<in> set s"
  by (induction s) (auto simp: str_bytes_def of_char_u8_inj)

end
