(* ===== verification/External.thy ===== *)
theory External
  imports Prelude
begin

section \<open>Data shared by the crates, and the libraries they call\<close>

text \<open>
  The data every crate passes around (status codes, statuses and the error values they
  wrap, the public fields of HTTP requests and responses, frames of a body) and the
  interface of the third-party libraries as one record of functions, \<open>ext\<close>. A definition
  that calls a library takes the record as its first argument; what the code relies on is
  a predicate on it that states the library's documented behaviour, and is a hypothesis of
  the theorems that need it. \<open>Reference\<close> gives one concrete record that satisfies all of
  them.
\<close>

subsection \<open>Status codes and errors\<close>

text \<open>\<^verbatim>\<open>grpc_core::status::Code\<close>, in the order of \<^verbatim>\<open>define_codes!\<close>.\<close>

datatype code =
    Ok | Cancelled | Unknown | InvalidArgument | DeadlineExceeded | NotFound | AlreadyExists
  | PermissionDenied | ResourceExhausted | FailedPrecondition | Aborted | OutOfRange
  | Unimplemented | Internal | Unavailable | DataLoss | Unauthenticated

text \<open>The kinds of \<^verbatim>\<open>std::io::ErrorKind\<close> the code names; \<open>IoOther\<close> is any other one.\<close>

datatype io_kind =
    IoBrokenPipe | IoWouldBlock | IoWriteZero | IoInterrupted | IoConnectionRefused
  | IoConnectionReset | IoNotConnected | IoAddrInUse | IoAddrNotAvailable | IoAlreadyExists
  | IoConnectionAborted | IoInvalidData | IoInvalidInput | IoNotFound | IoPermissionDenied
  | IoTimedOut | IoUnexpectedEof | IoOther

text \<open>
  \<^verbatim>\<open>Status\<close> (its boxed \<^verbatim>\<open>StatusInner\<close>) and the dynamic errors
  (\<^verbatim>\<open>dyn Error\<close>) it can wrap as its source: another status, an
  \<^verbatim>\<open>io::Error\<close>, or an error of any other type, known only by its text. The last
  argument of an error is its \<^verbatim>\<open>source()\<close>. The type \<open>'h\<close> is
  \<^verbatim>\<open>http::HeaderMap\<close>, which \<^verbatim>\<open>MetadataMap\<close> wraps.
\<close>

datatype 'h status =
    Status (st_code: code) (st_message: string) (st_details: bytes) (st_metadata: 'h)
      (st_source: "'h err option")
and 'h err =
    EStatus "'h status"
  | EIo io_kind string "'h err option"
  | EOther string "'h err option"

subsection \<open>HTTP messages\<close>

text \<open>\<^verbatim>\<open>http::Request\<close> and \<^verbatim>\<open>http::Response\<close>; \<open>'x\<close> is
  \<^verbatim>\<open>http::Extensions\<close>. The request target is kept as its path.\<close>

datatype http_version = Http10 | Http11 | Http2 | Http3

record ('h, 'x, 'b) http_request =
  hq_method :: string
  hq_path :: string
  hq_version :: http_version
  hq_headers :: 'h
  hq_extensions :: 'x
  hq_body :: 'b

record ('h, 'x, 'b) http_response =
  hp_status :: nat
  hp_version :: http_version
  hp_headers :: 'h
  hp_extensions :: 'x
  hp_body :: 'b

text \<open>
  A body is what its successive polls return: a pending poll, a data frame, a trailers
  frame, an error; the end of the list is the end of the body
  (\<^verbatim>\<open>Poll::Ready(None)\<close>), on which it stays. \<^verbatim>\<open>grpc_core::body::Body\<close>
  has statuses as its errors.
\<close>

datatype 'h frame = FData bytes | FTrailers 'h
datatype ('h, 'e) body_ev = BPending | BFrame "'h frame" | BErr 'e
type_synonym ('h, 'e) raw_body = "('h, 'e) body_ev list"
type_synonym 'h body = "('h, 'h status) raw_body"

subsection \<open>The libraries\<close>

text \<open>
  \<^verbatim>\<open>http\<close>: header maps (\<open>hm_...\<close>, a multimap from lower-case names to values),
  the characters a \<^verbatim>\<open>HeaderValue\<close> accepts, and extensions.
  \<^verbatim>\<open>percent_encoding\<close>: the set \<^verbatim>\<open>CONTROLS\<close> and encoding relative to a
  set. \<^verbatim>\<open>base64\<close>, standard alphabet: encoding with (\<open>True\<close>) or without
  padding, decoding with padding indifferent (\<open>True\<close>) or required.
  \<^verbatim>\<open>flate2\<close>, \<^verbatim>\<open>zstd\<close>: whole-buffer compression, an error given by its
  text. The debug renderings are those \<^verbatim>\<open>{:?}\<close> prints, and
  \<open>fmt_utf8_error\<close> the text of a \<^verbatim>\<open>Utf8Error\<close>.
\<close>

record ('h, 'x) ext =
  hm_empty :: 'h
  hm_get_all :: "'h \<Rightarrow> string \<Rightarrow> string list"
  hm_get :: "'h \<Rightarrow> string \<Rightarrow> string option"
  hm_iter :: "'h \<Rightarrow> (string \<times> string) list"
  hm_insert :: "'h \<Rightarrow> string \<Rightarrow> string \<Rightarrow> 'h"
  hm_remove :: "'h \<Rightarrow> string \<Rightarrow> 'h"
  hm_extend :: "'h \<Rightarrow> 'h \<Rightarrow> 'h"
  hv_ok :: "string \<Rightarrow> bool"
  hv_to_str :: "string \<Rightarrow> string option"
  xt_empty :: 'x
  xt_insert_certs :: "'x \<Rightarrow> bytes list \<Rightarrow> 'x"
  xt_get_certs :: "'x \<Rightarrow> bytes list option"
  pct_controls :: "char \<Rightarrow> bool"
  pct_encode :: "(char \<Rightarrow> bool) \<Rightarrow> string \<Rightarrow> string"
  pct_decode :: "string \<Rightarrow> string"
  b64_encode :: "bool \<Rightarrow> bytes \<Rightarrow> string"
  b64_decode :: "bool \<Rightarrow> string \<Rightarrow> bytes option"
  gz_compress :: "bytes \<Rightarrow> string + bytes"
  gz_decompress :: "bytes \<Rightarrow> string + bytes"
  df_compress :: "bytes \<Rightarrow> string + bytes"
  df_decompress :: "bytes \<Rightarrow> string + bytes"
  zs_compress :: "bytes \<Rightarrow> string + bytes"
  zs_decompress :: "bytes \<Rightarrow> string + bytes"
  fmt_str_debug :: "string \<Rightarrow> string"
  fmt_err_debug :: "'h err \<Rightarrow> string"
  fmt_utf8_error :: "string \<Rightarrow> string"

text \<open>
  The documented behaviour of \<^verbatim>\<open>HeaderMap\<close>: \<^verbatim>\<open>get\<close> is the first value
  of a name, \<^verbatim>\<open>iter\<close> yields every value of every name, \<^verbatim>\<open>insert\<close>
  replaces all values of a name by one, \<^verbatim>\<open>remove\<close> drops them all, and
  \<^verbatim>\<open>extend\<close> with another map replaces the values of the names that map has.
\<close>

definition header_laws :: "('h, 'x) ext \<Rightarrow> bool" where
  "header_laws X \<longleftrightarrow>
     (\<forall>k. hm_get_all X (hm_empty X) k = []) \<and>
     (\<forall>m k. hm_get X m k = (case hm_get_all X m k of [] \<Rightarrow> None | v # _ \<Rightarrow> Some v)) \<and>
     (\<forall>m k. map snd (filter (\<lambda>p. fst p = k) (hm_iter X m)) = hm_get_all X m k) \<and>
     (\<forall>m k v k'. hm_get_all X (hm_insert X m k v) k' = (if k' = k then [v] else hm_get_all X m k')) \<and>
     (\<forall>m k k'. hm_get_all X (hm_remove X m k) k' = (if k' = k then [] else hm_get_all X m k')) \<and>
     (\<forall>m n k. hm_get_all X (hm_extend X m n) k
                = (if hm_get_all X n k = [] then hm_get_all X m k else hm_get_all X n k))"

text \<open>
  A \<^verbatim>\<open>HeaderValue\<close> may hold tab and every byte from 32 on but 127;
  \<^verbatim>\<open>to_str\<close> gives its text when it is visible ASCII.
\<close>

definition value_laws :: "('h, 'x) ext \<Rightarrow> bool" where
  "value_laws X \<longleftrightarrow>
     (\<forall>s. (\<forall>c\<in>set s. (of_char c :: nat) = 9 \<or> (32 \<le> (of_char c :: nat) \<and> (of_char c :: nat) \<noteq> 127))
            \<longrightarrow> hv_ok X s) \<and>
     (\<forall>s. hv_to_str X s = (if visible_ascii s then Some s else None))"

text \<open>
  \<^verbatim>\<open>CONTROLS\<close> is the C0 controls and DEL. Encoding relative to a set writes
  every byte of the set, and every byte from 128 on, as a percent sign and two upper-case
  hex digits, and leaves the others; so decoding undoes it when the set holds the percent
  sign.
\<close>

definition percent_laws :: "('h, 'x) ext \<Rightarrow> bool" where
  "percent_laws X \<longleftrightarrow>
     (\<forall>c. pct_controls X c \<longleftrightarrow> (of_char c :: nat) < 32 \<or> (of_char c :: nat) = 127) \<and>
     (\<forall>S s. S (CHR ''%'') \<longrightarrow> pct_decode X (pct_encode X S s) = s) \<and>
     (\<forall>S s. \<forall>c\<in>set (pct_encode X S s).
        (of_char c :: nat) < 128 \<and> (\<not> S c \<or> c \<in> set ''%0123456789ABCDEF''))"

definition base64_laws :: "('h, 'x) ext \<Rightarrow> bool" where
  "base64_laws X \<longleftrightarrow>
     (\<forall>p bs. b64_decode X True (b64_encode X p bs) = Some bs) \<and>
     (\<forall>bs. b64_decode X False (b64_encode X True bs) = Some bs) \<and>
     (\<forall>p bs. \<forall>c\<in>set (b64_encode X p bs). 32 \<le> (of_char c :: nat) \<and> (of_char c :: nat) < 127)"

text \<open>Compression is lossless: what a compressor wrote its decompressor reads back.\<close>

definition compressor_laws :: "('h, 'x) ext \<Rightarrow> bool" where
  "compressor_laws X \<longleftrightarrow>
     (\<forall>bs zs. gz_compress X bs = Inr zs \<longrightarrow> gz_decompress X zs = Inr bs) \<and>
     (\<forall>bs zs. df_compress X bs = Inr zs \<longrightarrow> df_decompress X zs = Inr bs) \<and>
     (\<forall>bs zs. zs_compress X bs = Inr zs \<longrightarrow> zs_decompress X zs = Inr bs)"

text \<open>Extensions hold at most one value of a type; here only the peer's certificates matter.\<close>

definition extension_laws :: "('h, 'x) ext \<Rightarrow> bool" where
  "extension_laws X \<longleftrightarrow>
     xt_get_certs X (xt_empty X) = None \<and> (\<forall>x c. xt_get_certs X (xt_insert_certs X x c) = Some c)"

subsection \<open>Rewriting header maps\<close>

lemma header_lawsD [hdr]:
  assumes "header_laws X"
  shows "hm_get_all X (hm_empty X) k = []"
    and "hm_get_all X (hm_insert X m k v) k' = (if k' = k then [v] else hm_get_all X m k')"
    and "hm_get_all X (hm_remove X m k) k' = (if k' = k then [] else hm_get_all X m k')"
    and "hm_get_all X (hm_extend X m n) k
           = (if hm_get_all X n k = [] then hm_get_all X m k else hm_get_all X n k)"
  using assms unfolding header_laws_def by blast+

lemma hm_get_eq:
  "header_laws X \<Longrightarrow> hm_get X m k = (case hm_get_all X m k of [] \<Rightarrow> None | v # _ \<Rightarrow> Some v)"
  unfolding header_laws_def by blast

lemma hm_iter_values:
  "header_laws X \<Longrightarrow> map snd (filter (\<lambda>p. fst p = k) (hm_iter X m)) = hm_get_all X m k"
  unfolding header_laws_def by blast

lemma hm_get_ops [hdr]:
  assumes "header_laws X"
  shows "hm_get X (hm_empty X) k = None"
    and "hm_get X (hm_insert X m k v) k' = (if k' = k then Some v else hm_get X m k')"
    and "hm_get X (hm_remove X m k) k' = (if k' = k then None else hm_get X m k')"
    and "hm_get X (hm_extend X m n) k
           = (case hm_get X n k of None \<Rightarrow> hm_get X m k | Some v \<Rightarrow> Some v)"
  using assms by (auto simp: hm_get_eq header_lawsD split: list.splits)

lemma hm_iter_in: "header_laws X \<Longrightarrow> (k, v) \<in> set (hm_iter X m) \<longleftrightarrow> v \<in> set (hm_get_all X m k)"
  by (subst hm_iter_values [of X k m, symmetric]) (force simp: image_iff)+

lemma hm_get_None_iff: "header_laws X \<Longrightarrow> hm_get X m k = None \<longleftrightarrow> hm_get_all X m k = []"
  by (simp add: hm_get_eq split: list.splits)

subsection \<open>What the laws give\<close>

lemma percent_roundtrip: "percent_laws X \<Longrightarrow> S (CHR ''%'') \<Longrightarrow> pct_decode X (pct_encode X S s) = s"
  by (simp add: percent_laws_def)

lemma percent_chars:
  "percent_laws X \<Longrightarrow> c \<in> set (pct_encode X S s) \<Longrightarrow>
   (of_char c :: nat) < 128 \<and> (\<not> S c \<or> c \<in> set ''%0123456789ABCDEF'')"
  unfolding percent_laws_def by blast

lemma percent_controls:
  "percent_laws X \<Longrightarrow> pct_controls X c \<longleftrightarrow> (of_char c :: nat) < 32 \<or> (of_char c :: nat) = 127"
  unfolding percent_laws_def by blast

lemma base64_roundtrip:
  assumes "base64_laws X"
  shows "b64_decode X True (b64_encode X p bs) = Some bs"
    and "b64_decode X False (b64_encode X True bs) = Some bs"
  using assms by (simp_all add: base64_laws_def)

lemma base64_chars:
  "base64_laws X \<Longrightarrow> c \<in> set (b64_encode X p bs) \<Longrightarrow> 32 \<le> (of_char c :: nat) \<and> (of_char c :: nat) < 127"
  unfolding base64_laws_def by blast

lemma hv_okI:
  "value_laws X \<Longrightarrow> (\<And>c. c \<in> set s \<Longrightarrow> 32 \<le> (of_char c :: nat) \<and> (of_char c :: nat) \<noteq> 127) \<Longrightarrow> hv_ok X s"
  unfolding value_laws_def by blast

lemma hv_to_str_eq: "value_laws X \<Longrightarrow> hv_to_str X s = (if visible_ascii s then Some s else None)"
  unfolding value_laws_def by blast

end
