(* ===== verification/Reference.thy ===== *)
theory Reference
  imports External
begin

section \<open>A concrete instance of the libraries\<close>

text \<open>
  One record \<open>ref_ext\<close> that satisfies every law the theorems assume of the third-party
  libraries, so that the witnesses can evaluate the model on concrete inputs: header maps as
  association lists, percent encoding, base64 with the standard alphabet, and a compressor
  that stores its input behind a tag byte. It is not a model of code of the repository and
  is not mapped to any.
\<close>

subsection \<open>Header maps as association lists\<close>

type_synonym alist = "(string \<times> string) list"

definition al_get_all :: "alist \<Rightarrow> string \<Rightarrow> string list" where
  "al_get_all m k = map snd (filter (\<lambda>p. fst p = k) m)"

definition al_get :: "alist \<Rightarrow> string \<Rightarrow> string option" where
  "al_get m k = (case al_get_all m k of [] \<Rightarrow> None | v # _ \<Rightarrow> Some v)"

definition al_remove :: "alist \<Rightarrow> string \<Rightarrow> alist" where
  "al_remove m k = filter (\<lambda>p. fst p \<noteq> k) m"

definition al_insert :: "alist \<Rightarrow> string \<Rightarrow> string \<Rightarrow> alist" where
  "al_insert m k v = al_remove m k @ [(k, v)]"

definition al_extend :: "alist \<Rightarrow> alist \<Rightarrow> alist" where
  "al_extend m n = filter (\<lambda>p. fst p \<notin> set (map fst n)) m @ n"

lemma al_get_all_empty_iff: "al_get_all m k = [] \<longleftrightarrow> k \<notin> set (map fst m)"
  by (auto simp: al_get_all_def filter_empty_conv)

lemma al_get_all_append: "al_get_all (m @ n) k = al_get_all m k @ al_get_all n k"
  by (simp add: al_get_all_def)

lemma al_get_all_filter:
  "al_get_all (filter (\<lambda>p. P (fst p)) m) k = (if P k then al_get_all m k else [])"
proof -
  have "filter (\<lambda>p. fst p = k) (filter (\<lambda>p. P (fst p)) m)
      = (if P k then filter (\<lambda>p. fst p = k) m else [])"
    by (induction m) auto
  then show ?thesis by (simp add: al_get_all_def)
qed

lemma al_get_all_extend:
  "al_get_all (al_extend m n) k = (if al_get_all n k = [] then al_get_all m k else al_get_all n k)"
  using al_get_all_filter [of "\<lambda>x. x \<notin> set (map fst n)" m k]
  by (simp add: al_extend_def al_get_all_append) (auto simp: al_get_all_empty_iff)

lemma al_get_all_remove: "al_get_all (al_remove m k) k' = (if k' = k then [] else al_get_all m k')"
  using al_get_all_filter [of "\<lambda>x. x \<noteq> k" m k'] by (simp add: al_remove_def)

lemma al_get_all_insert:
  "al_get_all (al_insert m k v) k' = (if k' = k then [v] else al_get_all m k')"
  by (simp add: al_insert_def al_get_all_append al_get_all_remove) (simp add: al_get_all_def)

subsection \<open>Percent encoding\<close>

definition hex_char :: "nat \<Rightarrow> char" where
  "hex_char n = ''0123456789ABCDEF'' ! n"

definition hex_val :: "char \<Rightarrow> nat option" where
  "hex_val c = (let n = of_char c :: nat in
     if 48 \<le> n \<and> n \<le> 57 then Some (n - 48)
     else if 65 \<le> n \<and> n \<le> 70 then Some (n - 55)
     else if 97 \<le> n \<and> n \<le> 102 then Some (n - 87) else None)"

definition pe_char :: "(char \<Rightarrow> bool) \<Rightarrow> char \<Rightarrow> string" where
  "pe_char S c =
     (if S c \<or> 128 \<le> (of_char c :: nat)
      then [CHR ''%'', hex_char (of_char c div 16), hex_char (of_char c mod 16)] else [c])"

definition pe_encode :: "(char \<Rightarrow> bool) \<Rightarrow> string \<Rightarrow> string" where
  "pe_encode S s = concat (map (pe_char S) s)"

fun pe_decode :: "string \<Rightarrow> string" where
  "pe_decode [] = []"
| "pe_decode (c # s) =
     (if c = CHR ''%'' then
        (case s of
           h # l # r \<Rightarrow>
             (case (hex_val h, hex_val l) of
                (Some x, Some y) \<Rightarrow> char_of (16 * x + y) # pe_decode r
              | _ \<Rightarrow> c # pe_decode s)
         | _ \<Rightarrow> c # pe_decode s)
      else c # pe_decode s)"

lemma less_16_cases: "(n::nat) < 16 \<Longrightarrow> n \<in> {0, 1, 2, 3, 4, 5, 6, 7, 8, 9, 10, 11, 12, 13, 14, 15}"
  by simp presburger

lemma hex_val_char [simp]: "n < 16 \<Longrightarrow> hex_val (hex_char n) = Some n"
  by (drule less_16_cases) (auto simp: hex_val_def hex_char_def)

lemma hex_char_in: "n < 16 \<Longrightarrow> hex_char n \<in> set ''0123456789ABCDEF''"
  by (drule less_16_cases) (auto simp: hex_char_def)

lemma of_char_256: "(of_char c :: nat) < 256"
  by simp

lemma pe_decode_char: "S (CHR ''%'') \<Longrightarrow> pe_decode (pe_char S c @ r) = c # pe_decode r"
proof -
  assume S: "S (CHR ''%'')"
  have "(of_char c :: nat) div 16 < 16" using of_char_256 [of c] by (intro less_mult_imp_div_less) simp
  moreover have "16 * ((of_char c :: nat) div 16) + of_char c mod 16 = of_char c" by simp
  ultimately show ?thesis
    using S by (auto simp: pe_char_def)
qed

lemma pe_decode_encode: "S (CHR ''%'') \<Longrightarrow> pe_decode (pe_encode S s) = s"
  by (induction s) (auto simp: pe_encode_def pe_decode_char)

lemma pe_char_ok:
  assumes "d \<in> set (pe_char S c)"
  shows "(of_char d :: nat) < 128 \<and> (\<not> S d \<or> d \<in> set ''%0123456789ABCDEF'')"
proof -
  have hex: "hex_char n \<in> set ''0123456789ABCDEF''" if "n < 16" for n
    using hex_char_in that by blast
  have div: "(of_char c :: nat) div 16 < 16"
    using of_char_256 [of c] by (intro less_mult_imp_div_less) simp
  have small: "(of_char x :: nat) < 128" if "x \<in> set ''%0123456789ABCDEF''" for x
    using that by auto
  show ?thesis
  proof (cases "S c \<or> 128 \<le> (of_char c :: nat)")
    case True
    then have "d \<in> set ''%0123456789ABCDEF''"
      using assms hex [OF div] hex [of "of_char c mod 16"] by (auto simp: pe_char_def)
    with small show ?thesis by blast
  next
    case False
    with assms show ?thesis by (auto simp: pe_char_def)
  qed
qed

subsection \<open>Base64\<close>

definition b64_char :: "nat \<Rightarrow> char" where
  "b64_char n = (if n < 26 then char_of (65 + n) else if n < 52 then char_of (71 + n)
     else if n < 62 then char_of (n - 4) else if n = 62 then CHR ''+'' else CHR ''/'')"

definition b64_val :: "char \<Rightarrow> nat option" where
  "b64_val c = (let n = of_char c :: nat in
     if 65 \<le> n \<and> n \<le> 90 then Some (n - 65)
     else if 97 \<le> n \<and> n \<le> 122 then Some (n - 71)
     else if 48 \<le> n \<and> n \<le> 57 then Some (n + 4)
     else if n = 43 then Some 62 else if n = 47 then Some 63 else None)"

fun b64_enc :: "bool \<Rightarrow> bytes \<Rightarrow> string" where
  "b64_enc p [] = []"
| "b64_enc p [a] = [b64_char (unat a div 4), b64_char (unat a mod 4 * 16)] @ (if p then ''=='' else [])"
| "b64_enc p [a, b] =
     [b64_char (unat a div 4), b64_char (unat a mod 4 * 16 + unat b div 16), b64_char (unat b mod 16 * 4)]
     @ (if p then ''='' else [])"
| "b64_enc p (a # b # c # r) =
     [b64_char (unat a div 4), b64_char (unat a mod 4 * 16 + unat b div 16),
      b64_char (unat b mod 16 * 4 + unat c div 64), b64_char (unat c mod 64)] @ b64_enc p r"

text \<open>The bytes two, three and four sextets stand for.\<close>

definition sext2 :: "nat \<Rightarrow> nat \<Rightarrow> bytes" where
  "sext2 x y = [of_nat (x * 4 + y div 16)]"

definition sext3 :: "nat \<Rightarrow> nat \<Rightarrow> nat \<Rightarrow> bytes" where
  "sext3 x y z = sext2 x y @ [of_nat (y mod 16 * 16 + z div 4)]"

definition sext4 :: "nat \<Rightarrow> nat \<Rightarrow> nat \<Rightarrow> nat \<Rightarrow> bytes" where
  "sext4 x y z w = sext3 x y z @ [of_nat (z mod 4 * 64 + w)]"

definition b64_one :: "char \<Rightarrow> char \<Rightarrow> bytes option" where
  "b64_one c d = (case (b64_val c, b64_val d) of
     (Some x, Some y) \<Rightarrow> if y mod 16 = 0 then Some (sext2 x y) else None
   | _ \<Rightarrow> None)"

definition b64_two :: "char \<Rightarrow> char \<Rightarrow> char \<Rightarrow> bytes option" where
  "b64_two c d e = (case (b64_val c, b64_val d, b64_val e) of
     (Some x, Some y, Some z) \<Rightarrow>
       if z mod 4 = 0 then Some (sext3 x y z) else None
   | _ \<Rightarrow> None)"

fun b64_dec :: "bool \<Rightarrow> string \<Rightarrow> bytes option" where
  "b64_dec i [] = Some []"
| "b64_dec i [c] = None"
| "b64_dec i [c, d] = (if i then b64_one c d else None)"
| "b64_dec i [c, d, e] = (if i then b64_two c d e else None)"
| "b64_dec i (c # d # e # f # r) =
     (if r = [] \<and> e = CHR ''='' \<and> f = CHR ''='' then b64_one c d
      else if r = [] \<and> f = CHR ''='' then b64_two c d e
      else
        (case (b64_val c, b64_val d, b64_val e, b64_val f) of
           (Some x, Some y, Some z, Some w) \<Rightarrow>
             map_option ((@) (sext4 x y z w)) (b64_dec i r)
         | _ \<Rightarrow> None))"

lemma b64_val_char [simp]: "n < 64 \<Longrightarrow> b64_val (b64_char n) = Some n"
  by (auto simp: b64_val_def b64_char_def Let_def)

lemma b64_char_range: "n < 64 \<Longrightarrow> 43 \<le> (of_char (b64_char n) :: nat) \<and> (of_char (b64_char n) :: nat) < 127"
  by (auto simp: b64_char_def)

lemma b64_char_not_pad: "n < 64 \<Longrightarrow> b64_char n \<noteq> CHR ''=''"
proof
  assume "n < 64" "b64_char n = CHR ''=''"
  then have "b64_val (CHR ''='') = Some n" using b64_val_char by metis
  then show False by (simp add: b64_val_def)
qed

lemma b64_bounds:
  "unat (a :: u8) div 4 < 64" "unat a mod 4 * 16 < 64" "unat a mod 4 * 16 + unat (b :: u8) div 16 < 64"
  "unat b mod 16 * 4 < 64" "unat b mod 16 * 4 + unat (c :: u8) div 64 < 64" "unat c mod 64 < 64"
proof -
  note u = unat_u8_bound
  have m: "unat a mod 4 \<le> 3" "unat b mod 16 \<le> 15" by (simp_all add: less_Suc_eq_le [symmetric])
  have d: "unat b div 16 < 16" "unat c div 64 < 4"
    using u [of b] u [of c] by (simp_all add: div_less_iff_less_mult)
  show "unat a div 4 < 64" using u [of a] by (simp add: div_less_iff_less_mult)
  show "unat a mod 4 * 16 < 64" "unat a mod 4 * 16 + unat b div 16 < 64"
    "unat b mod 16 * 4 < 64" "unat b mod 16 * 4 + unat c div 64 < 64" "unat c mod 64 < 64"
    using m d by simp_all
qed

lemma u8_split:
  fixes a b c :: u8
  shows "of_nat (unat a div 4 * 4 + (unat a mod 4 * 16 + unat b div 16) div 16) = a"
    and "of_nat (unat a div 4 * 4 + (unat a mod 4 * 16) div 16) = a"
    and "of_nat ((unat a mod 4 * 16 + unat b div 16) mod 16 * 16 + (unat b mod 16 * 4 + unat c div 64) div 4) = b"
    and "of_nat ((unat a mod 4 * 16 + unat b div 16) mod 16 * 16 + (unat b mod 16 * 4) div 4) = b"
    and "of_nat ((unat b mod 16 * 4 + unat c div 64) mod 4 * 64 + unat c mod 64) = c"
proof -
  have d: "unat b div 16 < 16" "unat c div 64 < 4"
    using unat_u8_bound [of b] unat_u8_bound [of c] by (simp_all add: div_less_iff_less_mult)
  show "of_nat (unat a div 4 * 4 + (unat a mod 4 * 16 + unat b div 16) div 16) = a"
    using d by (simp add: div_mult_mod_eq)
  show "of_nat (unat a div 4 * 4 + (unat a mod 4 * 16) div 16) = a"
    by (simp add: div_mult_mod_eq)
  show "of_nat ((unat a mod 4 * 16 + unat b div 16) mod 16 * 16 + (unat b mod 16 * 4 + unat c div 64) div 4) = b"
    using d by (simp add: div_mult_mod_eq)
  show "of_nat ((unat a mod 4 * 16 + unat b div 16) mod 16 * 16 + (unat b mod 16 * 4) div 4) = b"
    using d by (simp add: div_mult_mod_eq)
  show "of_nat ((unat b mod 16 * 4 + unat c div 64) mod 4 * 64 + unat c mod 64) = c"
    using d by (simp add: div_mult_mod_eq)
qed

lemma sext_enc:
  "sext4 (unat a div 4) (unat a mod 4 * 16 + unat b div 16) (unat b mod 16 * 4 + unat c div 64)
     (unat c mod 64) = [a, b, c]"
  "sext3 (unat a div 4) (unat a mod 4 * 16 + unat b div 16) (unat b mod 16 * 4) = [a, b]"
  "sext2 (unat a div 4) (unat a mod 4 * 16) = [a]"
  unfolding sext4_def sext3_def sext2_def u8_split by simp_all

lemma b64_dec_enc: "i \<or> p \<Longrightarrow> b64_dec i (b64_enc p bs) = Some bs"
  by (induction p bs rule: b64_enc.induct)
     (auto simp: b64_bounds sext_enc b64_char_not_pad b64_one_def b64_two_def)

definition in_range :: "char \<Rightarrow> bool" where
  "in_range c = (32 \<le> (of_char c :: nat) \<and> (of_char c :: nat) < 127)"

lemma in_range_b64_char [simp]: "n < 64 \<Longrightarrow> in_range (b64_char n)"
  using b64_char_range [of n] by (simp add: in_range_def)

lemma in_range_pad [simp]: "in_range (CHR ''='')"
  by (simp add: in_range_def)

lemma b64_enc_range: "list_all in_range (b64_enc p bs)"
  by (induction p bs rule: b64_enc.induct) (simp_all add: b64_bounds)

subsection \<open>The record\<close>

definition store_compress :: "u8 \<Rightarrow> bytes \<Rightarrow> string + bytes" where
  "store_compress t bs = Inr (t # bs)"

definition store_decompress :: "u8 \<Rightarrow> bytes \<Rightarrow> string + bytes" where
  "store_decompress t bs = (case bs of b # r \<Rightarrow> if b = t then Inr r else Inl ''bad tag'' | [] \<Rightarrow> Inl ''empty'')"

definition ref_ext :: "(alist, bytes list option) ext" where
  "ref_ext = \<lparr>hm_empty = [], hm_get_all = al_get_all, hm_get = al_get, hm_iter = (\<lambda>m. m),
     hm_insert = al_insert, hm_remove = al_remove, hm_extend = al_extend,
     hv_ok = list_all (\<lambda>c. (of_char c :: nat) = 9 \<or> (32 \<le> (of_char c :: nat) \<and> (of_char c :: nat) \<noteq> 127)),
     hv_to_str = (\<lambda>s. if visible_ascii s then Some s else None),
     xt_empty = None, xt_insert_certs = (\<lambda>x c. Some c), xt_get_certs = (\<lambda>x. x),
     pct_controls = (\<lambda>c. (of_char c :: nat) < 32 \<or> (of_char c :: nat) = 127),
     pct_encode = pe_encode, pct_decode = pe_decode, b64_encode = b64_enc, b64_decode = b64_dec,
     gz_compress = store_compress 31, gz_decompress = store_decompress 31,
     df_compress = store_compress 120, df_decompress = store_decompress 120,
     zs_compress = store_compress 40, zs_decompress = store_decompress 40,
     fmt_str_debug = (\<lambda>s. [CHR 0x22] @ s @ [CHR 0x22]), fmt_err_debug = (\<lambda>e. ''error''),
     fmt_utf8_error = (\<lambda>s. ''invalid utf-8 sequence'')\<rparr>"

lemma ref_header_laws [simp]: "header_laws ref_ext"
  by (auto simp: header_laws_def ref_ext_def al_get_def al_get_all_insert al_get_all_remove al_get_all_extend)
     (auto simp: al_get_all_def)

lemma ref_value_laws [simp]: "value_laws ref_ext"
  by (simp add: value_laws_def ref_ext_def list_all_iff)

lemma ref_percent_laws [simp]: "percent_laws ref_ext"
proof -
  have "(of_char d :: nat) < 128 \<and> (\<not> S d \<or> d \<in> set ''%0123456789ABCDEF'')"
    if "d \<in> set (pe_encode S s)" for d S s
  proof -
    from that have "\<exists>c\<in>set s. d \<in> set (pe_char S c)"
      unfolding pe_encode_def set_concat by (simp only: set_map) blast
    then show ?thesis using pe_char_ok by blast
  qed
  note chars = this
  have ops: "pct_encode ref_ext = pe_encode" "pct_decode ref_ext = pe_decode"
    "pct_controls ref_ext = (\<lambda>c. (of_char c :: nat) < 32 \<or> (of_char c :: nat) = 127)"
    by (simp_all add: ref_ext_def)
  show ?thesis
    unfolding percent_laws_def ops
    by (intro conjI allI impI ballI refl pe_decode_encode) (use chars in blast)+
qed

lemma ref_base64_laws [simp]: "base64_laws ref_ext"
  using b64_enc_range by (auto simp: base64_laws_def ref_ext_def b64_dec_enc list_all_iff in_range_def)

lemma ref_compressor_laws [simp]: "compressor_laws ref_ext"
  by (auto simp: compressor_laws_def ref_ext_def store_compress_def store_decompress_def)

lemma ref_extension_laws [simp]: "extension_laws ref_ext"
  by (simp add: extension_laws_def ref_ext_def)

text \<open>The evaluation rules the witnesses use.\<close>

lemma ref_ops:
  "hm_empty ref_ext = []" "hm_get_all ref_ext = al_get_all" "hm_get ref_ext = al_get"
  "hm_iter ref_ext = (\<lambda>m. m)" "hm_insert ref_ext = al_insert" "hm_remove ref_ext = al_remove"
  "hm_extend ref_ext = al_extend"
  "hv_to_str ref_ext = (\<lambda>s. if visible_ascii s then Some s else None)"
  "hv_ok ref_ext = list_all (\<lambda>c. (of_char c :: nat) = 9 \<or> (32 \<le> (of_char c :: nat) \<and> (of_char c :: nat) \<noteq> 127))"
  "xt_empty ref_ext = None" "xt_insert_certs ref_ext = (\<lambda>x c. Some c)" "xt_get_certs ref_ext = (\<lambda>x. x)"
  "b64_encode ref_ext = b64_enc" "b64_decode ref_ext = b64_dec"
  "gz_compress ref_ext = store_compress 31" "gz_decompress ref_ext = store_decompress 31"
  "df_compress ref_ext = store_compress 120" "df_decompress ref_ext = store_decompress 120"
  "zs_compress ref_ext = store_compress 40" "zs_decompress ref_ext = store_decompress 40"
  by (simp_all add: ref_ext_def)

lemmas ref_eval = ref_ops al_get_def al_get_all_def al_insert_def al_remove_def al_extend_def
  visible_ascii_def store_compress_def store_decompress_def

end
