(* ===== verification/Metadata.thy ===== *)
theory Metadata
  imports External Reference
begin

section \<open>gRPC metadata\<close>

text \<open>
  \<^verbatim>\<open>grpc-core/src/metadata.rs\<close>: \<^verbatim>\<open>MetadataMap\<close> is a header map with
  gRPC-specific operations; the model works on the header map itself. The lemmas say which
  headers survive sanitizing and what \<^verbatim>\<open>merge\<close> keeps.
\<close>

definition GRPC_CONTENT_TYPE :: string where
  "GRPC_CONTENT_TYPE = ''application/grpc''"

definition GRPC_TIMEOUT_HEADER :: string where
  "GRPC_TIMEOUT_HEADER = ''grpc-timeout''"

definition GRPC_RESERVED_HEADERS :: "string list" where
  "GRPC_RESERVED_HEADERS =
     [''te'', ''content-type'', ''grpc-message'', ''grpc-message-type'', ''grpc-status'',
      ''grpc-status-details-bin'', ''grpc-encoding'', ''grpc-accept-encoding'']"

definition metadata_new :: "('h, 'x) ext \<Rightarrow> 'h" where
  "metadata_new X = hm_empty X"

text \<open>The loops over the reserved names and over the entries of the map.\<close>

definition into_sanitized_headers :: "('h, 'x) ext \<Rightarrow> 'h \<Rightarrow> 'h" where
  "into_sanitized_headers X md = foldl (hm_remove X) md GRPC_RESERVED_HEADERS"

definition extend_sanitized_into :: "('h, 'x) ext \<Rightarrow> 'h \<Rightarrow> 'h \<Rightarrow> 'h" where
  "extend_sanitized_into X md target =
     foldl (\<lambda>t (key, val). if key \<in> set GRPC_RESERVED_HEADERS then t else hm_insert X t key val)
       target (hm_iter X md)"

definition metadata_len :: "('h, 'x) ext \<Rightarrow> 'h \<Rightarrow> nat" where
  "metadata_len X md = length (hm_iter X md)"

definition metadata_is_empty :: "('h, 'x) ext \<Rightarrow> 'h \<Rightarrow> bool" where
  "metadata_is_empty X md \<longleftrightarrow> hm_iter X md = []"

definition metadata_insert :: "('h, 'x) ext \<Rightarrow> 'h \<Rightarrow> string \<Rightarrow> string \<Rightarrow> 'h \<times> string option" where
  "metadata_insert X md k v = (hm_insert X md k v, hm_get X md k)"

definition metadata_get :: "('h, 'x) ext \<Rightarrow> 'h \<Rightarrow> string \<Rightarrow> string option" where
  "metadata_get X md k = hm_get X md k"

definition metadata_remove :: "('h, 'x) ext \<Rightarrow> 'h \<Rightarrow> string \<Rightarrow> 'h \<times> string option" where
  "metadata_remove X md k = (hm_remove X md k, hm_get X md k)"

definition metadata_contains_key :: "('h, 'x) ext \<Rightarrow> 'h \<Rightarrow> string \<Rightarrow> bool" where
  "metadata_contains_key X md k = (hm_get X md k \<noteq> None)"

definition metadata_merge :: "('h, 'x) ext \<Rightarrow> 'h \<Rightarrow> 'h \<Rightarrow> 'h" where
  "metadata_merge X md other = hm_extend X md other"

subsection \<open>Copying the entries of a map one by one\<close>

text \<open>
  Both loops over \<^verbatim>\<open>iter()\<close> in the crate (here and in
  \<^verbatim>\<open>Status::from_header_map\<close>) insert the entries that pass a test into
  another map. Since \<^verbatim>\<open>insert\<close> replaces, only the last value of a name survives.
\<close>

definition copy_entries :: "('h, 'x) ext \<Rightarrow> (string \<Rightarrow> bool) \<Rightarrow> 'h \<Rightarrow> (string \<times> string) list \<Rightarrow> 'h" where
  "copy_entries X keep target kvs =
     foldl (\<lambda>t (key, val). if keep key then hm_insert X t key val else t) target kvs"

lemma copy_entries_Nil [simp]: "copy_entries X keep t [] = t"
  by (simp add: copy_entries_def)

lemma copy_entries_Cons [simp]:
  "copy_entries X keep t ((k, v) # kvs)
     = copy_entries X keep (if keep k then hm_insert X t k v else t) kvs"
  by (simp add: copy_entries_def)

lemma copy_entries_get_all:
  assumes "header_laws X"
  shows "hm_get_all X (copy_entries X keep t kvs) k =
    (let vs = map snd (filter (\<lambda>p. fst p = k) kvs)
     in if keep k \<and> vs \<noteq> [] then [last vs] else hm_get_all X t k)"
proof (induction kvs arbitrary: t)
  case Nil
  then show ?case by simp
next
  case (Cons p kvs)
  obtain k' v where p: "p = (k', v)" by (cases p)
  show ?case
    by (auto simp: p Cons.IH header_lawsD [OF assms] Let_def)
qed

lemma copy_iter_get_all [hdr]:
  assumes "header_laws X"
  shows "hm_get_all X (copy_entries X keep t (hm_iter X m)) k =
    (if keep k \<and> hm_get_all X m k \<noteq> [] then [last (hm_get_all X m k)] else hm_get_all X t k)"
  by (simp add: copy_entries_get_all assms hm_iter_values Let_def)

lemma copy_iter_get [hdr]:
  assumes "header_laws X"
  shows "hm_get X (copy_entries X keep t (hm_iter X m)) k =
    (if keep k \<and> hm_get_all X m k \<noteq> [] then Some (last (hm_get_all X m k)) else hm_get X t k)"
  by (simp add: hm_get_eq [OF assms] copy_iter_get_all [OF assms])

lemma extend_sanitized_copy:
  "extend_sanitized_into X md target
     = copy_entries X (\<lambda>k. k \<notin> set GRPC_RESERVED_HEADERS) target (hm_iter X md)"
proof -
  have "(\<lambda>t (key, val). if key \<in> R then t else hm_insert X t key val)
      = (\<lambda>t (key, val). if key \<notin> R then hm_insert X t key val else t)" for R
    by (auto simp: fun_eq_iff)
  then show ?thesis by (simp add: extend_sanitized_into_def copy_entries_def)
qed

lemma remove_all_get_all:
  "header_laws X \<Longrightarrow>
   hm_get_all X (foldl (hm_remove X) md ks) k = (if k \<in> set ks then [] else hm_get_all X md k)"
  by (induction ks arbitrary: md) (auto simp: hdr)

lemma sanitized_get [hdr]:
  assumes "header_laws X"
  shows "hm_get X (into_sanitized_headers X md) k
    = (if k \<in> set GRPC_RESERVED_HEADERS then None else hm_get X md k)"
  using assms by (simp add: hm_get_eq into_sanitized_headers_def remove_all_get_all)

subsection \<open>Properties\<close>

text \<open>
  Sanitizing strips exactly the headers the protocol reserves: after
  \<^verbatim>\<open>into_sanitized_headers\<close> a reserved name has no value, and every other name
  keeps all its values in their order.
\<close>

theorem sanitized_headers_exact:
  assumes "header_laws X"
  shows "hm_get_all X (into_sanitized_headers X md) k
    = (if k \<in> set GRPC_RESERVED_HEADERS then [] else hm_get_all X md k)"
  using assms by (simp add: into_sanitized_headers_def remove_all_get_all)

theorem sanitized_headers_exact_witness:
  "hm_get_all ref_ext (into_sanitized_headers ref_ext [(''te'', ''x''), (''x-a'', ''1''), (''x-a'', ''2'')]) ''x-a''
     = [''1'', ''2'']"
  by (simp add: sanitized_headers_exact [OF ref_header_laws] GRPC_RESERVED_HEADERS_def)
     (simp add: ref_ext_def al_get_all_def)

text \<open>
  \<^verbatim>\<open>extend_sanitized_into\<close> never writes a reserved name of the target, and
  for every other name of the metadata it leaves exactly one value, the last: the earlier
  values of a repeated metadata key are lost, and names the metadata does not have are
  untouched.
\<close>

theorem extend_sanitized_last_value:
  assumes "header_laws X"
  shows "hm_get_all X (extend_sanitized_into X md target) k =
    (if k \<in> set GRPC_RESERVED_HEADERS \<or> hm_get_all X md k = [] then hm_get_all X target k
     else [last (hm_get_all X md k)])"
  using assms by (simp add: extend_sanitized_copy copy_iter_get_all)

theorem extend_sanitized_last_value_witness:
  "hm_get_all ref_ext (extend_sanitized_into ref_ext [(''te'', ''x''), (''x-a'', ''1''), (''x-a'', ''2'')] []) ''x-a''
     = [''2'']"
  by (simp add: extend_sanitized_last_value [OF ref_header_laws] GRPC_RESERVED_HEADERS_def)
     (simp add: ref_ext_def al_get_all_def)

end
