(* ===== verification/Status.thy ===== *)
theory Status
  imports Metadata Reference
begin

section \<open>Statuses\<close>

text \<open>
  \<^verbatim>\<open>grpc-core/src/status.rs\<close>: the table of codes, the constructors, the two
  directions between a status and the headers that carry it, the conversion of errors into
  statuses, and the status inferred for a response without one. The lemmas show that the
  table is consistent, that a status survives the trip through headers, that writing it
  never fails, and which status an error or an HTTP response becomes.
\<close>

subsection \<open>Codes\<close>

text \<open>
  The rows of \<^verbatim>\<open>define_codes!\<close>: variant, number, the bytes of the header value,
  description. The functions below are the ones the macro generates, each a first-match
  search of the table as the generated \<^verbatim>\<open>match\<close> is.
\<close>

definition code_table :: "(code \<times> nat \<times> string \<times> string) list" where
  "code_table =
     [(Ok, 0, ''0'', ''The operation completed successfully''),
      (Cancelled, 1, ''1'', ''The operation was cancelled''),
      (Unknown, 2, ''2'', ''Unknown error''),
      (InvalidArgument, 3, ''3'', ''Client specified an invalid argument''),
      (DeadlineExceeded, 4, ''4'', ''Deadline expired before operation could complete''),
      (NotFound, 5, ''5'', ''Some requested entity was not found''),
      (AlreadyExists, 6, ''6'', ''Some entity that we attempted to create already exists''),
      (PermissionDenied, 7, ''7'', ''The caller does not have permission to execute the specified operation''),
      (ResourceExhausted, 8, ''8'', ''Some resource has been exhausted''),
      (FailedPrecondition, 9, ''9'', ''The system is not in a state required for the operation'' @ [CHR 0x27] @ ''s execution''),
      (Aborted, 10, ''10'', ''The operation was aborted''),
      (OutOfRange, 11, ''11'', ''Operation was attempted past the valid range''),
      (Unimplemented, 12, ''12'', ''Operation is not implemented or not supported''),
      (Internal, 13, ''13'', ''Internal error''),
      (Unavailable, 14, ''14'', ''The service is currently unavailable''),
      (DataLoss, 15, ''15'', ''Unrecoverable data loss or corruption''),
      (Unauthenticated, 16, ''16'', ''The request does not have valid authentication credentials'')]"

definition code_from_i32 :: "int \<Rightarrow> code" where
  "code_from_i32 i =
     (case find (\<lambda>(c, n, s, d). int n = i) code_table of Some (c, _) \<Rightarrow> c | None \<Rightarrow> Unknown)"

definition code_from_bytes :: "string \<Rightarrow> code" where
  "code_from_bytes b =
     (case find (\<lambda>(c, n, s, d). s = b) code_table of Some (c, _) \<Rightarrow> c | None \<Rightarrow> Unknown)"

definition code_num :: "code \<Rightarrow> nat" where
  "code_num c = (case find (\<lambda>(c', n, s, d). c' = c) code_table of Some (_, n, _, _) \<Rightarrow> n | None \<Rightarrow> 0)"

definition code_description :: "code \<Rightarrow> string" where
  "code_description c = (case find (\<lambda>(c', n, s, d). c' = c) code_table of Some (_, _, _, d) \<Rightarrow> d | None \<Rightarrow> [])"

text \<open>\<^verbatim>\<open>stringify!($num)\<close>: the number as the table's source text writes it.\<close>

definition to_header_value :: "code \<Rightarrow> string" where
  "to_header_value c = show_nat (code_num c)"

lemma code_num_simps [simp]:
  "code_num Ok = 0" "code_num Cancelled = 1" "code_num Unknown = 2" "code_num InvalidArgument = 3"
  "code_num DeadlineExceeded = 4" "code_num NotFound = 5" "code_num AlreadyExists = 6"
  "code_num PermissionDenied = 7" "code_num ResourceExhausted = 8" "code_num FailedPrecondition = 9"
  "code_num Aborted = 10" "code_num OutOfRange = 11" "code_num Unimplemented = 12"
  "code_num Internal = 13" "code_num Unavailable = 14" "code_num DataLoss = 15"
  "code_num Unauthenticated = 16"
  by (simp_all add: code_num_def code_table_def)

lemma to_header_value_simps [simp]:
  "to_header_value Ok = ''0''" "to_header_value Cancelled = ''1''" "to_header_value Unknown = ''2''"
  "to_header_value InvalidArgument = ''3''" "to_header_value DeadlineExceeded = ''4''"
  "to_header_value NotFound = ''5''" "to_header_value AlreadyExists = ''6''"
  "to_header_value PermissionDenied = ''7''" "to_header_value ResourceExhausted = ''8''"
  "to_header_value FailedPrecondition = ''9''" "to_header_value Aborted = ''10''"
  "to_header_value OutOfRange = ''11''" "to_header_value Unimplemented = ''12''"
  "to_header_value Internal = ''13''" "to_header_value Unavailable = ''14''"
  "to_header_value DataLoss = ''15''" "to_header_value Unauthenticated = ''16''"
  by (simp_all add: to_header_value_def show_nat.simps digit_char_def)

lemma code_from_bytes_header_value: "code_from_bytes (to_header_value c) = c"
  by (cases c) (simp_all add: code_from_bytes_def code_table_def)

lemma code_from_i32_num: "code_from_i32 (int (code_num c)) = c"
  by (cases c) (simp_all add: code_from_i32_def code_table_def)

interpretation code_header: codec_pair to_header_value "\<lambda>b. Some (code_from_bytes b)"
  by unfold_locales (simp add: code_from_bytes_header_value)

interpretation code_i32: codec_pair code_num "\<lambda>n. Some (code_from_i32 (int n))"
  by unfold_locales (simp add: code_from_i32_num)

subsection \<open>Constructors and accessors\<close>

definition GRPC_STATUS :: string where "GRPC_STATUS = ''grpc-status''"
definition GRPC_MESSAGE :: string where "GRPC_MESSAGE = ''grpc-message''"
definition GRPC_STATUS_DETAILS :: string where "GRPC_STATUS_DETAILS = ''grpc-status-details-bin''"

definition with_details_and_metadata :: "code \<Rightarrow> string \<Rightarrow> bytes \<Rightarrow> 'h \<Rightarrow> 'h status" where
  "with_details_and_metadata c m d md = Status c m d md None"

definition status_new :: "('h, 'x) ext \<Rightarrow> code \<Rightarrow> string \<Rightarrow> 'h status" where
  "status_new X c m = Status c m [] (metadata_new X) None"

definition with_details :: "('h, 'x) ext \<Rightarrow> code \<Rightarrow> string \<Rightarrow> bytes \<Rightarrow> 'h status" where
  "with_details X c m d = with_details_and_metadata c m d (metadata_new X)"

definition with_metadata :: "code \<Rightarrow> string \<Rightarrow> 'h \<Rightarrow> 'h status" where
  "with_metadata c m md = with_details_and_metadata c m [] md"

definition set_metadata :: "'h status \<Rightarrow> 'h \<Rightarrow> 'h status" where
  "set_metadata st md = Status (st_code st) (st_message st) (st_details st) md (st_source st)"

definition set_source :: "'h status \<Rightarrow> 'h err \<Rightarrow> 'h status" where
  "set_source st e = Status (st_code st) (st_message st) (st_details st) (st_metadata st) (Some e)"

lemma status_new_sel [simp]:
  "st_code (status_new X c m) = c" "st_message (status_new X c m) = m"
  "st_details (status_new X c m) = []" "st_source (status_new X c m) = None"
  "st_metadata (status_new X c m) = hm_empty X"
  by (simp_all add: status_new_def metadata_new_def)

lemma set_metadata_sel [simp]:
  "st_code (set_metadata st md) = st_code st" "st_message (set_metadata st md) = st_message st"
  "st_details (set_metadata st md) = st_details st" "st_metadata (set_metadata st md) = md"
  by (simp_all add: set_metadata_def)

text \<open>\<^verbatim>\<open>Display for Status\<close>.\<close>

definition code_display :: "code \<Rightarrow> string" where
  "code_display c = code_description c"

definition status_display :: "('h, 'x) ext \<Rightarrow> 'h status \<Rightarrow> string" where
  "status_display X st =
     ''code: '' @ [CHR 0x27] @ code_description (st_code st) @ [CHR 0x27]
     @ (if st_message st \<noteq> [] then '', message: '' @ fmt_str_debug X (st_message st) else [])
     @ (case st_source st of Some e \<Rightarrow> '', source: '' @ fmt_err_debug X e | None \<Rightarrow> [])"

subsection \<open>Reading a status from headers\<close>

text \<open>\<^verbatim>\<open>decode_utf8\<close> of a percent-decoded value.\<close>

definition decode_utf8 :: "('h, 'x) ext \<Rightarrow> string \<Rightarrow> string + string" where
  "decode_utf8 X s = (if utf8_valid s then Inr s else Inl (fmt_utf8_error X s))"

definition status_header :: "string \<Rightarrow> bool" where
  "status_header k = (k = GRPC_STATUS \<or> k = GRPC_MESSAGE \<or> k = GRPC_STATUS_DETAILS)"

definition from_header_map :: "('h, 'x) ext \<Rightarrow> 'h \<Rightarrow> 'h status option" where
  "from_header_map X hm =
     (case hm_get X hm GRPC_STATUS of
        None \<Rightarrow> None
      | Some sv \<Rightarrow>
          (let c = code_from_bytes sv;
               error_message =
                 (case hm_get X hm GRPC_MESSAGE of
                    Some h \<Rightarrow> decode_utf8 X (pct_decode X h)
                  | None \<Rightarrow> Inr []);
               details =
                 (case hm_get X hm GRPC_STATUS_DETAILS of
                    Some h \<Rightarrow> b64_decode X True h
                  | None \<Rightarrow> Some [])
           in case details of
                None \<Rightarrow>
                  Some (status_new X Internal ''invalid base64 in grpc-status-details-bin header'')
              | Some d \<Rightarrow>
                  (let other_headers =
                         copy_entries X (\<lambda>k. \<not> status_header k) (hm_empty X) (hm_iter X hm);
                       message =
                         (case error_message of
                            Inr m \<Rightarrow> m
                          | Inl e \<Rightarrow> ''Error deserializing status message header: '' @ e)
                   in Some (with_details_and_metadata c message d other_headers))))"

subsection \<open>Writing a status to headers\<close>

text \<open>
  \<^verbatim>\<open>add_header\<close> mutates the map in place, so the map it leaves behind on an error is
  part of its result. The values are checked by \<^verbatim>\<open>HeaderValue::from_maybe_shared\<close>.
\<close>

definition ENCODING_SET :: "('h, 'x) ext \<Rightarrow> char \<Rightarrow> bool" where
  "ENCODING_SET X c =
     (pct_controls X c \<or> c \<in> set [CHR '' '', CHR 0x22, CHR ''#'', CHR ''%'', CHR ''<'', CHR ''>'',
                                 CHR 0x60, CHR ''?'', CHR ''{'', CHR ''}''])"

definition add_header :: "('h, 'x) ext \<Rightarrow> 'h status \<Rightarrow> 'h \<Rightarrow> 'h \<times> ('h status + unit)" where
  "add_header X st hm =
     (let hm1 = extend_sanitized_into X (st_metadata st) hm;
          hm2 = hm_insert X hm1 GRPC_STATUS (to_header_value (st_code st));
          enc_msg = pct_encode X (ENCODING_SET X) (st_message st);
          enc_det = b64_encode X False (st_details st)
      in if st_message st \<noteq> [] \<and> \<not> hv_ok X enc_msg
         then (hm2, Inl (status_new X Internal ''invalid grpc-message header value''))
         else
           (let hm3 = (if st_message st \<noteq> [] then hm_insert X hm2 GRPC_MESSAGE enc_msg else hm2)
            in if st_details st \<noteq> [] \<and> \<not> hv_ok X enc_det
               then (hm3, Inl (status_new X Internal ''invalid grpc-status-details-bin value''))
               else ((if st_details st \<noteq> [] then hm_insert X hm3 GRPC_STATUS_DETAILS enc_det else hm3),
                     Inr ())))"

definition to_header_map :: "('h, 'x) ext \<Rightarrow> 'h status \<Rightarrow> 'h status + 'h" where
  "to_header_map X st =
     (case add_header X st (hm_empty X) of (hm, Inr _) \<Rightarrow> Inr hm | (hm, Inl e) \<Rightarrow> Inl e)"

text \<open>\<^verbatim>\<open>http::Response::new(body)\<close>: status 200, HTTP/1.1, no headers.\<close>

definition http_response_new :: "('h, 'x) ext \<Rightarrow> 'b \<Rightarrow> ('h, 'x, 'b) http_response" where
  "http_response_new X b =
     \<lparr>hp_status = 200, hp_version = Http11, hp_headers = hm_empty X, hp_extensions = xt_empty X,
      hp_body = b\<rparr>"

definition status_into_http :: "('h, 'x) ext \<Rightarrow> 'b \<Rightarrow> 'h status \<Rightarrow> ('h, 'x, 'b) http_response" where
  "status_into_http X dflt st =
     (let response = http_response_new X dflt;
          h0 = hm_insert X (hp_headers response) ''content-type'' GRPC_CONTENT_TYPE
      in case add_header X st h0 of
           (h1, Inr _) \<Rightarrow> response\<lparr>hp_headers := h1\<rparr>
         | (h1, Inl fallback) \<Rightarrow>
             response\<lparr>hp_headers := hm_insert X h1 GRPC_STATUS (to_header_value (st_code fallback))\<rparr>)"

subsection \<open>Statuses from errors\<close>

definition io_kind_code :: "io_kind \<Rightarrow> code" where
  "io_kind_code k =
     (case k of
        IoBrokenPipe \<Rightarrow> Internal | IoWouldBlock \<Rightarrow> Internal
      | IoWriteZero \<Rightarrow> Internal | IoInterrupted \<Rightarrow> Internal
      | IoConnectionRefused \<Rightarrow> Unavailable | IoConnectionReset \<Rightarrow> Unavailable
      | IoNotConnected \<Rightarrow> Unavailable | IoAddrInUse \<Rightarrow> Unavailable
      | IoAddrNotAvailable \<Rightarrow> Unavailable
      | IoAlreadyExists \<Rightarrow> AlreadyExists
      | IoConnectionAborted \<Rightarrow> Aborted
      | IoInvalidData \<Rightarrow> DataLoss
      | IoInvalidInput \<Rightarrow> InvalidArgument
      | IoNotFound \<Rightarrow> NotFound
      | IoPermissionDenied \<Rightarrow> PermissionDenied
      | IoTimedOut \<Rightarrow> DeadlineExceeded
      | IoUnexpectedEof \<Rightarrow> OutOfRange
      | IoOther \<Rightarrow> Unknown)"

definition status_from_io :: "('h, 'x) ext \<Rightarrow> io_kind \<Rightarrow> string \<Rightarrow> 'h status" where
  "status_from_io X k msg = status_new X (io_kind_code k) msg"

text \<open>\<^verbatim>\<open>to_string()\<close> of an error.\<close>

fun err_text :: "('h, 'x) ext \<Rightarrow> 'h err \<Rightarrow> string" where
  "err_text X (EStatus st) = status_display X st"
| "err_text X (EIo k s src) = s"
| "err_text X (EOther s src) = s"

fun find_status_in_source_chain :: "('h, 'x) ext \<Rightarrow> 'h err \<Rightarrow> 'h status option" where
  "find_status_in_source_chain X (EStatus st) = Some (status_new X (st_code st) (st_message st))"
| "find_status_in_source_chain X (EIo k s src) = Some (status_from_io X k s)"
| "find_status_in_source_chain X (EOther s None) = None"
| "find_status_in_source_chain X (EOther s (Some e)) = find_status_in_source_chain X e"

definition from_error :: "('h, 'x) ext \<Rightarrow> 'h err \<Rightarrow> 'h status" where
  "from_error X e =
     (case e of
        EStatus st \<Rightarrow> st
      | _ \<Rightarrow>
          (case find_status_in_source_chain X e of
             Some st \<Rightarrow> st
           | None \<Rightarrow> set_source (status_new X Unknown (err_text X e)) e))"

definition map_error :: "('h, 'x) ext \<Rightarrow> 'h err \<Rightarrow> 'h status" where
  "map_error X e = from_error X e"

text \<open>
  The specification of the walk: the errors of a chain are the error and its sources, in
  order; the first status or I/O error decides.
\<close>

fun source_chain :: "'h err \<Rightarrow> 'h err list" where
  "source_chain (EStatus st) = [EStatus st]"
| "source_chain (EIo k s src) = [EIo k s src]"
| "source_chain (EOther s None) = [EOther s None]"
| "source_chain (EOther s (Some e)) = EOther s (Some e) # source_chain e"

fun recognised :: "('h, 'x) ext \<Rightarrow> 'h err \<Rightarrow> 'h status option" where
  "recognised X (EStatus st) = Some (status_new X (st_code st) (st_message st))"
| "recognised X (EIo k s src) = Some (status_new X (io_kind_code k) s)"
| "recognised X (EOther s src) = None"

lemma find_status_chain:
  "find_status_in_source_chain X e =
     (case List.map_filter (recognised X) (source_chain e) of [] \<Rightarrow> None | st # _ \<Rightarrow> Some st)"
  by (induction X e rule: find_status_in_source_chain.induct)
     (simp_all add: List.map_filter_def status_from_io_def)

subsection \<open>The status of a response without one\<close>

text \<open>\<^verbatim>\<open>Result<(), Option<Status>>\<close>; \<open>Inl None\<close> is \<^verbatim>\<open>Err(None)\<close>.\<close>

definition http_status_code :: "nat \<Rightarrow> code" where
  "http_status_code n =
     (if n = 400 then Internal
      else if n = 401 then Unauthenticated
      else if n = 403 then PermissionDenied
      else if n = 404 then NotFound
      else if n = 429 \<or> n = 502 \<or> n = 503 \<or> n = 504 then Unavailable
      else Unknown)"

definition infer_grpc_status :: "('h, 'x) ext \<Rightarrow> 'h option \<Rightarrow> nat \<Rightarrow> ('h status option) + unit" where
  "infer_grpc_status X trailers status_code =
     (case (case trailers of Some t \<Rightarrow> from_header_map X t | None \<Rightarrow> None) of
        Some st \<Rightarrow> if st_code st = Ok then Inr () else Inl (Some st)
      | None \<Rightarrow>
          if status_code = 200 then Inl None
          else Inl (Some (status_new X (http_status_code status_code)
                 (''grpc-status header missing, mapped from HTTP status code '' @ show_nat status_code))))"

subsection \<open>Header values are always well formed\<close>

lemma encoding_set_percent: "ENCODING_SET X (CHR ''%'')"
  by (simp add: ENCODING_SET_def)

lemma message_value_ok:
  assumes "value_laws X" "percent_laws X"
  shows "hv_ok X (pct_encode X (ENCODING_SET X) s)"
proof (rule hv_okI [OF assms(1)])
  fix c assume c: "c \<in> set (pct_encode X (ENCODING_SET X) s)"
  show "32 \<le> (of_char c :: nat) \<and> (of_char c :: nat) \<noteq> 127"
  proof (cases "ENCODING_SET X c")
    case False
    then show ?thesis by (simp add: ENCODING_SET_def percent_controls [OF assms(2)])
  next
    case True
    then show ?thesis using percent_chars [OF assms(2) c] by auto
  qed
qed

lemma details_value_ok: "value_laws X \<Longrightarrow> base64_laws X \<Longrightarrow> hv_ok X (b64_encode X p d)"
  by (erule hv_okI) (metis base64_chars nat_neq_iff)

lemmas status_names = GRPC_STATUS_def GRPC_MESSAGE_def GRPC_STATUS_DETAILS_def

lemma status_header_reserved: "status_header k \<Longrightarrow> k \<in> set GRPC_RESERVED_HEADERS"
  by (auto simp: status_header_def status_names GRPC_RESERVED_HEADERS_def)

text \<open>What \<^verbatim>\<open>add_header\<close> leaves for each name.\<close>

lemma add_header_Inr:
  assumes "value_laws X" "percent_laws X" "base64_laws X"
  shows "snd (add_header X st hm) = Inr ()"
  using message_value_ok [OF assms(1,2)] details_value_ok [OF assms(1,3)]
  by (simp add: add_header_def Let_def)

lemma add_header_get_all:
  assumes "header_laws X" "value_laws X" "percent_laws X" "base64_laws X"
  shows "hm_get_all X (fst (add_header X st hm)) k =
    (if k = GRPC_STATUS then [to_header_value (st_code st)]
     else if k = GRPC_MESSAGE \<and> st_message st \<noteq> [] then [pct_encode X (ENCODING_SET X) (st_message st)]
     else if k = GRPC_STATUS_DETAILS \<and> st_details st \<noteq> [] then [b64_encode X False (st_details st)]
     else if k \<in> set GRPC_RESERVED_HEADERS \<or> hm_get_all X (st_metadata st) k = [] then hm_get_all X hm k
     else [last (hm_get_all X (st_metadata st) k)])"
proof -
  have ne: "GRPC_STATUS \<noteq> GRPC_MESSAGE" "GRPC_STATUS \<noteq> GRPC_STATUS_DETAILS"
    "GRPC_MESSAGE \<noteq> GRPC_STATUS_DETAILS"
    by (simp_all add: status_names)
  have ext: "hm_get_all X (extend_sanitized_into X (st_metadata st) hm) k =
    (if k \<in> set GRPC_RESERVED_HEADERS \<or> hm_get_all X (st_metadata st) k = [] then hm_get_all X hm k
     else [last (hm_get_all X (st_metadata st) k)])" for k
    using assms(1) by (simp add: extend_sanitized_copy copy_iter_get_all)
  show ?thesis
    using ne message_value_ok [OF assms(2,3)] details_value_ok [OF assms(2,4)]
    by (simp add: add_header_def Let_def header_lawsD [OF assms(1)] ext)
qed

lemma to_header_map_Inr:
  assumes "value_laws X" "percent_laws X" "base64_laws X"
  shows "to_header_map X st = Inr (fst (add_header X st (hm_empty X)))"
  using add_header_Inr [OF assms, of st "hm_empty X"]
  by (cases "add_header X st (hm_empty X)") (simp add: to_header_map_def)

lemma status_headers_read:
  assumes "header_laws X" "value_laws X" "percent_laws X" "base64_laws X"
    and "utf8_valid (st_message st)"
  shows "\<exists>st'. to_header_map X st = Inr (fst (add_header X st (hm_empty X))) \<and>
    from_header_map X (fst (add_header X st (hm_empty X))) = Some st' \<and>
    st_code st' = st_code st \<and> st_message st' = st_message st \<and> st_details st' = st_details st \<and>
    st_source st' = None \<and>
    (\<forall>k. hm_get_all X (st_metadata st') k =
      (if k \<in> set GRPC_RESERVED_HEADERS \<or> hm_get_all X (st_metadata st) k = [] then []
       else [last (hm_get_all X (st_metadata st) k)]))"
proof -
  define hm where "hm = fst (add_header X st (hm_empty X))"
  have w: "to_header_map X st = Inr hm"
    by (simp add: hm_def to_header_map_Inr assms)
  have ga: "hm_get_all X hm k =
    (if k = GRPC_STATUS then [to_header_value (st_code st)]
     else if k = GRPC_MESSAGE \<and> st_message st \<noteq> [] then [pct_encode X (ENCODING_SET X) (st_message st)]
     else if k = GRPC_STATUS_DETAILS \<and> st_details st \<noteq> [] then [b64_encode X False (st_details st)]
     else if k \<in> set GRPC_RESERVED_HEADERS \<or> hm_get_all X (st_metadata st) k = [] then []
     else [last (hm_get_all X (st_metadata st) k)])" for k
    unfolding hm_def add_header_get_all [OF assms(1-4)] header_lawsD(1) [OF assms(1)] by (rule refl)
  have res: "{GRPC_STATUS, GRPC_MESSAGE, GRPC_STATUS_DETAILS} \<subseteq> set GRPC_RESERVED_HEADERS"
    by (simp add: status_names GRPC_RESERVED_HEADERS_def)
  have ne: "GRPC_STATUS \<noteq> GRPC_MESSAGE" "GRPC_STATUS \<noteq> GRPC_STATUS_DETAILS"
    "GRPC_MESSAGE \<noteq> GRPC_STATUS_DETAILS"
    by (simp_all add: status_names)
  note pct = percent_roundtrip [OF assms(3), of "ENCODING_SET X", OF encoding_set_percent]
  note b64 = base64_roundtrip(1) [OF assms(4)]
  have st: "hm_get X hm GRPC_STATUS = Some (to_header_value (st_code st))"
    and msg: "hm_get X hm GRPC_MESSAGE
      = (if st_message st = [] then None else Some (pct_encode X (ENCODING_SET X) (st_message st)))"
    and det: "hm_get X hm GRPC_STATUS_DETAILS
      = (if st_details st = [] then None else Some (b64_encode X False (st_details st)))"
    using res ne by (simp_all add: hm_get_eq [OF assms(1)] ga)
  define md where "md = copy_entries X (\<lambda>k. \<not> status_header k) (hm_empty X) (hm_iter X hm)"
  have rd: "from_header_map X hm
      = Some (with_details_and_metadata (st_code st) (st_message st) (st_details st) md)"
    using assms(5)
    by (simp add: from_header_map_def st msg det Let_def pct b64 decode_utf8_def
        code_from_bytes_header_value md_def)
  have mdk: "hm_get_all X md k =
      (if k \<in> set GRPC_RESERVED_HEADERS \<or> hm_get_all X (st_metadata st) k = [] then []
       else [last (hm_get_all X (st_metadata st) k)])" for k
  proof (cases "status_header k")
    case True
    then show ?thesis
      using status_header_reserved [OF True]
      by (simp add: md_def copy_iter_get_all assms(1) header_lawsD)
  next
    case False
    then have "k \<noteq> GRPC_STATUS" "k \<noteq> GRPC_MESSAGE" "k \<noteq> GRPC_STATUS_DETAILS"
      by (auto simp: status_header_def)
    with False show ?thesis
      by (simp add: md_def copy_iter_get_all assms(1) header_lawsD ga)
  qed
  show ?thesis
    using w rd mdk by (simp add: with_details_and_metadata_def hm_def)
qed

lemma status_into_http_fields:
  assumes "header_laws X" "value_laws X" "percent_laws X" "base64_laws X"
  shows "snd (add_header X st hm) = Inr () \<and>
    hp_status (status_into_http X b st) = 200 \<and> hp_body (status_into_http X b st) = b \<and>
    hm_get X (hp_headers (status_into_http X b st)) GRPC_STATUS = Some (to_header_value (st_code st)) \<and>
    hm_get X (hp_headers (status_into_http X b st)) ''content-type'' = Some GRPC_CONTENT_TYPE"
proof -
  let ?h0 = "hm_insert X (hm_empty X) ''content-type'' GRPC_CONTENT_TYPE"
  have ok: "add_header X st ?h0 = (fst (add_header X st ?h0), Inr ())"
    using add_header_Inr [OF assms(2-4), of st ?h0] by (cases "add_header X st ?h0") simp
  have "status_into_http X b st = (http_response_new X b)\<lparr>hp_headers := fst (add_header X st ?h0)\<rparr>"
    by (simp add: status_into_http_def http_response_new_def Let_def) (subst ok, simp)
  then show ?thesis
    using assms add_header_Inr [OF assms(2-4)]
    by (simp add: http_response_new_def hm_get_eq [OF assms(1)] add_header_get_all header_lawsD
        status_names GRPC_RESERVED_HEADERS_def)
qed

subsection \<open>Properties\<close>

text \<open>
  The code table is consistent in both of its encodings: the header value and the number
  of every code read back as that code; a header value or number that reads as anything but
  \<open>Unknown\<close> is exactly the one written for that code.
\<close>

theorem code_table_consistent:
  "code_from_bytes (to_header_value c) = c \<and> code_from_i32 (int (code_num c)) = c
   \<and> (code_from_bytes b = Unknown \<or> to_header_value (code_from_bytes b) = b)
   \<and> (code_from_i32 i = Unknown \<or> int (code_num (code_from_i32 i)) = i)"
proof (intro conjI)
  show "code_from_bytes b = Unknown \<or> to_header_value (code_from_bytes b) = b"
    by (auto simp: code_from_bytes_def code_table_def split: if_splits)
  show "code_from_i32 i = Unknown \<or> int (code_num (code_from_i32 i)) = i"
    by (auto simp: code_from_i32_def code_table_def)
qed (rule code_from_bytes_header_value, rule code_from_i32_num)

text \<open>
  C17: A status survives the trip through HTTP headers: writing it always succeeds, and
  reading the headers gives back its code, message and details, no source, and as metadata
  the last value of every name of its metadata that the protocol does not reserve.
\<close>

theorem status_header_roundtrip:
  assumes "header_laws X" "value_laws X" "percent_laws X" "base64_laws X"
    and "utf8_valid (st_message st)"
  shows "\<exists>hm st'. to_header_map X st = Inr hm \<and> from_header_map X hm = Some st' \<and>
    st_code st' = st_code st \<and> st_message st' = st_message st \<and> st_details st' = st_details st \<and>
    st_source st' = None \<and>
    (\<forall>k. hm_get_all X (st_metadata st') k =
      (if k \<in> set GRPC_RESERVED_HEADERS \<or> hm_get_all X (st_metadata st) k = [] then []
       else [last (hm_get_all X (st_metadata st) k)]))"
  using status_headers_read [OF assms] by blast

definition sample_status :: "alist status" where
  "sample_status = Status Internal ''hello world {test} 100%'' [0, 2, 3] [(''x-a'', ''1''), (''te'', ''no'')] None"

theorem status_header_roundtrip_witness:
  "utf8_valid (st_message sample_status) \<and>
   (\<exists>hm st'. to_header_map ref_ext sample_status = Inr hm \<and> from_header_map ref_ext hm = Some st' \<and>
     st_code st' = Internal \<and> st_message st' = ''hello world {test} 100%'' \<and> st_details st' = [0, 2, 3])"
proof -
  have u: "utf8_valid (st_message sample_status)"
    by (simp add: sample_status_def utf8_valid_def)
  show ?thesis
    using u status_header_roundtrip [OF ref_header_laws ref_value_laws ref_percent_laws ref_base64_laws u]
    by (auto simp: sample_status_def)
qed

text \<open>
  \<^verbatim>\<open>add_header\<close> never fails, whatever the message, details and metadata are, so a
  trailers-only response always carries the status's own code: it has HTTP status 200, the
  gRPC content type (which the metadata cannot override), and the code of the status, not the
  fallback's.
\<close>

theorem status_into_http_code:
  assumes "header_laws X" "value_laws X" "percent_laws X" "base64_laws X"
  shows "snd (add_header X st hm) = Inr () \<and>
    hp_status (status_into_http X b st) = 200 \<and> hp_body (status_into_http X b st) = b \<and>
    hm_get X (hp_headers (status_into_http X b st)) GRPC_STATUS = Some (to_header_value (st_code st)) \<and>
    hm_get X (hp_headers (status_into_http X b st)) ''content-type'' = Some GRPC_CONTENT_TYPE"
  by (rule status_into_http_fields [OF assms])

theorem status_into_http_code_witness:
  "hm_get ref_ext (hp_headers (status_into_http ref_ext () sample_status)) GRPC_STATUS = Some ''13''"
  using status_into_http_code [OF ref_header_laws ref_value_laws ref_percent_laws ref_base64_laws,
      of sample_status "[]" "()"]
  by (simp add: sample_status_def)

text \<open>
  Turning an error into a status: a status is returned as it is; otherwise the first error
  of the source chain that is a status or an I/O error decides, by its code and message or by
  the code of its kind; an error with neither in its chain becomes \<open>Unknown\<close> with its text,
  and is kept as the source.
\<close>

theorem from_error_spec:
  "from_error X e =
     (case e of
        EStatus st \<Rightarrow> st
      | _ \<Rightarrow>
          (case List.map_filter (recognised X) (source_chain e) of
             st # _ \<Rightarrow> st
           | [] \<Rightarrow> Status Unknown (err_text X e) [] (hm_empty X) (Some e)))"
  by (cases e) (simp_all add: from_error_def find_status_chain set_source_def split: list.splits)

text \<open>
  A response is inferred successful exactly when its trailers carry the status \<open>0\<close> and no
  undecodable details; and an inferred error never has the code \<open>Ok\<close>, whatever the trailers
  and the HTTP status are.
\<close>

theorem infer_ok_iff:
  "(infer_grpc_status X tr n = Inr ()) =
     (\<exists>t. tr = Some t \<and> hm_get X t GRPC_STATUS = Some ''0'' \<and>
       (case hm_get X t GRPC_STATUS_DETAILS of None \<Rightarrow> True | Some h \<Rightarrow> b64_decode X True h \<noteq> None))
   \<and> (infer_grpc_status X tr n = Inl (Some st) \<longrightarrow> st_code st \<noteq> Ok)"
proof -
  have z: "code_from_bytes v = Ok \<longleftrightarrow> v = ''0''" for v
    by (auto simp: code_from_bytes_def code_table_def)
  have h: "http_status_code n \<noteq> Ok" for n
    by (simp add: http_status_code_def)
  show ?thesis
    by (cases tr)
       (auto simp: infer_grpc_status_def from_header_map_def Let_def z h with_details_and_metadata_def
         split: option.splits if_splits)
qed

theorem infer_ok_iff_witness:
  "infer_grpc_status ref_ext None 404 = Inl (Some (status_new ref_ext NotFound
      ''grpc-status header missing, mapped from HTTP status code 404''))
   \<and> st_code (status_new ref_ext NotFound
      ''grpc-status header missing, mapped from HTTP status code 404'') \<noteq> Ok"
proof -
  have e: "infer_grpc_status ref_ext None 404 = Inl (Some (status_new ref_ext NotFound
      ''grpc-status header missing, mapped from HTTP status code 404''))"
    by (simp add: infer_grpc_status_def http_status_code_def show_nat.simps digit_char_def)
  show ?thesis using e infer_ok_iff [THEN conjunct2, rule_format, OF e] by blast
qed

end
