(* ===== verification/Buffers.thy ===== *)
theory Buffers
  imports Status
begin

section \<open>Codec buffers and the frame helpers\<close>

text \<open>
  \<^verbatim>\<open>grpc-core/src/codec/mod.rs\<close>, \<^verbatim>\<open>buffer.rs\<close> and
  \<^verbatim>\<open>prost_codec.rs\<close>: the size of a frame header, the helpers that add and strip
  it, the default limits, the two buffers a codec reads from and writes to, and what an
  encoder and a decoder are. The lemmas give the round trip of the helpers and the bounds
  of the buffers.
\<close>

definition HEADER_SIZE :: nat where "HEADER_SIZE = 1 + 4"

definition encode_grpc_frame :: "bytes \<Rightarrow> bytes" where
  "encode_grpc_frame payload = [0] @ u32_be (of_nat (length payload)) @ payload"

definition decode_grpc_frame :: "bytes \<Rightarrow> bytes" where
  "decode_grpc_frame frame = (if HEADER_SIZE \<le> length frame then drop HEADER_SIZE frame else frame)"

definition DEFAULT_CODEC_BUFFER_SIZE :: nat where "DEFAULT_CODEC_BUFFER_SIZE = 8 * 1024"
definition DEFAULT_YIELD_THRESHOLD :: nat where "DEFAULT_YIELD_THRESHOLD = 32 * 1024"
definition DEFAULT_MAX_RECV_MESSAGE_SIZE :: nat where "DEFAULT_MAX_RECV_MESSAGE_SIZE = 4 * 1024 * 1024"

text \<open>\<^verbatim>\<open>usize::MAX\<close> on a 64-bit target.\<close>

definition DEFAULT_MAX_SEND_MESSAGE_SIZE :: nat where "DEFAULT_MAX_SEND_MESSAGE_SIZE = 2 ^ 64 - 1"

record buffer_settings =
  bs_buffer_size :: nat
  bs_yield_threshold :: nat

definition buffer_settings_default :: buffer_settings where
  "buffer_settings_default =
     \<lparr>bs_buffer_size = DEFAULT_CODEC_BUFFER_SIZE, bs_yield_threshold = DEFAULT_YIELD_THRESHOLD\<rparr>"

definition buffer_settings_new :: "nat \<Rightarrow> nat \<Rightarrow> buffer_settings" where
  "buffer_settings_new buffer_size yield_threshold =
     \<lparr>bs_buffer_size = buffer_size, bs_yield_threshold = yield_threshold\<rparr>"

subsection \<open>The buffers\<close>

text \<open>
  A window of \<^verbatim>\<open>len\<close> bytes on the front of a buffer. \<^verbatim>\<open>advance\<close>
  and \<^verbatim>\<open>copy_to_bytes\<close> panic (\<open>None\<close>) past the window or past the buffer.
\<close>

record decode_buf =
  db_buf :: bytes
  db_len :: nat

definition decode_buf_new :: "bytes \<Rightarrow> nat \<Rightarrow> decode_buf" where
  "decode_buf_new buf len = \<lparr>db_buf = buf, db_len = len\<rparr>"

definition db_remaining :: "decode_buf \<Rightarrow> nat" where
  "db_remaining d = db_len d"

definition db_chunk :: "decode_buf \<Rightarrow> bytes" where
  "db_chunk d = (let ret = db_buf d in if db_len d < length ret then take (db_len d) ret else ret)"

definition db_advance :: "decode_buf \<Rightarrow> nat \<Rightarrow> decode_buf option" where
  "db_advance d cnt =
     (if cnt \<le> db_len d \<and> cnt \<le> length (db_buf d)
      then Some \<lparr>db_buf = drop cnt (db_buf d), db_len = db_len d - cnt\<rparr> else None)"

definition db_copy_to_bytes :: "decode_buf \<Rightarrow> nat \<Rightarrow> (bytes \<times> decode_buf) option" where
  "db_copy_to_bytes d len =
     (if len \<le> db_len d \<and> len \<le> length (db_buf d)
      then Some (take len (db_buf d), \<lparr>db_buf = drop len (db_buf d), db_len = db_len d - len\<rparr>) else None)"

text \<open>The operations of \<^verbatim>\<open>EncodeBuf\<close> append to the buffer it borrows.\<close>

definition eb_put_slice :: "bytes \<Rightarrow> bytes \<Rightarrow> bytes" where
  "eb_put_slice buf src = buf @ src"

definition eb_put_bytes :: "bytes \<Rightarrow> u8 \<Rightarrow> nat \<Rightarrow> bytes" where
  "eb_put_bytes buf val cnt = buf @ replicate cnt val"

lemma db_advance_chunk:
  assumes "db_advance d n = Some d'"
  shows "db_chunk d = take n (db_chunk d) @ db_chunk d'" and "db_remaining d = n + db_remaining d'"
proof -
  have n: "n \<le> db_len d" "n \<le> length (db_buf d)"
    and d': "d' = \<lparr>db_buf = drop n (db_buf d), db_len = db_len d - n\<rparr>"
    using assms by (auto simp: db_advance_def split: if_splits)
  have c: "db_chunk b = take (db_len b) (db_buf b)" for b
    by (simp add: db_chunk_def Let_def)
  show "db_chunk d = take n (db_chunk d) @ db_chunk d'"
    using append_take_drop_id [of n "take (db_len d) (db_buf d)"] n
    by (simp add: c d' min_absorb1 drop_take)
  show "db_remaining d = n + db_remaining d'"
    using n by (simp add: db_remaining_def d')
qed

subsection \<open>Encoders and decoders\<close>

text \<open>
  What the framing code knows of a codec. \<^verbatim>\<open>Encoder::encode\<close> can only append to
  the buffer, so it is the bytes it writes, with its result; \<^verbatim>\<open>Decoder::decode\<close>
  reads from a \<open>decode_buf\<close> and leaves another.
\<close>

record ('h, 'm) encoder =
  ec_encode :: "'m \<Rightarrow> bytes \<times> ('h status + unit)"
  ec_settings :: buffer_settings

record ('h, 'm) decoder =
  dc_decode :: "decode_buf \<Rightarrow> decode_buf \<times> ('h status + 'm option)"
  dc_settings :: buffer_settings

text \<open>
  \<^verbatim>\<open>ProstCodec\<close> over prost's \<^verbatim>\<open>Message::encode\<close> and
  \<^verbatim>\<open>Message::decode\<close>, which are parameters; an error is given by its text.
\<close>

definition prost_encode ::
  "('h, 'x) ext \<Rightarrow> ('m \<Rightarrow> bytes \<times> (string + unit)) \<Rightarrow> 'm \<Rightarrow> bytes \<times> ('h status + unit)" where
  "prost_encode X message_encode item =
     (case message_encode item of
        (written, Inl e) \<Rightarrow> (written, Inl (status_new X Internal (''prost encode error: '' @ e)))
      | (written, Inr _) \<Rightarrow> (written, Inr ()))"

definition prost_decode ::
  "('h, 'x) ext \<Rightarrow> (decode_buf \<Rightarrow> decode_buf \<times> (string + 'm)) \<Rightarrow> decode_buf
     \<Rightarrow> decode_buf \<times> ('h status + 'm option)" where
  "prost_decode X message_decode buf =
     (case message_decode buf of
        (buf', Inr item) \<Rightarrow> (buf', Inr (Some item))
      | (buf', Inl e) \<Rightarrow> (buf', Inl (status_new X Internal e)))"

definition prost_encoder ::
  "('h, 'x) ext \<Rightarrow> ('m \<Rightarrow> bytes \<times> (string + unit)) \<Rightarrow> ('h, 'm) encoder" where
  "prost_encoder X message_encode =
     \<lparr>ec_encode = prost_encode X message_encode, ec_settings = buffer_settings_default\<rparr>"

definition prost_decoder ::
  "('h, 'x) ext \<Rightarrow> (decode_buf \<Rightarrow> decode_buf \<times> (string + 'm)) \<Rightarrow> ('h, 'm) decoder" where
  "prost_decoder X message_decode =
     \<lparr>dc_decode = prost_decode X message_decode, dc_settings = buffer_settings_default\<rparr>"

text \<open>
  The contract of a codec: a message that encodes to \<open>p\<close> is decoded from a window that holds
  exactly \<open>p\<close>, and the window is consumed, whatever follows it in the buffer.
\<close>

definition codec_laws :: "('h, 'm) encoder \<Rightarrow> ('h, 'm) decoder \<Rightarrow> bool" where
  "codec_laws E D \<longleftrightarrow>
     (\<forall>m p rest. ec_encode E m = (p, Inr ()) \<longrightarrow>
        dc_decode D \<lparr>db_buf = p @ rest, db_len = length p\<rparr> = (\<lparr>db_buf = rest, db_len = 0\<rparr>, Inr (Some m)))"

text \<open>The same contract for prost's own functions, and that the codec inherits it.\<close>

definition prost_laws ::
  "('m \<Rightarrow> bytes \<times> (string + unit)) \<Rightarrow> (decode_buf \<Rightarrow> decode_buf \<times> (string + 'm)) \<Rightarrow> bool" where
  "prost_laws message_encode message_decode \<longleftrightarrow>
     (\<forall>m p rest. message_encode m = (p, Inr ()) \<longrightarrow>
        message_decode \<lparr>db_buf = p @ rest, db_len = length p\<rparr> = (\<lparr>db_buf = rest, db_len = 0\<rparr>, Inr m))"

lemma prost_codec_laws:
  assumes "prost_laws enc dec" shows "codec_laws (prost_encoder X enc) (prost_decoder X dec)"
proof -
  have e: "enc m = (p, Inr ())" if "prost_encode X enc m = (p, Inr ())" for m p
    using that by (simp add: prost_encode_def split: prod.splits sum.splits)
  have "prost_decode X dec \<lparr>db_buf = p @ rest, db_len = length p\<rparr> = (\<lparr>db_buf = rest, db_len = 0\<rparr>, Inr (Some m))"
    if "prost_encode X enc m = (p, Inr ())" for m p rest
    using assms e [OF that] by (simp add: prost_laws_def prost_decode_def)
  then show ?thesis
    by (simp add: codec_laws_def prost_encoder_def prost_decoder_def)
qed

lemma decode_encode_grpc_frame: "decode_grpc_frame (encode_grpc_frame p) = p"
  by (simp add: decode_grpc_frame_def encode_grpc_frame_def HEADER_SIZE_def)

interpretation grpc_frame: codec_pair encode_grpc_frame "\<lambda>f. Some (decode_grpc_frame f)"
  by unfold_locales (simp add: decode_encode_grpc_frame)

text \<open>A codec for the examples: a message is its bytes; one that starts with 255 does not encode.\<close>

definition raw_encode :: "bytes \<Rightarrow> bytes \<times> (string + unit)" where
  "raw_encode m = (m, if m \<noteq> [] \<and> hd m = 255 then Inl ''not encodable'' else Inr ())"

definition raw_decode :: "decode_buf \<Rightarrow> decode_buf \<times> (string + bytes)" where
  "raw_decode d = (\<lparr>db_buf = drop (db_len d) (db_buf d), db_len = 0\<rparr>, Inr (take (db_len d) (db_buf d)))"

lemma raw_laws [simp]: "prost_laws raw_encode raw_decode"
  by (simp add: prost_laws_def raw_encode_def raw_decode_def)

end
