(* ===== verification/Compression.thy ===== *)
theory Compression
  imports Status
begin

section \<open>Compression and its negotiation\<close>

text \<open>
  \<^verbatim>\<open>grpc-core/src/codec/compression.rs\<close>, with the three features on: the encodings
  and their names, the set of enabled encodings, the two headers that negotiate them, and the
  dispatch to the compression libraries. The lemmas show that names round trip, which requests
  are refused and with which status, that a negotiated encoding is one both sides enabled, and
  that decompressing undoes compressing.
\<close>

datatype compression_encoding = Gzip | Deflate | Zstd

definition ENCODINGS :: "compression_encoding list" where
  "ENCODINGS = [Gzip, Deflate, Zstd]"

definition encoding_as_str :: "compression_encoding \<Rightarrow> string" where
  "encoding_as_str e = (case e of Gzip \<Rightarrow> ''gzip'' | Deflate \<Rightarrow> ''deflate'' | Zstd \<Rightarrow> ''zstd'')"

definition encoding_parse :: "string \<Rightarrow> compression_encoding option" where
  "encoding_parse s =
     (if s = ''gzip'' then Some Gzip
      else if s = ''deflate'' then Some Deflate
      else if s = ''zstd'' then Some Zstd
      else None)"

interpretation encoding_name: strict_codec encoding_as_str encoding_parse
proof
  show "encoding_parse (encoding_as_str e) = Some e" for e
    by (cases e) (simp_all add: encoding_parse_def encoding_as_str_def)
  show "encoding_parse s = Some e \<Longrightarrow> encoding_as_str e = s" for s e
    by (auto simp: encoding_parse_def encoding_as_str_def split: if_splits)
qed

record enabled_encodings =
  en_gzip :: bool
  en_deflate :: bool
  en_zstd :: bool

definition enabled_default :: enabled_encodings where
  "enabled_default = \<lparr>en_gzip = False, en_deflate = False, en_zstd = False\<rparr>"

definition enable :: "enabled_encodings \<Rightarrow> compression_encoding \<Rightarrow> enabled_encodings" where
  "enable s e =
     (case e of Gzip \<Rightarrow> s\<lparr>en_gzip := True\<rparr> | Deflate \<Rightarrow> s\<lparr>en_deflate := True\<rparr>
      | Zstd \<Rightarrow> s\<lparr>en_zstd := True\<rparr>)"

definition is_enabled :: "enabled_encodings \<Rightarrow> compression_encoding \<Rightarrow> bool" where
  "is_enabled s e = (case e of Gzip \<Rightarrow> en_gzip s | Deflate \<Rightarrow> en_deflate s | Zstd \<Rightarrow> en_zstd s)"

definition ENCODING_HEADER :: string where "ENCODING_HEADER = ''grpc-encoding''"
definition ACCEPT_ENCODING_HEADER :: string where "ACCEPT_ENCODING_HEADER = ''grpc-accept-encoding''"

definition into_accept_encoding_header_value :: "enabled_encodings \<Rightarrow> string option" where
  "into_accept_encoding_header_value s =
     (let encodings = map encoding_as_str (filter (is_enabled s) ENCODINGS)
      in if encodings = [] then None else Some (str_join '','' encodings))"

text \<open>The name in back quotes, as the messages print it.\<close>

definition quoted :: "string \<Rightarrow> string" where
  "quoted s = [CHR 0x60] @ s @ [CHR 0x60]"

definition from_encoding_header ::
  "('h, 'x) ext \<Rightarrow> 'h \<Rightarrow> enabled_encodings \<Rightarrow> 'h status + compression_encoding option" where
  "from_encoding_header X headers accepted =
     (case hm_get X headers ENCODING_HEADER of
        None \<Rightarrow> Inr None
      | Some val \<Rightarrow>
          (case hv_to_str X val of
             None \<Rightarrow> Inl (status_new X Internal ''grpc-encoding header is not valid UTF-8'')
           | Some encoding_str \<Rightarrow>
               if encoding_str = ''identity'' then Inr None
               else
                 (case encoding_parse encoding_str of
                    Some e \<Rightarrow>
                      if is_enabled accepted e then Inr (Some e)
                      else Inl (status_new X Unimplemented
                             (''compression '' @ quoted (encoding_as_str e) @ '' is not supported''))
                  | None \<Rightarrow> Inl (status_new X Unimplemented
                             (''unknown compression encoding '' @ quoted encoding_str)))))"

text \<open>The loop over the comma-separated parts: the first one that is known and enabled.\<close>

fun first_supported :: "enabled_encodings \<Rightarrow> string list \<Rightarrow> compression_encoding option" where
  "first_supported s [] = None"
| "first_supported s (part # ps) =
     (case encoding_parse (str_trim part) of
        Some e \<Rightarrow> if is_enabled s e then Some e else first_supported s ps
      | None \<Rightarrow> first_supported s ps)"

definition from_accept_encoding_header ::
  "('h, 'x) ext \<Rightarrow> 'h \<Rightarrow> enabled_encodings \<Rightarrow> compression_encoding option" where
  "from_accept_encoding_header X headers send =
     (case hm_get X headers ACCEPT_ENCODING_HEADER of
        None \<Rightarrow> None
      | Some val \<Rightarrow>
          (case hv_to_str X val of
             None \<Rightarrow> None
           | Some accept_str \<Rightarrow> first_supported send (str_split (CHR '','') accept_str)))"

text \<open>
  \<^verbatim>\<open>compress\<close> and \<^verbatim>\<open>decompress\<close> append to the destination buffer; on an
  error of the library nothing is appended.
\<close>

definition compress ::
  "('h, 'x) ext \<Rightarrow> compression_encoding \<Rightarrow> bytes \<Rightarrow> bytes \<Rightarrow> bytes \<times> (string + unit)" where
  "compress X e src dst =
     (case (case e of Gzip \<Rightarrow> gz_compress X src | Deflate \<Rightarrow> df_compress X src | Zstd \<Rightarrow> zs_compress X src) of
        Inl err \<Rightarrow> (dst, Inl err)
      | Inr compressed \<Rightarrow> (dst @ compressed, Inr ()))"

definition decompress ::
  "('h, 'x) ext \<Rightarrow> compression_encoding \<Rightarrow> bytes \<Rightarrow> bytes \<Rightarrow> bytes \<times> (string + unit)" where
  "decompress X e src dst =
     (case (case e of Gzip \<Rightarrow> gz_decompress X src | Deflate \<Rightarrow> df_decompress X src
              | Zstd \<Rightarrow> zs_decompress X src) of
        Inl err \<Rightarrow> (dst, Inl err)
      | Inr decompressed \<Rightarrow> (dst @ decompressed, Inr ()))"

subsection \<open>Lemmas\<close>

lemma is_enabled_enable [simp]: "is_enabled (enable s e) e' = (e' = e \<or> is_enabled s e')"
  by (cases e; cases e') (simp_all add: is_enabled_def enable_def)

lemma is_enabled_default [simp]: "is_enabled enabled_default e = False"
  by (cases e) (simp_all add: is_enabled_def enabled_default_def)

lemma ENCODINGS_all: "set ENCODINGS = UNIV"
  using compression_encoding.exhaust by (auto simp: ENCODINGS_def)

lemma encoding_str_chars:
  "\<forall>c\<in>set (encoding_as_str e). \<not> is_ws c" "CHR '','' \<notin> set (encoding_as_str e)"
  "visible_ascii (encoding_as_str e)"
  by (cases e; simp add: encoding_as_str_def is_ws_def visible_ascii_def)+

lemma first_supported_enabled: "first_supported s ps = Some e \<Longrightarrow> is_enabled s e"
  by (induction s ps rule: first_supported.induct) (auto split: option.splits if_splits)

lemma first_supported_names:
  "first_supported s (map encoding_as_str es) = List.find (is_enabled s) es"
  by (induction es) (simp_all add: encoding_name.dec_enc str_trim_id encoding_str_chars)

lemma compress_Inr:
  "snd (compress X e src dst) = Inr () \<Longrightarrow>
   \<exists>z. fst (compress X e src dst) = dst @ z \<and> (\<forall>dst'. compress X e src dst' = (dst' @ z, Inr ()))"
  by (auto simp: compress_def split: sum.splits)

lemma compress_Inl: "snd (compress X e src dst) = Inl err \<Longrightarrow> fst (compress X e src dst) = dst"
  by (auto simp: compress_def split: sum.splits)

lemma decompress_compress:
  "compressor_laws X \<Longrightarrow> compress X e src [] = (z, Inr ()) \<Longrightarrow> decompress X e z dst = (dst @ src, Inr ())"
  by (cases e) (auto simp: compress_def decompress_def compressor_laws_def split: sum.splits)

lemma visible_ascii_append: "visible_ascii (s @ t) \<longleftrightarrow> visible_ascii s \<and> visible_ascii t"
  unfolding visible_ascii_def by (simp only: set_append ball_Un)

lemma str_join_visible:
  "\<forall>p\<in>set ps. visible_ascii p \<Longrightarrow> visible_ascii sep \<Longrightarrow> visible_ascii (str_join sep ps)"
  by (induction sep ps rule: str_join.induct) (simp_all add: visible_ascii_append visible_ascii_def [of "[]"])

lemma first_common:
  assumes "value_laws X"
    and "hm_get X hm ACCEPT_ENCODING_HEADER = into_accept_encoding_header_value client"
  shows "from_accept_encoding_header X hm server
    = find (\<lambda>e. is_enabled client e \<and> is_enabled server e) ENCODINGS"
proof (cases "filter (is_enabled client) ENCODINGS")
  case Nil
  then have "\<forall>e. \<not> is_enabled client e"
    using ENCODINGS_all by (metis UNIV_I filter_empty_conv)
  then show ?thesis
    using Nil assms(2)
    by (simp add: from_accept_encoding_header_def into_accept_encoding_header_value_def
        ENCODINGS_def)
next
  case (Cons e es)
  let ?ns = "map encoding_as_str (filter (is_enabled client) ENCODINGS)"
  have g: "hm_get X hm ACCEPT_ENCODING_HEADER = Some (str_join '','' ?ns)"
    using Cons assms(2) by (simp add: into_accept_encoding_header_value_def Let_def)
  have v: "visible_ascii (str_join '','' ?ns)"
    by (rule str_join_visible) (auto simp: encoding_str_chars visible_ascii_def [of "'',''"])
  have sp: "str_split (CHR '','') (str_join '','' ?ns) = ?ns"
    using Cons encoding_str_chars(2) by (intro str_split_join) auto
  have "find P (filter Q xs) = find (\<lambda>x. Q x \<and> P x) xs" for P Q and xs :: "compression_encoding list"
    by (induction xs) auto
  then show ?thesis
    by (simp only: from_accept_encoding_header_def g hv_to_str_eq [OF assms(1)] v sp option.case if_True
        first_supported_names)
qed

lemma from_encoding_header_named:
  assumes "value_laws X" "hm_get X hm ENCODING_HEADER = map_option encoding_as_str enc"
    and "\<forall>e. enc = Some e \<longrightarrow> is_enabled acc e"
  shows "from_encoding_header X hm acc = Inr enc"
proof (cases enc)
  case (Some e)
  have "encoding_as_str e \<noteq> ''identity''" by (cases e) (simp_all add: encoding_as_str_def)
  with Some assms(2,3) show ?thesis
    by (simp add: from_encoding_header_def hv_to_str_eq [OF assms(1)] encoding_str_chars encoding_name.dec_enc)
qed (use assms(2) in \<open>simp add: from_encoding_header_def\<close>)

subsection \<open>Properties\<close>

text \<open>
  Compression is lossless through the dispatch: whatever the encoding, decompressing what
  \<^verbatim>\<open>compress\<close> appended appends the original bytes.
\<close>

theorem decompress_undoes_compress:
  assumes "compressor_laws X" and "compress X e src [] = (z, Inr ())"
  shows "decompress X e z dst = (dst @ src, Inr ())"
  using assms by (rule decompress_compress)

theorem decompress_undoes_compress_witness:
  "compress ref_ext Zstd [7, 7] [] = ([40, 7, 7], Inr ()) \<and> decompress ref_ext Zstd [40, 7, 7] [1] = ([1, 7, 7], Inr ())"
proof -
  have c: "compress ref_ext Zstd [7, 7] [] = ([40, 7, 7], Inr ())"
    by (simp add: compress_def ref_ext_def store_compress_def)
  show ?thesis
    using c decompress_undoes_compress [OF ref_compressor_laws c, of "[1]"] by simp
qed

text \<open>
  The encoding of an incoming message is decided by its header: absent or
  \<^verbatim>\<open>identity\<close> means none; the name of an enabled encoding means that encoding; every
  other value is refused, with \<open>Unimplemented\<close> when it is text and \<open>Internal\<close> otherwise.
\<close>

theorem encoding_header_decision:
  assumes "value_laws X"
  shows "(case from_encoding_header X hm acc of
      Inr None \<Rightarrow> hm_get X hm ENCODING_HEADER \<in> {None, Some ''identity''}
    | Inr (Some e) \<Rightarrow> hm_get X hm ENCODING_HEADER = Some (encoding_as_str e) \<and> is_enabled acc e
    | Inl st \<Rightarrow> (\<exists>v. hm_get X hm ENCODING_HEADER = Some v \<and> v \<noteq> ''identity'' \<and>
        (\<forall>e. is_enabled acc e \<longrightarrow> v \<noteq> encoding_as_str e) \<and>
        st_code st = (if visible_ascii v then Unimplemented else Internal)))"
proof (cases "hm_get X hm ENCODING_HEADER")
  case None
  then show ?thesis by (simp add: from_encoding_header_def)
next
  case (Some v)
  show ?thesis
  proof (cases "visible_ascii v")
    case False
    have "v \<noteq> ''identity''" using False by (auto simp: visible_ascii_def)
    moreover have "v \<noteq> encoding_as_str e" for e using False encoding_str_chars(3) by metis
    ultimately show ?thesis
      using Some False by (simp add: from_encoding_header_def hv_to_str_eq [OF assms])
  next
    case True
    show ?thesis
      using Some True
      by (auto simp: from_encoding_header_def hv_to_str_eq [OF assms] encoding_name.dec_iff
          encoding_name.dec_None_iff encoding_name.enc_inj split: option.splits)
  qed
qed

theorem encoding_header_decision_witness:
  "\<exists>st. from_encoding_header ref_ext [(''grpc-encoding'', ''zstd'')] (enable enabled_default Gzip) = Inl st
     \<and> st_code st = Unimplemented"
proof -
  have g: "hm_get ref_ext [(''grpc-encoding'', ''zstd'')] ENCODING_HEADER = Some ''zstd''"
    by (simp add: ref_eval ENCODING_HEADER_def)
  show ?thesis
    using encoding_header_decision [OF ref_value_laws, of "[(''grpc-encoding'', ''zstd'')]" "enable enabled_default Gzip"]
    unfolding g
    by (auto simp: encoding_as_str_def visible_ascii_def
        split: sum.splits option.splits compression_encoding.splits)
qed

text \<open>
  Negotiation never picks an encoding the server did not enable, and finds one whenever
  there is one: when a client announces the encodings it enabled with its own header value, the
  server picks the first encoding of \<^verbatim>\<open>ENCODINGS\<close> that both sides enabled, or none
  when they share none.
\<close>

theorem negotiation_first_common:
  assumes "value_laws X"
    and "hm_get X hm ACCEPT_ENCODING_HEADER = into_accept_encoding_header_value client"
  shows "from_accept_encoding_header X hm server
    = find (\<lambda>e. is_enabled client e \<and> is_enabled server e) ENCODINGS"
  using assms by (rule first_common)

theorem negotiation_first_common_witness:
  "from_accept_encoding_header ref_ext [(''grpc-accept-encoding'', ''deflate,zstd'')]
     (enable (enable enabled_default Zstd) Gzip) = Some Zstd"
proof -
  have g: "hm_get ref_ext [(''grpc-accept-encoding'', ''deflate,zstd'')] ACCEPT_ENCODING_HEADER
      = into_accept_encoding_header_value (enable (enable enabled_default Deflate) Zstd)"
    by (simp add: ref_eval ACCEPT_ENCODING_HEADER_def into_accept_encoding_header_value_def
        ENCODINGS_def encoding_as_str_def)
  show ?thesis
    unfolding negotiation_first_common [OF ref_value_laws g] by (simp add: ENCODINGS_def)
qed

end
