(* ===== verification/Encode.thy ===== *)
theory Encode
  imports Buffers Compression
begin

section \<open>Encoding a stream of messages\<close>

text \<open>
  \<^verbatim>\<open>grpc-core/src/codec/encode.rs\<close>: one message into a length-prefixed frame
  (\<open>encode_item\<close>), the stream combinator that batches frames (\<open>encoded_bytes\<close>), and the HTTP
  body that ends them with trailers (\<open>encode_body\<close>). The lemmas say what a frame is and when a
  message has one, that a failed message leaves no trace in the buffer, and what the body of a
  whole response is.
\<close>

subsection \<open>One message\<close>

definition finish_encoding ::
  "('h, 'x) ext \<Rightarrow> compression_encoding option \<Rightarrow> nat option \<Rightarrow> bytes \<Rightarrow> 'h status + bytes" where
  "finish_encoding X cenc max_message_size buf =
     (let len = length buf - HEADER_SIZE;
          limit = (case max_message_size of Some n \<Rightarrow> n | None \<Rightarrow> DEFAULT_MAX_SEND_MESSAGE_SIZE)
      in if limit < len then
           Inl (status_new X OutOfRange
             (''Error, encoded message length too large: found '' @ show_nat len
              @ '' bytes, the limit is: '' @ show_nat limit @ '' bytes''))
         else if 2 ^ 32 - 1 < len then
           Inl (status_new X ResourceExhausted
             (''Cannot return body with more than 4GB of data but got '' @ show_nat len @ '' bytes''))
         else Inr ((if cenc \<noteq> None then 1 else 0) # u32_be (of_nat len) @ drop HEADER_SIZE buf))"

text \<open>
  The result carries both buffers: the output buffer, and the scratch buffer messages are
  encoded into before they are compressed. The header's bytes are not initialised until
  \<open>finish_encoding\<close> writes them; they stand as zeros here.
\<close>

definition encode_item ::
  "('h, 'x) ext \<Rightarrow> ('h, 'm) encoder \<Rightarrow> bytes \<Rightarrow> bytes \<Rightarrow> compression_encoding option \<Rightarrow> nat option \<Rightarrow> 'm
     \<Rightarrow> bytes \<times> bytes \<times> ('h status + unit)" where
  "encode_item X E buf uncompression_buf cenc max_message_size item =
     (let offset = length buf;
          buf1 = buf @ replicate HEADER_SIZE 0;
          (written, res) = ec_encode E item;
          (buf2, uncompression_buf2, encode_result) =
            (case cenc of
               Some encoding \<Rightarrow>
                 (case res of
                    Inl err \<Rightarrow> (buf1, written, Inl (status_new X Internal (''Error encoding: '' @ status_display X err)))
                  | Inr _ \<Rightarrow>
                      (case compress X encoding written buf1 of
                         (b, Inl err) \<Rightarrow> (b, written, Inl (status_new X Internal (''Error compressing: '' @ err)))
                       | (b, Inr _) \<Rightarrow> (b, written, Inr ())))
             | None \<Rightarrow>
                 (buf1 @ written, uncompression_buf,
                  (case res of
                     Inl err \<Rightarrow> Inl (status_new X Internal (''Error encoding: '' @ status_display X err))
                   | Inr _ \<Rightarrow> Inr ())))
      in case encode_result of
           Inl status \<Rightarrow> (take offset buf2, uncompression_buf2, Inl status)
         | Inr _ \<Rightarrow>
             (case finish_encoding X cenc max_message_size (drop offset buf2) of
                Inl status \<Rightarrow> (take offset buf2, uncompression_buf2, Inl status)
              | Inr framed \<Rightarrow> (take offset buf2 @ framed, uncompression_buf2, Inr ())))"

subsection \<open>The stream of frames\<close>

text \<open>What polling the source of messages yields; the empty list is its end.\<close>

datatype ('h, 'm) src_ev = SrcPending | SrcItem 'm | SrcErr "'h status"

record ('h, 'm) encoded_bytes =
  en_source :: "('h, 'm) src_ev list"
  en_encoder :: "('h, 'm) encoder"
  en_compression :: "compression_encoding option"
  en_max_message_size :: "nat option"
  en_buf :: bytes
  en_uncompression_buf :: bytes
  en_error :: "'h status option"

definition encoded_bytes_new ::
  "('h, 'm) encoder \<Rightarrow> ('h, 'm) src_ev list \<Rightarrow> compression_encoding option \<Rightarrow> nat option
     \<Rightarrow> ('h, 'm) encoded_bytes" where
  "encoded_bytes_new E source cenc max_message_size =
     \<lparr>en_source = source, en_encoder = E, en_compression = cenc, en_max_message_size = max_message_size,
      en_buf = [], en_uncompression_buf = [], en_error = None\<rparr>"

text \<open>
  The loop of \<^verbatim>\<open>poll_next\<close> on the source's events: it returns the rest of the
  source, the two buffers, the error it put aside, and the poll's result. \<open>Ready None\<close> is the
  end of the stream.
\<close>

fun encode_loop ::
  "('h, 'x) ext \<Rightarrow> ('h, 'm) encoder \<Rightarrow> compression_encoding option \<Rightarrow> nat option \<Rightarrow> ('h, 'm) src_ev list
     \<Rightarrow> bytes \<Rightarrow> bytes
     \<Rightarrow> (('h, 'm) src_ev list \<times> bytes \<times> bytes \<times> 'h status option) \<times> ('h status + bytes) option poll" where
  "encode_loop X E cenc mx [] buf ub =
     (if buf = [] then (([], buf, ub, None), Ready None)
      else (([], [], ub, None), Ready (Some (Inr buf))))"
| "encode_loop X E cenc mx (SrcPending # src) buf ub =
     (if buf = [] then ((src, buf, ub, None), Pending)
      else ((src, [], ub, None), Ready (Some (Inr buf))))"
| "encode_loop X E cenc mx (SrcItem item # src) buf ub =
     (case encode_item X E buf ub cenc mx item of
        (buf', ub', Inl status) \<Rightarrow> ((src, buf', ub', None), Ready (Some (Inl status)))
      | (buf', ub', Inr _) \<Rightarrow>
          if bs_yield_threshold (ec_settings E) \<le> length buf'
          then ((src, [], ub', None), Ready (Some (Inr buf')))
          else encode_loop X E cenc mx src buf' ub')"
| "encode_loop X E cenc mx (SrcErr status # src) buf ub =
     (if buf = [] then ((src, buf, ub, None), Ready (Some (Inl status)))
      else ((src, [], ub, Some status), Ready (Some (Inr buf))))"

definition encoded_poll_next ::
  "('h, 'x) ext \<Rightarrow> ('h, 'm) encoded_bytes \<Rightarrow> ('h, 'm) encoded_bytes \<times> ('h status + bytes) option poll" where
  "encoded_poll_next X s =
     (case en_error s of
        Some status \<Rightarrow> (s\<lparr>en_error := None\<rparr>, Ready (Some (Inl status)))
      | None \<Rightarrow>
          (case encode_loop X (en_encoder s) (en_compression s) (en_max_message_size s) (en_source s)
                  (en_buf s) (en_uncompression_buf s) of
             ((src, buf, ub, err), r) \<Rightarrow>
               (s\<lparr>en_source := src, en_buf := buf, en_uncompression_buf := ub, en_error := err\<rparr>, r)))"

subsection \<open>The body\<close>

datatype role = Client | Server

record ('h, 'm) encode_body =
  eb_inner :: "('h, 'm) encoded_bytes"
  eb_error :: "'h status option"
  eb_role :: role
  eb_is_end_stream :: bool

definition new_client ::
  "('h, 'm) encoder \<Rightarrow> ('h, 'm) src_ev list \<Rightarrow> compression_encoding option \<Rightarrow> nat option \<Rightarrow> ('h, 'm) encode_body" where
  "new_client E source cenc mx =
     \<lparr>eb_inner = encoded_bytes_new E source cenc mx, eb_error = None, eb_role = Client, eb_is_end_stream = False\<rparr>"

definition new_server ::
  "('h, 'm) encoder \<Rightarrow> ('h, 'm) src_ev list \<Rightarrow> compression_encoding option \<Rightarrow> nat option \<Rightarrow> ('h, 'm) encode_body" where
  "new_server E source cenc mx =
     \<lparr>eb_inner = encoded_bytes_new E source cenc mx, eb_error = None, eb_role = Server, eb_is_end_stream = False\<rparr>"

definition encode_state_trailers ::
  "('h, 'x) ext \<Rightarrow> ('h, 'm) encode_body \<Rightarrow> ('h, 'm) encode_body \<times> ('h status + 'h) option" where
  "encode_state_trailers X b =
     (case eb_role b of
        Client \<Rightarrow> (b, None)
      | Server \<Rightarrow>
          if eb_is_end_stream b then (b, None)
          else
            (let status = (case eb_error b of Some st \<Rightarrow> st | None \<Rightarrow> status_new X Ok [])
             in (b\<lparr>eb_is_end_stream := True, eb_error := None\<rparr>, Some (to_header_map X status))))"

definition encode_poll_frame ::
  "('h, 'x) ext \<Rightarrow> ('h, 'm) encode_body \<Rightarrow> ('h, 'm) encode_body \<times> ('h status + 'h frame) option poll" where
  "encode_poll_frame X b =
     (case encoded_poll_next X (eb_inner b) of
        (inner, Pending) \<Rightarrow> (b\<lparr>eb_inner := inner\<rparr>, Pending)
      | (inner, Ready (Some (Inr data))) \<Rightarrow> (b\<lparr>eb_inner := inner\<rparr>, Ready (Some (Inr (FData data))))
      | (inner, Ready (Some (Inl status))) \<Rightarrow>
          (case eb_role b of
             Client \<Rightarrow> (b\<lparr>eb_inner := inner\<rparr>, Ready (Some (Inl status)))
           | Server \<Rightarrow>
               (b\<lparr>eb_inner := inner, eb_is_end_stream := True\<rparr>,
                Ready (Some (Inr (FTrailers
                  (case to_header_map X status of Inr h \<Rightarrow> h | Inl _ \<Rightarrow> hm_empty X))))))
      | (inner, Ready None) \<Rightarrow>
          (let (b', t) = encode_state_trailers X (b\<lparr>eb_inner := inner\<rparr>)
           in (b', Ready (map_option (map_sum id FTrailers) t))))"

text \<open>
  What a caller that polls the body \<open>n\<close> times sees, up to its end: the transport stops after
  trailers or an error, as it does on any body.
\<close>

fun body_events :: "('h, 'x) ext \<Rightarrow> nat \<Rightarrow> ('h, 'm) encode_body \<Rightarrow> 'h body" where
  "body_events X 0 b = []"
| "body_events X (Suc n) b =
     (case encode_poll_frame X b of
        (b', Pending) \<Rightarrow> BPending # body_events X n b'
      | (b', Ready None) \<Rightarrow> []
      | (b', Ready (Some (Inl st))) \<Rightarrow> [BErr st]
      | (b', Ready (Some (Inr (FTrailers t)))) \<Rightarrow> [BFrame (FTrailers t)]
      | (b', Ready (Some (Inr (FData d)))) \<Rightarrow> BFrame (FData d) # body_events X n b')"

subsection \<open>What a frame is\<close>

text \<open>The payload of a message, and its frame, without reference to any buffer.\<close>

definition payload_of ::
  "('h, 'x) ext \<Rightarrow> ('h, 'm) encoder \<Rightarrow> compression_encoding option \<Rightarrow> 'm \<Rightarrow> 'h status + bytes" where
  "payload_of X E cenc m =
     (case ec_encode E m of
        (written, Inl err) \<Rightarrow> Inl (status_new X Internal (''Error encoding: '' @ status_display X err))
      | (written, Inr _) \<Rightarrow>
          (case cenc of
             None \<Rightarrow> Inr written
           | Some e \<Rightarrow>
               (case compress X e written [] of
                  (z, Inl err) \<Rightarrow> Inl (status_new X Internal (''Error compressing: '' @ err))
                | (z, Inr _) \<Rightarrow> Inr z)))"

definition grpc_frame :: "bool \<Rightarrow> bytes \<Rightarrow> bytes" where
  "grpc_frame compressed payload = (if compressed then 1 else 0) # u32_be (of_nat (length payload)) @ payload"

definition send_limit :: "nat option \<Rightarrow> nat" where
  "send_limit mx = (case mx of Some n \<Rightarrow> n | None \<Rightarrow> DEFAULT_MAX_SEND_MESSAGE_SIZE)"

definition frame_of ::
  "('h, 'x) ext \<Rightarrow> ('h, 'm) encoder \<Rightarrow> compression_encoding option \<Rightarrow> nat option \<Rightarrow> 'm \<Rightarrow> 'h status + bytes" where
  "frame_of X E cenc mx m =
     (case payload_of X E cenc m of
        Inl st \<Rightarrow> Inl st
      | Inr p \<Rightarrow> finish_encoding X cenc mx (replicate HEADER_SIZE 0 @ p))"

lemma finish_encoding_frame:
  "finish_encoding X cenc mx (replicate HEADER_SIZE 0 @ p) = Inr f \<longleftrightarrow>
   length p \<le> send_limit mx \<and> length p < 2 ^ 32 \<and> f = grpc_frame (cenc \<noteq> None) p"
  by (auto simp: finish_encoding_def Let_def send_limit_def grpc_frame_def split: option.splits)

lemma frame_of_Inr_iff:
  "frame_of X E cenc mx m = Inr f \<longleftrightarrow>
   (\<exists>p. payload_of X E cenc m = Inr p \<and> length p \<le> send_limit mx \<and> length p < 2 ^ 32
        \<and> f = grpc_frame (cenc \<noteq> None) p)"
  by (cases "payload_of X E cenc m") (simp_all add: frame_of_def finish_encoding_frame)

lemma grpc_frame_nonempty [simp]: "grpc_frame c p \<noteq> []"
  by (simp add: grpc_frame_def)

lemma encode_item_frame:
  "(case encode_item X E buf ub cenc mx item of (b, _, r) \<Rightarrow> (b, r)) =
   (case frame_of X E cenc mx item of Inl st \<Rightarrow> (buf, Inl st) | Inr f \<Rightarrow> (buf @ f, Inr ()))"
proof -
  obtain w r where e: "ec_encode E item = (w, r)" by fastforce
  show ?thesis
    by (cases "payload_of X E cenc item")
      (auto simp: payload_of_def frame_of_def encode_item_def e compress_def Let_def
          split: sum.splits option.splits)
qed

subsection \<open>The whole body\<close>

text \<open>
  The reference behaviour: the frames of the messages up to the first failure, with the status
  of that failure. \<open>all_encode\<close> says no message up to a source error fails to encode.
\<close>

fun src_frames ::
  "('h, 'x) ext \<Rightarrow> ('h, 'm) encoder \<Rightarrow> compression_encoding option \<Rightarrow> nat option \<Rightarrow> ('h, 'm) src_ev list
     \<Rightarrow> bytes list \<times> 'h status option" where
  "src_frames X E cenc mx [] = ([], None)"
| "src_frames X E cenc mx (SrcPending # src) = src_frames X E cenc mx src"
| "src_frames X E cenc mx (SrcErr st # src) = ([], Some st)"
| "src_frames X E cenc mx (SrcItem m # src) =
     (case frame_of X E cenc mx m of
        Inl st \<Rightarrow> ([], Some st)
      | Inr f \<Rightarrow> (case src_frames X E cenc mx src of (fs, st) \<Rightarrow> (f # fs, st)))"

fun all_encode ::
  "('h, 'x) ext \<Rightarrow> ('h, 'm) encoder \<Rightarrow> compression_encoding option \<Rightarrow> nat option \<Rightarrow> ('h, 'm) src_ev list \<Rightarrow> bool" where
  "all_encode X E cenc mx [] = True"
| "all_encode X E cenc mx (SrcPending # src) = all_encode X E cenc mx src"
| "all_encode X E cenc mx (SrcErr st # src) = True"
| "all_encode X E cenc mx (SrcItem m # src) =
     (case frame_of X E cenc mx m of Inl _ \<Rightarrow> False | Inr _ \<Rightarrow> all_encode X E cenc mx src)"

text \<open>The data of a body, and the bodies of data frames only.\<close>

fun body_data :: "('h, 'e) raw_body \<Rightarrow> bytes" where
  "body_data [] = []"
| "body_data (BFrame (FData d) # evs) = d @ body_data evs"
| "body_data (_ # evs) = body_data evs"

fun data_only :: "('h, 'e) raw_body \<Rightarrow> bool" where
  "data_only [] = True"
| "data_only (BPending # evs) = data_only evs"
| "data_only (BFrame (FData d) # evs) = data_only evs"
| "data_only (_ # evs) = False"

lemma encode_loop_frames:
  assumes "buf = concat fs" "[] \<notin> set fs"
    and "encode_loop X E cenc mx src buf ub = ((src', buf', ub', err'), r)"
  shows "case r of
      Pending \<Rightarrow> fs = [] \<and> buf' = [] \<and> err' = None \<and> length src' < length src
        \<and> src_frames X E cenc mx src = src_frames X E cenc mx src'
        \<and> (all_encode X E cenc mx src \<longrightarrow> all_encode X E cenc mx src')
    | Ready None \<Rightarrow> fs = [] \<and> src_frames X E cenc mx src = ([], None)
    | Ready (Some (Inl st)) \<Rightarrow> snd (src_frames X E cenc mx src) = Some st
        \<and> (all_encode X E cenc mx src \<longrightarrow> fs @ fst (src_frames X E cenc mx src) = [])
    | Ready (Some (Inr d)) \<Rightarrow> buf' = [] \<and> (\<exists>gs. d = concat gs \<and>
        (case err' of
           Some st \<Rightarrow> fs @ fst (src_frames X E cenc mx src) = gs
             \<and> snd (src_frames X E cenc mx src) = Some st \<and> src \<noteq> []
         | None \<Rightarrow> fs @ fst (src_frames X E cenc mx src) = gs @ fst (src_frames X E cenc mx src')
             \<and> snd (src_frames X E cenc mx src) = snd (src_frames X E cenc mx src')
             \<and> (all_encode X E cenc mx src \<longrightarrow> all_encode X E cenc mx src')
             \<and> (length src' < length src \<or> src = [] \<and> src' = [] \<and> fs \<noteq> [])))"
  using assms
proof (induction X E cenc mx src buf ub arbitrary: fs rule: encode_loop.induct)
  case (1 X E cenc mx buf ub)
  then show ?case by (cases fs) auto
next
  case (2 X E cenc mx src buf ub)
  then show ?case by (cases fs) auto
next
  case (4 X E cenc mx status src buf ub)
  then show ?case by (cases fs) auto
next
  case (3 X E cenc mx item src buf ub)
  obtain b u q where ei: "encode_item X E buf ub cenc mx item = (b, u, q)" by (cases "encode_item X E buf ub cenc mx item")
  then have fr: "(b, q) = (case frame_of X E cenc mx item of Inl st \<Rightarrow> (buf, Inl st) | Inr f \<Rightarrow> (buf @ f, Inr ()))"
    using encode_item_frame [of X E buf ub cenc mx item] by simp
  show ?case
  proof (cases "frame_of X E cenc mx item")
    case (Inl st)
    then show ?thesis using "3.prems" ei fr by auto
  next
    case (Inr f)
    then have q: "b = buf @ f" "q = Inr ()" using fr by simp_all
    have f: "f \<noteq> []" using Inr by (auto simp: frame_of_Inr_iff)
    have src: "src_frames X E cenc mx (SrcItem item # src)
        = (f # fst (src_frames X E cenc mx src), snd (src_frames X E cenc mx src))"
      "all_encode X E cenc mx (SrcItem item # src) = all_encode X E cenc mx src"
      using Inr by (simp_all split: prod.splits)
    show ?thesis
    proof (cases "bs_yield_threshold (ec_settings E) \<le> length b")
      case True
      then have "src' = src" "buf' = []" "err' = None" "r = Ready (Some (Inr b))"
        using "3.prems"(3) ei q by auto
      moreover have "b = concat (fs @ [f])" using q "3.prems"(1) by simp
      ultimately show ?thesis
        unfolding src by (simp add: exI [of _ "fs @ [f]"])
    next
      case False
      have c: "b = concat (fs @ [f])" "[] \<notin> set (fs @ [f])"
        using q f "3.prems"(1,2) by auto
      have "encode_loop X E cenc mx src b u = ((src', buf', ub', err'), r)"
        using "3.prems"(3) ei q False by simp
      from "3.IH" [OF ei [symmetric] refl q(2) False c this] show ?thesis
        unfolding src by (auto split: poll.splits option.splits sum.splits)
    qed
  qed
qed

text \<open>
  What follows the data: the server's trailers carry the status, and \<open>Ok\<close> when nothing failed;
  the client's body ends with an error or with nothing.
\<close>

definition body_end :: "('h, 'x) ext \<Rightarrow> role \<Rightarrow> 'h status option \<Rightarrow> 'h body" where
  "body_end X role st =
     (case role of
        Server \<Rightarrow> [BFrame (FTrailers (fst (add_header X (case st of Some s \<Rightarrow> s | None \<Rightarrow> status_new X Ok []) (hm_empty X))))]
      | Client \<Rightarrow> (case st of Some s \<Rightarrow> [BErr s] | None \<Rightarrow> []))"

text \<open>What is still to come from a stream of frames, and how many polls it can take.\<close>

definition pending_frames :: "('h, 'x) ext \<Rightarrow> ('h, 'm) encoded_bytes \<Rightarrow> bytes list \<times> 'h status option" where
  "pending_frames X s =
     (case en_error s of Some st \<Rightarrow> ([], Some st)
      | None \<Rightarrow> src_frames X (en_encoder s) (en_compression s) (en_max_message_size s) (en_source s))"

definition pending_encode :: "('h, 'x) ext \<Rightarrow> ('h, 'm) encoded_bytes \<Rightarrow> bool" where
  "pending_encode X s =
     (en_error s \<noteq> None \<or> all_encode X (en_encoder s) (en_compression s) (en_max_message_size s) (en_source s))"

definition polls_left :: "('h, 'm) encoded_bytes \<Rightarrow> nat" where
  "polls_left s =
     (case en_error s of Some _ \<Rightarrow> 1 | None \<Rightarrow> length (en_source s) + (if en_buf s = [] then 1 else 2))"

lemma encoded_poll_frames:
  assumes "en_buf s = concat fs" "[] \<notin> set fs" "en_error s \<noteq> None \<longrightarrow> fs = []"
    and "encoded_poll_next X s = (s', r)"
  shows "case r of
      Pending \<Rightarrow> en_error s' = None \<and> en_buf s' = [] \<and> polls_left s' < polls_left s \<and> fs = []
        \<and> pending_frames X s = pending_frames X s' \<and> (pending_encode X s \<longrightarrow> pending_encode X s')
    | Ready None \<Rightarrow> fs @ fst (pending_frames X s) = [] \<and> snd (pending_frames X s) = None
    | Ready (Some (Inl st)) \<Rightarrow> snd (pending_frames X s) = Some st
        \<and> (pending_encode X s \<longrightarrow> fs @ fst (pending_frames X s) = [])
    | Ready (Some (Inr d)) \<Rightarrow> en_buf s' = [] \<and> polls_left s' < polls_left s \<and>
        (\<exists>gs. d = concat gs \<and> fs @ fst (pending_frames X s) = gs @ fst (pending_frames X s')
          \<and> snd (pending_frames X s) = snd (pending_frames X s')
          \<and> (pending_encode X s \<longrightarrow> pending_encode X s'))"
proof (cases "en_error s")
  case (Some st)
  then show ?thesis using assms by (auto simp: encoded_poll_next_def pending_frames_def)
next
  case None
  obtain src buf ub err where l: "encode_loop X (en_encoder s) (en_compression s) (en_max_message_size s)
      (en_source s) (en_buf s) (en_uncompression_buf s) = ((src, buf, ub, err), r)"
    and s': "s' = s\<lparr>en_source := src, en_buf := buf, en_uncompression_buf := ub, en_error := err\<rparr>"
    using assms(4) None by (auto simp: encoded_poll_next_def split: prod.splits)
  have p: "pending_frames X s = src_frames X (en_encoder s) (en_compression s) (en_max_message_size s) (en_source s)"
    "pending_encode X s = all_encode X (en_encoder s) (en_compression s) (en_max_message_size s) (en_source s)"
    "polls_left s = length (en_source s) + (if fs = [] then 1 else 2)"
    using None assms(1,2) by (cases fs; auto simp: pending_frames_def pending_encode_def polls_left_def)+
  from encode_loop_frames [OF assms(1,2) l] show ?thesis
    unfolding p
    by (cases r rule: poll.exhaust)
       (auto simp: s' pending_frames_def pending_encode_def polls_left_def
         split: option.splits sum.splits)
qed

lemma encoded_poll_params:
  "encoded_poll_next X s = (s', r) \<Longrightarrow> en_encoder s' = en_encoder s \<and> en_compression s' = en_compression s
     \<and> en_max_message_size s' = en_max_message_size s"
  by (auto simp: encoded_poll_next_def split: option.splits prod.splits)

lemma body_events_step:
  assumes "value_laws X" "percent_laws X" "base64_laws X" "eb_error b = None" "\<not> eb_is_end_stream b"
    and "encoded_poll_next X (eb_inner b) = (s', r)"
  shows "body_events X (Suc n) b = (case r of
      Pending \<Rightarrow> BPending # body_events X n (b\<lparr>eb_inner := s'\<rparr>)
    | Ready None \<Rightarrow> body_end X (eb_role b) None
    | Ready (Some (Inl st)) \<Rightarrow> body_end X (eb_role b) (Some st)
    | Ready (Some (Inr d)) \<Rightarrow> BFrame (FData d) # body_events X n (b\<lparr>eb_inner := s'\<rparr>))"
  using assms to_header_map_Inr [OF assms(1-3)]
  by (auto simp: encode_poll_frame_def encode_state_trailers_def body_end_def split: role.splits poll.splits option.splits sum.splits)

lemma body_events_frames:
  assumes laws: "value_laws X" "percent_laws X" "base64_laws X"
    and "en_buf (eb_inner b) = concat fs" "[] \<notin> set fs" "en_error (eb_inner b) \<noteq> None \<longrightarrow> fs = []"
    and "eb_error b = None" "\<not> eb_is_end_stream b" "polls_left (eb_inner b) \<le> n"
  shows "\<exists>evs k. data_only evs
    \<and> body_events X n b = evs @ body_end X (eb_role b) (snd (pending_frames X (eb_inner b)))
    \<and> body_data evs = concat (take k (fs @ fst (pending_frames X (eb_inner b))))
    \<and> (pending_encode X (eb_inner b) \<longrightarrow> length (fs @ fst (pending_frames X (eb_inner b))) \<le> k)"
  using assms(4-)
proof (induction n arbitrary: b fs)
  case 0
  then show ?case by (auto simp: polls_left_def split: option.splits if_splits)
next
  case (Suc n)
  obtain s' r where pn: "encoded_poll_next X (eb_inner b) = (s', r)" by fastforce
  let ?b' = "b\<lparr>eb_inner := s'\<rparr>"
  note step = encoded_poll_frames [OF Suc.prems(1-3) pn]
  note ev = body_events_step [OF laws Suc.prems(4,5) pn, of n]
  have IH: "\<exists>evs k. data_only evs \<and> body_events X n ?b' = evs @ body_end X (eb_role b) (snd (pending_frames X s')) \<and>
      body_data evs = concat (take k (fst (pending_frames X s'))) \<and>
      (pending_encode X s' \<longrightarrow> length (fst (pending_frames X s')) \<le> k)"
    if "en_buf s' = []" "polls_left s' < polls_left (eb_inner b)"
    using Suc.IH [of ?b' "[]"] that Suc.prems by auto
  consider "r = Pending" | "r = Ready None" | st where "r = Ready (Some (Inl st))" | d where "r = Ready (Some (Inr d))"
    by (metis poll.exhaust option.exhaust sum.exhaust)
  then show ?case
  proof cases
    case 1
    with step have s: "en_buf s' = []" "polls_left s' < polls_left (eb_inner b)" "fs = []"
      "pending_frames X (eb_inner b) = pending_frames X s'"
      "pending_encode X (eb_inner b) \<Longrightarrow> pending_encode X s'" by simp_all
    from IH [OF s(1,2)] obtain evs k where "data_only evs"
      "body_events X n ?b' = evs @ body_end X (eb_role b) (snd (pending_frames X s'))"
      "body_data evs = concat (take k (fst (pending_frames X s')))"
      "pending_encode X s' \<Longrightarrow> length (fst (pending_frames X s')) \<le> k" by blast
    then show ?thesis
      by (intro exI [of _ "BPending # evs"] exI [of _ k]) (use 1 s ev in auto)
  next
    case 4
    with step obtain gs where s: "en_buf s' = []" "polls_left s' < polls_left (eb_inner b)"
      "d = concat gs" "fs @ fst (pending_frames X (eb_inner b)) = gs @ fst (pending_frames X s')"
      "snd (pending_frames X (eb_inner b)) = snd (pending_frames X s')"
      "pending_encode X (eb_inner b) \<Longrightarrow> pending_encode X s'" by auto
    from IH [OF s(1,2)] obtain evs k where "data_only evs"
      "body_events X n ?b' = evs @ body_end X (eb_role b) (snd (pending_frames X s'))"
      "body_data evs = concat (take k (fst (pending_frames X s')))"
      "pending_encode X s' \<Longrightarrow> length (fst (pending_frames X s')) \<le> k" by blast
    then show ?thesis
      by (intro exI [of _ "BFrame (FData d) # evs"] exI [of _ "length gs + k"]) (use 4 s ev in auto)
  qed (use step ev in \<open>intro exI [of _ "[]"] exI [of _ 0]; simp\<close>)+
qed

lemma new_body_frames:
  "pending_frames X (encoded_bytes_new E src cenc mx) = src_frames X E cenc mx src"
  "pending_encode X (encoded_bytes_new E src cenc mx) = all_encode X E cenc mx src"
  "polls_left (encoded_bytes_new E src cenc mx) = length src + 1"
  by (simp_all add: pending_frames_def pending_encode_def polls_left_def encoded_bytes_new_def)

lemma new_body_events:
  assumes laws: "value_laws X" "percent_laws X" "base64_laws X" and n: "length src < n"
    and b: "b = new_server E src cenc mx \<or> b = new_client E src cenc mx"
  shows "\<exists>evs k. data_only evs
    \<and> body_events X n b = evs @ body_end X (eb_role b) (snd (src_frames X E cenc mx src))
    \<and> body_data evs = concat (take k (fst (src_frames X E cenc mx src)))
    \<and> (all_encode X E cenc mx src \<longrightarrow> length (fst (src_frames X E cenc mx src)) \<le> k)"
  using body_events_frames [OF laws, of b "[]" n] n b
  by (elim disjE) (simp_all add: new_server_def new_client_def new_body_frames,
    simp_all add: encoded_bytes_new_def)

lemma encode_loop_fail:
  assumes "\<forall>m\<in>set ms. \<exists>f. frame_of X E cenc mx m = Inr f" "frame_of X E cenc mx bad = Inl st"
    and "length (buf @ concat (fst (src_frames X E cenc mx (map SrcItem ms)))) < bs_yield_threshold (ec_settings E)"
  shows "\<exists>s'. encode_loop X E cenc mx (map SrcItem ms @ SrcItem bad # src) buf ub = (s', Ready (Some (Inl st)))"
  using assms
proof (induction ms arbitrary: buf ub)
  case Nil
  obtain b u q where ei: "encode_item X E buf ub cenc mx bad = (b, u, q)" by (cases "encode_item X E buf ub cenc mx bad")
  then show ?case
    using encode_item_frame [of X E buf ub cenc mx bad] Nil.prems(2) by simp
next
  case (Cons m ms)
  obtain f where f: "frame_of X E cenc mx m = Inr f" using Cons.prems(1) by auto
  obtain b u q where ei: "encode_item X E buf ub cenc mx m = (b, u, q)" by (cases "encode_item X E buf ub cenc mx m")
  then have q: "b = buf @ f" "q = Inr ()"
    using encode_item_frame [of X E buf ub cenc mx m] f by simp_all
  show ?case
    using Cons.IH [of "buf @ f" u] Cons.prems q f ei by (auto split: prod.splits)
qed

subsection \<open>Properties\<close>

text \<open>
  Encoding a message is atomic: on success the buffer gains exactly one frame, a flag that
  says whether the payload is compressed, its length in four big-endian bytes, and the payload,
  whose length obeys the limit and fits 32 bits; on failure the buffer is as it was before, and
  the status is one of the three the code names.
\<close>

theorem encode_item_atomic:
  "case encode_item X E buf ub cenc mx m of
     (buf', _, Inr _) \<Rightarrow> (\<exists>p. payload_of X E cenc m = Inr p \<and> length p \<le> send_limit mx \<and> length p < 2 ^ 32
        \<and> buf' = buf @ grpc_frame (cenc \<noteq> None) p)
   | (buf', _, Inl st) \<Rightarrow> buf' = buf \<and> st_code st \<in> {Internal, OutOfRange, ResourceExhausted}"
proof -
  obtain b u q where ei: "encode_item X E buf ub cenc mx m = (b, u, q)"
    by (cases "encode_item X E buf ub cenc mx m")
  then have fr: "(b, q) = (case frame_of X E cenc mx m of Inl st \<Rightarrow> (buf, Inl st) | Inr f \<Rightarrow> (buf @ f, Inr ()))"
    using encode_item_frame [of X E buf ub cenc mx m] by simp
  have code: "st_code st \<in> {Internal, OutOfRange, ResourceExhausted}" if "frame_of X E cenc mx m = Inl st" for st
    using that
    by (auto simp: frame_of_def payload_of_def finish_encoding_def Let_def
        split: sum.splits prod.splits option.splits if_splits)
  show ?thesis
    using ei fr code by (cases "frame_of X E cenc mx m") (auto simp: frame_of_Inr_iff)
qed

text \<open>
  C16: The body of a server's response, polled once more than its source has events, is complete:
  data frames (and pending polls), then exactly one trailers frame, last. The data is a whole
  number of the frames of the messages before the first failure, all of them when no message
  fails to encode; the trailers carry the failure's status, or \<open>Ok\<close> when there is none.
\<close>

theorem server_body_complete:
  assumes "value_laws X" "percent_laws X" "base64_laws X" "length src < n"
  shows "\<exists>evs k. data_only evs \<and>
    body_events X n (new_server E src cenc mx) = evs @ [BFrame (FTrailers (fst (add_header X
       (case snd (src_frames X E cenc mx src) of Some st \<Rightarrow> st | None \<Rightarrow> status_new X Ok []) (hm_empty X))))] \<and>
    body_data evs = concat (take k (fst (src_frames X E cenc mx src))) \<and>
    (all_encode X E cenc mx src \<longrightarrow> length (fst (src_frames X E cenc mx src)) \<le> k)"
  using new_body_events [OF assms, of "new_server E src cenc mx" E cenc mx]
  by (simp add: body_end_def) (simp add: new_server_def)

abbreviation raw_encoder :: "(alist, bytes) encoder" where
  "raw_encoder \<equiv> prost_encoder ref_ext raw_encode"

theorem server_body_complete_witness:
  "\<exists>evs. data_only evs \<and> body_data evs = [0, 0, 0, 0, 2, 7, 8] \<and>
     body_events ref_ext 4 (new_server raw_encoder [SrcItem [7, 8], SrcPending, SrcErr sample_status] None None)
       = evs @ [BFrame (FTrailers (fst (add_header ref_ext sample_status [])))]"
proof -
  let ?src = "[SrcItem [7, 8], SrcPending, SrcErr sample_status]"
  have f: "frame_of ref_ext raw_encoder None None [7, 8] = Inr [0, 0, 0, 0, 2, 7, 8]"
    by (simp add: frame_of_def payload_of_def prost_encoder_def prost_encode_def raw_encode_def
        finish_encoding_def HEADER_SIZE_def DEFAULT_MAX_SEND_MESSAGE_SIZE_def u32_be_def)
  have fs: "src_frames ref_ext raw_encoder None None ?src = ([[0, 0, 0, 0, 2, 7, 8]], Some sample_status)"
    and ae: "all_encode ref_ext raw_encoder None None ?src"
    by (simp_all add: f)
  have n: "length ?src < 4" by simp
  from server_body_complete [OF ref_value_laws ref_percent_laws ref_base64_laws n, of raw_encoder None None]
  obtain evs k where "data_only evs"
    "body_events ref_ext 4 (new_server raw_encoder ?src None None)
       = evs @ [BFrame (FTrailers (fst (add_header ref_ext sample_status [])))]"
    "body_data evs = concat (take k [[0, 0, 0, 0, 2, 7, 8]])" "1 \<le> k"
    unfolding fs using ae by (auto simp: ref_ops)
  then show ?thesis by (auto simp: take_Cons')
qed

text \<open>
  C20: A message that fails to encode takes the messages batched before it with it: when the
  frames before it stay below the yield threshold, the server's whole response is the trailers
  with the failure's status, and none of those messages is sent (an error of the source, by
  contrast, is held back until they are).
\<close>

theorem encode_error_drops_batch:
  assumes "value_laws X" "percent_laws X" "base64_laws X"
    and "\<forall>m\<in>set ms. \<exists>f. frame_of X E cenc mx m = Inr f" "frame_of X E cenc mx bad = Inl st"
    and "length (concat (fst (src_frames X E cenc mx (map SrcItem ms)))) < bs_yield_threshold (ec_settings E)"
  shows "body_events X (Suc n) (new_server E (map SrcItem ms @ SrcItem bad # src) cenc mx)
    = [BFrame (FTrailers (fst (add_header X st (hm_empty X))))]"
proof -
  obtain s' where "encode_loop X E cenc mx (map SrcItem ms @ SrcItem bad # src) [] [] = (s', Ready (Some (Inl st)))"
    using encode_loop_fail [OF assms(4,5), of "[]" src "[]"] assms(6) by auto
  then show ?thesis
    using to_header_map_Inr [OF assms(1-3)]
    by (auto simp: encode_poll_frame_def encoded_poll_next_def new_server_def encoded_bytes_new_def
        split: prod.splits)
qed

theorem encode_error_drops_batch_witness:
  "\<exists>st. body_events ref_ext 1 (new_server raw_encoder ([SrcItem [7]] @ SrcItem [255] # []) None None)
     = [BFrame (FTrailers (fst (add_header ref_ext st [])))]"
proof -
  have f: "frame_of ref_ext raw_encoder None None [7] = Inr [0, 0, 0, 0, 1, 7]"
    by (simp add: frame_of_def payload_of_def prost_encoder_def prost_encode_def raw_encode_def
        finish_encoding_def HEADER_SIZE_def DEFAULT_MAX_SEND_MESSAGE_SIZE_def u32_be_def)
  obtain st where b: "frame_of ref_ext raw_encoder None None [255] = Inl st"
    by (simp add: frame_of_def payload_of_def prost_encoder_def prost_encode_def raw_encode_def)
  have g: "\<forall>m\<in>set [[7]]. \<exists>f. frame_of ref_ext raw_encoder None None m = Inr f"
    and l: "length (concat (fst (src_frames ref_ext raw_encoder None None (map SrcItem [[7]]))))
      < bs_yield_threshold (ec_settings raw_encoder)"
    using f by (simp_all add: prost_encoder_def buffer_settings_default_def DEFAULT_YIELD_THRESHOLD_def)
  from encode_error_drops_batch [OF ref_value_laws ref_percent_laws ref_base64_laws g b l, of 0 "[]"]
  show ?thesis by (auto simp: ref_ops)
qed

end
