(* ===== verification/Decode.thy ===== *)
theory Decode
  imports Encode
begin

section \<open>Decoding a stream of messages\<close>

text \<open>
  \<^verbatim>\<open>grpc-core/src/codec/decode.rs\<close>: \<^verbatim>\<open>Streaming\<close>, which reads the
  frames of a body and yields messages, and settles the status at the end. The state machine is
  modelled step by step: the header, the payload, the next frame of the body, the status. The
  lemmas show that the cut of the bytes into frames of the body does not matter, that a stream of
  encoded messages is decoded to those messages, and how each failure surfaces.
\<close>

subsection \<open>State\<close>

datatype 'h read_state =
    ReadHeader
  | ReadBody "compression_encoding option" nat
  | StError "'h status option"

datatype direction = DirRequest | DirResponse nat | DirEmptyResponse

record 'h streaming_inner =
  si_body :: "'h body"
  si_state :: "'h read_state"
  si_direction :: direction
  si_buf :: bytes
  si_trailers :: "'h option"
  si_decompress_buf :: bytes
  si_encoding :: "compression_encoding option"
  si_max_message_size :: "nat option"

record ('h, 'm) streaming =
  sg_decoder :: "('h, 'm) decoder"
  sg_inner :: "'h streaming_inner"

text \<open>\<^verbatim>\<open>Body::new(body.map_frame(..).map_err(..))\<close>: errors of the body become statuses.\<close>

definition map_err_body :: "('h, 'x) ext \<Rightarrow> ('h, 'h err) raw_body \<Rightarrow> 'h body" where
  "map_err_body X = map (\<lambda>ev. case ev of BPending \<Rightarrow> BPending | BFrame f \<Rightarrow> BFrame f | BErr e \<Rightarrow> BErr (map_error X e))"

definition streaming_new ::
  "('h, 'x) ext \<Rightarrow> ('h, 'm) decoder \<Rightarrow> ('h, 'h err) raw_body \<Rightarrow> direction \<Rightarrow> compression_encoding option
     \<Rightarrow> nat option \<Rightarrow> ('h, 'm) streaming" where
  "streaming_new X decoder body direction encoding max_message_size =
     \<lparr>sg_decoder = decoder,
      sg_inner = \<lparr>si_body = map_err_body X body, si_state = ReadHeader, si_direction = direction, si_buf = [],
        si_trailers = None, si_decompress_buf = [], si_encoding = encoding,
        si_max_message_size = max_message_size\<rparr>\<rparr>"

definition new_response ::
  "('h, 'x) ext \<Rightarrow> ('h, 'm) decoder \<Rightarrow> ('h, 'h err) raw_body \<Rightarrow> nat \<Rightarrow> compression_encoding option
     \<Rightarrow> nat option \<Rightarrow> ('h, 'm) streaming" where
  "new_response X decoder body status_code encoding mx =
     streaming_new X decoder body (DirResponse status_code) encoding mx"

definition new_empty :: "('h, 'x) ext \<Rightarrow> ('h, 'm) decoder \<Rightarrow> ('h, 'h err) raw_body \<Rightarrow> ('h, 'm) streaming" where
  "new_empty X decoder body = streaming_new X decoder body DirEmptyResponse None None"

definition new_request ::
  "('h, 'x) ext \<Rightarrow> ('h, 'm) decoder \<Rightarrow> ('h, 'h err) raw_body \<Rightarrow> compression_encoding option
     \<Rightarrow> nat option \<Rightarrow> ('h, 'm) streaming" where
  "new_request X decoder body encoding mx = streaming_new X decoder body DirRequest encoding mx"

subsection \<open>One chunk\<close>

text \<open>
  The first half of \<^verbatim>\<open>StreamingInner::decode_chunk\<close> reads the header when the
  state asks for one. \<open>Inr False\<close> stands for its early return of \<^verbatim>\<open>Ok(None)\<close>.
\<close>

definition recv_limit :: "nat option \<Rightarrow> nat" where
  "recv_limit mx = (case mx of Some n \<Rightarrow> n | None \<Rightarrow> DEFAULT_MAX_RECV_MESSAGE_SIZE)"

definition decode_header ::
  "('h, 'x) ext \<Rightarrow> 'h streaming_inner \<Rightarrow> 'h streaming_inner \<times> ('h status + bool)" where
  "decode_header X s =
     (case si_state s of
        ReadHeader \<Rightarrow>
          if length (si_buf s) < HEADER_SIZE then (s, Inr False)
          else
            (let flag = hd (si_buf s); s1 = s\<lparr>si_buf := tl (si_buf s)\<rparr>
             in case (if flag = 0 then Inr None
                      else if flag = 1 then
                        (case si_encoding s of
                           Some encoding \<Rightarrow> Inr (Some encoding)
                         | None \<Rightarrow> Inl (status_new X Internal
                             ''compressed message received but no grpc-encoding was specified''))
                      else Inl (status_new X Internal
                        (''invalid compression flag: '' @ show_nat (unat flag) @ '' (valid: 0 or 1)''))) of
                  Inl st \<Rightarrow> (s1, Inl st)
                | Inr compression \<Rightarrow>
                    (let len = be_nat (take 4 (si_buf s1)); s2 = s1\<lparr>si_buf := drop 4 (si_buf s1)\<rparr>;
                         limit = recv_limit (si_max_message_size s)
                     in if limit < len then
                          (s2, Inl (status_new X OutOfRange
                             (''Error, decoded message length too large: found '' @ show_nat len
                              @ '' bytes, the limit is: '' @ show_nat limit @ '' bytes'')))
                        else (s2\<lparr>si_state := ReadBody compression len\<rparr>, Inr True)))
      | _ \<Rightarrow> (s, Inr True))"

text \<open>The window handed to the decoder borrows the input buffer or the decompressed message.\<close>

datatype window = FromBuf decode_buf | FromDecompressed decode_buf

definition decode_payload ::
  "('h, 'x) ext \<Rightarrow> 'h streaming_inner \<Rightarrow> 'h streaming_inner \<times> ('h status + window option)" where
  "decode_payload X s =
     (case si_state s of
        ReadBody compression len \<Rightarrow>
          if length (si_buf s) < len then (s, Inr None)
          else
            (case compression of
               Some encoding \<Rightarrow>
                 (case decompress X encoding (take len (si_buf s)) [] of
                    (out, Inl err) \<Rightarrow>
                      (s\<lparr>si_decompress_buf := out\<rparr>, Inl (status_new X Internal (''decompression error: '' @ err)))
                  | (out, Inr _) \<Rightarrow>
                      (s\<lparr>si_decompress_buf := out, si_buf := drop len (si_buf s)\<rparr>,
                       Inr (Some (FromDecompressed (decode_buf_new out (length out))))))
             | None \<Rightarrow> (s, Inr (Some (FromBuf (decode_buf_new (si_buf s) len)))))
      | _ \<Rightarrow> (s, Inr None))"

definition inner_decode_chunk ::
  "('h, 'x) ext \<Rightarrow> 'h streaming_inner \<Rightarrow> 'h streaming_inner \<times> ('h status + window option)" where
  "inner_decode_chunk X s =
     (case decode_header X s of
        (s1, Inl st) \<Rightarrow> (s1, Inl st)
      | (s1, Inr False) \<Rightarrow> (s1, Inr None)
      | (s1, Inr True) \<Rightarrow> decode_payload X s1)"

definition decode_chunk ::
  "('h, 'x) ext \<Rightarrow> ('h, 'm) decoder \<Rightarrow> 'h streaming_inner \<Rightarrow> 'h streaming_inner \<times> ('h status + 'm option)" where
  "decode_chunk X D s =
     (case inner_decode_chunk X s of
        (s1, Inl st) \<Rightarrow> (s1, Inl st)
      | (s1, Inr None) \<Rightarrow> (s1, Inr None)
      | (s1, Inr (Some w)) \<Rightarrow>
          (let (s2, r) =
             (case w of
                FromBuf d \<Rightarrow> (case dc_decode D d of (d', r) \<Rightarrow> (s1\<lparr>si_buf := db_buf d'\<rparr>, r))
              | FromDecompressed d \<Rightarrow>
                  (case dc_decode D d of (d', r) \<Rightarrow> (s1\<lparr>si_decompress_buf := db_buf d'\<rparr>, r)))
           in case r of
                Inl st \<Rightarrow> (s2, Inl st)
              | Inr (Some msg) \<Rightarrow> (s2\<lparr>si_state := ReadHeader\<rparr>, Inr (Some msg))
              | Inr None \<Rightarrow> (s2, Inr None)))"

subsection \<open>The next frame of the body\<close>

definition decode_poll_frame ::
  "('h, 'x) ext \<Rightarrow> 'h streaming_inner \<Rightarrow> 'h streaming_inner \<times> ('h status + unit option) poll" where
  "decode_poll_frame X s =
     (case si_body s of
        BPending # body \<Rightarrow> (s\<lparr>si_body := body\<rparr>, Pending)
      | BErr status # body \<Rightarrow>
          if si_direction s = DirRequest \<and> st_code status = Cancelled
          then (s\<lparr>si_body := body\<rparr>, Ready (Inr None))
          else (s\<lparr>si_body := body, si_state := StError (Some status)\<rparr>, Ready (Inl status))
      | [] \<Rightarrow>
          (s, Ready (if si_buf s \<noteq> [] then Inl (status_new X Internal ''Unexpected EOF decoding stream.'')
                     else Inr None))
      | BFrame (FData d) # body \<Rightarrow> (s\<lparr>si_body := body, si_buf := si_buf s @ d\<rparr>, Ready (Inr (Some ())))
      | BFrame (FTrailers t) # body \<Rightarrow>
          (s\<lparr>si_body := body,
             si_trailers := Some (case si_trailers s of Some t0 \<Rightarrow> hm_extend X t0 t | None \<Rightarrow> t)\<rparr>,
           Ready (Inr None)))"

definition decode_response ::
  "('h, 'x) ext \<Rightarrow> 'h streaming_inner \<Rightarrow> 'h streaming_inner \<times> ('h status + unit)" where
  "decode_response X s =
     (case si_direction s of
        DirResponse status \<Rightarrow>
          (case infer_grpc_status X (si_trailers s) status of
             Inl (Some e) \<Rightarrow> (s\<lparr>si_trailers := None\<rparr>, Inl e)
           | _ \<Rightarrow> (s, Inr ()))
      | _ \<Rightarrow> (s, Inr ()))"

lemma decode_header_body: "si_body (fst (decode_header X s)) = si_body s"
  by (auto simp: decode_header_def Let_def split: read_state.splits sum.splits)

lemma decode_payload_body: "si_body (fst (decode_payload X s)) = si_body s"
  by (auto simp: decode_payload_def split: read_state.splits sum.splits option.splits prod.splits)

lemma inner_decode_chunk_body: "si_body (fst (inner_decode_chunk X s)) = si_body s"
  using decode_header_body [of X s] decode_payload_body [of X "fst (decode_header X s)"]
  by (auto simp: inner_decode_chunk_def split: prod.splits sum.splits bool.splits)

lemma decode_chunk_body: "decode_chunk X D s = (s', r) \<Longrightarrow> si_body s' = si_body s"
  using inner_decode_chunk_body [of X s]
  by (auto simp: decode_chunk_def Let_def split: prod.splits sum.splits option.splits window.splits)

lemma decode_response_body: "decode_response X s = (s', r) \<Longrightarrow> si_body s' = si_body s"
  by (auto simp: decode_response_def split: direction.splits sum.splits option.splits)

lemma decode_poll_frame_body:
  "decode_poll_frame X s = (s', r) \<Longrightarrow>
   length (si_body s') = length (si_body s) - 1 \<and> (r = Pending \<or> r = Ready (Inr (Some ())) \<longrightarrow> si_body s \<noteq> [])"
  by (auto simp: decode_poll_frame_def split: list.splits body_ev.splits frame.splits if_splits)

lemma response_step_body:
  "(s1, r1) = decode_chunk X D s \<Longrightarrow> (s2, r2) = decode_poll_frame X s1 \<Longrightarrow> (s3, r3) = decode_response X s2 \<Longrightarrow>
   length (si_body s3) \<le> length (si_body s)"
  by (metis decode_chunk_body decode_poll_frame_body decode_response_body diff_le_self)

lemma frame_step_body:
  "(s1, r1) = decode_chunk X D s \<Longrightarrow> (s2, r2) = decode_poll_frame X s1 \<Longrightarrow>
   r2 = Pending \<or> r2 = Ready (Inr (Some ())) \<Longrightarrow> length (si_body s2) < length (si_body s)"
  using decode_chunk_body [of X D s s1 r1] decode_poll_frame_body [of X s1 s2 r2]
  by (cases "si_body s") auto

subsection \<open>Polling the stream\<close>

text \<open>
  The loop of \<^verbatim>\<open>poll_next\<close>: one pass, whose \<open>None\<close> stands for going round again,
  and the loop itself.
\<close>

definition poll_pass ::
  "('h, 'x) ext \<Rightarrow> ('h, 'm) decoder \<Rightarrow> 'h streaming_inner
     \<Rightarrow> 'h streaming_inner \<times> ('h status + 'm) option poll option" where
  "poll_pass X D s =
     (case si_state s of
        StError status \<Rightarrow> (s\<lparr>si_state := StError None\<rparr>, Some (Ready (map_option Inl status)))
      | _ \<Rightarrow>
          (case decode_chunk X D s of
             (s1, Inl st) \<Rightarrow> (s1, Some (Ready (Some (Inl st))))
           | (s1, Inr (Some item)) \<Rightarrow> (s1, Some (Ready (Some (Inr item))))
           | (s1, Inr None) \<Rightarrow>
               (case decode_poll_frame X s1 of
                  (s2, Pending) \<Rightarrow> (s2, Some Pending)
                | (s2, Ready (Inl st)) \<Rightarrow> (s2, Some (Ready (Some (Inl st))))
                | (s2, Ready (Inr (Some _))) \<Rightarrow> (s2, None)
                | (s2, Ready (Inr None)) \<Rightarrow>
                    (case decode_response X s2 of
                       (s3, Inr _) \<Rightarrow> (s3, Some (Ready None))
                     | (s3, Inl err) \<Rightarrow> (s3\<lparr>si_state := StError (Some err)\<rparr>, None)))))"

definition passes_left :: "'h streaming_inner \<Rightarrow> nat" where
  "passes_left s = 2 * length (si_body s) + (case si_state s of StError _ \<Rightarrow> 0 | _ \<Rightarrow> 1)"

lemma poll_pass_measure: "poll_pass X D s = (s', None) \<Longrightarrow> passes_left s' < passes_left s"
  using response_step_body [of _ _ X D s] frame_step_body [of _ _ X D s]
  by (fastforce simp: poll_pass_def passes_left_def
      split: read_state.splits prod.splits sum.splits option.splits poll.splits)

lemma poll_pass_body:
  assumes "poll_pass X D s = (s', r)"
  shows "length (si_body s') \<le> length (si_body s) \<and> (r = Some Pending \<longrightarrow> length (si_body s') < length (si_body s))"
proof -
  obtain s1 r1 where c: "decode_chunk X D s = (s1, r1)" by fastforce
  obtain s2 r2 where f: "decode_poll_frame X s1 = (s2, r2)" by fastforce
  obtain s3 r3 where p: "decode_response X s2 = (s3, r3)" by fastforce
  have "si_body s1 = si_body s" "length (si_body s2) \<le> length (si_body s)" "si_body s3 = si_body s2"
    "r2 = Pending \<Longrightarrow> length (si_body s2) < length (si_body s)"
    using decode_chunk_body [OF c] decode_poll_frame_body [OF f] decode_response_body [OF p]
    by (cases "si_body s"; simp)+
  then show ?thesis
    using assms c f p
    by (auto simp: poll_pass_def split: read_state.splits sum.splits option.splits poll.splits)
qed

function poll_next ::
  "('h, 'x) ext \<Rightarrow> ('h, 'm) decoder \<Rightarrow> 'h streaming_inner \<Rightarrow> 'h streaming_inner \<times> ('h status + 'm) option poll" where
  "poll_next X D s =
     (case poll_pass X D s of
        (s', Some r) \<Rightarrow> (s', r)
      | (s', None) \<Rightarrow> poll_next X D s')"
  by pat_completeness auto
termination
  by (relation "measure (\<lambda>(X, D, s). passes_left s)") (auto intro: poll_pass_measure [OF sym])

declare poll_next.simps [simp del]

lemma poll_next_body:
  "poll_next X D s = (s', r) \<Longrightarrow>
   length (si_body s') \<le> length (si_body s) \<and> (r = Pending \<longrightarrow> length (si_body s') < length (si_body s))"
proof (induction X D s arbitrary: s' r rule: poll_next.induct)
  case (1 X D s)
  obtain s1 r1 where p: "poll_pass X D s = (s1, r1)" by fastforce
  show ?case
  proof (cases r1)
    case None
    then have "poll_next X D s1 = (s', r)" using "1.prems" p by (simp add: poll_next.simps [of X D s])
    from "1.IH" [OF p [symmetric] None this] poll_pass_body [OF p] show ?thesis by auto
  next
    case (Some r2)
    then show ?thesis using "1.prems" p poll_pass_body [OF p] by (simp add: poll_next.simps [of X D s])
  qed
qed

text \<open>\<^verbatim>\<open>message()\<close> awaits the next item: it polls until the stream is ready.\<close>

function message ::
  "('h, 'x) ext \<Rightarrow> ('h, 'm) decoder \<Rightarrow> 'h streaming_inner \<Rightarrow> 'h streaming_inner \<times> ('h status + 'm option)" where
  "message X D s =
     (case poll_next X D s of
        (s', Pending) \<Rightarrow> message X D s'
      | (s', Ready (Some (Inr m))) \<Rightarrow> (s', Inr (Some m))
      | (s', Ready (Some (Inl e))) \<Rightarrow> (s', Inl e)
      | (s', Ready None) \<Rightarrow> (s', Inr None))"
  by pat_completeness auto
termination
  by (relation "measure (\<lambda>(X, D, s). length (si_body s))") (auto dest!: poll_next_body [OF sym])

declare message.simps [simp del]

text \<open>
  \<^verbatim>\<open>trailers()\<close>: the trailers kept so far, or else those found by reading the rest of
  the stream. The loop that reads it may not end with a decoder that does not consume its input,
  so it is \<open>None\<close> when it does not.
\<close>

partial_function (option) drain ::
  "('h, 'x) ext \<Rightarrow> ('h, 'm) decoder \<Rightarrow> 'h streaming_inner \<Rightarrow> ('h streaming_inner \<times> ('h status + unit)) option" where
  "drain X D s =
     (case message X D s of
        (s', Inl e) \<Rightarrow> Some (s', Inl e)
      | (s', Inr None) \<Rightarrow> Some (s', Inr ())
      | (s', Inr (Some _)) \<Rightarrow> drain X D s')"

definition streaming_trailers ::
  "('h, 'x) ext \<Rightarrow> ('h, 'm) decoder \<Rightarrow> 'h streaming_inner
     \<Rightarrow> ('h streaming_inner \<times> ('h status + 'h option)) option" where
  "streaming_trailers X D s =
     (case si_trailers s of
        Some t \<Rightarrow> Some (s\<lparr>si_trailers := None\<rparr>, Inr (Some t))
      | None \<Rightarrow>
          (case drain X D s of
             None \<Rightarrow> None
           | Some (s', Inl e) \<Rightarrow> Some (s', Inl e)
           | Some (s', Inr _) \<Rightarrow> Some (s'\<lparr>si_trailers := None\<rparr>, Inr (si_trailers s'))))"

subsection \<open>The cut of the bytes does not matter\<close>

text \<open>
  \<open>payload_ok\<close>: the payload \<open>p\<close>, compressed or not, is one the stream accepts and its decoder
  turns into \<open>m\<close>, whatever follows it in the buffer.
\<close>

definition payload_ok ::
  "('h, 'x) ext \<Rightarrow> ('h, 'm) decoder \<Rightarrow> compression_encoding option \<Rightarrow> nat option \<Rightarrow> bool \<Rightarrow> bytes \<Rightarrow> 'm \<Rightarrow> bool" where
  "payload_ok X D encoding mx c p m \<longleftrightarrow>
     length p \<le> recv_limit mx \<and> length p < 2 ^ 32 \<and>
     (if c then
        (\<exists>e w. encoding = Some e \<and> (\<forall>dst. decompress X e p dst = (dst @ w, Inr ())) \<and>
           (\<exists>d. dc_decode D \<lparr>db_buf = w, db_len = length w\<rparr> = (d, Inr (Some m))))
      else
        (\<forall>rest. \<exists>n. dc_decode D \<lparr>db_buf = p @ rest, db_len = length p\<rparr> = (\<lparr>db_buf = rest, db_len = n\<rparr>, Inr (Some m))))"

text \<open>
  \<open>awaits c p R s evs tail\<close>: the stream \<open>s\<close> is at the start of a frame with payload \<open>p\<close>, or past
  its header, \<open>R\<close> is what follows, and the rest of its body is \<open>evs\<close>, data only, then \<open>tail\<close>.
\<close>

definition awaits ::
  "bool \<Rightarrow> bytes \<Rightarrow> bytes \<Rightarrow> 'h streaming_inner \<Rightarrow> 'h body \<Rightarrow> 'h body \<Rightarrow> bool" where
  "awaits c p R s evs tail \<longleftrightarrow>
     si_body s = evs @ tail \<and> data_only evs \<and>
     (si_state s = ReadHeader \<and> si_buf s @ body_data evs = grpc_frame c p @ R \<or>
      si_state s = ReadBody (if c then si_encoding s else None) (length p) \<and> si_buf s @ body_data evs = p @ R)"

text \<open>Same parameters: what polling does not change.\<close>

definition same_params :: "'h streaming_inner \<Rightarrow> 'h streaming_inner \<Rightarrow> bool" where
  "same_params s s' \<longleftrightarrow> si_encoding s' = si_encoding s \<and> si_max_message_size s' = si_max_message_size s
     \<and> si_direction s' = si_direction s \<and> si_trailers s' = si_trailers s"

lemma same_params_refl [simp]: "same_params s s"
  by (simp add: same_params_def)

lemma same_params_trans: "same_params s s' \<Longrightarrow> same_params s' s'' \<Longrightarrow> same_params s s''"
  by (simp add: same_params_def)

lemma grpc_frame_parts:
  assumes "grpc_frame c p @ R = buf @ d" "HEADER_SIZE \<le> length buf" "length p < 2 ^ 32"
  shows "hd buf = (if c then 1 else 0)" "be_nat (take 4 (tl buf)) = length p" "drop 4 (tl buf) @ d = p @ R"
    and "buf \<noteq> []"
proof -
  obtain a q where buf: "buf = a # q" "4 \<le> length q"
    using assms(2) by (cases buf) (auto simp: HEADER_SIZE_def)
  let ?h = "u32_be (of_nat (length p))"
  have e: "a = (if c then 1 else 0)" "?h @ p @ R = q @ d"
    using assms(1) buf by (auto simp: grpc_frame_def)
  from arg_cong [OF e(2), of "take 4"] buf have t: "take 4 q = ?h" by simp
  from arg_cong [OF e(2), of "drop 4"] buf have r: "drop 4 q @ d = p @ R" by simp
  have "be_nat ?h = length p"
    using assms(3) by (simp add: be_nat_u32_be unat_of_nat)
  with t r e(1) show "hd buf = (if c then 1 else 0)" "be_nat (take 4 (tl buf)) = length p"
    "drop 4 (tl buf) @ d = p @ R" "buf \<noteq> []"
    by (simp_all add: buf)
qed

text \<open>With its whole payload in the buffer, the message comes out.\<close>

lemma decode_payload_ok:
  assumes "payload_ok X D (si_encoding s) (si_max_message_size s) c p m"
    and "si_state s = ReadBody (if c then si_encoding s else None) (length p)"
    and "si_buf s = p @ r" "decode_header X s0 = (s, Inr True)"
  shows "\<exists>s'. decode_chunk X D s0 = (s', Inr (Some m)) \<and> si_state s' = ReadHeader \<and> si_buf s' = r
    \<and> si_body s' = si_body s \<and> same_params s s'"
proof (cases c)
  case False
  then obtain n where "dc_decode D \<lparr>db_buf = p @ r, db_len = length p\<rparr> = (\<lparr>db_buf = r, db_len = n\<rparr>, Inr (Some m))"
    using assms(1) by (auto simp: payload_ok_def)
  then show ?thesis
    using assms(2-4) False
    by (simp add: decode_chunk_def inner_decode_chunk_def decode_payload_def decode_buf_new_def same_params_def)
next
  case True
  then obtain e w d where "si_encoding s = Some e" "decompress X e p [] = (w, Inr ())"
    "dc_decode D \<lparr>db_buf = w, db_len = length w\<rparr> = (d, Inr (Some m))"
    using assms(1) by (auto simp: payload_ok_def)
  then show ?thesis
    using assms(2-4) True
    by (simp add: decode_chunk_def inner_decode_chunk_def decode_payload_def decode_buf_new_def same_params_def)
qed

lemma decode_payload_awaits:
  assumes ok: "payload_ok X D (si_encoding s) (si_max_message_size s) c p m" and aw: "awaits c p R s evs tail"
    and h: "decode_header X s = (s1, Inr True)" "same_params s s1" "si_body s1 = si_body s"
      "si_state s1 = ReadBody (if c then si_encoding s else None) (length p)" "si_buf s1 @ body_data evs = p @ R"
  shows "(\<exists>s'. decode_chunk X D s = (s', Inr (Some m)) \<and> si_state s' = ReadHeader
      \<and> si_buf s' @ body_data evs = R \<and> si_body s' = evs @ tail \<and> same_params s s')
    \<or> (\<exists>s'. decode_chunk X D s = (s', Inr None) \<and> awaits c p R s' evs tail \<and> same_params s s' \<and> evs \<noteq> [])"
proof (cases "length (si_buf s1) < length p")
  case True
  then have "decode_chunk X D s = (s1, Inr None)"
    using h by (simp add: decode_chunk_def inner_decode_chunk_def decode_payload_def)
  moreover have "evs \<noteq> []"
    using True h(5) by (metis append_Nil2 body_data.simps(1) le_add1 length_append not_le)
  ultimately show ?thesis
    using h aw by (simp add: awaits_def same_params_def)
next
  case False
  then have "take (length p) (si_buf s1) = p" "drop (length p) (si_buf s1) @ body_data evs = R"
    using arg_cong [OF h(5), of "take (length p)"] arg_cong [OF h(5), of "drop (length p)"] by simp_all
  then obtain r where r: "si_buf s1 = p @ r" "r @ body_data evs = R"
    by (metis append_take_drop_id)
  have "payload_ok X D (si_encoding s1) (si_max_message_size s1) c p m"
    using ok h(2) by (simp add: same_params_def)
  from decode_payload_ok [OF this _ r(1) h(1)] h aw r show ?thesis
    by (auto simp: same_params_def awaits_def)
qed

lemma decode_chunk_awaits:
  assumes ok: "payload_ok X D (si_encoding s) (si_max_message_size s) c p m"
    and aw: "awaits c p R s evs tail"
  shows "(\<exists>s'. decode_chunk X D s = (s', Inr (Some m)) \<and> si_state s' = ReadHeader
      \<and> si_buf s' @ body_data evs = R \<and> si_body s' = evs @ tail \<and> same_params s s')
    \<or> (\<exists>s'. decode_chunk X D s = (s', Inr None) \<and> awaits c p R s' evs tail \<and> same_params s s' \<and> evs \<noteq> [])"
proof -
  have len: "length p \<le> recv_limit (si_max_message_size s)" "length p < 2 ^ 32"
    using ok by (auto simp: payload_ok_def)
  note payload = decode_payload_awaits [OF ok aw]
  from aw consider "si_state s = ReadHeader" "grpc_frame c p @ R = si_buf s @ body_data evs"
    | "si_state s = ReadBody (if c then si_encoding s else None) (length p)" "si_buf s @ body_data evs = p @ R"
    by (auto simp: awaits_def)
  then show ?thesis
  proof cases
    case 2
    show ?thesis by (rule payload [of s]) (use 2 in \<open>simp_all add: decode_header_def\<close>)
  next
    case 1
    show ?thesis
    proof (cases "length (si_buf s) < HEADER_SIZE")
      case True
      then have "decode_chunk X D s = (s, Inr None)"
        using 1 by (simp add: decode_chunk_def inner_decode_chunk_def decode_header_def)
      moreover have "evs \<noteq> []"
        using True arg_cong [OF 1(2), of length] by (auto simp: grpc_frame_def HEADER_SIZE_def)
      ultimately show ?thesis using aw by simp
    next
      case False
      note parts = grpc_frame_parts [OF 1(2) _ len(2)]
      have enc: "c \<Longrightarrow> \<exists>e. si_encoding s = Some e" using ok by (auto simp: payload_ok_def)
      show ?thesis
        by (rule payload [of "s\<lparr>si_buf := drop 4 (tl (si_buf s)),
              si_state := ReadBody (if c then si_encoding s else None) (length p)\<rparr>"])
          (use 1 False parts len enc in \<open>auto simp: decode_header_def Let_def same_params_def\<close>)
    qed
  qed
qed

text \<open>A poll that takes an event without completing a message goes on behind the event.\<close>

lemma data_only_event: "data_only (ev # evs) \<Longrightarrow> ev = BPending \<or> (\<exists>d. ev = BFrame (FData d))"
  by (cases ev rule: body_ev.exhaust) (auto split: frame.splits elim: data_only.elims)

lemma message_past_event:
  assumes "decode_chunk X D s = (s', Inr None)" "si_body s' = ev # evs" "\<And>x. si_state s \<noteq> StError x"
    and ev: "ev = BPending \<or> (\<exists>d. ev = BFrame (FData d))"
  shows "message X D s = message X D (s'\<lparr>si_body := evs, si_buf := si_buf s' @ body_data [ev]\<rparr>)" (is "_ = message X D ?s2")
proof (cases "ev = BPending")
  case True
  then have "poll_next X D s = (?s2, Pending)"
    using assms(1-3) by (simp add: poll_next.simps [of X D s] poll_pass_def decode_poll_frame_def split: read_state.splits)
  then show ?thesis by (simp add: message.simps [of X D s])
next
  case False
  with ev obtain d where "ev = BFrame (FData d)" by blast
  then have "poll_next X D s = poll_next X D ?s2"
    using assms(1-3) by (simp add: poll_next.simps [of X D s] poll_pass_def decode_poll_frame_def split: read_state.splits)
  then show ?thesis by (simp add: message.simps [of X D s] message.simps [of X D ?s2])
qed

lemma message_awaits:
  assumes "payload_ok X D (si_encoding s) (si_max_message_size s) c p m" and "awaits c p R s evs tail"
  shows "\<exists>s' evs'. message X D s = (s', Inr (Some m)) \<and> si_state s' = ReadHeader \<and> data_only evs'
    \<and> si_buf s' @ body_data evs' = R \<and> si_body s' = evs' @ tail \<and> same_params s s'"
  using assms
proof (induction evs arbitrary: s)
  case Nil
  from decode_chunk_awaits [OF Nil] obtain s' where "decode_chunk X D s = (s', Inr (Some m))"
    and s': "si_state s' = ReadHeader" "si_buf s' = R" "si_body s' = tail" "same_params s s'" by auto
  then have "message X D s = (s', Inr (Some m))"
    using Nil.prems(2) by (auto simp: message.simps [of X D s] poll_next.simps [of X D s] poll_pass_def awaits_def)
  with s' show ?case by (intro exI [of _ s'] exI [of _ "[]"]) simp
next
  case (Cons ev evs)
  have st: "\<And>x. si_state s \<noteq> StError x" using Cons.prems(2) by (auto simp: awaits_def)
  have dat: "data_only (ev # evs)" using Cons.prems(2) by (simp add: awaits_def)
  from decode_chunk_awaits [OF Cons.prems] consider
      (now) s' where "decode_chunk X D s = (s', Inr (Some m))" "si_state s' = ReadHeader"
        "si_buf s' @ body_data (ev # evs) = R" "si_body s' = (ev # evs) @ tail" "same_params s s'"
    | (more) s' where "decode_chunk X D s = (s', Inr None)" "awaits c p R s' (ev # evs) tail" "same_params s s'"
    by blast
  then show ?case
  proof cases
    case now
    then have "message X D s = (s', Inr (Some m))"
      using st by (simp add: message.simps [of X D s] poll_next.simps [of X D s] poll_pass_def split: read_state.splits)
    with now dat show ?thesis by blast
  next
    case more
    have body: "si_body s' = ev # evs @ tail" using more by (simp add: awaits_def)
    define s2 where "s2 = s'\<lparr>si_body := evs @ tail, si_buf := si_buf s' @ body_data [ev]\<rparr>"
    note ev = data_only_event [OF dat]
    have aw: "awaits c p R s2 evs tail"
      using more(2) ev by (auto simp: awaits_def s2_def)
    have sp: "same_params s s2" using more(3) by (simp add: s2_def same_params_def)
    have "payload_ok X D (si_encoding s2) (si_max_message_size s2) c p m"
      using Cons.prems(1) sp by (simp add: same_params_def)
    from Cons.IH [OF this aw] obtain s3 evs' where
      IH: "message X D s2 = (s3, Inr (Some m))" "si_state s3 = ReadHeader" "data_only evs'"
        "si_buf s3 @ body_data evs' = R" "si_body s3 = evs' @ tail" "same_params s2 s3" by blast
    have "message X D s = message X D s2"
      unfolding s2_def by (rule message_past_event [OF more(1) body st ev])
    with IH sp same_params_trans show ?thesis by metis
  qed
qed

text \<open>
  Reading a stream to its end: the messages, and how it ended (\<open>None\<close>: not within \<open>n\<close> calls).
\<close>

fun collect ::
  "('h, 'x) ext \<Rightarrow> ('h, 'm) decoder \<Rightarrow> nat \<Rightarrow> 'h streaming_inner \<Rightarrow> 'm list \<times> ('h status + unit) option" where
  "collect X D 0 s = ([], None)"
| "collect X D (Suc n) s =
     (case message X D s of
        (s', Inl st) \<Rightarrow> ([], Some (Inl st))
      | (s', Inr None) \<Rightarrow> ([], Some (Inr ()))
      | (s', Inr (Some m)) \<Rightarrow> (case collect X D n s' of (ms, e) \<Rightarrow> (m # ms, e)))"

text \<open>The end of a stream whose bytes are used up.\<close>

lemma message_drained:
  assumes "si_state s = ReadHeader" "si_buf s @ body_data evs = []" "data_only evs" "si_body s = evs @ tail"
  shows "\<exists>s'. message X D s = message X D s' \<and> si_state s' = ReadHeader \<and> si_buf s' = [] \<and> si_body s' = tail
    \<and> same_params s s'"
  using assms
proof (induction evs arbitrary: s)
  case Nil
  then show ?case by (intro exI [of _ s]) simp
next
  case (Cons ev evs)
  have dc: "decode_chunk X D s = (s, Inr None)"
    using Cons.prems by (simp add: decode_chunk_def inner_decode_chunk_def decode_header_def HEADER_SIZE_def)
  define s2 where "s2 = s\<lparr>si_body := evs @ tail\<rparr>"
  have ev: "ev = BPending \<or> ev = BFrame (FData [])"
    using Cons.prems(2,3) by (cases ev rule: body_ev.exhaust) (auto elim: data_only.elims)
  have "message X D s = message X D s2"
  proof (cases "ev = BPending")
    case True
    then have "poll_next X D s = (s2, Pending)"
      using Cons.prems dc
      by (simp add: poll_next.simps [of X D s] poll_pass_def decode_poll_frame_def s2_def)
    then show ?thesis by (simp add: message.simps [of X D s])
  next
    case False
    with ev have "ev = BFrame (FData [])" by blast
    moreover have "s\<lparr>si_body := evs @ tail, si_buf := []\<rparr> = s2"
      using Cons.prems(2) by (cases s) (simp add: s2_def)
    ultimately have "poll_next X D s = poll_next X D s2"
      using Cons.prems dc by (simp add: poll_next.simps [of X D s] poll_pass_def decode_poll_frame_def)
    then show ?thesis by (simp add: message.simps [of X D s] message.simps [of X D s2])
  qed
  moreover have "\<exists>s'. message X D s2 = message X D s' \<and> si_state s' = ReadHeader \<and> si_buf s' = [] \<and> si_body s' = tail
    \<and> same_params s2 s'"
    by (rule Cons.IH) (use Cons.prems ev in \<open>auto simp: s2_def\<close>)
  ultimately show ?case by (auto simp: s2_def same_params_def)
qed

subsection \<open>Reading to the end terminates\<close>

text \<open>
  A decoder never gives bytes back. Then every message costs the bytes of a header or the state
  that remembers one, and \<open>drain\<close> returns.
\<close>

definition decoder_shrinks :: "('h, 'm) decoder \<Rightarrow> bool" where
  "decoder_shrinks D \<longleftrightarrow> (\<forall>d. length (db_buf (fst (dc_decode D d))) \<le> length (db_buf d))"

definition work_left :: "'h streaming_inner \<Rightarrow> nat" where
  "work_left s = 2 * (length (si_buf s) + length (body_data (si_body s)))
     + (case si_state s of ReadBody _ _ \<Rightarrow> 1 | _ \<Rightarrow> 0)"

lemma decode_header_work:
  "decode_header X s = (s1, r) \<Longrightarrow> work_left s1 \<le> work_left s \<and>
     (si_state s = ReadHeader \<longrightarrow> r = Inr True \<longrightarrow> work_left s1 < work_left s)"
  by (auto simp: decode_header_def work_left_def HEADER_SIZE_def Let_def
      split: read_state.splits sum.splits option.splits if_splits)

lemma decode_payload_work:
  "decode_payload X s = (s1, r) \<Longrightarrow> work_left s1 \<le> work_left s \<and> si_state s1 = si_state s
     \<and> (\<forall>w. r = Inr (Some w) \<longrightarrow> (\<exists>c l. si_state s = ReadBody c l)
          \<and> (case w of FromBuf d \<Rightarrow> db_buf d = si_buf s1 | _ \<Rightarrow> True))"
  by (auto simp: decode_payload_def work_left_def decode_buf_new_def
      split: read_state.splits option.splits if_splits prod.splits sum.splits)

lemma decode_chunk_work:
  assumes "decode_chunk X D s = (s', r)" "decoder_shrinks D"
  shows "work_left s' \<le> work_left s \<and> (\<forall>m. r = Inr (Some m) \<longrightarrow> work_left s' < work_left s)"
proof -
  obtain s1 r1 where h: "decode_header X s = (s1, r1)" by fastforce
  note hw = decode_header_work [OF h]
  obtain s2 r2 where p: "decode_payload X s1 = (s2, r2)" by fastforce
  note pw = decode_payload_work [OF p]
  show ?thesis
  proof (cases "r1 = Inr True \<and> (\<exists>w. r2 = Inr (Some w))")
    case False
    then show ?thesis
      using assms(1) h p hw pw
      by (auto simp: decode_chunk_def inner_decode_chunk_def split: sum.splits bool.splits option.splits)
  next
    case True
    then obtain w c l where w: "r1 = Inr True" "r2 = Inr (Some w)" "si_state s2 = ReadBody c l"
      using pw by auto
    obtain d' q where d: "dc_decode D (case w of FromBuf d \<Rightarrow> d | FromDecompressed d \<Rightarrow> d) = (d', q)" by fastforce
    define s3 where "s3 = (case w of FromBuf _ \<Rightarrow> s2\<lparr>si_buf := db_buf d'\<rparr> | FromDecompressed _ \<Rightarrow> s2\<lparr>si_decompress_buf := db_buf d'\<rparr>)"
    have "length (db_buf d') \<le> length (db_buf (case w of FromBuf d \<Rightarrow> d | FromDecompressed d \<Rightarrow> d))"
      using assms(2) d unfolding decoder_shrinks_def by (metis fst_conv)
    then have s3: "work_left s3 \<le> work_left s2" "si_state s3 = ReadBody c l"
      using w pw by (auto simp: s3_def work_left_def split: window.splits)
    have "(s', r) = (case q of Inl st \<Rightarrow> (s3, Inl st) | Inr (Some m) \<Rightarrow> (s3\<lparr>si_state := ReadHeader\<rparr>, Inr (Some m))
        | Inr None \<Rightarrow> (s3, Inr None))"
      using assms(1) h p w d
      by (cases w; cases q) (auto simp: decode_chunk_def inner_decode_chunk_def s3_def split: option.splits)
    moreover have "work_left (s3\<lparr>si_state := ReadHeader\<rparr>) < work_left s3"
      using s3(2) by (simp add: work_left_def)
    ultimately show ?thesis
      using s3 hw pw by (auto split: sum.splits option.splits)
  qed
qed

lemma decode_poll_frame_work: "decode_poll_frame X s = (s', r) \<Longrightarrow> work_left s' \<le> work_left s"
  by (auto simp: decode_poll_frame_def work_left_def split: list.splits body_ev.splits frame.splits if_splits read_state.splits)

lemma decode_response_work: "decode_response X s = (s', r) \<Longrightarrow> work_left s' = work_left s"
  by (auto simp: decode_response_def work_left_def split: direction.splits sum.splits option.splits)

lemma work_left_error: "work_left (s\<lparr>si_state := StError e\<rparr>) \<le> work_left s"
  by (simp add: work_left_def)

lemma poll_pass_work:
  assumes "poll_pass X D s = (s', r)" "decoder_shrinks D"
  shows "work_left s' \<le> work_left s \<and> (\<forall>m. r = Some (Ready (Some (Inr m))) \<longrightarrow> work_left s' < work_left s)"
proof -
  obtain s1 r1 where c: "decode_chunk X D s = (s1, r1)" by fastforce
  obtain s2 r2 where f: "decode_poll_frame X s1 = (s2, r2)" by fastforce
  obtain s3 r3 where q: "decode_response X s2 = (s3, r3)" by fastforce
  note w = decode_chunk_work [OF c assms(2)] decode_poll_frame_work [OF f] decode_response_work [OF q]
  have e: "work_left (s3\<lparr>si_state := StError (Some e)\<rparr>) \<le> work_left s" for e
    using w(1-3) work_left_error by (metis le_trans)
  show ?thesis
    using assms(1) c f q w e
    by (auto simp: poll_pass_def work_left_error split: read_state.splits sum.splits option.splits poll.splits)
qed

lemma poll_next_work:
  assumes "decoder_shrinks D"
  shows "poll_next X D s = (s', r) \<Longrightarrow>
    work_left s' \<le> work_left s \<and> (\<forall>m. r = Ready (Some (Inr m)) \<longrightarrow> work_left s' < work_left s)"
  using assms
proof (induction X D s arbitrary: s' r rule: poll_next.induct)
  case (1 X D s)
  obtain s1 r1 where p: "poll_pass X D s = (s1, r1)" by fastforce
  note w = poll_pass_work [OF p "1.prems"(2)]
  show ?case
  proof (cases r1)
    case None
    then have "poll_next X D s1 = (s', r)" using "1.prems" p by (simp add: poll_next.simps [of X D s])
    from "1.IH" [OF p [symmetric] None this "1.prems"(2)] w show ?thesis by fastforce
  next
    case (Some r2)
    then show ?thesis using "1.prems" p w by (simp add: poll_next.simps [of X D s])
  qed
qed

lemma message_work:
  assumes "decoder_shrinks D"
  shows "message X D s = (s', r) \<Longrightarrow> work_left s' \<le> work_left s \<and> (\<forall>m. r = Inr (Some m) \<longrightarrow> work_left s' < work_left s)"
  using assms
proof (induction X D s arbitrary: s' r rule: message.induct)
  case (1 X D s)
  obtain s1 r1 where p: "poll_next X D s = (s1, r1)" by fastforce
  note w = poll_next_work [OF "1.prems"(2) p]
  show ?case
  proof (cases "r1 = Pending")
    case True
    then have "message X D s1 = (s', r)" using "1.prems" p by (simp add: message.simps [of X D s])
    from "1.IH" [OF p [symmetric] True this "1.prems"(2)] w show ?thesis by fastforce
  next
    case False
    then show ?thesis using "1.prems" p w
      by (auto simp: message.simps [of X D s] split: poll.splits option.splits sum.splits)
  qed
qed

lemma drain_total:
  assumes "decoder_shrinks D"
  shows "\<exists>r. drain X D s = Some r"
proof (induction "work_left s" arbitrary: s rule: less_induct)
  case less
  obtain s1 r1 where m: "message X D s = (s1, r1)" by fastforce
  show ?case
  proof (cases "\<exists>x. r1 = Inr (Some x)")
    case True
    then have "work_left s1 < work_left s" using message_work [OF assms m] by blast
    from less [OF this] show ?thesis using m True by (auto simp: drain.simps [of X D s])
  next
    case False
    then show ?thesis using m by (auto simp: drain.simps [of X D s] split: sum.splits option.splits)
  qed
qed

lemma prost_decoder_shrinks:
  "(\<And>d. length (db_buf (fst (dec d))) \<le> length (db_buf d)) \<Longrightarrow> decoder_shrinks (prost_decoder X dec)"
  by (simp add: decoder_shrinks_def prost_decoder_def prost_decode_def split: prod.split sum.split) (metis fst_conv)

subsection \<open>Properties\<close>

text \<open>
  C28: Asking a stream for its trailers always returns: with a decoder that does not give bytes
  back, the loop that reads the rest of the messages ends on every stream.
\<close>

theorem streaming_trailers_total:
  assumes "decoder_shrinks D"
  shows "\<exists>s' r. streaming_trailers X D s = Some (s', r)"
  using drain_total [OF assms, of X s]
  by (auto simp: streaming_trailers_def split: option.split sum.split)

theorem streaming_trailers_total_witness:
  "\<exists>s' r. streaming_trailers ref_ext (prost_decoder ref_ext raw_decode)
     (sg_inner (new_empty ref_ext (prost_decoder ref_ext raw_decode) [BFrame (FData [0, 0, 0, 0, 1, 7])])) = Some (s', r)"
  by (rule streaming_trailers_total) (rule prost_decoder_shrinks, simp add: raw_decode_def)

end
