(* ===== verification/Framing.thy ===== *)
theory Framing
  imports Decode
begin

section \<open>From encoder to decoder\<close>

text \<open>
  What ties the two halves of the codec together: the messages one side encodes are the
  messages the other side decodes, however the transport cuts the bytes, and the status one side
  ends with is the status the other side reports. The error behaviour of the decoder follows.
\<close>

subsection \<open>Reading whole streams\<close>

lemma collect_frames:
  assumes "\<forall>(c, p, m)\<in>set fr. payload_ok X D (si_encoding s) (si_max_message_size s) c p m"
    and "si_state s = ReadHeader" "data_only evs" "si_body s = evs @ tail"
    and "si_buf s @ body_data evs = concat (map (\<lambda>(c, p, m). grpc_frame c p) fr)" "length fr < n"
  shows "\<exists>s'. collect X D n s = (case collect X D (n - length fr) s' of (ms, e) \<Rightarrow> (map (\<lambda>(c, p, m). m) fr @ ms, e))
    \<and> si_state s' = ReadHeader \<and> si_buf s' = [] \<and> si_body s' = tail \<and> same_params s s'"
  using assms
proof (induction fr arbitrary: s evs n)
  case Nil
  obtain k where n: "n = Suc k" using Nil.prems(6) by (cases n) auto
  obtain s' where m: "message X D s = message X D s'"
    and s': "si_state s' = ReadHeader" "si_buf s' = []" "si_body s' = tail" "same_params s s'"
    using message_drained [of s evs tail X D] Nil.prems by auto
  have "collect X D n s = collect X D n s'" using m by (simp add: n)
  with s' show ?case by (intro exI [of _ s']) simp
next
  case (Cons cpm fr)
  obtain c p m where cpm: "cpm = (c, p, m)" by (cases cpm)
  obtain k where n: "n = Suc k" "length fr < k" using Cons.prems(6) by (cases n) auto
  let ?R = "concat (map (\<lambda>(c, p, m). grpc_frame c p) fr)"
  have ok: "payload_ok X D (si_encoding s) (si_max_message_size s) c p m"
    and aw: "awaits c p ?R s evs tail"
    using Cons.prems by (auto simp: awaits_def cpm)
  from message_awaits [OF ok aw] obtain s' evs' where
    m: "message X D s = (s', Inr (Some m))" "si_state s' = ReadHeader" "data_only evs'"
      "si_buf s' @ body_data evs' = ?R" "si_body s' = evs' @ tail" "same_params s s'" by blast
  have "\<forall>(c, p, m)\<in>set fr. payload_ok X D (si_encoding s') (si_max_message_size s') c p m"
    using Cons.prems(1) m(6) by (simp add: same_params_def)
  from Cons.IH [OF this m(2,3,5,4) n(2)] obtain s2 where
    "collect X D k s' = (case collect X D (k - length fr) s2 of (ms, e) \<Rightarrow> (map (\<lambda>(c, p, m). m) fr @ ms, e))"
    "si_state s2 = ReadHeader" "si_buf s2 = []" "si_body s2 = tail" "same_params s' s2" by blast
  then show ?case
    using m same_params_trans [OF m(6)] by (intro exI [of _ s2]) (simp add: n cpm split: prod.splits)
qed

lemma decode_chunk_empty:
  "si_state s = ReadHeader \<Longrightarrow> si_buf s = [] \<Longrightarrow> decode_chunk X D s = (s, Inr None)"
  by (simp add: decode_chunk_def inner_decode_chunk_def decode_header_def HEADER_SIZE_def)

lemma poll_next_error:
  "si_state s = StError st \<Longrightarrow> poll_next X D s = (s\<lparr>si_state := StError None\<rparr>, Ready (map_option Inl st))"
  by (simp add: poll_next.simps [of X D s] poll_pass_def)

text \<open>How a drained stream ends: by its trailers, by an error, or by the end of the body.\<close>

lemma message_end:
  assumes "si_state s = ReadHeader" "si_buf s = []"
  shows "si_body s = [] \<Longrightarrow> snd (message X D s) = (case snd (decode_response X s) of Inr _ \<Rightarrow> Inr None | Inl e \<Rightarrow> Inl e)"
    and "si_body s = BFrame (FTrailers t) # body \<Longrightarrow> si_trailers s = None \<Longrightarrow>
      snd (message X D s) = (case snd (decode_response X (s\<lparr>si_trailers := Some t\<rparr>)) of Inr _ \<Rightarrow> Inr None | Inl e \<Rightarrow> Inl e)"
    and "si_body s = BErr st # body \<Longrightarrow> \<not> (si_direction s = DirRequest \<and> st_code st = Cancelled) \<Longrightarrow>
      snd (message X D s) = Inl st"
proof -
  have go: "snd (message X D s) = (case snd (decode_response X s2) of Inr _ \<Rightarrow> Inr None | Inl e \<Rightarrow> Inl e)"
    if "decode_poll_frame X s = (s2, Ready (Inr None))" for s2
  proof -
    obtain s3 r where r: "decode_response X s2 = (s3, r)" by fastforce
    show ?thesis
      using assms that r decode_chunk_empty [OF assms, of X D]
      by (cases r) (simp_all add: message.simps [of X D s] poll_next.simps [of X D s] poll_pass_def
          poll_next_error)
  qed
  have resp: "snd (decode_response X (s\<lparr>si_body := b, si_trailers := tr\<rparr>))
      = snd (decode_response X (s\<lparr>si_trailers := tr\<rparr>))" for b tr
    by (simp add: decode_response_def split: direction.splits sum.splits option.splits)
  show "snd (message X D s) = (case snd (decode_response X s) of Inr _ \<Rightarrow> Inr None | Inl e \<Rightarrow> Inl e)" if "si_body s = []"
    using that assms by (intro go) (simp add: decode_poll_frame_def)
  show "snd (message X D s) = (case snd (decode_response X (s\<lparr>si_trailers := Some t\<rparr>)) of Inr _ \<Rightarrow> Inr None | Inl e \<Rightarrow> Inl e)"
    if "si_body s = BFrame (FTrailers t) # body" "si_trailers s = None"
    using that go [of "s\<lparr>si_body := body, si_trailers := Some t\<rparr>"] resp by (simp add: decode_poll_frame_def)
  show "snd (message X D s) = Inl st"
    if "si_body s = BErr st # body" "\<not> (si_direction s = DirRequest \<and> st_code st = Cancelled)"
    using that assms decode_chunk_empty [OF assms, of X D]
    by (auto simp: message.simps [of X D s] poll_next.simps [of X D s] poll_pass_def decode_poll_frame_def)
qed

lemma collect_end:
  "collect X D (Suc n) s = (case snd (message X D s) of Inl st \<Rightarrow> ([], Some (Inl st)) | Inr None \<Rightarrow> ([], Some (Inr ()))
     | Inr (Some m) \<Rightarrow> (case collect X D n (fst (message X D s)) of (ms, e) \<Rightarrow> (m # ms, e)))"
  by (cases "message X D s") (simp split: sum.splits option.splits)

subsection \<open>What an encoded message needs of the decoder\<close>

lemma payload_of_ok:
  assumes "codec_laws E D" "compressor_laws X" "payload_of X E cenc m = Inr p"
    and "length p \<le> recv_limit mx" "length p < 2 ^ 32"
  shows "payload_ok X D cenc mx (cenc \<noteq> None) p m"
proof -
  obtain w where w: "ec_encode E m = (w, Inr ())"
    and p: "case cenc of None \<Rightarrow> p = w | Some e \<Rightarrow> compress X e w [] = (p, Inr ())"
    using assms(3) by (auto simp: payload_of_def split: prod.splits sum.splits option.splits)
  have d: "dc_decode D \<lparr>db_buf = w @ rest, db_len = length w\<rparr> = (\<lparr>db_buf = rest, db_len = 0\<rparr>, Inr (Some m))" for rest
    using assms(1) w by (simp add: codec_laws_def)
  show ?thesis
  proof (cases cenc)
    case None
    then show ?thesis using p d assms(4,5) by (auto simp: payload_ok_def)
  next
    case (Some e)
    then have "decompress X e p dst = (dst @ w, Inr ())" for dst
      using p decompress_compress [OF assms(2)] by simp
    then show ?thesis using Some d [of "[]"] assms(4,5) by (auto simp: payload_ok_def)
  qed
qed

text \<open>The messages of a source before its first error.\<close>

fun src_items :: "('h, 'm) src_ev list \<Rightarrow> 'm list" where
  "src_items [] = []"
| "src_items (SrcPending # src) = src_items src"
| "src_items (SrcItem m # src) = m # src_items src"
| "src_items (SrcErr st # src) = []"

lemma src_frames_payloads:
  assumes "all_encode X E cenc mx src"
  shows "\<exists>fr. fst (src_frames X E cenc mx src) = map (\<lambda>(c, p, m). grpc_frame c p) fr \<and>
    map (\<lambda>(c, p, m). m) fr = src_items src \<and>
    (\<forall>(c, p, m)\<in>set fr. c = (cenc \<noteq> None) \<and> m \<in> set (src_items src) \<and> payload_of X E cenc m = Inr p \<and> length p < 2 ^ 32)"
  using assms
proof (induction src rule: src_items.induct)
  case (3 m src)
  obtain f where f: "frame_of X E cenc mx m = Inr f" "all_encode X E cenc mx src"
    using "3.prems" by (auto split: sum.splits)
  then obtain p where p: "payload_of X E cenc m = Inr p" "length p < 2 ^ 32" "f = grpc_frame (cenc \<noteq> None) p"
    by (auto simp: frame_of_Inr_iff)
  from "3.IH" [OF f(2)] obtain fr where IH: "fst (src_frames X E cenc mx src) = map (\<lambda>(c, p, m). grpc_frame c p) fr"
    "map (\<lambda>(c, p, m). m) fr = src_items src"
    "\<forall>(c, p, m)\<in>set fr. c = (cenc \<noteq> None) \<and> m \<in> set (src_items src) \<and> payload_of X E cenc m = Inr p \<and> length p < 2 ^ 32"
    by blast
  show ?case
    by (rule exI [of _ "(cenc \<noteq> None, p, m) # fr"]) (use f p IH in \<open>auto split: prod.splits\<close>)
qed auto

text \<open>A transport that reports the sender's own statuses as the errors of the body.\<close>

definition as_raw :: "'h body \<Rightarrow> ('h, 'h err) raw_body" where
  "as_raw = map (\<lambda>ev. case ev of BPending \<Rightarrow> BPending | BFrame f \<Rightarrow> BFrame f | BErr st \<Rightarrow> BErr (EStatus st))"

lemma map_err_as_raw: "map_err_body X (as_raw evs) = evs"
  by (induction evs) (auto simp: as_raw_def map_err_body_def map_error_def from_error_def split: body_ev.splits)

lemma decoded_frames:
  assumes "codec_laws E D" "compressor_laws X" "all_encode X E cenc mxs src"
    and "\<forall>m\<in>set (src_items src). \<forall>p. payload_of X E cenc m = Inr p \<longrightarrow> length p \<le> recv_limit mxr"
    and "data_only evs" "body_data evs = concat (fst (src_frames X E cenc mxs src))"
    and "s = sg_inner (streaming_new X D (as_raw (evs @ tail)) dir cenc mxr)"
  shows "\<exists>s'. collect X D (Suc (length (src_items src))) s =
      (case collect X D (Suc 0) s' of (ms, e) \<Rightarrow> (src_items src @ ms, e))
    \<and> si_state s' = ReadHeader \<and> si_buf s' = [] \<and> si_body s' = tail \<and> same_params s s'"
proof -
  obtain fr where fr: "fst (src_frames X E cenc mxs src) = map (\<lambda>(c, p, m). grpc_frame c p) fr"
    "map (\<lambda>(c, p, m). m) fr = src_items src"
    "\<forall>(c, p, m)\<in>set fr. c = (cenc \<noteq> None) \<and> m \<in> set (src_items src) \<and> payload_of X E cenc m = Inr p \<and> length p < 2 ^ 32"
    using src_frames_payloads [OF assms(3)] by blast
  have len: "length fr = length (src_items src)" using fr(2) by (metis length_map)
  have s: "si_state s = ReadHeader" "si_buf s = []" "si_body s = evs @ tail" "si_encoding s = cenc"
    "si_max_message_size s = mxr"
    by (simp_all add: assms(7) streaming_new_def map_err_as_raw)
  have ok: "\<forall>(c, p, m)\<in>set fr. payload_ok X D (si_encoding s) (si_max_message_size s) c p m"
    using fr(3) assms(4) payload_of_ok [OF assms(1,2)] s by fastforce
  from collect_frames [OF ok s(1) assms(5) s(3), of "Suc (length fr)"] show ?thesis
    using s assms(6) fr len by simp
qed

text \<open>What a server puts on the wire for a stream, and how a client reads it.\<close>

lemma server_stream_sent:
  assumes "value_laws X" "percent_laws X" "base64_laws X" "all_encode X E cenc mxs src" "length src < n"
    and "final = (case snd (src_frames X E cenc mxs src) of Some st \<Rightarrow> st | None \<Rightarrow> status_new X Ok [])"
  shows "\<exists>sent. data_only sent \<and> body_data sent = concat (fst (src_frames X E cenc mxs src)) \<and>
    body_events X n (new_server E src cenc mxs) = sent @ [BFrame (FTrailers (fst (add_header X final (hm_empty X))))]"
  using new_body_events [OF assms(1-3,5), of "new_server E src cenc mxs" E cenc mxs] assms(4,6)
  by (auto simp: body_end_def new_server_def)

lemma response_stream_read:
  assumes "codec_laws E D" "compressor_laws X" "all_encode X E cenc mxs src"
    and "\<forall>m\<in>set (src_items src). \<forall>p. payload_of X E cenc m = Inr p \<longrightarrow> length p \<le> recv_limit mxr"
    and "data_only evs" "body_data evs = concat (fst (src_frames X E cenc mxs src))"
    and "from_header_map X t = Some st"
  shows "collect X D (Suc (length (src_items src)))
      (sg_inner (new_response X D (as_raw (evs @ [BFrame (FTrailers t)])) 200 cenc mxr))
    = (src_items src, Some (if st_code st = Ok then Inr () else Inl st))"
proof -
  let ?s = "sg_inner (new_response X D (as_raw (evs @ [BFrame (FTrailers t)])) 200 cenc mxr)"
  from decoded_frames [OF assms(1-6), of ?s] obtain s' where s':
    "collect X D (Suc (length (src_items src))) ?s = (case collect X D (Suc 0) s' of (ms, e) \<Rightarrow> (src_items src @ ms, e))"
    "si_state s' = ReadHeader" "si_buf s' = []" "si_body s' = [BFrame (FTrailers t)]" "same_params ?s s'"
    by (auto simp: new_response_def)
  have par: "si_trailers s' = None" "si_direction s' = DirResponse 200"
    using s'(5) by (simp_all add: same_params_def new_response_def streaming_new_def)
  have "snd (message X D s') = (if st_code st = Ok then Inr None else Inl st)"
    using message_end(2) [OF s'(2,3,4) par(1), of X D] par(2) assms(7)
    by (simp add: decode_response_def infer_grpc_status_def)
  then have "collect X D (Suc 0) s' = ([], Some (if st_code st = Ok then Inr () else Inl st))"
    unfolding collect_end by simp
  with s'(1) show ?thesis by simp
qed

text \<open>The same for a client's stream and the server that reads it.\<close>

lemma client_stream_sent:
  assumes "value_laws X" "percent_laws X" "base64_laws X" "all_encode X E cenc mxs src" "length src < n"
    and "snd (src_frames X E cenc mxs src) = None"
  shows "data_only (body_events X n (new_client E src cenc mxs)) \<and>
    body_data (body_events X n (new_client E src cenc mxs)) = concat (fst (src_frames X E cenc mxs src))"
  using new_body_events [OF assms(1-3,5), of "new_client E src cenc mxs" E cenc mxs] assms(4,6)
  by (auto simp: body_end_def new_client_def)

lemma request_stream_read:
  assumes "codec_laws E D" "compressor_laws X" "all_encode X E cenc mxs src"
    and "\<forall>m\<in>set (src_items src). \<forall>p. payload_of X E cenc m = Inr p \<longrightarrow> length p \<le> recv_limit mxr"
    and "data_only evs" "body_data evs = concat (fst (src_frames X E cenc mxs src))"
  shows "collect X D (Suc (length (src_items src))) (sg_inner (new_request X D (as_raw evs) cenc mxr))
    = (src_items src, Some (Inr ()))"
proof -
  let ?s = "sg_inner (new_request X D (as_raw evs) cenc mxr)"
  from decoded_frames [OF assms(1-6), of ?s "[]"] obtain s' where s':
    "collect X D (Suc (length (src_items src))) ?s = (case collect X D (Suc 0) s' of (ms, e) \<Rightarrow> (src_items src @ ms, e))"
    "si_state s' = ReadHeader" "si_buf s' = []" "si_body s' = []" "same_params ?s s'"
    by (auto simp: new_request_def)
  have "si_direction s' = DirRequest"
    using s'(5) by (simp add: same_params_def new_request_def streaming_new_def)
  then have "snd (message X D s') = Inr None"
    using message_end(1) [OF s'(2,3,4), of X D] by (simp add: decode_response_def)
  then have "collect X D (Suc 0) s' = ([], Some (Inr ()))" unfolding collect_end by simp
  with s'(1) show ?thesis by simp
qed

subsection \<open>The receive limit\<close>

definition within_limit :: "'h streaming_inner \<Rightarrow> bool" where
  "within_limit s = (case si_state s of ReadBody _ len \<Rightarrow> len \<le> recv_limit (si_max_message_size s) | _ \<Rightarrow> True)"

lemma within_limit_upd [simp]:
  "within_limit (s\<lparr>si_body := b\<rparr>) = within_limit s" "within_limit (s\<lparr>si_buf := q\<rparr>) = within_limit s"
  "within_limit (s\<lparr>si_trailers := t\<rparr>) = within_limit s"
  "within_limit (s\<lparr>si_decompress_buf := q\<rparr>) = within_limit s"
  "within_limit (s\<lparr>si_state := StError e\<rparr>)" "within_limit (s\<lparr>si_state := ReadHeader\<rparr>)"
  by (simp_all add: within_limit_def split: read_state.split)

lemma decode_header_limit:
  "decode_header X s = (s', r) \<Longrightarrow> within_limit s \<Longrightarrow> within_limit s'"
  by (auto simp: decode_header_def within_limit_def Let_def split: read_state.splits sum.splits option.splits if_splits)

lemma decode_payload_limit:
  "decode_payload X s = (s', r) \<Longrightarrow> within_limit s \<Longrightarrow> within_limit s' \<and>
     (\<forall>d. r = Inr (Some (FromBuf d)) \<longrightarrow> db_len d \<le> recv_limit (si_max_message_size s) \<and> db_len d \<le> length (db_buf d))"
  by (auto simp: decode_payload_def within_limit_def decode_buf_new_def
      split: read_state.splits sum.splits option.splits if_splits prod.splits)

lemma inner_decode_chunk_limit:
  assumes "inner_decode_chunk X s = (s', r)" "within_limit s"
  shows "within_limit s' \<and> (\<forall>d. r = Inr (Some (FromBuf d)) \<longrightarrow>
    db_len d \<le> recv_limit (si_max_message_size s) \<and> db_len d \<le> length (db_buf d))"
proof -
  obtain s1 r1 where h: "decode_header X s = (s1, r1)" by fastforce
  have w: "within_limit s1" using decode_header_limit [OF h assms(2)] .
  have mx: "si_max_message_size s1 = si_max_message_size s"
    using h by (auto simp: decode_header_def Let_def split: read_state.splits sum.splits option.splits if_splits)
  obtain s2 r2 where p: "decode_payload X s1 = (s2, r2)" by fastforce
  show ?thesis
    using assms(1) h w decode_payload_limit [OF p w] mx p
    by (auto simp: inner_decode_chunk_def split: sum.splits bool.splits)
qed

lemma decode_chunk_limit: "decode_chunk X D s = (s', r) \<Longrightarrow> within_limit s \<Longrightarrow> within_limit s'"
  using inner_decode_chunk_limit [of X s]
  by (auto simp: decode_chunk_def Let_def split: prod.splits sum.splits option.splits window.splits)

lemma poll_pass_limit: "poll_pass X D s = (s', r) \<Longrightarrow> within_limit s \<Longrightarrow> within_limit s'"
proof -
  assume p: "poll_pass X D s = (s', r)" and w: "within_limit s"
  obtain s1 r1 where c: "decode_chunk X D s = (s1, r1)" by fastforce
  obtain s2 r2 where f: "decode_poll_frame X s1 = (s2, r2)" by fastforce
  obtain s3 r3 where q: "decode_response X s2 = (s3, r3)" by fastforce
  have "within_limit s1" using decode_chunk_limit [OF c w] .
  moreover from this f have "within_limit s2"
    by (auto simp: decode_poll_frame_def split: list.splits body_ev.splits frame.splits if_splits)
  moreover from this q have "within_limit s3"
    by (auto simp: decode_response_def split: direction.splits sum.splits option.splits)
  ultimately show "within_limit s'"
    using p c f q w
    by (auto simp: poll_pass_def split: read_state.splits sum.splits option.splits poll.splits)
qed

subsection \<open>A stream that is cut off\<close>

text \<open>The body plays no part in decoding the bytes already received.\<close>

lemma decode_chunk_any_body:
  "decode_chunk X D (s\<lparr>si_body := b\<rparr>) = (case decode_chunk X D s of (s', r) \<Rightarrow> (s'\<lparr>si_body := b\<rparr>, r))"
proof -
  have h: "decode_header X (s\<lparr>si_body := b\<rparr>) = (case decode_header X s of (s', r) \<Rightarrow> (s'\<lparr>si_body := b\<rparr>, r))" for s
    by (cases s) (simp add: decode_header_def Let_def split: read_state.split sum.split option.split)
  have p: "decode_payload X (s\<lparr>si_body := b\<rparr>) = (case decode_payload X s of (s', r) \<Rightarrow> (s'\<lparr>si_body := b\<rparr>, r))" for s
    by (cases s) (simp add: decode_payload_def Let_def split: read_state.split sum.split option.split prod.split)
  have i: "inner_decode_chunk X (s\<lparr>si_body := b\<rparr>) = (case inner_decode_chunk X s of (s', r) \<Rightarrow> (s'\<lparr>si_body := b\<rparr>, r))" for s
    by (simp add: inner_decode_chunk_def h p split: sum.split bool.split prod.split)
  have upd: "(s'\<lparr>si_body := b\<rparr>)\<lparr>si_buf := q\<rparr> = s'\<lparr>si_buf := q\<rparr>\<lparr>si_body := b\<rparr>"
    "(s'\<lparr>si_body := b\<rparr>)\<lparr>si_decompress_buf := q\<rparr> = s'\<lparr>si_decompress_buf := q\<rparr>\<lparr>si_body := b\<rparr>"
    "(s'\<lparr>si_body := b\<rparr>)\<lparr>si_state := t\<rparr> = s'\<lparr>si_state := t\<rparr>\<lparr>si_body := b\<rparr>"
    for s' :: "'a streaming_inner" and q t by simp_all
  show ?thesis
    by (simp add: decode_chunk_def i Let_def upd split: sum.split option.split prod.split window.split)
qed

lemma decode_chunk_short:
  "decode_chunk X D s = (s', Inr None) \<Longrightarrow> si_state s' = ReadHeader \<Longrightarrow> length (si_buf s') < HEADER_SIZE"
  by (auto simp: decode_chunk_def inner_decode_chunk_def decode_header_def decode_payload_def Let_def
      split: prod.splits sum.splits option.splits window.splits read_state.splits if_splits bool.splits)

lemma body_data_snoc: "body_data (xs @ [BFrame (FData d)]) = body_data xs @ d"
  by (induction xs rule: body_data.induct) auto

lemma data_only_snoc: "data_only (xs @ [BFrame (FData d)]) = data_only xs"
  by (induction xs rule: data_only.induct) auto

lemma awaits_decode:
  assumes "payload_ok X D (si_encoding s) (si_max_message_size s) c p m" "q \<noteq> []"
    and "awaits c p [] (s\<lparr>si_body := evs @ [BFrame (FData q)]\<rparr>) (evs @ [BFrame (FData q)]) []"
  obtains s' where "decode_chunk X D s = (s', Inr None)"
    and "awaits c p [] (s'\<lparr>si_body := evs @ [BFrame (FData q)]\<rparr>) (evs @ [BFrame (FData q)]) []"
    and "same_params s s'" "si_body s' = si_body s"
proof -
  obtain s' r where d: "decode_chunk X D s = (s', r)" by fastforce
  have v: "decode_chunk X D (s\<lparr>si_body := evs @ [BFrame (FData q)]\<rparr>) = (s'\<lparr>si_body := evs @ [BFrame (FData q)]\<rparr>, r)"
    using decode_chunk_any_body [of X D _ s] d by simp
  have ok: "payload_ok X D (si_encoding (s\<lparr>si_body := evs @ [BFrame (FData q)]\<rparr>))
      (si_max_message_size (s\<lparr>si_body := evs @ [BFrame (FData q)]\<rparr>)) c p m" using assms(1) by simp
  have "body_data (evs @ [BFrame (FData q)]) \<noteq> []" unfolding body_data_snoc using assms(2) by simp
  with decode_chunk_awaits [OF ok assms(3)] v
  have "r = Inr None" "awaits c p [] (s'\<lparr>si_body := evs @ [BFrame (FData q)]\<rparr>) (evs @ [BFrame (FData q)]) []" "same_params s s'"
    by (auto simp: same_params_def)
  with d decode_chunk_body [OF d] show thesis using that by blast
qed

text \<open>The buffer is empty behind a part of a message only when the part ends with the frame's header.\<close>

lemma awaits_buffer:
  assumes "awaits c p [] (s\<lparr>si_body := [BFrame (FData q)]\<rparr>) [BFrame (FData q)] []"
    and "decode_chunk X D s0 = (s, Inr None)" "length q < HEADER_SIZE + length p"
  shows "si_buf s = [] \<longleftrightarrow> length q = length p"
proof (cases "si_state s = ReadHeader")
  case True
  then have "si_buf s @ q = grpc_frame c p" using assms(1) by (simp add: awaits_def)
  from arg_cong [OF this, of length] have "length (si_buf s) + length q = HEADER_SIZE + length p"
    by (simp add: grpc_frame_def HEADER_SIZE_def)
  moreover have "length (si_buf s) < HEADER_SIZE" by (rule decode_chunk_short [OF assms(2) True])
  ultimately show ?thesis using assms(3) by auto
next
  case False
  then have "si_buf s @ q = p" using assms(1) by (auto simp: awaits_def)
  from arg_cong [OF this, of length] show ?thesis by auto
qed

lemma message_truncated:
  assumes "payload_ok X D (si_encoding s) (si_max_message_size s) c p m"
    and "awaits c p [] (s\<lparr>si_body := evs @ [BFrame (FData q)]\<rparr>) (evs @ [BFrame (FData q)]) []"
    and "si_body s = evs" "data_only evs" "q \<noteq> []" "length q < HEADER_SIZE + length p" "si_direction s = DirRequest"
  shows "snd (message X D s) = (if length q = length p then Inr None
    else Inl (status_new X Internal ''Unexpected EOF decoding stream.''))"
  using assms
proof (induction evs arbitrary: s)
  case Nil
  obtain s' where d: "decode_chunk X D s = (s', Inr None)"
    and aw: "awaits c p [] (s'\<lparr>si_body := [BFrame (FData q)]\<rparr>) [BFrame (FData q)] []"
    and s': "same_params s s'" "si_body s' = []"
    using awaits_decode [OF Nil.prems(1,5,2)] Nil.prems(3) by auto
  have "\<And>x. si_state s \<noteq> StError x" using Nil.prems(2) by (auto simp: awaits_def)
  then show ?case
    using d s' Nil.prems(7) awaits_buffer [OF aw d Nil.prems(6)]
    by (auto simp: message.simps [of X D s] poll_next.simps [of X D s] poll_pass_def decode_poll_frame_def
        decode_response_def same_params_def split: read_state.splits)
next
  case (Cons ev evs)
  obtain s' where d: "decode_chunk X D s = (s', Inr None)"
    and aw: "awaits c p [] (s'\<lparr>si_body := (ev # evs) @ [BFrame (FData q)]\<rparr>) ((ev # evs) @ [BFrame (FData q)]) []"
    and sp: "same_params s s'" and body: "si_body s' = ev # evs"
    using awaits_decode [OF Cons.prems(1,5,2)] Cons.prems(3) by metis
  have st: "\<And>x. si_state s \<noteq> StError x" using Cons.prems(2) by (auto simp: awaits_def)
  define s2 where "s2 = s'\<lparr>si_body := evs, si_buf := si_buf s' @ body_data [ev]\<rparr>"
  note ev = data_only_event [OF Cons.prems(4)]
  have "snd (message X D s2) = (if length q = length p then Inr None
    else Inl (status_new X Internal ''Unexpected EOF decoding stream.''))"
  proof (rule Cons.IH)
    show "payload_ok X D (si_encoding s2) (si_max_message_size s2) c p m"
      using Cons.prems(1) sp by (simp add: s2_def same_params_def)
    show "awaits c p [] (s2\<lparr>si_body := evs @ [BFrame (FData q)]\<rparr>) (evs @ [BFrame (FData q)]) []"
      using aw ev by (auto simp: awaits_def s2_def)
    show "si_direction s2 = DirRequest" using Cons.prems(7) sp by (simp add: s2_def same_params_def)
  qed (use Cons.prems ev in \<open>auto simp: s2_def\<close>)
  moreover have "message X D s = message X D s2"
    unfolding s2_def by (rule message_past_event [OF d body st ev])
  ultimately show ?case by simp
qed

text \<open>Reading the complete messages of a body leaves the rest.\<close>

lemma collect_complete_frames:
  assumes "si_encoding s = cenc" "si_max_message_size s = mxr" "si_state s = ReadHeader" "data_only evs" "si_body s = evs"
    and "si_buf s @ body_data evs = concat (map (\<lambda>(c, p, m). grpc_frame c p) fr) @ got"
    and "\<forall>(c, p, m)\<in>set fr. payload_ok X D cenc mxr c p m"
  shows "\<exists>s' evs'. collect X D (Suc (length fr)) s =
      (case collect X D (Suc 0) s' of (ms, e) \<Rightarrow> (map (\<lambda>(c, p, m). m) fr @ ms, e)) \<and>
      si_state s' = ReadHeader \<and> data_only evs' \<and> si_buf s' @ body_data evs' = got \<and> si_body s' = evs' \<and> same_params s s'"
  using assms
proof (induction fr arbitrary: s evs)
  case Nil
  then show ?case by (intro exI [of _ s] exI [of _ evs]) simp
next
  case (Cons cpm fr)
  obtain c p m where cpm: "cpm = (c, p, m)" by (cases cpm)
  let ?R = "concat (map (\<lambda>(c, p, m). grpc_frame c p) fr) @ got"
  have ok: "payload_ok X D (si_encoding s) (si_max_message_size s) c p m"
    and aw: "awaits c p ?R s evs []"
    using Cons.prems by (auto simp: awaits_def cpm)
  from message_awaits [OF ok aw] obtain s1 evs1 where
    m: "message X D s = (s1, Inr (Some m))" "si_state s1 = ReadHeader" "data_only evs1"
      "si_buf s1 @ body_data evs1 = ?R" "si_body s1 = evs1" "same_params s s1" by auto
  have "si_encoding s1 = cenc" "si_max_message_size s1 = mxr"
    using m(6) Cons.prems(1,2) by (simp_all add: same_params_def)
  from Cons.IH [OF this m(2,3,5,4)] Cons.prems(7) obtain s' evs' where
    "collect X D (Suc (length fr)) s1 = (case collect X D (Suc 0) s' of (ms, e) \<Rightarrow> (map (\<lambda>(c, p, m). m) fr @ ms, e))"
    "si_state s' = ReadHeader" "data_only evs'" "si_buf s' @ body_data evs' = got" "si_body s' = evs'" "same_params s1 s'"
    by auto
  then show ?case
    using m same_params_trans [OF m(6)]
    by (intro exI [of _ s'] exI [of _ evs']) (simp add: cpm split: prod.splits)
qed

subsection \<open>Properties\<close>

text \<open>
  C1: A response stream arrives as it was sent. Whatever messages a server handler yields (with
  any pending polls between them) and whatever status it ends with, and however the transport
  cuts the bytes of the body: a client with the same encoding whose limit admits the messages
  decodes exactly those messages in order, and then sees the end of the stream when the status
  is \<open>Ok\<close>, or else an error with the server's code, message and details.
\<close>

theorem response_stream_end_to_end:
  assumes "codec_laws E D" "compressor_laws X" "header_laws X" "value_laws X" "percent_laws X" "base64_laws X"
    and "all_encode X E cenc mxs src" "length src < n"
    and "\<forall>m\<in>set (src_items src). \<forall>p. payload_of X E cenc m = Inr p \<longrightarrow> length p \<le> recv_limit mxr"
    and "final = (case snd (src_frames X E cenc mxs src) of Some st \<Rightarrow> st | None \<Rightarrow> status_new X Ok [])"
    and "utf8_valid (st_message final)"
  shows "\<exists>sent t. body_events X n (new_server E src cenc mxs) = sent @ [BFrame (FTrailers t)] \<and>
    (\<forall>evs. data_only evs \<longrightarrow> body_data evs = body_data sent \<longrightarrow>
      (\<exists>e. collect X D (Suc (length (src_items src)))
              (sg_inner (new_response X D (as_raw (evs @ [BFrame (FTrailers t)])) 200 cenc mxr))
            = (src_items src, Some e) \<and>
          (if st_code final = Ok then e = Inr ()
           else \<exists>st. e = Inl st \<and> st_code st = st_code final \<and> st_message st = st_message final
                  \<and> st_details st = st_details final)))"
proof -
  define t where "t = fst (add_header X final (hm_empty X))"
  obtain sent where sent: "body_data sent = concat (fst (src_frames X E cenc mxs src))"
    "body_events X n (new_server E src cenc mxs) = sent @ [BFrame (FTrailers t)]"
    using server_stream_sent [OF assms(4-8,10)] by (auto simp: t_def)
  obtain st where st: "from_header_map X t = Some st" "st_code st = st_code final"
    "st_message st = st_message final" "st_details st = st_details final"
    using status_headers_read [OF assms(3-6,11)] by (auto simp: t_def)
  have "\<exists>e. collect X D (Suc (length (src_items src)))
          (sg_inner (new_response X D (as_raw (evs @ [BFrame (FTrailers t)])) 200 cenc mxr)) = (src_items src, Some e) \<and>
        (if st_code final = Ok then e = Inr ()
         else \<exists>st. e = Inl st \<and> st_code st = st_code final \<and> st_message st = st_message final
                \<and> st_details st = st_details final)"
    if "data_only evs" "body_data evs = body_data sent" for evs
    using response_stream_read [OF assms(1,2,7,9) that(1) _ st(1)] that(2) sent(1) st by simp
  with sent(2) show ?thesis by blast
qed

abbreviation raw_decoder :: "(alist, bytes) decoder" where
  "raw_decoder \<equiv> prost_decoder ref_ext raw_decode"

theorem response_stream_end_to_end_witness:
  "\<exists>sent t. body_events ref_ext 3 (new_server raw_encoder [SrcItem [7, 8], SrcErr sample_status] (Some Gzip) None)
      = sent @ [BFrame (FTrailers t)] \<and>
    (\<forall>evs. data_only evs \<longrightarrow> body_data evs = body_data sent \<longrightarrow>
      (\<exists>st. collect ref_ext raw_decoder 2
           (sg_inner (new_response ref_ext raw_decoder (as_raw (evs @ [BFrame (FTrailers t)])) 200 (Some Gzip) None))
         = ([[7, 8]], Some (Inl st)) \<and> st_code st = Internal))"
proof -
  let ?src = "[SrcItem [7, 8], SrcErr sample_status]"
  have p: "payload_of ref_ext raw_encoder (Some Gzip) [7, 8] = Inr [31, 7, 8]"
    by (simp add: payload_of_def prost_encoder_def prost_encode_def raw_encode_def compress_def ref_ops store_compress_def)
  then obtain f where f: "frame_of ref_ext raw_encoder (Some Gzip) None [7, 8] = Inr f"
    by (simp add: frame_of_Inr_iff send_limit_def DEFAULT_MAX_SEND_MESSAGE_SIZE_def)
  have fin: "sample_status = (case snd (src_frames ref_ext raw_encoder (Some Gzip) None ?src) of
      Some st \<Rightarrow> st | None \<Rightarrow> status_new ref_ext Ok [])" by (simp add: f)
  have ae: "all_encode ref_ext raw_encoder (Some Gzip) None ?src" by (simp add: f)
  have lim: "\<forall>m\<in>set (src_items ?src). \<forall>p. payload_of ref_ext raw_encoder (Some Gzip) m = Inr p \<longrightarrow> length p \<le> recv_limit None"
    by (simp add: p recv_limit_def DEFAULT_MAX_RECV_MESSAGE_SIZE_def)
  have u: "utf8_valid (st_message sample_status)" by (simp add: sample_status_def utf8_valid_def)
  have cl: "codec_laws raw_encoder raw_decoder" by (rule prost_codec_laws) simp
  have n: "length ?src < 3" by simp
  from response_stream_end_to_end [OF cl ref_compressor_laws ref_header_laws ref_value_laws ref_percent_laws
      ref_base64_laws ae n lim fin u]
  show ?thesis by (fastforce simp: sample_status_def numeral_eq_Suc)
qed

text \<open>
  A request stream arrives as it was sent: whatever messages a client sends, and however
  the transport cuts the bytes, a server with the same encoding whose limit admits them decodes
  exactly those messages in order and then sees the end of the stream.
\<close>

theorem request_stream_end_to_end:
  assumes "codec_laws E D" "compressor_laws X" "value_laws X" "percent_laws X" "base64_laws X"
    and "all_encode X E cenc mxs src" "length src < n" "snd (src_frames X E cenc mxs src) = None"
    and "\<forall>m\<in>set (src_items src). \<forall>p. payload_of X E cenc m = Inr p \<longrightarrow> length p \<le> recv_limit mxr"
  shows "data_only (body_events X n (new_client E src cenc mxs)) \<and>
    (\<forall>evs. data_only evs \<longrightarrow> body_data evs = body_data (body_events X n (new_client E src cenc mxs)) \<longrightarrow>
      collect X D (Suc (length (src_items src))) (sg_inner (new_request X D (as_raw evs) cenc mxr))
        = (src_items src, Some (Inr ())))"
  using client_stream_sent [OF assms(3-8)] request_stream_read [OF assms(1,2,6,9)] by simp

theorem request_stream_end_to_end_witness:
  "collect ref_ext raw_decoder 2 (sg_inner (new_request ref_ext raw_decoder
       (as_raw (body_events ref_ext 3 (new_client raw_encoder [SrcItem [7, 8], SrcPending] None None))) None None))
     = ([[7, 8]], Some (Inr ()))"
proof -
  let ?src = "[SrcItem [7, 8], SrcPending]"
  have p: "payload_of ref_ext raw_encoder None [7, 8] = Inr [7, 8]"
    by (simp add: payload_of_def prost_encoder_def prost_encode_def raw_encode_def)
  then obtain f where f: "frame_of ref_ext raw_encoder None None [7, 8] = Inr f"
    by (simp add: frame_of_Inr_iff send_limit_def DEFAULT_MAX_SEND_MESSAGE_SIZE_def)
  have ae: "all_encode ref_ext raw_encoder None None ?src" by (simp add: f)
  have fin: "snd (src_frames ref_ext raw_encoder None None ?src) = None" by (simp add: f)
  have lim: "\<forall>m\<in>set (src_items ?src). \<forall>p. payload_of ref_ext raw_encoder None m = Inr p \<longrightarrow> length p \<le> recv_limit None"
    by (simp add: p recv_limit_def DEFAULT_MAX_RECV_MESSAGE_SIZE_def)
  have cl: "codec_laws raw_encoder raw_decoder" by (rule prost_codec_laws) simp
  have n: "length ?src < 3" by simp
  from request_stream_end_to_end [OF cl ref_compressor_laws ref_value_laws ref_percent_laws ref_base64_laws ae n fin lim]
  show ?thesis by (simp add: numeral_eq_Suc)
qed

text \<open>
  C19: The receive limit holds at every moment: polling keeps the state such that an announced
  length obeys the limit, so a window into the input buffer that is handed to the decoder is at
  most the limit and lies within the bytes received.
\<close>

theorem recv_limit_invariant:
  assumes "within_limit s"
  shows "within_limit (fst (poll_next X D s)) \<and>
    (\<forall>d. snd (inner_decode_chunk X s) = Inr (Some (FromBuf d)) \<longrightarrow>
       db_len d \<le> recv_limit (si_max_message_size s) \<and> db_len d \<le> length (db_buf d))"
proof
  show "within_limit (fst (poll_next X D s))" using assms
  proof (induction X D s rule: poll_next.induct)
    case (1 X D s)
    obtain s1 r1 where p: "poll_pass X D s = (s1, r1)" by fastforce
    with "1.IH" [OF p [symmetric]] poll_pass_limit [OF p "1.prems"] show ?case
      by (cases r1) (simp_all add: poll_next.simps [of X D s])
  qed
  show "\<forall>d. snd (inner_decode_chunk X s) = Inr (Some (FromBuf d)) \<longrightarrow>
       db_len d \<le> recv_limit (si_max_message_size s) \<and> db_len d \<le> length (db_buf d)"
    using inner_decode_chunk_limit [of X s, OF surjective_pairing assms] by blast
qed

theorem recv_limit_invariant_witness:
  "within_limit (fst (poll_next ref_ext raw_decoder
     (sg_inner (new_request ref_ext raw_decoder [BFrame (FData [0, 0, 0, 0, 9, 1])] None (Some 4)))))"
  by (rule recv_limit_invariant [THEN conjunct1]) (simp add: within_limit_def new_request_def streaming_new_def)

text \<open>
  C18: A request whose body is cut off inside a message is reported as broken, after every
  complete message has been delivered, with one exception: when the cut falls exactly behind a
  frame's header, whose payload never comes, the stream ends as if it were complete.
\<close>

theorem truncated_request_stream:
  assumes "\<forall>(c, p, m)\<in>set fr. payload_ok X D cenc mxr c p m" "payload_ok X D cenc mxr c p m"
    and "grpc_frame c p = got @ missing" "got \<noteq> []" "missing \<noteq> []"
    and "data_only evs" "body_data evs = concat (map (\<lambda>(c, p, m). grpc_frame c p) fr) @ got"
  shows "collect X D (Suc (length fr)) (sg_inner (new_request X D (as_raw evs) cenc mxr))
    = (map (\<lambda>(c, p, m). m) fr,
       Some (if length got = HEADER_SIZE then Inr ()
             else Inl (status_new X Internal ''Unexpected EOF decoding stream.'')))"
proof -
  note split = collect_complete_frames [where cenc = cenc and mxr = mxr and X = X and D = D]
  let ?s = "sg_inner (new_request X D (as_raw evs) cenc mxr)"
  have s: "si_encoding ?s = cenc" "si_max_message_size ?s = mxr" "si_state ?s = ReadHeader" "si_body ?s = evs" "si_buf ?s = []"
    "si_direction ?s = DirRequest"
    by (simp_all add: new_request_def streaming_new_def map_err_as_raw)
  from split [OF s(1-3) assms(6) s(4) _ assms(1)] s(5) assms(7) obtain s' evs' where s':
    "collect X D (Suc (length fr)) ?s = (case collect X D (Suc 0) s' of (ms, e) \<Rightarrow> (map (\<lambda>(c, p, m). m) fr @ ms, e))"
    "si_state s' = ReadHeader" "data_only evs'" "si_buf s' @ body_data evs' = got" "si_body s' = evs'" "same_params ?s s'"
    by auto
  have len: "length got + length missing = HEADER_SIZE + length p"
    using arg_cong [OF assms(3), of length] by (simp add: grpc_frame_def HEADER_SIZE_def)
  have lt: "length missing < HEADER_SIZE + length p" using len assms(4) by (cases got) auto
  have "snd (message X D s') = (if length missing = length p then Inr None
    else Inl (status_new X Internal ''Unexpected EOF decoding stream.''))"
    by (rule message_truncated [where c = c and evs = evs'])
      (use s s' assms(2,3,5) lt in \<open>auto simp: awaits_def body_data_snoc data_only_snoc same_params_def\<close>)
  moreover have "length missing = length p \<longleftrightarrow> length got = HEADER_SIZE" using len by auto
  ultimately have "collect X D (Suc 0) s' = ([], Some (if length got = HEADER_SIZE then Inr ()
      else Inl (status_new X Internal ''Unexpected EOF decoding stream.'')))"
    unfolding collect_end by simp
  then show ?thesis using s'(1) by simp
qed

theorem truncated_request_stream_witness:
  "collect ref_ext raw_decoder 1 (sg_inner (new_request ref_ext raw_decoder
      (as_raw [BFrame (FData [0, 0, 0]), BFrame (FData [0, 2])]) None None)) = ([], Some (Inr ()))"
proof -
  have ok: "payload_ok ref_ext raw_decoder None None False [7, 8] [7, 8]"
    by (simp add: payload_ok_def prost_decoder_def prost_decode_def raw_decode_def recv_limit_def
        DEFAULT_MAX_RECV_MESSAGE_SIZE_def)
  have f: "grpc_frame False [7, 8] = [0, 0, 0, 0, 2] @ [7, 8]" by (simp add: grpc_frame_def u32_be_def)
  show ?thesis
    using truncated_request_stream [of "[]", OF _ ok f, of "[BFrame (FData [0, 0, 0]), BFrame (FData [0, 2])]"]
    by (simp add: HEADER_SIZE_def)
qed

text \<open>
  An error of the body is yielded twice: once when it is met and once more from the state
  that remembers it; only the third poll ends the stream.
\<close>

theorem body_error_yielded_twice:
  assumes "si_state s = ReadHeader" "si_buf s = []" "si_body s = BErr st # body"
    and "si_direction s \<noteq> DirRequest \<or> st_code st \<noteq> Cancelled"
    and "poll_next X D s = (s1, r1)" "poll_next X D s1 = (s2, r2)" "poll_next X D s2 = (s3, r3)"
  shows "r1 = Ready (Some (Inl st)) \<and> r2 = Ready (Some (Inl st)) \<and> r3 = Ready None"
proof -
  have "poll_next X D s = (s\<lparr>si_body := body, si_state := StError (Some st)\<rparr>, Ready (Some (Inl st)))"
    using assms(1-4) decode_chunk_empty [OF assms(1,2), of X D]
    by (auto simp: poll_next.simps [of X D s] poll_pass_def decode_poll_frame_def)
  then show ?thesis using assms(5-7) by (auto simp: poll_next_error)
qed

theorem body_error_yielded_twice_witness:
  "\<exists>s s1 s2 s3. si_body s = [BErr sample_status] \<and>
     poll_next ref_ext raw_decoder s = (s1, Ready (Some (Inl sample_status))) \<and>
     poll_next ref_ext raw_decoder s1 = (s2, Ready (Some (Inl sample_status))) \<and>
     poll_next ref_ext raw_decoder s2 = (s3, Ready None)"
proof -
  define s where "s = sg_inner (new_request ref_ext raw_decoder (as_raw [BErr sample_status]) None None)"
  obtain s1 r1 where 1: "poll_next ref_ext raw_decoder s = (s1, r1)" by fastforce
  obtain s2 r2 where 2: "poll_next ref_ext raw_decoder s1 = (s2, r2)" by fastforce
  obtain s3 r3 where 3: "poll_next ref_ext raw_decoder s2 = (s3, r3)" by fastforce
  have s: "si_state s = ReadHeader" "si_buf s = []" "si_body s = BErr sample_status # []"
    "si_direction s \<noteq> DirRequest \<or> st_code sample_status \<noteq> Cancelled"
    by (simp_all add: s_def new_request_def streaming_new_def map_err_as_raw sample_status_def)
  from body_error_yielded_twice [OF s 1 2 3] 1 2 3 s(3) show ?thesis by blast
qed

text \<open>
  A payload that does not decompress is never consumed: every further poll, however many, is
  ready at once with the same error, so a reader that carries on after an error never reaches the
  end of the stream.
\<close>

theorem decompression_error_repeats:
  assumes "si_state s = ReadBody (Some e) len" "len \<le> length (si_buf s)"
    and "decompress X e (take len (si_buf s)) [] = (out, Inl err)"
  shows "snd (poll_next X D (((\<lambda>t. fst (poll_next X D t)) ^^ n) s))
    = Ready (Some (Inl (status_new X Internal (''decompression error: '' @ err))))"
proof -
  define stuck where "stuck t \<longleftrightarrow> si_state t = ReadBody (Some e) len \<and> si_buf t = si_buf s" for t :: "'a streaming_inner"
  have step: "stuck (fst (poll_next X D t)) \<and> snd (poll_next X D t)
      = Ready (Some (Inl (status_new X Internal (''decompression error: '' @ err))))" if "stuck t" for t
    using that assms(2,3)
    by (simp add: stuck_def poll_next.simps [of X D t] poll_pass_def decode_chunk_def inner_decode_chunk_def
        decode_header_def decode_payload_def)
  have "stuck (((\<lambda>t. fst (poll_next X D t)) ^^ n) s)"
    by (induction n) (use assms(1) step in \<open>simp_all add: stuck_def\<close>)
  then show ?thesis using step by blast
qed

theorem decompression_error_repeats_witness:
  "snd (poll_next ref_ext raw_decoder (((\<lambda>t. fst (poll_next ref_ext raw_decoder t)) ^^ 9)
      ((sg_inner (new_request ref_ext raw_decoder [] (Some Gzip) None))\<lparr>si_state := ReadBody (Some Gzip) 1, si_buf := [5]\<rparr>)))
    = Ready (Some (Inl (status_new ref_ext Internal ''decompression error: bad tag'')))"
  using decompression_error_repeats [of "(sg_inner (new_request ref_ext raw_decoder [] (Some Gzip) None))\<lparr>si_state := ReadBody (Some Gzip) 1, si_buf := [5]\<rparr>"
      Gzip 1 ref_ext "[]" "''bad tag''" raw_decoder 9]
  by (simp add: decompress_def ref_ops store_decompress_def)

end
