(* ===== verification/Messages.thy ===== *)
theory Messages
  imports Status
begin

section \<open>Requests, responses and deadlines\<close>

text \<open>
  \<^verbatim>\<open>grpc-core/src/request.rs\<close>, \<^verbatim>\<open>response.rs\<close>
  and \<^verbatim>\<open>body.rs\<close>: messages with their metadata, how
  they become HTTP messages, and the \<^verbatim>\<open>grpc-timeout\<close> header. The lemmas say which
  headers leave the process and how exactly a deadline is written.
\<close>

record ('h, 'x, 'm) request =
  rq_metadata :: 'h
  rq_message :: 'm
  rq_extensions :: 'x

record ('h, 'x, 'm) response =
  rs_metadata :: 'h
  rs_message :: 'm
  rs_extensions :: 'x

definition request_new :: "('h, 'x) ext \<Rightarrow> 'm \<Rightarrow> ('h, 'x, 'm) request" where
  "request_new X message =
     \<lparr>rq_metadata = metadata_new X, rq_message = message, rq_extensions = xt_empty X\<rparr>"

definition request_from_parts :: "'h \<Rightarrow> 'm \<Rightarrow> 'x \<Rightarrow> ('h, 'x, 'm) request" where
  "request_from_parts metadata message extensions =
     \<lparr>rq_metadata = metadata, rq_message = message, rq_extensions = extensions\<rparr>"

definition request_from_http :: "('h, 'x, 'm) http_request \<Rightarrow> ('h, 'x, 'm) request" where
  "request_from_http h =
     \<lparr>rq_metadata = hq_headers h, rq_message = hq_body h, rq_extensions = hq_extensions h\<rparr>"

definition request_from_http_parts :: "('h, 'x, 'b) http_request \<Rightarrow> 'm \<Rightarrow> ('h, 'x, 'm) request" where
  "request_from_http_parts parts message =
     \<lparr>rq_metadata = hq_headers parts, rq_message = message, rq_extensions = hq_extensions parts\<rparr>"

definition request_into_http ::
  "('h, 'x) ext \<Rightarrow> ('h, 'x, 'm) request \<Rightarrow> string \<Rightarrow> string \<Rightarrow> http_version \<Rightarrow> bool \<Rightarrow> ('h, 'x, 'm) http_request" where
  "request_into_http X r uri method version sanitize =
     \<lparr>hq_method = method, hq_path = uri, hq_version = version,
      hq_headers = (if sanitize then into_sanitized_headers X (rq_metadata r) else rq_metadata r),
      hq_extensions = rq_extensions r, hq_body = rq_message r\<rparr>"

definition request_map :: "('m \<Rightarrow> 'n) \<Rightarrow> ('h, 'x, 'm) request \<Rightarrow> ('h, 'x, 'n) request" where
  "request_map f r =
     \<lparr>rq_metadata = rq_metadata r, rq_message = f (rq_message r), rq_extensions = rq_extensions r\<rparr>"

definition request_into_parts :: "('h, 'x, 'm) request \<Rightarrow> 'h \<times> 'm \<times> 'x" where
  "request_into_parts r = (rq_metadata r, rq_message r, rq_extensions r)"

definition response_new :: "('h, 'x) ext \<Rightarrow> 'm \<Rightarrow> ('h, 'x, 'm) response" where
  "response_new X message =
     \<lparr>rs_metadata = metadata_new X, rs_message = message, rs_extensions = xt_empty X\<rparr>"

definition response_from_parts :: "'h \<Rightarrow> 'm \<Rightarrow> 'x \<Rightarrow> ('h, 'x, 'm) response" where
  "response_from_parts metadata message extensions =
     \<lparr>rs_metadata = metadata, rs_message = message, rs_extensions = extensions\<rparr>"

definition response_from_http_parts :: "('h, 'x, 'b) http_response \<Rightarrow> 'm \<Rightarrow> ('h, 'x, 'm) response" where
  "response_from_http_parts parts message =
     \<lparr>rs_metadata = hp_headers parts, rs_message = message, rs_extensions = hp_extensions parts\<rparr>"

definition response_from_http :: "('h, 'x, 'm) http_response \<Rightarrow> ('h, 'x, 'm) response" where
  "response_from_http res = response_from_http_parts res (hp_body res)"

definition response_into_http :: "('h, 'x) ext \<Rightarrow> ('h, 'x, 'm) response \<Rightarrow> ('h, 'x, 'm) http_response" where
  "response_into_http X r =
     \<lparr>hp_status = 200, hp_version = Http2, hp_headers = into_sanitized_headers X (rs_metadata r),
      hp_extensions = rs_extensions r, hp_body = rs_message r\<rparr>"

definition response_map :: "('m \<Rightarrow> 'n) \<Rightarrow> ('h, 'x, 'm) response \<Rightarrow> ('h, 'x, 'n) response" where
  "response_map f r =
     \<lparr>rs_metadata = rs_metadata r, rs_message = f (rs_message r), rs_extensions = rs_extensions r\<rparr>"

definition response_into_parts :: "('h, 'x, 'm) response \<Rightarrow> 'h \<times> 'm \<times> 'x" where
  "response_into_parts r = (rs_metadata r, rs_message r, rs_extensions r)"

text \<open>Taking a message apart and putting it together again changes nothing, in either order.\<close>

lemma parts_roundtrip:
  "(case request_into_parts q of (md, m, x) \<Rightarrow> request_from_parts md m x) = q"
  "request_into_parts (request_from_parts md m x) = (md, m, x)"
  "(case response_into_parts r of (md, m, x) \<Rightarrow> response_from_parts md m x) = r"
  "response_into_parts (response_from_parts md m x) = (md, m, x)"
  by (simp_all add: request_into_parts_def request_from_parts_def response_into_parts_def response_from_parts_def)

subsection \<open>Type-erased bodies\<close>

text \<open>
  \<^verbatim>\<open>Body\<close> with its two kinds, over any wrapped body \<open>'b\<close> that is known by its
  answer to \<^verbatim>\<open>is_end_stream\<close> and by what polling it yields.
\<close>

datatype 'b body_kind = KEmpty | KWrap 'b

definition body_empty :: "'b body_kind" where "body_empty = KEmpty"

definition body_new :: "('b \<Rightarrow> bool) \<Rightarrow> 'b \<Rightarrow> 'b body_kind" where
  "body_new inner_is_end_stream body = (if inner_is_end_stream body then body_empty else KWrap body)"

definition body_poll_frame ::
  "('h, 'x) ext \<Rightarrow> ('b \<Rightarrow> 'b \<times> ('h err + 'h frame) option poll) \<Rightarrow> 'b body_kind
     \<Rightarrow> 'b body_kind \<times> ('h status + 'h frame) option poll" where
  "body_poll_frame X inner_poll_frame k =
     (case k of
        KEmpty \<Rightarrow> (KEmpty, Ready None)
      | KWrap b \<Rightarrow>
          (case inner_poll_frame b of
             (b', Pending) \<Rightarrow> (KWrap b', Pending)
           | (b', Ready r) \<Rightarrow> (KWrap b', Ready (map_option (map_sum (map_error X) id) r))))"

definition body_is_end_stream :: "('b \<Rightarrow> bool) \<Rightarrow> 'b body_kind \<Rightarrow> bool" where
  "body_is_end_stream inner_is_end_stream k =
     (case k of KEmpty \<Rightarrow> True | KWrap b \<Rightarrow> inner_is_end_stream b)"

text \<open>A hint is the least number of bytes left, and the most if that is known.\<close>

definition body_size_hint :: "('b \<Rightarrow> nat \<times> nat option) \<Rightarrow> 'b body_kind \<Rightarrow> nat \<times> nat option" where
  "body_size_hint inner_size_hint k = (case k of KEmpty \<Rightarrow> (0, Some 0) | KWrap b \<Rightarrow> inner_size_hint b)"

lemma body_empty_ends:
  "body_poll_frame X p body_empty = (body_empty, Ready None)" "body_is_end_stream e body_empty"
  "body_size_hint h body_empty = (0, Some 0)"
  by (simp_all add: body_poll_frame_def body_empty_def body_is_end_stream_def body_size_hint_def)

subsection \<open>Deadlines\<close>

text \<open>
  A \<^verbatim>\<open>Duration\<close> is its number of nanoseconds. \<^verbatim>\<open>try_format\<close> takes the
  duration already converted to its unit.
\<close>

definition try_format :: "char \<Rightarrow> nat \<Rightarrow> string option" where
  "try_format unit value = (if 99999999 < value then None else Some (show_nat value @ [unit]))"

definition or_else :: "'a option \<Rightarrow> 'a option \<Rightarrow> 'a option" where
  "or_else a b = (case a of Some x \<Rightarrow> Some x | None \<Rightarrow> b)"

definition MAX_GRPC_TIMEOUT_HOURS :: nat where "MAX_GRPC_TIMEOUT_HOURS = 99999999"

definition as_secs :: "nat \<Rightarrow> nat" where "as_secs d = d div 1000000000"

definition clamp_duration :: "nat \<Rightarrow> nat" where
  "clamp_duration d =
     (let max_duration = MAX_GRPC_TIMEOUT_HOURS * 3600 * 1000000000
      in if max_duration < d then max_duration else d)"

text \<open>\<open>None\<close> is the panic of the final \<^verbatim>\<open>expect\<close>.\<close>

definition duration_to_grpc_timeout :: "nat \<Rightarrow> string option" where
  "duration_to_grpc_timeout duration =
     (let d = clamp_duration duration
      in or_else (or_else (or_else (or_else (or_else
           (try_format (CHR ''n'') d)
           (try_format (CHR ''u'') (d div 1000)))
           (try_format (CHR ''m'') (d div 1000000)))
           (try_format (CHR ''S'') (as_secs d)))
           (try_format (CHR ''M'') (as_secs d div 60)))
           (try_format (CHR ''H'') (as_secs d div 60 div 60)))"

definition set_timeout ::
  "('h, 'x) ext \<Rightarrow> ('h, 'x, 'm) request \<Rightarrow> nat \<Rightarrow> ('h, 'x, 'm) request option" where
  "set_timeout X r deadline =
     (case duration_to_grpc_timeout deadline of
        None \<Rightarrow> None
      | Some v \<Rightarrow>
          if hv_ok X v
          then Some (r\<lparr>rq_metadata := fst (metadata_insert X (rq_metadata r) GRPC_TIMEOUT_HEADER v)\<rparr>)
          else None)"

subsection \<open>Lemmas\<close>

text \<open>What a unit is worth, in nanoseconds.\<close>

definition unit_nanos :: "char \<Rightarrow> nat" where
  "unit_nanos u =
     (if u = CHR ''n'' then 1 else if u = CHR ''u'' then 1000 else if u = CHR ''m'' then 1000000
      else if u = CHR ''S'' then 1000000000 else if u = CHR ''M'' then 60 * 1000000000
      else 3600 * 1000000000)"

lemma clamp_duration_min: "clamp_duration d = min d (99999999 * 3600 * 1000000000)"
  by (simp add: clamp_duration_def MAX_GRPC_TIMEOUT_HOURS_def Let_def min_def)

lemma div_window: "0 < (k::nat) \<Longrightarrow> d div k * k \<le> d \<and> d < (d div k + 1) * k"
  by (metis add.commute div_times_less_eq_dividend dividend_less_times_div mult.commute mult_Suc_right plus_1_eq_Suc)

lemma timeout_units:
  "as_secs d = d div 1000000000" "d div 1000000000 div 60 = d div (60 * 1000000000)"
  "d div (60 * 1000000000) div 60 = d div (3600 * 1000000000)"
  by (simp_all add: as_secs_def div_mult2_eq [symmetric])

text \<open>
  The chain of units is a search: the header has the first unit of the list, from the finest to the
  coarsest, whose value has at most eight digits.
\<close>

lemma or_else_assoc: "or_else (or_else a b) c = or_else a (or_else b c)"
  by (simp add: or_else_def split: option.split)

lemma or_else_try_format:
  "or_else (try_format u v) b = (if v \<le> 99999999 then Some (show_nat v @ [u]) else b)"
  by (simp add: or_else_def try_format_def)

lemma try_format_fits: "try_format u v = (if v \<le> 99999999 then Some (show_nat v @ [u]) else None)"
  by (simp add: try_format_def)

lemma timeout_search:
  "duration_to_grpc_timeout d =
     map_option (\<lambda>u. show_nat (clamp_duration d div unit_nanos u) @ [u])
       (find (\<lambda>u. clamp_duration d div unit_nanos u \<le> 99999999) ''numSMH'')"
proof -
  have "unit_nanos (CHR ''n'') = 1" "unit_nanos (CHR ''u'') = 1000" "unit_nanos (CHR ''m'') = 1000000"
    "unit_nanos (CHR ''S'') = 1000000000" "unit_nanos (CHR ''M'') = 60 * 1000000000"
    "unit_nanos (CHR ''H'') = 3600 * 1000000000" by (simp_all add: unit_nanos_def)
  then show ?thesis
    unfolding duration_to_grpc_timeout_def Let_def or_else_assoc timeout_units unfolding or_else_try_format
    by (simp only: try_format_fits find.simps option.map if_distrib [of "map_option _"] div_by_1)
qed

lemma timeout_value:
  "\<exists>v u. duration_to_grpc_timeout d = Some (show_nat v @ [u]) \<and> v \<le> 99999999 \<and>
     u \<in> set ''numSMH'' \<and> v = min d (99999999 * 3600 * 1000000000) div unit_nanos u \<and>
     find (\<lambda>w. min d (99999999 * 3600 * 1000000000) div unit_nanos w \<le> 99999999) ''numSMH'' = Some u"
proof -
  let ?fits = "\<lambda>w. min d (99999999 * 3600 * 1000000000) div unit_nanos w \<le> 99999999"
  have "min d (99999999 * 3600 * 1000000000) div (3600 * 1000000000) \<le> (99999999 * 3600 * 1000000000) div (3600 * 1000000000)"
    by (rule div_le_mono) simp
  then have "?fits (CHR ''H'')" by (simp add: unit_nanos_def)
  moreover have "CHR ''H'' \<in> set ''numSMH''" by simp
  ultimately have "find ?fits ''numSMH'' \<noteq> None" unfolding find_None_iff by blast
  then obtain u where u: "find ?fits ''numSMH'' = Some u" by blast
  then have "u \<in> set ''numSMH''" "?fits u" unfolding find_Some_iff by (auto simp only: nth_mem)
  with u show ?thesis by (auto simp only: timeout_search clamp_duration_min option.map)
qed

lemma timeout_header_ok:
  assumes "value_laws X" "duration_to_grpc_timeout d = Some s"
  shows "hv_ok X s"
proof (rule hv_okI [OF assms(1)])
  fix c assume c: "c \<in> set s"
  obtain v u where s: "s = show_nat v @ [u]" "u \<in> set ''numSMH''"
    using timeout_value [of d] assms(2) by auto
  show "32 \<le> (of_char c :: nat) \<and> (of_char c :: nat) \<noteq> 127"
  proof (cases "c \<in> set (show_nat v)")
    case True
    then show ?thesis using show_nat_digits [of c v] by auto
  next
    case False
    then have "c \<in> set ''numSMH''" using c s by auto
    then show ?thesis by auto
  qed
qed

subsection \<open>Properties\<close>

text \<open>
  C27: Every deadline is written: the header is a number of at most eight digits and a unit. The unit
  is the finest one of nanoseconds, microseconds, milliseconds, seconds, minutes and hours in which
  the deadline (or 99,999,999 hours, the largest gRPC can express, if that is smaller) has at most
  eight digits, and the number is the deadline rounded down to it, so it never exceeds the deadline
  and is less than one unit short of it.
\<close>

theorem timeout_header_exact:
  "\<exists>v u. duration_to_grpc_timeout d = Some (show_nat v @ [u]) \<and> v \<le> 99999999 \<and> length (show_nat v) \<le> 8 \<and>
     u \<in> set ''numSMH'' \<and> v * unit_nanos u \<le> min d (99999999 * 3600 * 1000000000) \<and>
     min d (99999999 * 3600 * 1000000000) < (v + 1) * unit_nanos u \<and>
     find (\<lambda>w. min d (99999999 * 3600 * 1000000000) div unit_nanos w \<le> 99999999) ''numSMH'' = Some u"
proof -
  obtain v u where v: "duration_to_grpc_timeout d = Some (show_nat v @ [u])" "v \<le> 99999999"
    "u \<in> set ''numSMH''" "v = min d (99999999 * 3600 * 1000000000) div unit_nanos u"
    "find (\<lambda>w. min d (99999999 * 3600 * 1000000000) div unit_nanos w \<le> 99999999) ''numSMH'' = Some u"
    using timeout_value by blast
  have "length (show_nat v) \<le> 8" using length_show_nat [of v 8] v(2) by simp
  moreover have "0 < unit_nanos u" by (simp add: unit_nanos_def)
  ultimately show ?thesis using v div_window [of "unit_nanos u"] by blast
qed

text \<open>
  Setting a deadline never panics, it sets exactly the deadline header, and that header
  leaves the process: sanitizing the request's metadata does not strip it.
\<close>

theorem set_timeout_sent:
  assumes "header_laws X" "value_laws X"
  shows "\<exists>v r'. duration_to_grpc_timeout d = Some v \<and> set_timeout X r d = Some r' \<and>
    rq_message r' = rq_message r \<and>
    hm_get X (hq_headers (request_into_http X r' uri method version sanitize)) GRPC_TIMEOUT_HEADER = Some v \<and>
    (\<forall>k. k = GRPC_TIMEOUT_HEADER \<or> hm_get X (rq_metadata r') k = hm_get X (rq_metadata r) k)"
proof -
  obtain s where s: "duration_to_grpc_timeout d = Some s" using timeout_value by blast
  have "GRPC_TIMEOUT_HEADER \<notin> set GRPC_RESERVED_HEADERS"
    by (simp add: GRPC_TIMEOUT_HEADER_def GRPC_RESERVED_HEADERS_def)
  then show ?thesis
    using s timeout_header_ok [OF assms(2) s]
    by (auto simp: set_timeout_def metadata_insert_def request_into_http_def hdr assms(1))
qed

theorem set_timeout_sent_witness:
  "\<exists>r'. set_timeout ref_ext (request_new ref_ext ()) 250000000 = Some r' \<and>
     hm_get ref_ext (hq_headers (request_into_http ref_ext r' ''/a'' ''POST'' Http2 True)) GRPC_TIMEOUT_HEADER
       = Some ''250000u''"
proof -
  have "duration_to_grpc_timeout 250000000 = Some ''250000u''"
    by (simp add: duration_to_grpc_timeout_def clamp_duration_def MAX_GRPC_TIMEOUT_HOURS_def try_format_def
        or_else_def show_nat.simps digit_char_def)
  then show ?thesis
    using set_timeout_sent [OF ref_header_laws ref_value_laws, of 250000000 "request_new ref_ext ()" "''/a''" "''POST''" Http2 True]
    by auto
qed

end
