(* ===== verification/Grpc_Client.thy ===== *)
theory Grpc_Client
  imports Framing Messages
begin

section \<open>The client's RPC calls\<close>

text \<open>
  \<^verbatim>\<open>grpc-client/src/grpc.rs\<close>: how a call becomes an HTTP request, how the HTTP
  response becomes a stream of messages or an error, and the four kinds of calls. The transport
  is a function from requests to responses or errors. The lemmas say what every request carries,
  how a response is taken, and what a call returns.
\<close>

text \<open>
  What the code uses of \<^verbatim>\<open>http::Uri\<close>: parsing a path and query, the path of one, and
  assembling a URI from the origin's scheme and authority (\<open>'o\<close>) and a path and query; a failure
  is given by its text.
\<close>

record 'o uri_ops =
  uo_parse :: "string \<Rightarrow> string + string"
  uo_path :: "string \<Rightarrow> string"
  uo_from_parts :: "'o \<Rightarrow> string \<Rightarrow> string + string"

record 'o grpc_client =
  gc_origin :: 'o
  gc_origin_path_and_query :: "string option"
  gc_accept :: enabled_encodings
  gc_send :: "compression_encoding option"
  gc_max_decoding :: "nat option"
  gc_max_encoding :: "nat option"

definition client_with_origin :: "'o \<Rightarrow> string option \<Rightarrow> 'o grpc_client" where
  "client_with_origin origin pnq =
     \<lparr>gc_origin = origin, gc_origin_path_and_query = pnq, gc_accept = enabled_default, gc_send = None,
      gc_max_decoding = None, gc_max_encoding = None\<rparr>"

definition client_send_compressed :: "'o grpc_client \<Rightarrow> compression_encoding \<Rightarrow> 'o grpc_client" where
  "client_send_compressed C e = C\<lparr>gc_send := Some e\<rparr>"

definition client_accept_compressed :: "'o grpc_client \<Rightarrow> compression_encoding \<Rightarrow> 'o grpc_client" where
  "client_accept_compressed C e = C\<lparr>gc_accept := enable (gc_accept C) e\<rparr>"

definition client_max_decoding_message_size :: "'o grpc_client \<Rightarrow> nat \<Rightarrow> 'o grpc_client" where
  "client_max_decoding_message_size C limit = C\<lparr>gc_max_decoding := Some limit\<rparr>"

definition client_max_encoding_message_size :: "'o grpc_client \<Rightarrow> nat \<Rightarrow> 'o grpc_client" where
  "client_max_encoding_message_size C limit = C\<lparr>gc_max_encoding := Some limit\<rparr>"

subsection \<open>Requests\<close>

definition client_uri :: "('h, 'x) ext \<Rightarrow> 'o uri_ops \<Rightarrow> 'o grpc_client \<Rightarrow> string \<Rightarrow> 'h status + string" where
  "client_uri X U C path =
     (case (case gc_origin_path_and_query C of
              Some pnq \<Rightarrow>
                if pnq \<noteq> ''/'' then
                  (case uo_parse U (uo_path U pnq @ path) of
                     Inr p \<Rightarrow> Inr p
                   | Inl e \<Rightarrow> Inl (status_new X Internal (''invalid path_and_query: '' @ e)))
                else Inr path
            | None \<Rightarrow> Inr path) of
        Inl st \<Rightarrow> Inl st
      | Inr p \<Rightarrow>
          (case uo_from_parts U (gc_origin C) p of
             Inr uri \<Rightarrow> Inr uri
           | Inl e \<Rightarrow> Inl (status_new X Internal (''invalid URI: '' @ e))))"

definition prepare_request ::
  "('h, 'x) ext \<Rightarrow> 'o uri_ops \<Rightarrow> 'o grpc_client \<Rightarrow> ('h, 'x, 'b) request \<Rightarrow> string
     \<Rightarrow> 'h status + ('h, 'x, 'b) http_request" where
  "prepare_request X U C request path =
     (case client_uri X U C path of
        Inl st \<Rightarrow> Inl st
      | Inr uri \<Rightarrow>
          (let r = request_into_http X request uri ''POST'' Http2 True;
               h1 = hm_insert X (hq_headers r) ''te'' ''trailers'';
               h2 = hm_insert X h1 ''content-type'' GRPC_CONTENT_TYPE;
               h3 = (case gc_send C of
                       Some e \<Rightarrow> hm_insert X h2 ENCODING_HEADER (encoding_as_str e) | None \<Rightarrow> h2);
               h4 = (case into_accept_encoding_header_value (gc_accept C) of
                       Some v \<Rightarrow> hm_insert X h3 ACCEPT_ENCODING_HEADER v | None \<Rightarrow> h3)
           in Inr (r\<lparr>hq_headers := h4\<rparr>)))"

subsection \<open>Responses\<close>

type_synonym ('h, 'x) raw_response = "('h, 'x, ('h, 'h err) raw_body) http_response"

definition create_response ::
  "('h, 'x) ext \<Rightarrow> 'o grpc_client \<Rightarrow> ('h, 'n) decoder \<Rightarrow> ('h, 'x) raw_response
     \<Rightarrow> 'h status + ('h, 'x, ('h, 'n) streaming) response" where
  "create_response X C D resp =
     (case from_encoding_header X (hp_headers resp) (gc_accept C) of
        Inl st \<Rightarrow> Inl st
      | Inr encoding \<Rightarrow>
          (case from_header_map X (hp_headers resp) of
             Some status \<Rightarrow>
               if st_code status \<noteq> Ok then Inl status
               else Inr (response_from_http_parts resp (new_empty X D (hp_body resp)))
           | None \<Rightarrow>
               Inr (response_from_http_parts resp
                 (new_response X D (hp_body resp) (hp_status resp) encoding (gc_max_decoding C)))))"

subsection \<open>The four kinds of calls\<close>

text \<open>A stream of request messages, as its polls yield them; \<^verbatim>\<open>s.map(Ok)\<close> wraps them.\<close>

definition stream_ok :: "'m poll list \<Rightarrow> ('h, 'm) src_ev list" where
  "stream_ok = map (\<lambda>p. case p of Pending \<Rightarrow> SrcPending | Ready m \<Rightarrow> SrcItem m)"

type_synonym ('h, 'x, 'm) transport =
  "('h, 'x, ('h, 'm) encode_body body_kind) http_request \<Rightarrow> 'h err + ('h, 'x) raw_response"

definition client_streaming_call ::
  "('h, 'x) ext \<Rightarrow> 'o uri_ops \<Rightarrow> 'o grpc_client \<Rightarrow> ('h, 'm) encoder \<Rightarrow> ('h, 'n) decoder
     \<Rightarrow> ('h, 'x, 'm) transport \<Rightarrow> ('h, 'x, 'm poll list) request \<Rightarrow> string
     \<Rightarrow> 'h status + ('h, 'x, ('h, 'n) streaming) response" where
  "client_streaming_call X U C E D transport request path =
     (let request1 = request_map (\<lambda>s. new_client E (stream_ok s) (gc_send C) (gc_max_encoding C)) request;
          request2 = request_map (body_new eb_is_end_stream) request1
      in case prepare_request X U C request2 path of
           Inl st \<Rightarrow> Inl st
         | Inr req \<Rightarrow>
             (case transport req of
                Inl err \<Rightarrow> Inl (from_error X err)
              | Inr resp \<Rightarrow> create_response X C D resp))"

text \<open>The outer \<open>None\<close>: reading the trailers did not end.\<close>

definition client_client_streaming ::
  "('h, 'x) ext \<Rightarrow> 'o uri_ops \<Rightarrow> 'o grpc_client \<Rightarrow> ('h, 'm) encoder \<Rightarrow> ('h, 'n) decoder
     \<Rightarrow> ('h, 'x, 'm) transport \<Rightarrow> ('h, 'x, 'm poll list) request \<Rightarrow> string
     \<Rightarrow> ('h status + ('h, 'x, 'n) response) option" where
  "client_client_streaming X U C E D transport request path =
     (case client_streaming_call X U C E D transport request path of
        Inl st \<Rightarrow> Some (Inl st)
      | Inr r \<Rightarrow>
          (let parts = rs_metadata r; body = rs_message r
           in case message X (sg_decoder body) (sg_inner body) of
                (s1, Inl st) \<Rightarrow> Some (Inl (set_metadata st (metadata_merge X (st_metadata st) parts)))
              | (s1, Inr None) \<Rightarrow> Some (Inl (status_new X Internal ''Missing response message.''))
              | (s1, Inr (Some m)) \<Rightarrow>
                  (case streaming_trailers X (sg_decoder body) s1 of
                     None \<Rightarrow> None
                   | Some (s2, Inl st) \<Rightarrow> Some (Inl st)
                   | Some (s2, Inr None) \<Rightarrow> Some (Inr (response_from_parts parts m (rs_extensions r)))
                   | Some (s2, Inr (Some t)) \<Rightarrow>
                       Some (Inr (response_from_parts (metadata_merge X parts t) m (rs_extensions r))))))"

definition client_unary ::
  "('h, 'x) ext \<Rightarrow> 'o uri_ops \<Rightarrow> 'o grpc_client \<Rightarrow> ('h, 'm) encoder \<Rightarrow> ('h, 'n) decoder
     \<Rightarrow> ('h, 'x, 'm) transport \<Rightarrow> ('h, 'x, 'm) request \<Rightarrow> string
     \<Rightarrow> ('h status + ('h, 'x, 'n) response) option" where
  "client_unary X U C E D transport request path =
     client_client_streaming X U C E D transport (request_map (\<lambda>m. [Ready m]) request) path"

definition client_server_streaming ::
  "('h, 'x) ext \<Rightarrow> 'o uri_ops \<Rightarrow> 'o grpc_client \<Rightarrow> ('h, 'm) encoder \<Rightarrow> ('h, 'n) decoder
     \<Rightarrow> ('h, 'x, 'm) transport \<Rightarrow> ('h, 'x, 'm) request \<Rightarrow> string
     \<Rightarrow> 'h status + ('h, 'x, ('h, 'n) streaming) response" where
  "client_server_streaming X U C E D transport request path =
     client_streaming_call X U C E D transport (request_map (\<lambda>m. [Ready m]) request) path"

subsection \<open>Lemmas\<close>

lemma prepare_request_headers:
  assumes "header_laws X" "client_uri X U C path = Inr uri"
  shows "\<exists>r. prepare_request X U C request path = Inr r \<and> hq_method r = ''POST'' \<and> hq_version r = Http2 \<and>
    hq_path r = uri \<and> hq_body r = rq_message request \<and> hq_extensions r = rq_extensions request \<and>
    (\<forall>k. hm_get_all X (hq_headers r) k =
      (if k = ''te'' then [''trailers'']
       else if k = ''content-type'' then [GRPC_CONTENT_TYPE]
       else if k = ENCODING_HEADER then (case gc_send C of Some e \<Rightarrow> [encoding_as_str e] | None \<Rightarrow> [])
       else if k = ACCEPT_ENCODING_HEADER then
         (case into_accept_encoding_header_value (gc_accept C) of Some v \<Rightarrow> [v] | None \<Rightarrow> [])
       else if k \<in> set GRPC_RESERVED_HEADERS then [] else hm_get_all X (rq_metadata request) k))"
proof -
  have san: "hm_get_all X (into_sanitized_headers X md) k
      = (if k \<in> set GRPC_RESERVED_HEADERS then [] else hm_get_all X md k)" for md k
    using assms(1) by (simp add: into_sanitized_headers_def remove_all_get_all)
  have ne: "ENCODING_HEADER \<noteq> ''te''" "ENCODING_HEADER \<noteq> ''content-type''" "ACCEPT_ENCODING_HEADER \<noteq> ''te''"
    "ACCEPT_ENCODING_HEADER \<noteq> ''content-type''" "ACCEPT_ENCODING_HEADER \<noteq> ENCODING_HEADER"
    "{ENCODING_HEADER, ACCEPT_ENCODING_HEADER, ''te'', ''content-type''} \<subseteq> set GRPC_RESERVED_HEADERS"
    by (simp_all add: ENCODING_HEADER_def ACCEPT_ENCODING_HEADER_def GRPC_RESERVED_HEADERS_def)
  show ?thesis
    using assms(2) ne
    by (cases "gc_send C"; cases "into_accept_encoding_header_value (gc_accept C)")
       (auto simp: prepare_request_def request_into_http_def Let_def header_lawsD [OF assms(1)] san)
qed

lemma from_header_map_None: "hm_get X hm GRPC_STATUS = None \<Longrightarrow> from_header_map X hm = None"
  by (simp add: from_header_map_def)

subsection \<open>Properties\<close>

text \<open>
  C21: Every request a client sends is a well-formed gRPC request: a \<^verbatim>\<open>POST\<close> over HTTP/2
  whose headers ask for trailers, give the gRPC content type, name the encoding of the messages
  exactly when they are compressed, and list the encodings the client accepts exactly when there
  are any; no metadata of the caller can override these, and all its other metadata is sent.
\<close>

theorem client_request_shape:
  assumes "header_laws X" "client_uri X U C path = Inr uri"
  shows "\<exists>r. prepare_request X U C request path = Inr r \<and> hq_method r = ''POST'' \<and> hq_version r = Http2 \<and>
    hq_path r = uri \<and> hq_body r = rq_message request \<and>
    hm_get X (hq_headers r) ''te'' = Some ''trailers'' \<and>
    hm_get X (hq_headers r) ''content-type'' = Some GRPC_CONTENT_TYPE \<and>
    hm_get X (hq_headers r) ENCODING_HEADER = map_option encoding_as_str (gc_send C) \<and>
    hm_get X (hq_headers r) ACCEPT_ENCODING_HEADER = into_accept_encoding_header_value (gc_accept C) \<and>
    hm_get X (hq_headers r) GRPC_STATUS = None \<and>
    (\<forall>k. k \<in> set GRPC_RESERVED_HEADERS \<or> hm_get_all X (hq_headers r) k = hm_get_all X (rq_metadata request) k)"
proof -
  have ne: "ENCODING_HEADER \<noteq> ''te''" "ENCODING_HEADER \<noteq> ''content-type''" "ACCEPT_ENCODING_HEADER \<noteq> ''te''"
    "ACCEPT_ENCODING_HEADER \<noteq> ''content-type''" "ACCEPT_ENCODING_HEADER \<noteq> ENCODING_HEADER"
    "GRPC_STATUS \<noteq> ''te''" "GRPC_STATUS \<noteq> ''content-type''" "GRPC_STATUS \<noteq> ENCODING_HEADER"
    "GRPC_STATUS \<noteq> ACCEPT_ENCODING_HEADER"
    "{ENCODING_HEADER, ACCEPT_ENCODING_HEADER, ''te'', ''content-type'', GRPC_STATUS} \<subseteq> set GRPC_RESERVED_HEADERS"
    by (simp_all add: ENCODING_HEADER_def ACCEPT_ENCODING_HEADER_def GRPC_STATUS_def GRPC_RESERVED_HEADERS_def)
  from prepare_request_headers [OF assms, of request] show ?thesis
    using ne by (auto simp: hm_get_eq [OF assms(1)] split: option.split)
qed

text \<open>A URI library for the examples: every path parses, every origin takes it.\<close>

definition plain_uri :: "unit uri_ops" where
  "plain_uri = \<lparr>uo_parse = Inr, uo_path = (\<lambda>p. p), uo_from_parts = (\<lambda>_ p. Inr p)\<rparr>"

definition plain_client :: "unit grpc_client" where
  "plain_client = client_with_origin () (Some ''/'')"

theorem client_request_shape_witness:
  "\<exists>r. prepare_request ref_ext plain_uri (client_send_compressed plain_client Gzip)
      \<lparr>rq_metadata = [(''te'', ''none''), (''x-a'', ''1'')], rq_message = (), rq_extensions = None\<rparr> ''/s.S/m'' = Inr r \<and>
    hq_path r = ''/s.S/m'' \<and> hm_get ref_ext (hq_headers r) ''te'' = Some ''trailers'' \<and>
    hm_get ref_ext (hq_headers r) ENCODING_HEADER = Some ''gzip''"
proof -
  have u: "client_uri ref_ext plain_uri (client_send_compressed plain_client Gzip) ''/s.S/m'' = Inr ''/s.S/m''"
    by (simp add: client_uri_def plain_uri_def plain_client_def client_with_origin_def client_send_compressed_def)
  from client_request_shape [OF ref_header_laws u, of
      "\<lparr>rq_metadata = [(''te'', ''none''), (''x-a'', ''1'')], rq_message = (), rq_extensions = None\<rparr>"]
  show ?thesis by (auto simp: client_send_compressed_def encoding_as_str_def)
qed

text \<open>
  What a response without messages means: a status other than \<open>Ok\<close> in its headers is the
  call's error, with its code, message, details and metadata as the headers give them, and the
  body is not read; with the status \<open>Ok\<close> in the headers the call succeeds with a stream whose
  status no longer comes from trailers, so a unary call on an empty body fails with \<open>Internal\<close>.
\<close>

theorem trailers_only_response:
  assumes "from_encoding_header X (hp_headers resp) (gc_accept C) = Inr enc"
    and "from_header_map X (hp_headers resp) = Some st"
    and "transport_ok = (\<lambda>_. Inr resp)" "client_uri X U C path = Inr uri"
  shows "(st_code st \<noteq> Ok \<longrightarrow> client_streaming_call X U C E D transport_ok r path = Inl st \<and>
            client_client_streaming X U C E D transport_ok r path = Some (Inl st)) \<and>
    (st_code st = Ok \<and> hp_body resp = [] \<longrightarrow>
       client_client_streaming X U C E D transport_ok r path
         = Some (Inl (status_new X Internal ''Missing response message.'')))"
proof -
  obtain req where "prepare_request X U C (request_map (body_new eb_is_end_stream)
      (request_map (\<lambda>s. new_client E (stream_ok s) (gc_send C) (gc_max_encoding C)) r)) path = Inr req"
    using assms(4) by (simp add: prepare_request_def Let_def)
  then have call: "client_streaming_call X U C E D transport_ok r path = create_response X C D resp"
    by (simp add: client_streaming_call_def Let_def assms(3))
  show ?thesis
  proof (cases "st_code st = Ok")
    case False
    then show ?thesis
      using call assms(1,2) by (simp add: create_response_def client_client_streaming_def)
  next
    case True
    define s where "s = sg_inner (new_empty X D ([] :: ('a, 'a err) raw_body))"
    have s: "si_state s = ReadHeader" "si_buf s = []" "si_body s = []" "si_direction s = DirEmptyResponse"
      by (simp_all add: s_def new_empty_def streaming_new_def map_err_body_def)
    have "poll_pass X D s = (s, Some (Ready None))"
      using s decode_chunk_empty [OF s(1,2), of X D]
      by (simp add: poll_pass_def decode_poll_frame_def decode_response_def)
    then have "poll_next X D s = (s, Ready None)" by (subst poll_next.simps) simp
    then have "message X D s = (s, Inr None)" by (subst message.simps) simp
    then have "hp_body resp = [] \<Longrightarrow> client_client_streaming X U C E D transport_ok r path
         = Some (Inl (status_new X Internal ''Missing response message.''))"
      using call assms(1,2) True
      by (simp add: create_response_def client_client_streaming_def Let_def response_from_http_parts_def s_def
          new_empty_def streaming_new_def)
    then show ?thesis using True by simp
  qed
qed

theorem trailers_only_response_witness:
  "client_client_streaming ref_ext plain_uri plain_client raw_encoder raw_decoder
     (\<lambda>_. Inr \<lparr>hp_status = 200, hp_version = Http2, hp_headers = [(''grpc-status'', ''5'')], hp_extensions = None, hp_body = []\<rparr>)
     (request_new ref_ext [Ready [7]]) ''/s.S/m'' = Some (Inl (Status NotFound [] [] [] None))"
proof -
  let ?resp = "\<lparr>hp_status = 200, hp_version = Http2, hp_headers = [(''grpc-status'', ''5'')], hp_extensions = None, hp_body = []\<rparr>
     :: (alist, bytes list option) raw_response"
  have e: "from_encoding_header ref_ext (hp_headers ?resp) (gc_accept plain_client) = Inr None"
    by (simp add: from_encoding_header_def ref_ops al_get_def al_get_all_def ENCODING_HEADER_def)
  have st: "from_header_map ref_ext (hp_headers ?resp) = Some (Status NotFound [] [] [] None)"
    by (simp add: from_header_map_def ref_ops al_get_def al_get_all_def GRPC_STATUS_def GRPC_MESSAGE_def
        GRPC_STATUS_DETAILS_def code_from_bytes_def code_table_def status_header_def with_details_and_metadata_def)
  have u: "client_uri ref_ext plain_uri plain_client ''/s.S/m'' = Inr ''/s.S/m''"
    by (simp add: client_uri_def plain_uri_def plain_client_def client_with_origin_def)
  from trailers_only_response [OF e st refl u, of raw_encoder raw_decoder "request_new ref_ext [Ready [7]]"]
  show ?thesis by simp
qed

end
