(* ===== verification/Grpc_Server.thy ===== *)
theory Grpc_Server
  imports Framing Messages
begin

section \<open>The server's RPC handlers\<close>

text \<open>
  \<^verbatim>\<open>grpc-server/src/grpc.rs\<close>: the handler object with its settings, how a request
  is decoded for a service method, how the method's result becomes an HTTP response, and the
  four kinds of RPC. A service method is a function; its errors are statuses. The lemmas show
  what reaches the method and what the response carries on every path.
\<close>

record ('h, 'm, 'n) grpc_server =
  gs_encoder :: "('h, 'n) encoder"
  gs_decoder :: "('h, 'm) decoder"
  gs_accept :: enabled_encodings
  gs_send :: enabled_encodings
  gs_max_decoding :: "nat option"
  gs_max_encoding :: "nat option"

definition grpc_server_new :: "('h, 'n) encoder \<Rightarrow> ('h, 'm) decoder \<Rightarrow> ('h, 'm, 'n) grpc_server" where
  "grpc_server_new E D =
     \<lparr>gs_encoder = E, gs_decoder = D, gs_accept = enabled_default, gs_send = enabled_default,
      gs_max_decoding = None, gs_max_encoding = None\<rparr>"

definition server_accept_compressed ::
  "('h, 'm, 'n) grpc_server \<Rightarrow> compression_encoding \<Rightarrow> ('h, 'm, 'n) grpc_server" where
  "server_accept_compressed G e = G\<lparr>gs_accept := enable (gs_accept G) e\<rparr>"

definition server_send_compressed ::
  "('h, 'm, 'n) grpc_server \<Rightarrow> compression_encoding \<Rightarrow> ('h, 'm, 'n) grpc_server" where
  "server_send_compressed G e = G\<lparr>gs_send := enable (gs_send G) e\<rparr>"

text \<open>The two size limits; \<open>None\<close> is the failed assertion.\<close>

definition server_max_decoding_message_size ::
  "('h, 'm, 'n) grpc_server \<Rightarrow> nat \<Rightarrow> ('h, 'm, 'n) grpc_server option" where
  "server_max_decoding_message_size G limit =
     (if limit > 0 then Some (G\<lparr>gs_max_decoding := Some limit\<rparr>) else None)"

definition server_max_encoding_message_size ::
  "('h, 'm, 'n) grpc_server \<Rightarrow> nat \<Rightarrow> ('h, 'm, 'n) grpc_server option" where
  "server_max_encoding_message_size G limit =
     (if limit > 0 then Some (G\<lparr>gs_max_encoding := Some limit\<rparr>) else None)"

subsection \<open>Requests\<close>

type_synonym ('h, 'x) raw_request = "('h, 'x, ('h, 'h err) raw_body) http_request"

text \<open>
  One message for unary and server-streaming methods. The outer \<open>None\<close>: reading the trailers
  did not end.
\<close>

definition map_request_unary ::
  "('h, 'x) ext \<Rightarrow> ('h, 'm, 'n) grpc_server \<Rightarrow> ('h, 'x) raw_request
     \<Rightarrow> ('h status + ('h, 'x, 'm) request) option" where
  "map_request_unary X G req =
     (case from_encoding_header X (hq_headers req) (gs_accept G) of
        Inl st \<Rightarrow> Some (Inl st)
      | Inr request_encoding \<Rightarrow>
          (let stream = new_request X (gs_decoder G) (hq_body req) request_encoding (gs_max_decoding G)
           in case message X (sg_decoder stream) (sg_inner stream) of
                (s1, Inl st) \<Rightarrow> Some (Inl st)
              | (s1, Inr None) \<Rightarrow> Some (Inl (status_new X Internal ''Missing request message.''))
              | (s1, Inr (Some m)) \<Rightarrow>
                  (let r = request_from_http_parts req m
                   in case streaming_trailers X (sg_decoder stream) s1 of
                        None \<Rightarrow> None
                      | Some (s2, Inl st) \<Rightarrow> Some (Inl st)
                      | Some (s2, Inr None) \<Rightarrow> Some (Inr r)
                      | Some (s2, Inr (Some trailers)) \<Rightarrow>
                          Some (Inr (r\<lparr>rq_metadata := metadata_merge X (rq_metadata r) trailers\<rparr>)))))"

definition map_request_streaming ::
  "('h, 'x) ext \<Rightarrow> ('h, 'm, 'n) grpc_server \<Rightarrow> ('h, 'x) raw_request
     \<Rightarrow> 'h status + ('h, 'x, ('h, 'm) streaming) request" where
  "map_request_streaming X G req =
     (case from_encoding_header X (hq_headers req) (gs_accept G) of
        Inl st \<Rightarrow> Inl st
      | Inr encoding \<Rightarrow>
          Inr (request_from_http_parts req
                 (new_request X (gs_decoder G) (hq_body req) encoding (gs_max_decoding G))))"

subsection \<open>Responses\<close>

type_synonym ('h, 'x, 'n) grpc_http_response = "('h, 'x, ('h, 'n) encode_body body_kind) http_response"

definition map_response ::
  "('h, 'x) ext \<Rightarrow> ('h, 'm, 'n) grpc_server \<Rightarrow> 'h status + ('h, 'x, ('h, 'n) src_ev list) response
     \<Rightarrow> compression_encoding option \<Rightarrow> ('h, 'x, 'n) grpc_http_response" where
  "map_response X G response accept_encoding =
     (case response of
        Inl st \<Rightarrow> status_into_http X body_empty st
      | Inr r \<Rightarrow>
          (let parts = response_into_http X r;
               h1 = hm_insert X (hp_headers parts) ''content-type'' GRPC_CONTENT_TYPE;
               h2 = (case accept_encoding of
                       Some e \<Rightarrow> hm_insert X h1 ENCODING_HEADER (encoding_as_str e) | None \<Rightarrow> h1);
               body = new_server (gs_encoder G) (hp_body parts) accept_encoding (gs_max_encoding G)
           in \<lparr>hp_status = hp_status parts, hp_version = hp_version parts, hp_headers = h2,
               hp_extensions = hp_extensions parts, hp_body = body_new eb_is_end_stream body\<rparr>))"

text \<open>\<^verbatim>\<open>tokio_stream::once(Ok(m))\<close> for the methods with one response message.\<close>

definition once_response :: "'h status + ('h, 'x, 'n) response \<Rightarrow> 'h status + ('h, 'x, ('h, 'n) src_ev list) response" where
  "once_response = map_sum id (response_map (\<lambda>m. [SrcItem m]))"

subsection \<open>The four kinds of RPC\<close>

definition server_unary ::
  "('h, 'x) ext \<Rightarrow> ('h, 'm, 'n) grpc_server \<Rightarrow> (('h, 'x, 'm) request \<Rightarrow> 'h status + ('h, 'x, 'n) response)
     \<Rightarrow> ('h, 'x) raw_request \<Rightarrow> ('h, 'x, 'n) grpc_http_response option" where
  "server_unary X G service req =
     (let accept_encoding = from_accept_encoding_header X (hq_headers req) (gs_send G)
      in case map_request_unary X G req of
           None \<Rightarrow> None
         | Some (Inl st) \<Rightarrow> Some (status_into_http X body_empty st)
         | Some (Inr request) \<Rightarrow> Some (map_response X G (once_response (service request)) accept_encoding))"

definition server_server_streaming ::
  "('h, 'x) ext \<Rightarrow> ('h, 'm, 'n) grpc_server
     \<Rightarrow> (('h, 'x, 'm) request \<Rightarrow> 'h status + ('h, 'x, ('h, 'n) src_ev list) response)
     \<Rightarrow> ('h, 'x) raw_request \<Rightarrow> ('h, 'x, 'n) grpc_http_response option" where
  "server_server_streaming X G service req =
     (let accept_encoding = from_accept_encoding_header X (hq_headers req) (gs_send G)
      in case map_request_unary X G req of
           None \<Rightarrow> None
         | Some (Inl st) \<Rightarrow> Some (status_into_http X body_empty st)
         | Some (Inr request) \<Rightarrow> Some (map_response X G (service request) accept_encoding))"

definition server_client_streaming ::
  "('h, 'x) ext \<Rightarrow> ('h, 'm, 'n) grpc_server
     \<Rightarrow> (('h, 'x, ('h, 'm) streaming) request \<Rightarrow> 'h status + ('h, 'x, 'n) response)
     \<Rightarrow> ('h, 'x) raw_request \<Rightarrow> ('h, 'x, 'n) grpc_http_response" where
  "server_client_streaming X G service req =
     (let accept_encoding = from_accept_encoding_header X (hq_headers req) (gs_send G)
      in case map_request_streaming X G req of
           Inl st \<Rightarrow> status_into_http X body_empty st
         | Inr request \<Rightarrow> map_response X G (once_response (service request)) accept_encoding)"

definition server_streaming ::
  "('h, 'x) ext \<Rightarrow> ('h, 'm, 'n) grpc_server
     \<Rightarrow> (('h, 'x, ('h, 'm) streaming) request \<Rightarrow> 'h status + ('h, 'x, ('h, 'n) src_ev list) response)
     \<Rightarrow> ('h, 'x) raw_request \<Rightarrow> ('h, 'x, 'n) grpc_http_response" where
  "server_streaming X G service req =
     (let accept_encoding = from_accept_encoding_header X (hq_headers req) (gs_send G)
      in case map_request_streaming X G req of
           Inl st \<Rightarrow> status_into_http X body_empty st
         | Inr request \<Rightarrow> map_response X G (service request) accept_encoding)"

subsection \<open>Lemmas\<close>

lemma message_end_request:
  assumes "si_state s = ReadHeader" "si_buf s = []" "si_body s = []" "si_direction s = DirRequest"
  shows "message X D s = (s, Inr None)"
proof -
  have "poll_pass X D s = (s, Some (Ready None))"
    using assms decode_chunk_empty [OF assms(1,2), of X D]
    by (simp add: poll_pass_def decode_poll_frame_def decode_response_def)
  then have "poll_next X D s = (s, Ready None)" by (subst poll_next.simps) simp
  then show ?thesis by (subst message.simps) simp
qed

text \<open>The trailers of a request whose body has none.\<close>

lemma no_request_trailers:
  assumes "si_state s = ReadHeader" "si_buf s @ body_data evs = []" "data_only evs" "si_body s = evs"
    and "si_direction s = DirRequest" "si_trailers s = None"
  shows "\<exists>s'. streaming_trailers X D s = Some (s', Inr None)"
proof -
  obtain s' where m: "message X D s = message X D s'"
    and s': "si_state s' = ReadHeader" "si_buf s' = []" "si_body s' = []" "same_params s s'"
    using message_drained [of s evs "[]" X D] assms(1-4) by auto
  have "message X D s = (s', Inr None)"
    using m s' assms(5) message_end_request [of s' X D] by (simp add: same_params_def)
  then have "drain X D s = Some (s', Inr ())" by (simp add: drain.simps [of X D s])
  then show ?thesis
    using assms(6) s'(4) by (simp add: streaming_trailers_def same_params_def)
qed

lemma map_request_unary_ok:
  assumes "from_encoding_header X (hq_headers req) (gs_accept G) = Inr enc"
    and "payload_ok X (gs_decoder G) enc (gs_max_decoding G) c p m"
    and "hq_body req = as_raw evs" "data_only evs" "body_data evs = grpc_frame c p"
  shows "map_request_unary X G req = Some (Inr (request_from_http_parts req m))"
proof -
  let ?D = "gs_decoder G"
  define s where "s = sg_inner (new_request X ?D (hq_body req) enc (gs_max_decoding G))"
  have s: "si_state s = ReadHeader" "si_buf s = []" "si_body s = evs" "si_encoding s = enc"
    "si_max_message_size s = gs_max_decoding G" "si_direction s = DirRequest" "si_trailers s = None"
    by (simp_all add: s_def new_request_def streaming_new_def map_err_as_raw assms(3))
  have ok: "payload_ok X ?D (si_encoding s) (si_max_message_size s) c p m" using assms(2) s by simp
  have aw: "awaits c p [] s evs []" using s assms(4,5) by (simp add: awaits_def)
  from message_awaits [OF ok aw] obtain s1 evs1 where
    m: "message X ?D s = (s1, Inr (Some m))" "si_state s1 = ReadHeader" "data_only evs1"
      "si_buf s1 @ body_data evs1 = []" "si_body s1 = evs1" "same_params s s1" by auto
  obtain s2 where "streaming_trailers X ?D s1 = Some (s2, Inr None)"
    using no_request_trailers [OF m(2,4,3,5), of X ?D] m(6) s by (auto simp: same_params_def)
  then show ?thesis
    using assms(1) m(1) by (simp add: map_request_unary_def Let_def s_def new_request_def streaming_new_def)
qed

lemma map_request_unary_missing:
  assumes "from_encoding_header X (hq_headers req) (gs_accept G) = Inr enc"
    and "hq_body req = as_raw evs" "data_only evs" "body_data evs = []"
  shows "map_request_unary X G req = Some (Inl (status_new X Internal ''Missing request message.''))"
proof -
  let ?D = "gs_decoder G"
  define s where "s = sg_inner (new_request X ?D (hq_body req) enc (gs_max_decoding G))"
  have s: "si_state s = ReadHeader" "si_buf s = []" "si_body s = evs" "si_direction s = DirRequest"
    by (simp_all add: s_def new_request_def streaming_new_def map_err_as_raw assms(2))
  obtain s' where m: "message X ?D s = message X ?D s'"
    and s': "si_state s' = ReadHeader" "si_buf s' = []" "si_body s' = []" "same_params s s'"
    using message_drained [of s evs "[]" X ?D] s assms(3,4) by auto
  have "message X ?D s = (s', Inr None)"
    using m s' s message_end_request [of s' X ?D] by (simp add: same_params_def)
  then show ?thesis
    using assms(1) by (simp add: map_request_unary_def Let_def s_def new_request_def streaming_new_def)
qed

text \<open>What a response carries besides its body.\<close>

lemma map_response_headers:
  assumes "header_laws X"
  shows "hm_get_all X (hp_headers (map_response X G (Inr r) acc)) k =
    (if k = ''content-type'' then [GRPC_CONTENT_TYPE]
     else if k = ENCODING_HEADER then (case acc of Some e \<Rightarrow> [encoding_as_str e] | None \<Rightarrow> [])
     else if k \<in> set GRPC_RESERVED_HEADERS then [] else hm_get_all X (rs_metadata r) k)"
proof -
  have san: "hm_get_all X (into_sanitized_headers X md) k
      = (if k \<in> set GRPC_RESERVED_HEADERS then [] else hm_get_all X md k)" for md k
    using assms by (simp add: into_sanitized_headers_def remove_all_get_all)
  have ne: "ENCODING_HEADER \<noteq> ''content-type''" "ENCODING_HEADER \<in> set GRPC_RESERVED_HEADERS"
    by (simp_all add: ENCODING_HEADER_def GRPC_RESERVED_HEADERS_def)
  show ?thesis
    using ne by (cases acc) (auto simp: map_response_def response_into_http_def Let_def header_lawsD [OF assms] san)
qed

lemma map_response_body:
  "hp_body (map_response X G (Inr r) acc) = KWrap (new_server (gs_encoder G) (rs_message r) acc (gs_max_encoding G))"
  "hp_status (map_response X G (Inr r) acc) = 200"
  by (simp_all add: map_response_def Let_def response_into_http_def body_new_def new_server_def)

subsection \<open>Properties\<close>

text \<open>
  A unary or server-streaming request reaches its method as it was sent: when the body,
  however it is cut, holds exactly one message, the method is called once with that message and
  the request's headers as metadata, and its result is what is answered, compressed with the
  encoding negotiated from the request. When the body holds no message, the method is not called
  and the answer is the status \<open>Internal\<close>.
\<close>

theorem unary_request_dispatch:
  assumes "from_encoding_header X (hq_headers req) (gs_accept G) = Inr enc"
    and "hq_body req = as_raw evs" "data_only evs"
    and "body_data evs = [] \<or> body_data evs = grpc_frame c p \<and> payload_ok X (gs_decoder G) enc (gs_max_decoding G) c p m"
  shows "server_unary X G svc req = Some
      (if body_data evs = [] then status_into_http X body_empty (status_new X Internal ''Missing request message.'')
       else map_response X G (once_response (svc \<lparr>rq_metadata = hq_headers req, rq_message = m, rq_extensions = hq_extensions req\<rparr>))
              (from_accept_encoding_header X (hq_headers req) (gs_send G)))
    \<and> server_server_streaming X G svc' req = Some
      (if body_data evs = [] then status_into_http X body_empty (status_new X Internal ''Missing request message.'')
       else map_response X G (svc' \<lparr>rq_metadata = hq_headers req, rq_message = m, rq_extensions = hq_extensions req\<rparr>)
              (from_accept_encoding_header X (hq_headers req) (gs_send G)))"
proof (cases "body_data evs = []")
  case True
  then show ?thesis
    using map_request_unary_missing [OF assms(1-3)]
    by (simp add: server_unary_def server_server_streaming_def Let_def)
next
  case False
  then have b: "body_data evs = grpc_frame c p" and ok: "payload_ok X (gs_decoder G) enc (gs_max_decoding G) c p m"
    using assms(4) by auto
  show ?thesis
    using map_request_unary_ok [OF assms(1) ok assms(2,3) b] b
    by (simp add: server_unary_def server_server_streaming_def Let_def request_from_http_parts_def)
qed

abbreviation raw_server :: "(alist, bytes, bytes) grpc_server" where
  "raw_server \<equiv> grpc_server_new raw_encoder raw_decoder"

definition sample_request :: "(alist, bytes list option) raw_request" where
  "sample_request = \<lparr>hq_method = ''POST'', hq_path = ''/s.S/m'', hq_version = Http2, hq_headers = [(''x-a'', ''1'')],
     hq_extensions = None, hq_body = as_raw [BFrame (FData [0, 0, 0]), BPending, BFrame (FData [0, 2, 7, 8])]\<rparr>"

theorem unary_request_dispatch_witness:
  "server_unary ref_ext raw_server (\<lambda>r. Inr (response_new ref_ext (rev (rq_message r)))) sample_request
    = Some (map_response ref_ext raw_server (Inr (response_new ref_ext [SrcItem [8, 7]])) None)"
proof -
  let ?evs = "[BFrame (FData [0, 0, 0]), BPending, BFrame (FData [0, 2, 7, 8])] :: alist body"
  have f: "grpc_frame False [7, 8] = [0, 0, 0, 0, 2, 7, 8]" by (simp add: grpc_frame_def u32_be_def)
  have e: "from_encoding_header ref_ext (hq_headers sample_request) (gs_accept raw_server) = Inr None"
    by (simp add: from_encoding_header_def ref_ops al_get_def al_get_all_def sample_request_def ENCODING_HEADER_def)
  have ok: "payload_ok ref_ext (gs_decoder raw_server) None (gs_max_decoding raw_server) False [7, 8] [7, 8]"
    by (simp add: payload_ok_def grpc_server_new_def prost_decoder_def prost_decode_def raw_decode_def recv_limit_def
        DEFAULT_MAX_RECV_MESSAGE_SIZE_def)
  have b: "hq_body sample_request = as_raw ?evs" by (simp add: sample_request_def)
  have acc: "from_accept_encoding_header ref_ext (hq_headers sample_request) (gs_send raw_server) = None"
    by (simp add: from_accept_encoding_header_def ref_ops al_get_def al_get_all_def sample_request_def ACCEPT_ENCODING_HEADER_def)
  have d: "body_data ?evs = [] \<or> body_data ?evs = grpc_frame False [7, 8] \<and>
      payload_ok ref_ext (gs_decoder raw_server) None (gs_max_decoding raw_server) False [7, 8] [7, 8]"
    using ok f by simp
  from unary_request_dispatch [OF e b _ d, THEN conjunct1, of "\<lambda>r. Inr (response_new ref_ext (rev (rq_message r)))"] acc
  show ?thesis
    by (simp add: once_response_def response_map_def response_new_def)
qed

text \<open>
  The answer to a call is a well-formed gRPC response on both paths. A failed call is a
  response without a body whose headers carry the status; a successful one has the negotiated
  encoding in its headers exactly when there is one, keeps the method's metadata but for the
  reserved names, leaves the status to the trailers, and its body is the server's encoding of the
  response stream. Both have HTTP status 200 and the gRPC content type.
\<close>

theorem response_shape:
  assumes "header_laws X" "value_laws X" "percent_laws X" "base64_laws X"
  shows "hp_status (map_response X G res acc) = 200 \<and>
    hm_get X (hp_headers (map_response X G res acc)) ''content-type'' = Some GRPC_CONTENT_TYPE \<and>
    (case res of
       Inl st \<Rightarrow> hp_body (map_response X G res acc) = KEmpty \<and>
         hm_get X (hp_headers (map_response X G res acc)) GRPC_STATUS = Some (to_header_value (st_code st))
     | Inr r \<Rightarrow>
         hp_body (map_response X G res acc) = KWrap (new_server (gs_encoder G) (rs_message r) acc (gs_max_encoding G)) \<and>
         hm_get X (hp_headers (map_response X G res acc)) ENCODING_HEADER = map_option encoding_as_str acc \<and>
         hm_get X (hp_headers (map_response X G res acc)) GRPC_STATUS = None \<and>
         (\<forall>k. k \<in> set GRPC_RESERVED_HEADERS \<or>
            hm_get_all X (hp_headers (map_response X G res acc)) k = hm_get_all X (rs_metadata r) k))"
proof (cases res)
  case (Inr r)
  have n: "GRPC_STATUS \<noteq> ''content-type''" "GRPC_STATUS \<noteq> ENCODING_HEADER" "ENCODING_HEADER \<noteq> ''content-type''"
    "{''content-type'', ENCODING_HEADER, GRPC_STATUS} \<subseteq> set GRPC_RESERVED_HEADERS"
    by (simp_all add: GRPC_STATUS_def ENCODING_HEADER_def GRPC_RESERVED_HEADERS_def)
  show ?thesis
    unfolding Inr sum.case hm_get_eq [OF assms(1)] map_response_headers [OF assms(1)] map_response_body
    using n by (auto split: option.split)
next
  case (Inl st)
  then show ?thesis
    by (simp add: map_response_def body_empty_def status_into_http_fields [OF assms])
qed

theorem response_shape_witness:
  "hm_get ref_ext (hp_headers (map_response ref_ext raw_server (Inl sample_status) None)) GRPC_STATUS = Some ''13''"
  using response_shape [OF ref_header_laws ref_value_laws ref_percent_laws ref_base64_laws, of raw_server "Inl sample_status" None]
  by (simp add: sample_status_def)

end
