(* ===== verification/Router.thy ===== *)
theory Router
  imports Grpc_Server "HOL-Library.AList" "HOL-Library.Multiset"
begin

section \<open>Routing and interception\<close>

text \<open>
  \<^verbatim>\<open>grpc-server/src/router.rs\<close>, \<^verbatim>\<open>interceptor.rs\<close> and
  \<^verbatim>\<open>mtls.rs\<close>: which registered service a path reaches, the fallback, the
  interceptor that may rewrite or refuse a request before its service sees it, and the peer's
  certificates. A service is a function from requests to responses.
\<close>

subsection \<open>The router\<close>

text \<open>
  The routes are a \<^verbatim>\<open>HashMap\<close>, kept here as a list of entries with distinct keys;
  \<open>iter\<close> is the order the map iterates in, which Rust leaves unspecified, so it is a parameter.
\<close>

type_synonym ('h, 'x, 'b, 'c) service = "('h, 'x, 'b) http_request \<Rightarrow> ('h, 'x, 'c) http_response"

record 's router =
  rt_routes :: "(string \<times> 's) list"
  rt_fallback :: "'s option"

definition router_new :: "'s router" where
  "router_new = \<lparr>rt_routes = [], rt_fallback = None\<rparr>"

definition add_service :: "'s router \<Rightarrow> string \<Rightarrow> 's \<Rightarrow> 's router" where
  "add_service r name svc =
     (let key = ''/'' @ name in r\<lparr>rt_routes := AList.update key svc (rt_routes r)\<rparr>)"

definition router_fallback :: "'s router \<Rightarrow> 's \<Rightarrow> 's router" where
  "router_fallback r svc = r\<lparr>rt_fallback := Some svc\<rparr>"

definition route_matches :: "string \<Rightarrow> string \<Rightarrow> bool" where
  "route_matches path key = (starts_with path key \<and> starts_with (drop (length key) path) ''/'')"

definition route :: "((string \<times> 's) list \<Rightarrow> (string \<times> 's) list) \<Rightarrow> 's router \<Rightarrow> string \<Rightarrow> 's option" where
  "route iter r path =
     (case find (\<lambda>(key, svc). route_matches path key) (iter (rt_routes r)) of
        Some (key, svc) \<Rightarrow> Some svc
      | None \<Rightarrow> None)"

text \<open>
  \<^verbatim>\<open>Service::call\<close> of the router: the body is wrapped first, whatever the route;
  \<open>is_end\<close> is its \<^verbatim>\<open>is_end_stream\<close>.
\<close>

definition router_call ::
  "('h, 'x) ext \<Rightarrow> ((string \<times> ('h, 'x, 'b body_kind, 'c body_kind) service) list
       \<Rightarrow> (string \<times> ('h, 'x, 'b body_kind, 'c body_kind) service) list)
     \<Rightarrow> ('b \<Rightarrow> bool) \<Rightarrow> ('h, 'x, 'b body_kind, 'c body_kind) service router
     \<Rightarrow> ('h, 'x, 'b) http_request \<Rightarrow> ('h, 'x, 'c body_kind) http_response" where
  "router_call X iter is_end r req =
     (let path = hq_path req;
          req' = \<lparr>hq_method = hq_method req, hq_path = hq_path req, hq_version = hq_version req,
                  hq_headers = hq_headers req, hq_extensions = hq_extensions req,
                  hq_body = body_new is_end (hq_body req)\<rparr>
      in case route iter r path of
           Some svc \<Rightarrow> svc req'
         | None \<Rightarrow>
             (case rt_fallback r of
                Some fallback \<Rightarrow> fallback req'
              | None \<Rightarrow> status_into_http X body_empty (status_new X Unimplemented ''service not found'')))"

subsection \<open>Interceptors\<close>

definition intercepted_call ::
  "('h, 'x) ext \<Rightarrow> (('h, 'x, unit) request \<Rightarrow> 'h status + ('h, 'x, unit) request)
     \<Rightarrow> ('h, 'x, 'b, 'c body_kind) service \<Rightarrow> ('h, 'x, 'b, 'c body_kind) service" where
  "intercepted_call X intercept inner req =
     (let interceptor_req = request_from_parts (hq_headers req) () (hq_extensions req)
      in case intercept interceptor_req of
           Inr intercepted \<Rightarrow>
             inner (req\<lparr>hq_headers := rq_metadata intercepted, hq_extensions := rq_extensions intercepted\<rparr>)
         | Inl status \<Rightarrow> status_into_http X body_empty status)"

subsection \<open>Peer certificates\<close>

datatype client_auth = AuthRequired | AuthOptional

definition peer_leaf :: "bytes list \<Rightarrow> bytes option" where
  "peer_leaf certs = (case certs of [] \<Rightarrow> None | c # _ \<Rightarrow> Some c)"

subsection \<open>Lemmas\<close>

text \<open>A router whose keys are service names: a slash and then no other slash.\<close>

definition well_named :: "string \<Rightarrow> bool" where
  "well_named key = (\<exists>n. key = ''/'' @ n \<and> CHR ''/'' \<notin> set n)"

definition router_ok :: "'s router \<Rightarrow> bool" where
  "router_ok r \<longleftrightarrow> distinct (map fst (rt_routes r)) \<and> list_all well_named (map fst (rt_routes r))"

lemma router_ok_new: "router_ok router_new"
  by (simp add: router_ok_def router_new_def)

lemma router_ok_add: "router_ok r \<Longrightarrow> CHR ''/'' \<notin> set name \<Longrightarrow> router_ok (add_service r name svc)"
  by (auto simp: router_ok_def add_service_def Let_def list_all_iff distinct_update update_keys well_named_def)

lemma router_ok_fallback: "router_ok r \<Longrightarrow> router_ok (router_fallback r svc)"
  by (simp add: router_ok_def router_fallback_def)

lemma route_matches_name:
  "route_matches path (''/'' @ n) \<longleftrightarrow> (\<exists>m. path = ''/'' @ n @ ''/'' @ m)"
  by (auto simp: route_matches_def starts_with_iff)

lemma names_agree:
  "CHR ''/'' \<notin> set n \<Longrightarrow> CHR ''/'' \<notin> set n' \<Longrightarrow> n @ CHR ''/'' # m = n' @ CHR ''/'' # m' \<Longrightarrow> n = n'"
  by (induction n arbitrary: n') (auto simp: Cons_eq_append_conv append_eq_Cons_conv)

lemma find_SomeD: "find P xs = Some x \<Longrightarrow> x \<in> set xs \<and> P x"
  by (induction xs) (auto split: if_splits)

lemma route_lookup:
  assumes "router_ok r" "\<And>xs. mset (iter xs) = mset xs"
  shows "route iter r path = Some svc \<longleftrightarrow> (\<exists>n m. path = ''/'' @ n @ ''/'' @ m \<and> CHR ''/'' \<notin> set n \<and>
    map_of (rt_routes r) (''/'' @ n) = Some svc)"
proof -
  have set: "set (iter (rt_routes r)) = set (rt_routes r)" by (metis assms(2) set_mset_mset)
  have dist: "distinct (map fst (rt_routes r))" and names: "\<And>k s. (k, s) \<in> set (rt_routes r) \<Longrightarrow> well_named k"
    using assms(1) by (auto simp: router_ok_def list_all_iff)
  have uniq: "k = k'" if u: "(k, s) \<in> set (rt_routes r)" "(k', s') \<in> set (rt_routes r)"
    "route_matches path k" "route_matches path k'" for k k' s s'
  proof -
    obtain n n' where n: "k = ''/'' @ n" "k' = ''/'' @ n'" "CHR ''/'' \<notin> set n" "CHR ''/'' \<notin> set n'"
      using names [OF u(1)] names [OF u(2)] unfolding well_named_def by blast
    obtain m m' where "path = ''/'' @ n @ ''/'' @ m" "path = ''/'' @ n' @ ''/'' @ m'"
      using u(3,4) n(1,2) route_matches_name by metis
    then have "n @ CHR ''/'' # m = n' @ CHR ''/'' # m'" by simp
    with n show ?thesis using names_agree by blast
  qed
  show ?thesis
  proof
    assume "route iter r path = Some svc"
    then obtain k where f: "find (\<lambda>(key, svc). route_matches path key) (iter (rt_routes r)) = Some (k, svc)"
      by (auto simp: route_def split: option.splits)
    from find_SomeD [OF this] have k: "(k, svc) \<in> set (rt_routes r)" "route_matches path k"
      using set by simp_all
    then obtain n where n: "k = ''/'' @ n" "CHR ''/'' \<notin> set n" using names by (auto simp: well_named_def)
    obtain m where m: "path = ''/'' @ n @ ''/'' @ m" using k(2) unfolding n(1) route_matches_name by blast
    have "map_of (rt_routes r) (''/'' @ n) = Some svc" using map_of_is_SomeI [OF dist k(1)] n(1) by simp
    with n(2) m show "\<exists>n m. path = ''/'' @ n @ ''/'' @ m \<and> CHR ''/'' \<notin> set n \<and> map_of (rt_routes r) (''/'' @ n) = Some svc"
      by blast
  next
    assume "\<exists>n m. path = ''/'' @ n @ ''/'' @ m \<and> CHR ''/'' \<notin> set n \<and> map_of (rt_routes r) (''/'' @ n) = Some svc"
    then obtain n m where n: "path = ''/'' @ n @ ''/'' @ m" "map_of (rt_routes r) (''/'' @ n) = Some svc" by blast
    have in_r: "(''/'' @ n, svc) \<in> set (rt_routes r)" by (rule map_of_SomeD [OF n(2)])
    have mt: "route_matches path (''/'' @ n)" unfolding route_matches_name n(1) by blast
    have "find (\<lambda>(key, svc). route_matches path key) (iter (rt_routes r)) \<noteq> None"
      unfolding find_None_iff set using in_r mt by fast
    then obtain k s where f: "find (\<lambda>(key, svc). route_matches path key) (iter (rt_routes r)) = Some (k, s)" by auto
    from find_SomeD [OF this] have k: "(k, s) \<in> set (rt_routes r)" "route_matches path k"
      using set by simp_all
    have "k = ''/'' @ n" by (rule uniq [OF k(1) in_r k(2) mt])
    then have "s = svc" using map_of_is_SomeI [OF dist k(1)] n(2) by simp
    then show "route iter r path = Some svc" by (simp add: route_def f)
  qed
qed

lemma route_segment:
  assumes "router_ok r" "\<And>xs. mset (iter xs) = mset xs" "CHR ''/'' \<notin> set n"
  shows "route iter r (''/'' @ n @ ''/'' @ m) = map_of (rt_routes r) (''/'' @ n)"
proof -
  have "route iter r (''/'' @ n @ ''/'' @ m) = Some s \<longleftrightarrow> map_of (rt_routes r) (''/'' @ n) = Some s" for s
    using route_lookup [OF assms(1,2), where path = "''/'' @ n @ ''/'' @ m"] assms(3) names_agree [OF assms(3)]
    by auto
  then show ?thesis by (metis not_Some_eq)
qed

subsection \<open>Properties\<close>

text \<open>
  Routing finds exactly the service registered under the first segment of the path, whatever
  order the hash map iterates in: after registering a service, its paths reach it, paths of every
  other service go where they went before, and no path reaches a service whose name is only a
  prefix of its first segment.
\<close>

theorem route_registered:
  assumes "router_ok r" "\<And>xs. mset (iter xs) = mset xs" "CHR ''/'' \<notin> set name" "CHR ''/'' \<notin> set other"
  shows "route iter (add_service r name svc) (''/'' @ name @ ''/'' @ m) = Some svc \<and>
    (other \<noteq> name \<longrightarrow>
       route iter (add_service r name svc) (''/'' @ other @ ''/'' @ m) = route iter r (''/'' @ other @ ''/'' @ m))"
proof -
  have ok: "router_ok (add_service r name svc)" by (rule router_ok_add [OF assms(1,3)])
  have m: "map_of (rt_routes (add_service r name svc)) k = (if k = ''/'' @ name then Some svc else map_of (rt_routes r) k)" for k
    by (simp add: add_service_def Let_def update_conv)
  show ?thesis
    using route_segment [OF ok assms(2,3), of m] route_segment [OF ok assms(2,4), of m] route_segment [OF assms(1,2,4), of m] m by simp
qed

theorem route_registered_witness:
  "route rev (add_service (add_service router_new ''foo.Bar'' 1) ''foo.BarX'' (2::nat)) ''/foo.BarX/M'' = Some 2 \<and>
   route rev (add_service (add_service router_new ''foo.Bar'' 1) ''foo.BarX'' (2::nat)) ''/foo.Bar/M''
     = route rev (add_service router_new ''foo.Bar'' 1) ''/foo.Bar/M''"
proof -
  have ok: "router_ok (add_service router_new ''foo.Bar'' (1::nat))"
    by (rule router_ok_add [OF router_ok_new]) simp
  have n: "CHR ''/'' \<notin> set ''foo.BarX''" "CHR ''/'' \<notin> set ''foo.Bar''" by simp_all
  have r: "mset (rev xs) = mset xs" for xs :: "(string \<times> nat) list" by simp
  from route_registered [OF ok r n, of 2 "''M''"] show ?thesis by simp
qed

text \<open>
  An interceptor decides alone whether a call goes on. When it refuses, the inner service is
  not called and the answer is a response without a body that carries the interceptor's status;
  when it accepts, the inner service gets the original method, path, version and body with the
  metadata and extensions the interceptor returned.
\<close>

theorem interceptor_gate:
  assumes "header_laws X" "value_laws X" "percent_laws X" "base64_laws X"
  shows "case intercept \<lparr>rq_metadata = hq_headers req, rq_message = (), rq_extensions = hq_extensions req\<rparr> of
      Inl st \<Rightarrow> (\<forall>inner. intercepted_call X intercept inner req = intercepted_call X intercept (\<lambda>_. resp) req) \<and>
        hp_body (intercepted_call X intercept inner req) = KEmpty \<and>
        hp_status (intercepted_call X intercept inner req) = 200 \<and>
        hm_get X (hp_headers (intercepted_call X intercept inner req)) GRPC_STATUS = Some (to_header_value (st_code st))
    | Inr r \<Rightarrow> \<exists>req'. intercepted_call X intercept inner req = inner req' \<and> hq_method req' = hq_method req \<and>
        hq_path req' = hq_path req \<and> hq_version req' = hq_version req \<and> hq_body req' = hq_body req \<and>
        hq_headers req' = rq_metadata r \<and> hq_extensions req' = rq_extensions r"
proof (cases "intercept \<lparr>rq_metadata = hq_headers req, rq_message = (), rq_extensions = hq_extensions req\<rparr>")
  case (Inl st)
  then show ?thesis
    by (simp add: intercepted_call_def request_from_parts_def body_empty_def status_into_http_fields [OF assms])
next
  case (Inr r)
  then show ?thesis
    by (simp add: intercepted_call_def request_from_parts_def)
       (rule exI [of _ "req\<lparr>hq_headers := rq_metadata r, hq_extensions := rq_extensions r\<rparr>"], simp)
qed

theorem interceptor_gate_witness:
  "hm_get ref_ext (hp_headers (intercepted_call ref_ext (\<lambda>r. Inl (status_new ref_ext Unauthenticated ''no token''))
      (\<lambda>_. http_response_new ref_ext (KWrap ())) sample_request)) GRPC_STATUS = Some ''16''"
  using interceptor_gate [OF ref_header_laws ref_value_laws ref_percent_laws ref_base64_laws,
      of "\<lambda>r. Inl (status_new ref_ext Unauthenticated ''no token'')" sample_request "http_response_new ref_ext (KWrap ())"
         "\<lambda>_. http_response_new ref_ext (KWrap ())"]
  by simp

end
