(* ===== verification/Serve.thy ===== *)
theory Serve
  imports Router
begin

section \<open>The server: settings, accept loop, request deadlines\<close>

text \<open>
  \<^verbatim>\<open>grpc-server/src/server.rs\<close>, the accept loop of \<^verbatim>\<open>h3_server.rs\<close> and
  \<^verbatim>\<open>grpc-core/src/http2_config.rs\<close>: the server builder, the loop that accepts
  connections under a limit, and the adapter that gives a request its certificates and its
  deadline. The lemmas bound the connections that are served, say when a shutdown takes effect,
  and that a request with a deadline is always answered by it.
\<close>

subsection \<open>Settings\<close>

text \<open>Sizes are \<^verbatim>\<open>u32\<close>; durations are nanoseconds.\<close>

record http2_config =
  h2_initial_stream_window_size :: "u32 option"
  h2_initial_connection_window_size :: "u32 option"
  h2_adaptive_window :: "bool option"
  h2_max_frame_size :: "u32 option"
  h2_keep_alive_interval :: "nat option"
  h2_keep_alive_timeout :: "nat option"

definition http2_config_default :: http2_config where
  "http2_config_default =
     \<lparr>h2_initial_stream_window_size = None, h2_initial_connection_window_size = None,
      h2_adaptive_window = None, h2_max_frame_size = None, h2_keep_alive_interval = None,
      h2_keep_alive_timeout = None\<rparr>"

record server_http2_config =
  sh_shared :: http2_config
  sh_max_concurrent_streams :: "u32 option"

definition DEFAULT_CONCURRENCY_LIMIT :: nat where "DEFAULT_CONCURRENCY_LIMIT = 1024"

text \<open>\<open>'a\<close> is the TLS configuration, which only rustls looks into.\<close>

record 'a server =
  sv_tcp_nodelay :: bool
  sv_timeout :: "nat option"
  sv_concurrency_limit :: nat
  sv_http2 :: server_http2_config
  sv_tls_config :: "'a option"

definition server_builder :: "'a server" where
  "server_builder =
     \<lparr>sv_tcp_nodelay = True, sv_timeout = None, sv_concurrency_limit = DEFAULT_CONCURRENCY_LIMIT,
      sv_http2 = \<lparr>sh_shared = http2_config_default, sh_max_concurrent_streams = None\<rparr>,
      sv_tls_config = None\<rparr>"

definition server_tcp_nodelay :: "'a server \<Rightarrow> bool \<Rightarrow> 'a server" where
  "server_tcp_nodelay s enabled = s\<lparr>sv_tcp_nodelay := enabled\<rparr>"

definition server_timeout :: "'a server \<Rightarrow> nat \<Rightarrow> 'a server" where
  "server_timeout s timeout = s\<lparr>sv_timeout := Some timeout\<rparr>"

text \<open>\<open>None\<close> is the failed assertion.\<close>

definition server_concurrency_limit :: "'a server \<Rightarrow> nat \<Rightarrow> 'a server option" where
  "server_concurrency_limit s limit =
     (if limit > 0 then Some (s\<lparr>sv_concurrency_limit := limit\<rparr>) else None)"

definition update_shared :: "(http2_config \<Rightarrow> http2_config) \<Rightarrow> 'a server \<Rightarrow> 'a server" where
  "update_shared f s = s\<lparr>sv_http2 := (sv_http2 s)\<lparr>sh_shared := f (sh_shared (sv_http2 s))\<rparr>\<rparr>"

definition server_initial_stream_window_size :: "'a server \<Rightarrow> u32 \<Rightarrow> 'a server" where
  "server_initial_stream_window_size s sz = update_shared (\<lambda>c. c\<lparr>h2_initial_stream_window_size := Some sz\<rparr>) s"

definition server_initial_connection_window_size :: "'a server \<Rightarrow> u32 \<Rightarrow> 'a server" where
  "server_initial_connection_window_size s sz =
     update_shared (\<lambda>c. c\<lparr>h2_initial_connection_window_size := Some sz\<rparr>) s"

definition server_http2_adaptive_window :: "'a server \<Rightarrow> bool \<Rightarrow> 'a server" where
  "server_http2_adaptive_window s enabled = update_shared (\<lambda>c. c\<lparr>h2_adaptive_window := Some enabled\<rparr>) s"

definition server_max_frame_size :: "'a server \<Rightarrow> u32 \<Rightarrow> 'a server" where
  "server_max_frame_size s sz = update_shared (\<lambda>c. c\<lparr>h2_max_frame_size := Some sz\<rparr>) s"

definition server_max_concurrent_streams :: "'a server \<Rightarrow> u32 \<Rightarrow> 'a server" where
  "server_max_concurrent_streams s n = s\<lparr>sv_http2 := (sv_http2 s)\<lparr>sh_max_concurrent_streams := Some n\<rparr>\<rparr>"

definition server_http2_keep_alive_interval :: "'a server \<Rightarrow> nat \<Rightarrow> 'a server" where
  "server_http2_keep_alive_interval s interval = update_shared (\<lambda>c. c\<lparr>h2_keep_alive_interval := Some interval\<rparr>) s"

definition server_http2_keep_alive_timeout :: "'a server \<Rightarrow> nat \<Rightarrow> 'a server" where
  "server_http2_keep_alive_timeout s timeout = update_shared (\<lambda>c. c\<lparr>h2_keep_alive_timeout := Some timeout\<rparr>) s"

text \<open>
  What \<^verbatim>\<open>serve_connection\<close> sets on hyper's builder, call by call, in order.
\<close>

datatype h2_call =
    SetStreamWindow u32 | SetConnectionWindow u32 | SetAdaptiveWindow bool | SetMaxFrameSize u32
  | SetMaxStreams u32 | SetKeepAliveInterval nat | SetKeepAliveTimeout nat

definition h2_calls :: "server_http2_config \<Rightarrow> h2_call list" where
  "h2_calls c =
     (case h2_initial_stream_window_size (sh_shared c) of Some sz \<Rightarrow> [SetStreamWindow sz] | None \<Rightarrow> []) @
     (case h2_initial_connection_window_size (sh_shared c) of Some sz \<Rightarrow> [SetConnectionWindow sz] | None \<Rightarrow> []) @
     (case h2_adaptive_window (sh_shared c) of Some b \<Rightarrow> [SetAdaptiveWindow b] | None \<Rightarrow> []) @
     (case h2_max_frame_size (sh_shared c) of Some sz \<Rightarrow> [SetMaxFrameSize sz] | None \<Rightarrow> []) @
     (case sh_max_concurrent_streams c of Some n \<Rightarrow> [SetMaxStreams n] | None \<Rightarrow> []) @
     (case h2_keep_alive_interval (sh_shared c) of Some t \<Rightarrow> [SetKeepAliveInterval t] | None \<Rightarrow> []) @
     (case h2_keep_alive_timeout (sh_shared c) of Some t \<Rightarrow> [SetKeepAliveTimeout t] | None \<Rightarrow> [])"

subsection \<open>The accept loop\<close>

text \<open>
  The loop selects between the next connection and the shutdown signal. A connection needs a
  permit of the semaphore; without one the loop waits for it inside the branch, and there it
  looks at nothing else. The permit goes to the task that serves the connection and comes back
  when that task ends. A failed accept (or a failed
  \<^verbatim>\<open>set_nodelay\<close> on the accepted stream) ends the TCP server with its error; a closed endpoint ends
  the QUIC server. The semaphore is never closed.
\<close>

datatype loop_phase = Selecting | WaitingForPermit nat | StoppedOk | StoppedErr

record accept_state =
  ac_phase :: loop_phase
  ac_permits :: nat
  ac_serving :: "nat list"

datatype loop_event =
    Accepted nat
  | AcceptFailed
  | EndpointClosed
  | Signalled
  | PermitAcquired
  | ConnectionDone nat

definition accept_init :: "nat \<Rightarrow> accept_state" where
  "accept_init concurrency_limit = \<lparr>ac_phase = Selecting, ac_permits = concurrency_limit, ac_serving = []\<rparr>"

definition spawn_connection :: "nat \<Rightarrow> accept_state \<Rightarrow> accept_state" where
  "spawn_connection conn s =
     s\<lparr>ac_phase := Selecting, ac_permits := ac_permits s - 1, ac_serving := conn # ac_serving s\<rparr>"

text \<open>\<open>None\<close>: the event cannot happen (or is not looked at) in this state.\<close>

definition accept_step :: "loop_event \<Rightarrow> accept_state \<Rightarrow> accept_state option" where
  "accept_step ev s =
     (case ev of
        ConnectionDone c \<Rightarrow>
          if c \<in> set (ac_serving s)
          then Some (s\<lparr>ac_permits := ac_permits s + 1, ac_serving := remove1 c (ac_serving s)\<rparr>)
          else None
      | Accepted c \<Rightarrow>
          if ac_phase s = Selecting
          then (if 0 < ac_permits s then Some (spawn_connection c s)
                else Some (s\<lparr>ac_phase := WaitingForPermit c\<rparr>))
          else None
      | PermitAcquired \<Rightarrow>
          (case ac_phase s of
             WaitingForPermit c \<Rightarrow> if 0 < ac_permits s then Some (spawn_connection c s) else None
           | _ \<Rightarrow> None)
      | AcceptFailed \<Rightarrow> if ac_phase s = Selecting then Some (s\<lparr>ac_phase := StoppedErr\<rparr>) else None
      | EndpointClosed \<Rightarrow> if ac_phase s = Selecting then Some (s\<lparr>ac_phase := StoppedOk\<rparr>) else None
      | Signalled \<Rightarrow> if ac_phase s = Selecting then Some (s\<lparr>ac_phase := StoppedOk\<rparr>) else None)"

text \<open>The loops of the two servers: an error ends the TCP one, a closed endpoint the QUIC one.\<close>

definition tcp_accept_step :: "loop_event \<Rightarrow> accept_state \<Rightarrow> accept_state option" where
  "tcp_accept_step ev s = (case ev of EndpointClosed \<Rightarrow> None | _ \<Rightarrow> accept_step ev s)"

definition h3_accept_step :: "loop_event \<Rightarrow> accept_state \<Rightarrow> accept_state option" where
  "h3_accept_step ev s = (case ev of AcceptFailed \<Rightarrow> None | _ \<Rightarrow> accept_step ev s)"

inductive accept_reachable :: "(loop_event \<Rightarrow> accept_state \<Rightarrow> accept_state option) \<Rightarrow> nat \<Rightarrow> accept_state \<Rightarrow> bool"
  for loop n where
  init: "accept_reachable loop n (accept_init n)"
| step: "accept_reachable loop n s \<Longrightarrow> loop ev s = Some s' \<Longrightarrow> accept_reachable loop n s'"

subsection \<open>Deadlines of requests\<close>

text \<open>
  A future as seen from outside: it is done after some nanoseconds, or never.
  \<^verbatim>\<open>tokio::time::timeout\<close> polls the future before the timer.
\<close>

datatype 'a future = DoneAt nat 'a | Never

definition tokio_timeout :: "nat \<Rightarrow> 'a future \<Rightarrow> 'a option future" where
  "tokio_timeout duration fut =
     (case fut of
        DoneAt t a \<Rightarrow> if t \<le> duration then DoneAt t (Some a) else DoneAt duration None
      | Never \<Rightarrow> DoneAt duration None)"

definition future_map :: "('a \<Rightarrow> 'b) \<Rightarrow> 'a future \<Rightarrow> 'b future" where
  "future_map f fut = (case fut of DoneAt t a \<Rightarrow> DoneAt t (f a) | Never \<Rightarrow> Never)"

text \<open>
  What a deadline around a future promises its caller, whoever applies it (the two servers around
  a service, the client's channel around hyper): an answer by the deadline, the future's own when it
  is done in time and the late one otherwise.
\<close>

locale deadlined =
  fixes inner :: "'q \<Rightarrow> 'a future" and run :: "'q \<Rightarrow> 'b future" and limit :: nat
    and keep :: "'a \<Rightarrow> 'b" and late :: 'b
  assumes run: "run q = future_map (case_option late keep) (tokio_timeout limit (inner q))"
begin

lemma in_time: "inner q = DoneAt t a \<Longrightarrow> t \<le> limit \<Longrightarrow> run q = DoneAt t (keep a)"
  by (simp add: run tokio_timeout_def future_map_def)

lemma too_late: "(\<And>t a. inner q = DoneAt t a \<Longrightarrow> limit < t) \<Longrightarrow> run q = DoneAt limit late"
  by (cases "inner q") (auto simp: run tokio_timeout_def future_map_def)

lemma answered: "\<exists>t r. run q = DoneAt t r \<and> t \<le> limit"
  by (cases "inner q") (auto simp: run tokio_timeout_def future_map_def)

end

text \<open>The adapter around a service: certificates into the extensions, then the deadline.\<close>

definition hyper_call ::
  "('h, 'x) ext \<Rightarrow> nat option \<Rightarrow> bytes list option
     \<Rightarrow> (('h, 'x, 'b body_kind) http_request \<Rightarrow> ('h, 'x, 'c body_kind) http_response future)
     \<Rightarrow> ('b \<Rightarrow> bool) \<Rightarrow> ('h, 'x, 'b) http_request \<Rightarrow> ('h, 'x, 'c body_kind) http_response future" where
  "hyper_call X timeout peer_certs svc is_end req =
     (let req1 = \<lparr>hq_method = hq_method req, hq_path = hq_path req, hq_version = hq_version req,
                  hq_headers = hq_headers req,
                  hq_extensions = (case peer_certs of
                     Some certs \<Rightarrow> xt_insert_certs X (hq_extensions req) certs | None \<Rightarrow> hq_extensions req),
                  hq_body = body_new is_end (hq_body req)\<rparr>
      in case timeout of
           Some duration \<Rightarrow>
             future_map (\<lambda>r. case r of
                 Some response \<Rightarrow> response
               | None \<Rightarrow> status_into_http X body_empty (status_new X DeadlineExceeded ''request timed out''))
               (tokio_timeout duration (svc req1))
         | None \<Rightarrow> svc req1)"

text \<open>The request as the service sees it.\<close>

definition hyper_request ::
  "('h, 'x) ext \<Rightarrow> bytes list option \<Rightarrow> ('b \<Rightarrow> bool) \<Rightarrow> ('h, 'x, 'b) http_request \<Rightarrow> ('h, 'x, 'b body_kind) http_request" where
  "hyper_request X peer_certs is_end req =
     \<lparr>hq_method = hq_method req, hq_path = hq_path req, hq_version = hq_version req, hq_headers = hq_headers req,
      hq_extensions = (case peer_certs of
         Some certs \<Rightarrow> xt_insert_certs X (hq_extensions req) certs | None \<Rightarrow> hq_extensions req),
      hq_body = body_new is_end (hq_body req)\<rparr>"

interpretation hyper_deadline: deadlined "\<lambda>req. svc (hyper_request X certs is_end req)"
  "hyper_call X (Some limit) certs svc is_end" limit "\<lambda>r. r"
  "status_into_http X body_empty (status_new X DeadlineExceeded ''request timed out'')" for X certs svc is_end limit
  by unfold_locales (auto simp: hyper_call_def hyper_request_def Let_def intro!: arg_cong2 [where f = future_map] split: option.splits)

text \<open>Running the loop on a list of events.\<close>

fun accept_run :: "(loop_event \<Rightarrow> accept_state \<Rightarrow> accept_state option) \<Rightarrow> loop_event list \<Rightarrow> accept_state \<Rightarrow> accept_state option" where
  "accept_run loop [] s = Some s"
| "accept_run loop (ev # evs) s = (case loop ev s of Some s' \<Rightarrow> accept_run loop evs s' | None \<Rightarrow> None)"

lemma accept_run_reachable:
  "accept_reachable loop n s \<Longrightarrow> accept_run loop evs s = Some s' \<Longrightarrow> accept_reachable loop n s'"
proof (induction evs arbitrary: s)
  case (Cons ev evs)
  then show ?case by (auto split: option.splits intro: accept_reachable.step)
qed simp

subsection \<open>Lemmas\<close>

lemma accept_step_permits:
  assumes "accept_step ev s = Some s'"
  shows "ac_permits s' + length (ac_serving s') = ac_permits s + length (ac_serving s)"
proof -
  have "Suc (length (remove1 c (ac_serving s))) = length (ac_serving s)" if "c \<in> set (ac_serving s)" for c
    using that by (simp add: length_remove1) (metis Suc_pred length_pos_if_in_set)
  then show ?thesis
    using assms by (auto simp: accept_step_def spawn_connection_def split: loop_event.splits loop_phase.splits if_splits)
qed

lemmas server_loops = tcp_accept_step_def h3_accept_step_def

definition server_loop :: "(loop_event \<Rightarrow> accept_state \<Rightarrow> accept_state option) \<Rightarrow> bool" where
  "server_loop loop \<longleftrightarrow> loop = tcp_accept_step \<or> loop = h3_accept_step"

lemma server_loop_step: "server_loop loop \<Longrightarrow> loop ev s = Some s' \<Longrightarrow> accept_step ev s = Some s'"
  by (auto simp: server_loop_def server_loops split: loop_event.splits)

lemma server_loop_shared:
  "server_loop loop \<Longrightarrow> ev \<noteq> AcceptFailed \<Longrightarrow> ev \<noteq> EndpointClosed \<Longrightarrow> loop ev s = accept_step ev s"
  by (auto simp: server_loop_def server_loops split: loop_event.split)

lemma accept_invariant:
  "accept_reachable loop n s \<Longrightarrow> server_loop loop \<Longrightarrow> ac_permits s + length (ac_serving s) = n"
proof (induction rule: accept_reachable.induct)
  case init
  then show ?case by (simp add: accept_init_def)
next
  case (step s ev s')
  then show ?case using accept_step_permits [OF server_loop_step] by metis
qed

text \<open>Without a permit, a loop that waits for one admits the ends of connections and nothing else.\<close>

lemma waiting_events:
  assumes "server_loop loop" "ac_phase s = WaitingForPermit c" "ac_permits s = 0"
  shows "loop ev s \<noteq> None \<longleftrightarrow> (\<exists>d \<in> set (ac_serving s). ev = ConnectionDone d)"
  using assms by (cases ev) (auto simp: server_loop_def server_loops accept_step_def split: if_splits)

lemma tokio_timeout_done: "\<exists>t r. tokio_timeout d fut = DoneAt t r \<and> t \<le> d"
  by (cases fut) (auto simp: tokio_timeout_def)

subsection \<open>Properties\<close>

text \<open>
  C24: Both servers, over TCP and over QUIC, never serve more connections at once than the limit:
  in every reachable state the permits left and the connections served add up to it, so a
  connection can be taken whenever fewer are served, and a permit is never lost.
\<close>

theorem connections_bounded:
  assumes "server_loop loop" "accept_reachable loop n s"
  shows "length (ac_serving s) \<le> n \<and> ac_permits s = n - length (ac_serving s) \<and>
    (length (ac_serving s) < n \<longrightarrow>
       (\<forall>c. (ac_phase s = Selecting \<longrightarrow> loop (Accepted c) s = Some (spawn_connection c s)) \<and>
            (ac_phase s = WaitingForPermit c \<longrightarrow> loop PermitAcquired s = Some (spawn_connection c s))))"
  using accept_invariant [OF assms(2,1)] by (auto simp: server_loop_shared [OF assms(1)] accept_step_def)

theorem connections_bounded_witness:
  "\<exists>s. accept_run tcp_accept_step [Accepted 1, Accepted 2, Accepted 3, ConnectionDone 1, PermitAcquired] (accept_init 2) = Some s \<and>
     length (ac_serving s) \<le> 2 \<and> ac_permits s = 2 - length (ac_serving s)"
proof -
  let ?evs = "[Accepted 1, Accepted 2, Accepted 3, ConnectionDone 1, PermitAcquired]"
  obtain s where r: "accept_run tcp_accept_step ?evs (accept_init 2) = Some s"
    by (simp add: tcp_accept_step_def accept_step_def accept_init_def spawn_connection_def)
  have "accept_reachable tcp_accept_step 2 s" by (rule accept_run_reachable [OF accept_reachable.init r])
  from connections_bounded [OF _ this] r show ?thesis by (auto simp: server_loop_def)
qed

text \<open>
  C25: While it selects, at the limit as below it, the loop stops at once on the shutdown signal.
  But at the limit it still takes one connection more than it may serve, and then it waits for the
  semaphore: the events it admits are exactly the ends of the connections being served, so the
  shutdown signal, further connections and accept errors are not noticed. When one of those
  connections ends the waiting one gets its permit (the signal is still not looked at before), and
  the loop selects again, where the signal stops it.
\<close>

theorem shutdown_waits_for_permit:
  assumes "server_loop loop" "accept_reachable loop n s" "ac_phase s = Selecting" "length (ac_serving s) = n" "0 < n"
  shows "loop Signalled s = Some (s\<lparr>ac_phase := StoppedOk\<rparr>) \<and>
    (\<exists>s'. loop (Accepted c) s = Some s' \<and> ac_phase s' = WaitingForPermit c \<and>
      ac_serving s' = ac_serving s \<and> loop Signalled s' = None \<and>
      (\<forall>ev. loop ev s' \<noteq> None \<longleftrightarrow> (\<exists>d \<in> set (ac_serving s). ev = ConnectionDone d)) \<and>
      (\<forall>d \<in> set (ac_serving s). \<exists>s2 s3. loop (ConnectionDone d) s' = Some s2 \<and> loop Signalled s2 = None \<and>
         loop PermitAcquired s2 = Some s3 \<and> ac_serving s3 = c # remove1 d (ac_serving s) \<and>
         ac_phase s3 = Selecting \<and> loop Signalled s3 = Some (s3\<lparr>ac_phase := StoppedOk\<rparr>)))"
proof -
  have p: "ac_permits s = 0" using accept_invariant [OF assms(2,1)] assms(4) by simp
  let ?s' = "s\<lparr>ac_phase := WaitingForPermit c\<rparr>"
  note shared = server_loop_shared [OF assms(1)]
  have "loop (Accepted c) s = Some ?s'" "loop Signalled s = Some (s\<lparr>ac_phase := StoppedOk\<rparr>)"
    using p assms(3) by (simp_all add: shared accept_step_def)
  moreover have "loop ev ?s' \<noteq> None \<longleftrightarrow> (\<exists>d \<in> set (ac_serving s). ev = ConnectionDone d)" for ev
    using waiting_events [OF assms(1), of ?s' c ev] p by simp
  moreover have "\<exists>s2 s3. loop (ConnectionDone d) ?s' = Some s2 \<and> loop Signalled s2 = None \<and>
      loop PermitAcquired s2 = Some s3 \<and> ac_serving s3 = c # remove1 d (ac_serving s) \<and>
      ac_phase s3 = Selecting \<and> loop Signalled s3 = Some (s3\<lparr>ac_phase := StoppedOk\<rparr>)"
    if "d \<in> set (ac_serving s)" for d
    using that by (simp add: shared accept_step_def spawn_connection_def)
  moreover have "loop Signalled ?s' = None" by (simp add: shared accept_step_def)
  ultimately show ?thesis by (intro conjI exI [of _ ?s']) simp_all
qed

theorem shutdown_waits_for_permit_witness:
  "\<exists>s s'. accept_run h3_accept_step [Accepted 1] (accept_init 1) = Some s \<and> h3_accept_step (Accepted 2) s = Some s' \<and>
     h3_accept_step Signalled s' = None"
proof -
  let ?s = "\<lparr>ac_phase = Selecting, ac_permits = 0, ac_serving = [1]\<rparr>"
  have r: "accept_run h3_accept_step [Accepted 1] (accept_init 1) = Some ?s"
    by (simp add: h3_accept_step_def accept_step_def accept_init_def spawn_connection_def)
  have "accept_reachable h3_accept_step 1 ?s" by (rule accept_run_reachable [OF accept_reachable.init r])
  from shutdown_waits_for_permit [OF _ this, of 2] r show ?thesis by (fastforce simp: server_loop_def)
qed

text \<open>
  A request with a deadline is always answered by it, whatever the service does: with the
  service's own response, at its own time, when the service is done by then, and otherwise, at
  the deadline, with the status \<open>DeadlineExceeded\<close>. The service sees the request with the
  certificates of the peer in its extensions exactly when the connection has some.
\<close>

theorem request_deadline:
  assumes "header_laws X" "value_laws X" "percent_laws X" "base64_laws X" "extension_laws X"
    and "xt_get_certs X (hq_extensions req) = None"
  shows "\<exists>req1. xt_get_certs X (hq_extensions req1) = peer_certs \<and> hq_headers req1 = hq_headers req \<and>
    hq_path req1 = hq_path req \<and>
    hyper_call X None peer_certs svc is_end req = svc req1 \<and>
    (\<exists>t r. hyper_call X (Some d) peer_certs svc is_end req = DoneAt t r \<and> t \<le> d \<and>
      (case svc req1 of
         DoneAt t' r' \<Rightarrow> if t' \<le> d then t = t' \<and> r = r'
           else t = d \<and> hm_get X (hp_headers r) GRPC_STATUS = Some ''4'' \<and> hp_body r = KEmpty
       | Never \<Rightarrow> t = d \<and> hm_get X (hp_headers r) GRPC_STATUS = Some ''4'' \<and> hp_body r = KEmpty))"
proof -
  let ?req1 = "hyper_request X peer_certs is_end req"
  let ?late = "status_into_http X body_empty (status_new X DeadlineExceeded ''request timed out'')"
  have certs: "xt_get_certs X (hq_extensions ?req1) = peer_certs"
    using assms(5,6) by (simp add: extension_laws_def hyper_request_def split: option.split)
  have late: "hm_get X (hp_headers ?late) GRPC_STATUS = Some ''4''" "hp_body ?late = KEmpty"
    by (simp_all add: status_into_http_fields [OF assms(1-4)] body_empty_def)
  have "\<exists>t r. hyper_call X (Some d) peer_certs svc is_end req = DoneAt t r \<and> t \<le> d \<and>
      (case svc ?req1 of
         DoneAt t' r' \<Rightarrow> if t' \<le> d then t = t' \<and> r = r'
           else t = d \<and> hm_get X (hp_headers r) GRPC_STATUS = Some ''4'' \<and> hp_body r = KEmpty
       | Never \<Rightarrow> t = d \<and> hm_get X (hp_headers r) GRPC_STATUS = Some ''4'' \<and> hp_body r = KEmpty)"
  proof (cases "\<exists>t a. svc ?req1 = DoneAt t a \<and> t \<le> d")
    case True
    then obtain t a where "svc ?req1 = DoneAt t a" "t \<le> d" by blast
    with hyper_deadline.in_time [of svc X peer_certs is_end req t a d] show ?thesis by simp
  next
    case False
    with hyper_deadline.too_late [of svc X peer_certs is_end req d] late show ?thesis
      by (fastforce split: future.split)
  qed
  with certs show ?thesis
    by (intro exI [of _ ?req1]) (simp add: hyper_call_def hyper_request_def Let_def)
qed

theorem request_deadline_witness:
  "\<exists>t r. hyper_call ref_ext (Some 5) None (\<lambda>_. Never) (\<lambda>_. False) sample_request = DoneAt t (r :: (alist, bytes list option, unit body_kind) http_response)
     \<and> t = 5 \<and> hm_get ref_ext (hp_headers r) GRPC_STATUS = Some ''4''"
proof -
  have c: "xt_get_certs ref_ext (hq_extensions sample_request) = None" by (simp add: ref_ops sample_request_def)
  from request_deadline [OF ref_header_laws ref_value_laws ref_percent_laws ref_base64_laws ref_extension_laws c,
      of None "\<lambda>_. Never" "\<lambda>_. False" 5]
  show ?thesis by fastforce
qed

end
