(* ===== verification/Bodies.thy ===== *)
theory Bodies
  imports External
begin

section \<open>Polling a body\<close>

text \<open>
  What every body of the crates shares, whoever produces it: what polling it to its end yields, the
  promise that an ended body stays ended, and the body that is the list of what its polls return.
\<close>

subsection \<open>Bodies that stay ended\<close>

text \<open>
  The contract of \<^verbatim>\<open>http_body::Body::poll_frame\<close> its callers rely on: once it has
  returned the end it returns nothing else. \<open>finished\<close> is the state that ensures it.
\<close>

locale fused_body =
  fixes poll :: "'s \<Rightarrow> 's \<times> 'r option poll" and finished :: "'s \<Rightarrow> bool"
  assumes finished_poll: "finished s \<Longrightarrow> poll s = (s, Ready None)"
    and end_finished: "poll s = (s', Ready None) \<Longrightarrow> finished s'"
begin

lemma finished_iterate: "finished s \<Longrightarrow> ((\<lambda>t. fst (poll t)) ^^ n) s = s"
  by (induction n) (simp_all add: finished_poll)

lemma stays_ended: "poll s = (s', Ready None) \<Longrightarrow> poll (((\<lambda>t. fst (poll t)) ^^ n) s') = (s', Ready None)"
  by (simp add: end_finished finished_iterate finished_poll)

end

text \<open>What polling any body \<open>n\<close> times yields, up to its end.\<close>

fun polled :: "('s \<Rightarrow> 's \<times> ('e + 'h frame) option poll) \<Rightarrow> nat \<Rightarrow> 's \<Rightarrow> ('h, 'e) raw_body" where
  "polled poll 0 s = []"
| "polled poll (Suc n) s =
     (case poll s of
        (s', Pending) \<Rightarrow> BPending # polled poll n s'
      | (s', Ready None) \<Rightarrow> []
      | (s', Ready (Some (Inl st))) \<Rightarrow> BErr st # polled poll n s'
      | (s', Ready (Some (Inr f))) \<Rightarrow> BFrame f # polled poll n s')"

text \<open>A body given by the list of what its polls return.\<close>

fun raw_poll :: "('h, 'e) raw_body \<Rightarrow> ('h, 'e) raw_body \<times> ('e + 'h frame) option poll" where
  "raw_poll [] = ([], Ready None)"
| "raw_poll (BPending # evs) = (evs, Pending)"
| "raw_poll (BFrame f # evs) = (evs, Ready (Some (Inr f)))"
| "raw_poll (BErr e # evs) = (evs, Ready (Some (Inl e)))"

interpretation raw_body: fused_body raw_poll "\<lambda>evs. evs = []"
proof
  show "raw_poll evs = (evs', Ready None) \<Longrightarrow> evs' = []" for evs evs' :: "('h, 'e) raw_body"
    by (cases evs rule: raw_poll.cases) auto
qed simp

lemma polled_raw: "length evs \<le> n \<Longrightarrow> polled raw_poll n evs = evs"
proof (induction n arbitrary: evs)
  case (Suc n)
  then show ?case by (cases evs rule: raw_poll.cases) auto
qed simp

end
