(* ===== verification/H3.thy ===== *)
theory H3
  imports Serve Bodies
begin

section \<open>HTTP/3: bodies received and sent\<close>

text \<open>
  \<^verbatim>\<open>grpc-server/src/h3_server.rs\<close> and \<^verbatim>\<open>grpc-client/src/h3_channel.rs\<close>:
  the body adapters over a QUIC stream, the loops that send a response and a request, and the
  deadline around a request. The stream's own operations are external: what polling it yields is
  a list, and sending is a list of operations that may fail. The accept loop is in \<open>Serve\<close>.
  The lemmas show that a received body yields the bytes and the trailers of the stream and then
  ends for good, and what is sent for every response and request body.
\<close>

subsection \<open>Receiving\<close>

text \<open>
  What \<^verbatim>\<open>poll_recv_data\<close> and \<^verbatim>\<open>poll_recv_trailers\<close> of h3 yield, in order;
  the end of a list is \<^verbatim>\<open>Ok(None)\<close>.
\<close>

datatype h3_data_ev = DataPending | DataChunk bytes | DataErr string
datatype 'h h3_trailers_ev = TrailersPending | TrailersGot 'h | TrailersErr string

record 'h h3_recv_body =
  hr_data :: "h3_data_ev list"
  hr_trailers :: "'h h3_trailers_ev list"
  hr_data_done :: bool
  hr_trailers_done :: bool

definition h3_recv_body_new :: "h3_data_ev list \<Rightarrow> 'h h3_trailers_ev list \<Rightarrow> 'h h3_recv_body" where
  "h3_recv_body_new data trailers =
     \<lparr>hr_data = data, hr_trailers = trailers, hr_data_done = False, hr_trailers_done = False\<rparr>"

text \<open>
  The two adapters are the same code but for the texts of their errors, which are the first
  arguments. The end of the data is a pending poll that wakes itself.
\<close>

definition h3_poll_frame ::
  "string \<Rightarrow> string \<Rightarrow> ('h, 'x) ext \<Rightarrow> 'h h3_recv_body
     \<Rightarrow> 'h h3_recv_body \<times> ('h status + 'h frame) option poll" where
  "h3_poll_frame data_error trailers_error X s =
     (if hr_trailers_done s then (s, Ready None)
      else if \<not> hr_data_done s then
        (case hr_data s of
           DataChunk d # ds \<Rightarrow> (s\<lparr>hr_data := ds\<rparr>, Ready (Some (Inr (FData d))))
         | [] \<Rightarrow> (s\<lparr>hr_data_done := True\<rparr>, Pending)
         | DataErr err # ds \<Rightarrow> (s\<lparr>hr_data := ds\<rparr>, Ready (Some (Inl (status_new X Internal (data_error @ err)))))
         | DataPending # ds \<Rightarrow> (s\<lparr>hr_data := ds\<rparr>, Pending))
      else
        (case hr_trailers s of
           TrailersGot t # ts \<Rightarrow>
             (s\<lparr>hr_trailers := ts, hr_trailers_done := True\<rparr>, Ready (Some (Inr (FTrailers t))))
         | [] \<Rightarrow> (s\<lparr>hr_trailers_done := True\<rparr>, Ready None)
         | TrailersErr err # ts \<Rightarrow>
             (s\<lparr>hr_trailers := ts, hr_trailers_done := True\<rparr>,
              Ready (Some (Inl (status_new X Internal (trailers_error @ err)))))
         | TrailersPending # ts \<Rightarrow> (s\<lparr>hr_trailers := ts\<rparr>, Pending)))"

definition h3_server_poll_frame ::
  "('h, 'x) ext \<Rightarrow> 'h h3_recv_body \<Rightarrow> 'h h3_recv_body \<times> ('h status + 'h frame) option poll" where
  "h3_server_poll_frame X s = h3_poll_frame ''h3 recv error: '' ''h3 trailers error: '' X s"

definition h3_client_poll_frame ::
  "('h, 'x) ext \<Rightarrow> 'h h3_recv_body \<Rightarrow> 'h h3_recv_body \<times> ('h status + 'h frame) option poll" where
  "h3_client_poll_frame X s = h3_poll_frame ''h3 client recv error: '' ''h3 client trailers error: '' X s"

interpretation h3_server_body: fused_body "h3_server_poll_frame X" hr_trailers_done for X
  by unfold_locales
     (auto simp: h3_server_poll_frame_def h3_poll_frame_def
       split: if_splits list.splits h3_data_ev.splits h3_trailers_ev.splits)

interpretation h3_client_body: fused_body "h3_client_poll_frame X" hr_trailers_done for X
  by unfold_locales
     (auto simp: h3_client_poll_frame_def h3_poll_frame_def
       split: if_splits list.splits h3_data_ev.splits h3_trailers_ev.splits)

text \<open>The body of an encoded response or request is finished when nothing is left to send.\<close>

definition encode_finished :: "('h, 'm) encode_body \<Rightarrow> bool" where
  "encode_finished b \<longleftrightarrow> en_source (eb_inner b) = [] \<and> en_buf (eb_inner b) = [] \<and> en_error (eb_inner b) = None \<and>
     (eb_role b = Client \<or> eb_is_end_stream b)"

lemma encode_loop_end:
  "encode_loop X E cenc mx src buf ub = ((src', buf', ub', err'), Ready None) \<Longrightarrow> src' = [] \<and> buf' = [] \<and> err' = None"
  by (induction X E cenc mx src buf ub rule: encode_loop.induct) (auto split: if_splits prod.splits sum.splits)

interpretation encoded_body: fused_body "encode_poll_frame X" encode_finished for X
proof
  fix b :: "('a, 'c) encode_body"
  assume f: "encode_finished b"
  have "(eb_inner b)\<lparr>en_source := [], en_buf := [], en_uncompression_buf := en_uncompression_buf (eb_inner b), en_error := None\<rparr>
      = eb_inner b"
    using f by (cases "eb_inner b") (simp add: encode_finished_def)
  then have "encoded_poll_next X (eb_inner b) = (eb_inner b, Ready None)"
    using f by (simp add: encode_finished_def encoded_poll_next_def)
  then show "encode_poll_frame X b = (b, Ready None)"
    using f by (auto simp: encode_poll_frame_def encode_state_trailers_def encode_finished_def split: role.splits)
next
  fix b b' :: "('a, 'c) encode_body"
  assume p: "encode_poll_frame X b = (b', Ready None)"
  obtain i r where n: "encoded_poll_next X (eb_inner b) = (i, r)" by fastforce
  have r: "r = Ready None"
    using p n by (auto simp: encode_poll_frame_def split: poll.splits option.splits sum.splits role.splits)
  then have "en_source i = [] \<and> en_buf i = [] \<and> en_error i = None"
    using n by (auto simp: encoded_poll_next_def dest!: encode_loop_end split: option.splits prod.splits)
  then show "encode_finished b'"
    using p n r by (auto simp: encode_poll_frame_def encode_state_trailers_def encode_finished_def
        split: role.splits if_splits)
qed

subsection \<open>Sending\<close>

datatype ('h, 'p) send_op = SendResponse 'p | SendData bytes | SendTrailers 'h | SendFinish

text \<open>
  The loop of \<^verbatim>\<open>send_h3_response\<close> over the frames of the body: the data operations, and
  the trailers it has kept. It goes on after trailers, and an error ends it with trailers of its own.
\<close>

fun response_frames ::
  "('h, 'x) ext \<Rightarrow> 'h body \<Rightarrow> 'h option \<Rightarrow> ('h, 'p) send_op list \<times> 'h option" where
  "response_frames X [] trailers = ([], trailers)"
| "response_frames X (BPending # evs) trailers = response_frames X evs trailers"
| "response_frames X (BFrame (FData d) # evs) trailers =
     (case response_frames X evs trailers of (ops, t) \<Rightarrow> (SendData d # ops, t))"
| "response_frames X (BFrame (FTrailers t) # evs) trailers = response_frames X evs (Some t)"
| "response_frames X (BErr status # evs) trailers = ([], Some (fst (add_header X status (hm_empty X))))"

definition send_h3_response :: "('h, 'x) ext \<Rightarrow> 'p \<Rightarrow> 'h body \<Rightarrow> ('h, 'p) send_op list" where
  "send_h3_response X parts body =
     (case response_frames X body None of
        (ops, trailers) \<Rightarrow>
          [SendResponse parts] @ ops @ (case trailers of Some t \<Rightarrow> [SendTrailers t] | None \<Rightarrow> []) @ [SendFinish])"

text \<open>The first operation that fails is the last one tried (the question mark behind each).\<close>

fun perform :: "(nat \<Rightarrow> bool) \<Rightarrow> nat \<Rightarrow> ('h, 'p) send_op list \<Rightarrow> ('h, 'p) send_op list \<times> bool" where
  "perform fails i [] = ([], True)"
| "perform fails i (op # ops) =
     (if fails i then ([op], False)
      else (case perform fails (Suc i) ops of (done_ops, ok) \<Rightarrow> (op # done_ops, ok)))"

text \<open>
  The background task of \<^verbatim>\<open>send_h3_request\<close>: it stops at trailers, at an error, at the
  end, and when sending data fails (\<open>fails\<close> at the position of the operation), and then
  finishes. Failures of trailers and of finishing are ignored.
\<close>

fun request_frames :: "(nat \<Rightarrow> bool) \<Rightarrow> nat \<Rightarrow> 'h body \<Rightarrow> ('h, 'p) send_op list" where
  "request_frames fails i [] = []"
| "request_frames fails i (BPending # evs) = request_frames fails i evs"
| "request_frames fails i (BFrame (FData d) # evs) =
     SendData d # (if fails i then [] else request_frames fails (Suc i) evs)"
| "request_frames fails i (BFrame (FTrailers t) # evs) = [SendTrailers t]"
| "request_frames fails i (BErr status # evs) = []"

definition send_h3_request_body :: "(nat \<Rightarrow> bool) \<Rightarrow> 'h body \<Rightarrow> ('h, 'p) send_op list" where
  "send_h3_request_body fails body = request_frames fails 0 body @ [SendFinish]"

text \<open>
  The head of a request; \<open>with_authority\<close> builds the full URI from the address of the peer and
  the path of the given one.
\<close>

definition h3_request_parts ::
  "('h, 'x) ext \<Rightarrow> (string \<Rightarrow> bool) \<Rightarrow> (string \<Rightarrow> 'h err + string) \<Rightarrow> ('h, 'x, 'b) http_request
     \<Rightarrow> 'h err + ('h, 'x, 'b) http_request" where
  "h3_request_parts X has_scheme with_authority req =
     (let parts = req\<lparr>hq_version := Http3, hq_headers := hm_remove X (hq_headers req) ''te''\<rparr>
      in if \<not> has_scheme (hq_path parts) then
           (case with_authority (hq_path parts) of
              Inl e \<Rightarrow> Inl e | Inr uri \<Rightarrow> Inr (parts\<lparr>hq_path := uri\<rparr>))
         else Inr parts)"

definition h3_channel_call ::
  "('h, 'x) ext \<Rightarrow> nat option \<Rightarrow> ('q \<Rightarrow> ('h err + 'r) future) \<Rightarrow> 'q \<Rightarrow> ('h err + 'r) future" where
  "h3_channel_call X timeout send_h3_request req =
     (let fut = send_h3_request req
      in case timeout of
           Some duration \<Rightarrow>
             future_map (\<lambda>r. case r of
                 Some result \<Rightarrow> result
               | None \<Rightarrow> Inl (EStatus (status_new X DeadlineExceeded ''h3 channel request timed out'')))
               (tokio_timeout duration fut)
         | None \<Rightarrow> fut)"

text \<open>The settings of the server.\<close>

record h3_server =
  h3_timeout :: "nat option"
  h3_concurrency_limit :: nat

definition h3_server_builder :: h3_server where
  "h3_server_builder = \<lparr>h3_timeout = None, h3_concurrency_limit = DEFAULT_CONCURRENCY_LIMIT\<rparr>"

definition h3_server_timeout :: "h3_server \<Rightarrow> nat \<Rightarrow> h3_server" where
  "h3_server_timeout s timeout = s\<lparr>h3_timeout := Some timeout\<rparr>"

definition h3_server_concurrency_limit :: "h3_server \<Rightarrow> nat \<Rightarrow> h3_server option" where
  "h3_server_concurrency_limit s limit = (if limit > 0 then Some (s\<lparr>h3_concurrency_limit := limit\<rparr>) else None)"

definition h3_serve_request ::
  "('h, 'x) ext \<Rightarrow> nat option
     \<Rightarrow> (('h, 'x, 'h h3_recv_body body_kind) http_request \<Rightarrow> ('h, 'x, 'c body_kind) http_response future)
     \<Rightarrow> ('h, 'x, 'h h3_recv_body) http_request \<Rightarrow> ('h, 'x, 'c body_kind) http_response future" where
  "h3_serve_request X timeout svc req =
     (let request = \<lparr>hq_method = hq_method req, hq_path = hq_path req, hq_version = hq_version req,
            hq_headers = hq_headers req, hq_extensions = hq_extensions req,
            hq_body = body_new (\<lambda>_. False) (hq_body req)\<rparr>
      in case timeout of
           Some duration \<Rightarrow>
             future_map (\<lambda>r. case r of
                 Some response \<Rightarrow> response
               | None \<Rightarrow> status_into_http X body_empty (status_new X DeadlineExceeded ''request timed out''))
               (tokio_timeout duration (svc request))
         | None \<Rightarrow> svc request)"

definition h3_service_request ::
  "('h, 'x, 'h h3_recv_body) http_request \<Rightarrow> ('h, 'x, 'h h3_recv_body body_kind) http_request" where
  "h3_service_request req =
     \<lparr>hq_method = hq_method req, hq_path = hq_path req, hq_version = hq_version req,
      hq_headers = hq_headers req, hq_extensions = hq_extensions req,
      hq_body = body_new (\<lambda>_. False) (hq_body req)\<rparr>"

interpretation h3_deadline: deadlined "\<lambda>req. svc (h3_service_request req)" "h3_serve_request X (Some limit) svc" limit "\<lambda>r. r"
  "status_into_http X body_empty (status_new X DeadlineExceeded ''request timed out'')" for X svc limit
  by unfold_locales (auto simp: h3_serve_request_def h3_service_request_def Let_def
      intro!: arg_cong2 [where f = future_map] split: option.splits)

interpretation h3_channel_deadline: deadlined send "h3_channel_call X (Some limit) send" limit "\<lambda>r. r"
  "Inl (EStatus (status_new X DeadlineExceeded ''h3 channel request timed out''))" for X limit send
  by unfold_locales (auto simp: h3_channel_call_def Let_def intro!: arg_cong2 [where f = future_map] split: option.splits)

subsection \<open>Lemmas\<close>

text \<open>What the stream's events amount to.\<close>

fun chunks_data :: "h3_data_ev list \<Rightarrow> bytes" where
  "chunks_data [] = []"
| "chunks_data (DataChunk d # ds) = d @ chunks_data ds"
| "chunks_data (_ # ds) = chunks_data ds"

fun no_data_error :: "h3_data_ev list \<Rightarrow> bool" where
  "no_data_error [] = True"
| "no_data_error (DataErr e # ds) = False"
| "no_data_error (_ # ds) = no_data_error ds"

fun trailers_outcome :: "('h, 'x) ext \<Rightarrow> string \<Rightarrow> 'h h3_trailers_ev list \<Rightarrow> 'h body" where
  "trailers_outcome X msg [] = []"
| "trailers_outcome X msg (TrailersPending # ts) = trailers_outcome X msg ts"
| "trailers_outcome X msg (TrailersGot t # ts) = [BFrame (FTrailers t)]"
| "trailers_outcome X msg (TrailersErr e # ts) = [BErr (status_new X Internal (msg @ e))]"

lemma polled_trailers:
  assumes "hr_data_done s" "\<not> hr_trailers_done s" "length (hr_trailers s) \<le> n"
  shows "\<exists>evs. data_only evs \<and> body_data evs = [] \<and>
    polled (h3_poll_frame dm tm X) n s = evs @ trailers_outcome X tm (hr_trailers s)"
  using assms
proof (induction n arbitrary: s)
  case 0
  then show ?case by (intro exI [of _ "[]"]) simp
next
  case (Suc n)
  have stop: "polled (h3_poll_frame dm tm X) k t = []" if "hr_trailers_done t" for k t
    using that by (cases k) (simp_all add: h3_poll_frame_def [of dm tm X t])
  show ?case
  proof (cases "hr_trailers s")
    case Nil
    then show ?thesis using Suc.prems by (intro exI [of _ "[]"]) (simp add: h3_poll_frame_def [of dm tm X s])
  next
    case (Cons t ts)
    show ?thesis
    proof (cases t)
      case TrailersPending
      let ?s = "s\<lparr>hr_trailers := ts\<rparr>"
      obtain evs where "data_only evs" "body_data evs = []"
        "polled (h3_poll_frame dm tm X) n ?s = evs @ trailers_outcome X tm ts"
        using Suc.IH [of ?s] Suc.prems Cons by auto
      then show ?thesis
        using Suc.prems Cons TrailersPending
        by (intro exI [of _ "BPending # evs"]) (simp add: h3_poll_frame_def [of dm tm X s])
    qed (use Suc.prems Cons stop in \<open>auto simp: h3_poll_frame_def [of dm tm X s] intro!: exI [of _ "[]"]\<close>)
  qed
qed

lemma polled_h3_body:
  assumes "no_data_error (hr_data s)" "\<not> hr_data_done s" "\<not> hr_trailers_done s"
    and "length (hr_data s) + length (hr_trailers s) < n"
  shows "\<exists>evs. data_only evs \<and> body_data evs = chunks_data (hr_data s) \<and>
    polled (h3_poll_frame dm tm X) n s = evs @ trailers_outcome X tm (hr_trailers s)"
  using assms
proof (induction n arbitrary: s)
  case (Suc n)
  show ?case
  proof (cases "hr_data s")
    case Nil
    let ?s = "s\<lparr>hr_data_done := True\<rparr>"
    obtain evs where "data_only evs" "body_data evs = []"
      "polled (h3_poll_frame dm tm X) n ?s = evs @ trailers_outcome X tm (hr_trailers s)"
      using polled_trailers [of ?s n dm tm X] Suc.prems by auto
    then show ?thesis
      using Suc.prems Nil by (intro exI [of _ "BPending # evs"]) (simp add: h3_poll_frame_def [of dm tm X s])
  next
    case (Cons d ds)
    let ?s = "s\<lparr>hr_data := ds\<rparr>"
    have "no_data_error ds" using Suc.prems(1) Cons by (cases d) auto
    then obtain evs where e: "data_only evs" "body_data evs = chunks_data ds"
      "polled (h3_poll_frame dm tm X) n ?s = evs @ trailers_outcome X tm (hr_trailers s)"
      using Suc.IH [of ?s] Suc.prems Cons by auto
    show ?thesis
    proof (cases d)
      case DataPending
      then show ?thesis using Suc.prems Cons e by (intro exI [of _ "BPending # evs"]) (simp add: h3_poll_frame_def [of dm tm X s])
    next
      case (DataChunk x)
      then show ?thesis
        using Suc.prems Cons e by (intro exI [of _ "BFrame (FData x) # evs"]) (simp add: h3_poll_frame_def [of dm tm X s])
    next
      case (DataErr x)
      then show ?thesis using Suc.prems(1) Cons by simp
    qed
  qed
qed simp

text \<open>A source that yields nothing after an error.\<close>

fun error_last :: "('h, 'm) src_ev list \<Rightarrow> bool" where
  "error_last [] = True"
| "error_last (SrcErr st # src) = (src = [])"
| "error_last (_ # src) = error_last src"

lemma no_failure_error_last:
  "all_encode X E cenc mx src \<Longrightarrow> snd (src_frames X E cenc mx src) = None \<Longrightarrow> error_last src"
  by (induction src rule: error_last.induct) (auto split: sum.splits prod.splits)

lemma encode_loop_error_last:
  assumes "encode_loop X E cenc mx src buf ub = ((src', buf', ub', err'), r)" "all_encode X E cenc mx src" "error_last src"
  shows "error_last src' \<and> (err' \<noteq> None \<longrightarrow> src' = []) \<and> (\<forall>st. r = Ready (Some (Inl st)) \<longrightarrow> src' = [] \<and> buf' = [] \<and> err' = None)"
  using assms
proof (induction X E cenc mx src buf ub rule: encode_loop.induct)
  case (3 X E cenc mx item src buf ub)
  obtain b u r0 where i: "encode_item X E buf ub cenc mx item = (b, u, r0)" by (cases "encode_item X E buf ub cenc mx item")
  have "r0 = Inr ()" "all_encode X E cenc mx src"
    using i encode_item_frame [of X E buf ub cenc mx item] "3.prems"(2) by (auto split: sum.splits)
  with i "3.prems" "3.IH" show ?case by (auto split: if_splits)
qed (auto split: if_splits)

lemma encoded_poll_error_last:
  assumes "en_buf s = concat fs" "en_error s \<noteq> None \<longrightarrow> fs = [] \<and> en_source s = []"
    and "pending_encode X s" "error_last (en_source s)" "encoded_poll_next X s = (s', r)"
  shows "error_last (en_source s') \<and> (en_error s' \<noteq> None \<longrightarrow> en_source s' = []) \<and>
      (\<forall>st. r = Ready (Some (Inl st)) \<longrightarrow> en_source s' = [] \<and> en_buf s' = [] \<and> en_error s' = None)"
proof (cases "en_error s")
  case None
  then have "all_encode X (en_encoder s) (en_compression s) (en_max_message_size s) (en_source s)"
    using assms(3) by (simp add: pending_encode_def)
  with None assms(4,5) show ?thesis
    by (auto simp: encoded_poll_next_def dest!: encode_loop_error_last split: prod.splits)
next
  case (Some st)
  then show ?thesis using assms(1,2,5) by (auto simp: encoded_poll_next_def)
qed

text \<open>A server's body with such a source, polled on past its trailers, yields nothing more.\<close>

lemma polled_server_body:
  assumes laws: "value_laws X" "percent_laws X" "base64_laws X"
    and "en_buf (eb_inner b) = concat fs" "[] \<notin> set fs" "en_error (eb_inner b) \<noteq> None \<longrightarrow> fs = [] \<and> en_source (eb_inner b) = []"
    and "eb_role b = Server" "\<not> eb_is_end_stream b"
    and "pending_encode X (eb_inner b)" "error_last (en_source (eb_inner b))"
  shows "polled (encode_poll_frame X) n b = body_events X n b"
  using assms(4-)
proof (induction n arbitrary: b fs)
  case (Suc n)
  have err: "en_error (eb_inner b) \<noteq> None \<longrightarrow> fs = []" using Suc.prems(3) by blast
  obtain s' r where pn: "encoded_poll_next X (eb_inner b) = (s', r)" by fastforce
  note step = encoded_poll_frames [OF Suc.prems(1,2) err pn]
  note el = encoded_poll_error_last [OF Suc.prems(1,3,6,7) pn]
  let ?b = "b\<lparr>eb_inner := s'\<rparr>"
  show ?case
  proof (cases r)
    case Pending
    then have "polled (encode_poll_frame X) n ?b = body_events X n ?b"
      using Suc.IH [of ?b "[]"] Suc.prems(4-6) step el by auto
    then show ?thesis using pn Pending by (simp add: encode_poll_frame_def [of X b])
  next
    case (Ready q)
    show ?thesis
    proof (cases q)
      case None
      let ?e = "b\<lparr>eb_inner := s', eb_is_end_stream := True, eb_error := None\<rparr>"
      have i: "en_source s' = [] \<and> en_buf s' = [] \<and> en_error s' = None"
        using pn Ready None by (auto simp: encoded_poll_next_def dest!: encode_loop_end split: option.splits prod.splits)
      then have "encode_finished ?e" by (simp add: encode_finished_def)
      then have "polled (encode_poll_frame X) n ?e = []" by (cases n) (simp_all add: encoded_body.finished_poll)
      then show ?thesis
        using pn Ready None Suc.prems(4,5) to_header_map_Inr [OF laws]
        by (simp add: encode_poll_frame_def [of X b] encode_state_trailers_def Let_def)
    next
      case (Some res)
      show ?thesis
      proof (cases res)
        case (Inl st)
        let ?e = "b\<lparr>eb_inner := s', eb_is_end_stream := True\<rparr>"
        have "encode_finished ?e" using el Ready Some Inl by (simp add: encode_finished_def)
        then have "polled (encode_poll_frame X) n ?e = []" by (cases n) (simp_all add: encoded_body.finished_poll)
        then show ?thesis
          using pn Ready Some Inl Suc.prems(4) to_header_map_Inr [OF laws]
          by (simp add: encode_poll_frame_def [of X b])
      next
        case (Inr d)
        then have "polled (encode_poll_frame X) n ?b = body_events X n ?b"
          using Suc.IH [of ?b "[]"] Suc.prems(4-6) step Ready Some el by auto
        then show ?thesis using pn Ready Some Inr by (simp add: encode_poll_frame_def [of X b])
      qed
    qed
  qed
qed simp

lemma polled_new_server:
  assumes "value_laws X" "percent_laws X" "base64_laws X" "all_encode X E cenc mx src" "error_last src"
  shows "polled (encode_poll_frame X) n (new_server E src cenc mx) = body_events X n (new_server E src cenc mx)"
proof -
  have i: "eb_inner (new_server E src cenc mx) = encoded_bytes_new E src cenc mx" by (simp add: new_server_def)
  show ?thesis
    by (rule polled_server_body [OF assms(1-3), where fs = "[]"])
      (simp_all add: i new_body_frames assms(4), simp_all add: encoded_bytes_new_def new_server_def assms(5))
qed

lemma response_frames_data:
  "data_only evs \<Longrightarrow> \<exists>ds. concat ds = body_data evs \<and> (\<forall>tail t0. response_frames X (evs @ tail) t0 =
     (case response_frames X tail t0 of (ops, t) \<Rightarrow> ((map SendData ds :: ('h, 'p) send_op list) @ ops, t)))"
proof (induction evs rule: data_only.induct)
  case 1
  show ?case by (rule exI [of _ "[]"]) (simp split: prod.split)
next
  case (3 d evs)
  from "3.prems" have "data_only evs" by simp
  from "3.IH" [OF this] obtain ds where "concat ds = body_data evs" "\<forall>tail t0. response_frames X (evs @ tail) t0 =
     (case response_frames X tail t0 of (ops, t) \<Rightarrow> ((map SendData ds :: ('h, 'p) send_op list) @ ops, t))" by blast
  then show ?case by (intro exI [of _ "d # ds"]) (simp split: prod.split)
qed auto

subsection \<open>Properties\<close>

text \<open>
  A body that has ended stays ended: the received bodies of server and client, and the
  encoded body of a response or request, return the end and nothing else however often they are
  polled again.
\<close>

theorem bodies_stay_ended:
  "(h3_server_poll_frame X s = (s', Ready None) \<longrightarrow>
      h3_server_poll_frame X (((\<lambda>t. fst (h3_server_poll_frame X t)) ^^ n) s') = (s', Ready None)) \<and>
   (h3_client_poll_frame X s = (s', Ready None) \<longrightarrow>
      h3_client_poll_frame X (((\<lambda>t. fst (h3_client_poll_frame X t)) ^^ n) s') = (s', Ready None)) \<and>
   (encode_poll_frame X b = (b', Ready None) \<longrightarrow>
      encode_poll_frame X (((\<lambda>t. fst (encode_poll_frame X t)) ^^ n) b') = (b', Ready None))"
  by (simp add: h3_server_body.stays_ended h3_client_body.stays_ended encoded_body.stays_ended)

theorem bodies_stay_ended_witness:
  "encode_poll_frame ref_ext (((\<lambda>t. fst (encode_poll_frame ref_ext t)) ^^ 3) (new_client raw_encoder [] None None))
    = (new_client raw_encoder [] None None, Ready None)"
proof -
  have e: "encode_poll_frame ref_ext (new_client raw_encoder [] None None) = (new_client raw_encoder [] None None, Ready None)"
    by (simp add: encode_poll_frame_def encoded_poll_next_def new_client_def encoded_bytes_new_def encode_state_trailers_def)
  show ?thesis by (rule bodies_stay_ended [THEN conjunct2, THEN conjunct2, rule_format, OF e])
qed

text \<open>
  A body received over QUIC loses nothing and invents nothing: polled once more than the
  stream has events, it yields the stream's bytes in order, then its trailers (or the error of
  reading them, as \<open>Internal\<close>) if there are any, and then ends; on the server and on the client.
\<close>

theorem h3_body_lossless:
  assumes "no_data_error data" "length data + length trailers < n"
  shows "\<exists>evs evs'. data_only evs \<and> body_data evs = chunks_data data \<and>
      polled (h3_server_poll_frame X) n (h3_recv_body_new data trailers)
        = evs @ trailers_outcome X ''h3 trailers error: '' trailers \<and>
      data_only evs' \<and> body_data evs' = chunks_data data \<and>
      polled (h3_client_poll_frame X) n (h3_recv_body_new data trailers)
        = evs' @ trailers_outcome X ''h3 client trailers error: '' trailers"
proof -
  have f: "h3_server_poll_frame X = h3_poll_frame ''h3 recv error: '' ''h3 trailers error: '' X"
    "h3_client_poll_frame X = h3_poll_frame ''h3 client recv error: '' ''h3 client trailers error: '' X"
    by (simp_all add: fun_eq_iff h3_server_poll_frame_def h3_client_poll_frame_def)
  show ?thesis
    unfolding f
    using polled_h3_body [of "h3_recv_body_new data trailers" n "''h3 recv error: ''" "''h3 trailers error: ''" X]
      polled_h3_body [of "h3_recv_body_new data trailers" n "''h3 client recv error: ''" "''h3 client trailers error: ''" X] assms
    by (simp add: h3_recv_body_new_def)
qed

theorem h3_body_lossless_witness:
  "\<exists>evs. body_data evs = [1, 2, 3] \<and>
     polled (h3_server_poll_frame ref_ext) 9 (h3_recv_body_new [DataChunk [1], DataPending, DataChunk [2, 3]] [TrailersGot []])
       = evs @ [BFrame (FTrailers [])]"
  using h3_body_lossless [of "[DataChunk [1], DataPending, DataChunk [2, 3]]" "[TrailersGot []]" 9 ref_ext] by auto

text \<open>
  A response without a failure is sent whole over HTTP/3: the headers first, then data
  operations whose bytes are exactly the frames of the messages, then one trailers operation with
  the status \<open>Ok\<close>, then the end of the stream.
\<close>

theorem h3_response_complete:
  fixes X :: "('h, 'x) ext" and parts :: 'p
  assumes "value_laws X" "percent_laws X" "base64_laws X" "all_encode X E cenc mx src"
    and "snd (src_frames X E cenc mx src) = None" "length src < n"
  shows "\<exists>ds. concat ds = concat (fst (src_frames X E cenc mx src)) \<and>
    send_h3_response X parts (polled (encode_poll_frame X) n (new_server E src cenc mx))
      = [SendResponse parts] @ map SendData ds @
        [SendTrailers (fst (add_header X (status_new X Ok []) (hm_empty X))), SendFinish]"
proof -
  let ?b = "new_server E src cenc mx"
  have i: "eb_role ?b = Server" by (simp add: new_server_def)
  note p = polled_new_server [OF assms(1-4) no_failure_error_last [OF assms(4,5)]]
  obtain evs k where e: "data_only evs"
    "body_events X n ?b = evs @ [BFrame (FTrailers (fst (add_header X (status_new X Ok []) (hm_empty X))))]"
    "body_data evs = concat (take k (fst (src_frames X E cenc mx src)))"
    "length (fst (src_frames X E cenc mx src)) \<le> k"
    using new_body_events [OF assms(1-3,6), of ?b E cenc mx] assms(4,5) by (auto simp: body_end_def i)
  obtain ds where ds: "concat ds = body_data evs" "\<forall>tail t0. response_frames X (evs @ tail) t0 =
     (case response_frames X tail t0 of (ops, t) \<Rightarrow> ((map SendData ds :: ('h, 'p) send_op list) @ ops, t))"
    using response_frames_data [OF e(1)] by blast
  show ?thesis
    using ds e(3,4) by (intro exI [of _ ds]) (simp add: p e(2) send_h3_response_def)
qed

theorem h3_response_complete_witness:
  "\<exists>ds. concat ds = [0, 0, 0, 0, 2, 7, 8] \<and>
    send_h3_response ref_ext () (polled (encode_poll_frame ref_ext) 2 (new_server raw_encoder [SrcItem [7, 8]] None None))
      = [SendResponse ()] @ map SendData ds @
        [SendTrailers (fst (add_header ref_ext (status_new ref_ext Ok []) [])), SendFinish]"
proof -
  have f: "frame_of ref_ext raw_encoder None None [7, 8] = Inr [0, 0, 0, 0, 2, 7, 8]"
    by (simp add: frame_of_def payload_of_def prost_encoder_def prost_encode_def raw_encode_def
        finish_encoding_def HEADER_SIZE_def DEFAULT_MAX_SEND_MESSAGE_SIZE_def u32_be_def)
  have a: "all_encode ref_ext raw_encoder None None [SrcItem [7, 8]]"
    and s: "snd (src_frames ref_ext raw_encoder None None [SrcItem [7, 8]]) = None"
    by (simp_all add: f)
  from h3_response_complete [OF ref_value_laws ref_percent_laws ref_base64_laws a s, of 2 "()"]
  show ?thesis by (simp add: f ref_ops)
qed

text \<open>
  Over HTTP/3 a failed response stream is not cut at its failure: the loop keeps the trailers
  and polls on, so a message the handler's stream yields after its error is sent, ahead of the
  trailers, whereas over HTTP/2 the response ends with the trailers.
\<close>

theorem h3_sends_after_error:
  assumes "value_laws X" "percent_laws X" "base64_laws X" "frame_of X E cenc mx m = Inr f"
  shows "send_h3_response X parts (polled (encode_poll_frame X) 3 (new_server E [SrcErr st, SrcItem m] cenc mx))
      = [SendResponse parts, SendData f, SendTrailers (fst (add_header X st (hm_empty X))), SendFinish] \<and>
    body_events X 3 (new_server E [SrcErr st, SrcItem m] cenc mx)
      = [BFrame (FTrailers (fst (add_header X st (hm_empty X))))]"
proof -
  obtain ub where i: "encode_item X E [] [] cenc mx m = (f, ub, Inr ())"
    using encode_item_frame [of X E "[]" "[]" cenc mx m] assms(4)
    by (cases "encode_item X E [] [] cenc mx m") auto
  have ne: "f \<noteq> []" using assms(4) by (auto simp: frame_of_Inr_iff)
  show ?thesis
    using i ne to_header_map_Inr [OF assms(1-3)]
    by (simp add: numeral_3_eq_3 encode_poll_frame_def encoded_poll_next_def new_server_def encoded_bytes_new_def
        encode_state_trailers_def send_h3_response_def)
qed

theorem h3_sends_after_error_witness:
  "\<exists>f. send_h3_response ref_ext ()
      (polled (encode_poll_frame ref_ext) 3 (new_server raw_encoder [SrcErr sample_status, SrcItem [7]] None None))
    = [SendResponse (), SendData f, SendTrailers (fst (add_header ref_ext sample_status [])), SendFinish]"
proof -
  have "frame_of ref_ext raw_encoder None None [7] = Inr [0, 0, 0, 0, 1, 7]"
    by (simp add: frame_of_def payload_of_def prost_encoder_def prost_encode_def raw_encode_def
        finish_encoding_def HEADER_SIZE_def DEFAULT_MAX_SEND_MESSAGE_SIZE_def u32_be_def)
  from h3_sends_after_error [OF ref_value_laws ref_percent_laws ref_base64_laws this, of "()" sample_status] show ?thesis
    by (auto simp: ref_ops)
qed

text \<open>
  Over HTTP/3 a client's request that fails to encode is finished like a complete one: what
  the background task sends for a stream whose first message does not encode is what it sends for
  a stream without messages, so the server cannot tell the two apart.
\<close>

theorem h3_request_error_hidden:
  assumes "frame_of X E cenc mx bad = Inl st"
  shows "send_h3_request_body fails (polled (encode_poll_frame X) (Suc n) (new_client E (SrcItem bad # src) cenc mx)) = [SendFinish] \<and>
    send_h3_request_body fails (polled (encode_poll_frame X) (Suc n) (new_client E [] cenc mx)) = [SendFinish]"
proof -
  obtain b u where "encode_item X E [] [] cenc mx bad = (b, u, Inl st)"
    using encode_item_frame [of X E "[]" "[]" cenc mx bad] assms
    by (cases "encode_item X E [] [] cenc mx bad") auto
  then show ?thesis
    by (simp add: encode_poll_frame_def encoded_poll_next_def new_client_def encoded_bytes_new_def
        encode_state_trailers_def send_h3_request_body_def)
qed

theorem h3_request_error_hidden_witness:
  "(send_h3_request_body (\<lambda>_. False) (polled (encode_poll_frame ref_ext) 1 (new_client raw_encoder [SrcItem [255]] None None))
     :: (alist, unit) send_op list) = [SendFinish]"
proof -
  obtain st where "frame_of ref_ext raw_encoder None None [255] = Inl st"
    by (simp add: frame_of_def payload_of_def prost_encoder_def prost_encode_def raw_encode_def)
  from h3_request_error_hidden [OF this, of "\<lambda>_. False" 0 "[]", THEN conjunct1] show ?thesis by simp
qed

end
