(* ===== verification/Web.thy ===== *)
theory Web
  imports Framing Bodies
begin

section \<open>gRPC-Web\<close>

text \<open>
  The crate \<^verbatim>\<open>grpc-web\<close>: \<^verbatim>\<open>lib.rs\<close> (content types and the two
  encodings), \<^verbatim>\<open>call.rs\<close> (the body wrapper that decodes a request and encodes a
  response with its trailers in the body) and \<^verbatim>\<open>service.rs\<close> (the service that
  translates requests and responses). The lemmas show that a translated response carries the bytes
  and the trailers of the service's response, what a text request is decoded to, which headers
  are rewritten, and what happens to a native gRPC response that passes through.
\<close>

definition GRPC_WEB :: string where "GRPC_WEB = ''application/grpc-web''"
definition GRPC_WEB_PROTO :: string where "GRPC_WEB_PROTO = ''application/grpc-web+proto''"
definition GRPC_WEB_TEXT :: string where "GRPC_WEB_TEXT = ''application/grpc-web-text''"
definition GRPC_WEB_TEXT_PROTO :: string where "GRPC_WEB_TEXT_PROTO = ''application/grpc-web-text+proto''"
definition GRPC :: string where "GRPC = ''application/grpc''"
definition GRPC_HEADER_SIZE :: nat where "GRPC_HEADER_SIZE = 5"

lemmas web_types = GRPC_WEB_def GRPC_WEB_PROTO_def GRPC_WEB_TEXT_def GRPC_WEB_TEXT_PROTO_def

definition is_grpc_web :: "string \<Rightarrow> bool" where
  "is_grpc_web content_type \<longleftrightarrow>
     content_type = GRPC_WEB \<or> content_type = GRPC_WEB_PROTO \<or> content_type = GRPC_WEB_TEXT
     \<or> content_type = GRPC_WEB_TEXT_PROTO"

datatype web_encoding = Binary | Base64

definition from_content_type :: "string \<Rightarrow> web_encoding" where
  "from_content_type ct = (if str_contains ct ''text'' then Base64 else Binary)"

subsection \<open>The body wrapper\<close>

datatype web_direction = WebDecode | WebEncode

record ('h, 'e) web_call =
  wc_inner :: "('h, 'e) raw_body"
  wc_encoding :: web_encoding
  wc_direction :: web_direction
  wc_buf :: bytes
  wc_trailers :: "'h option"
  wc_trailers_sent :: bool

definition web_request :: "('h, 'e) raw_body \<Rightarrow> web_encoding \<Rightarrow> ('h, 'e) web_call" where
  "web_request inner encoding =
     \<lparr>wc_inner = inner, wc_encoding = encoding, wc_direction = WebDecode, wc_buf = [], wc_trailers = None,
      wc_trailers_sent = False\<rparr>"

definition web_response :: "('h, 'e) raw_body \<Rightarrow> web_encoding \<Rightarrow> ('h, 'e) web_call" where
  "web_response inner encoding =
     \<lparr>wc_inner = inner, wc_encoding = encoding, wc_direction = WebEncode, wc_buf = [], wc_trailers = None,
      wc_trailers_sent = False\<rparr>"

text \<open>
  A text chunk is bytes on the wire and a string for the base64 library, whose standard engine
  writes padding and requires it.
\<close>

definition base64_text :: "('h, 'x) ext \<Rightarrow> bytes \<Rightarrow> bytes" where
  "base64_text X bs = str_bytes (b64_encode X True bs)"

definition base64_read :: "('h, 'x) ext \<Rightarrow> bytes \<Rightarrow> bytes option" where
  "base64_read X bs = b64_decode X False (bytes_str bs)"

definition poll_decode :: "('h, 'x) ext \<Rightarrow> ('h, 'e) web_call \<Rightarrow> ('h, 'e) web_call \<times> ('e + 'h frame) option poll" where
  "poll_decode X c =
     (case raw_poll (wc_inner c) of
        (inner, Ready (Some (Inr (FData data)))) \<Rightarrow>
          (let c = c\<lparr>wc_inner := inner\<rparr> in
           case wc_encoding c of
             Base64 \<Rightarrow>
               (case base64_read X data of
                  Some decoded \<Rightarrow> (c, Ready (Some (Inr (FData decoded))))
                | None \<Rightarrow>
                    (let buf = wc_buf c @ data; aligned_len = length buf div 4 * 4 in
                     if 0 < aligned_len then
                       (let chunk = take aligned_len buf; c = c\<lparr>wc_buf := drop aligned_len buf\<rparr> in
                        case base64_read X chunk of
                          Some decoded \<Rightarrow> (c, Ready (Some (Inr (FData decoded))))
                        | None \<Rightarrow> (c, Ready (Some (Inr (FData chunk)))))
                     else (c\<lparr>wc_buf := buf\<rparr>, Pending)))
           | Binary \<Rightarrow> (c, Ready (Some (Inr (FData data)))))
      | (inner, other) \<Rightarrow> (c\<lparr>wc_inner := inner\<rparr>, other))"

definition trailer_block :: "(string \<times> string) list \<Rightarrow> bytes" where
  "trailer_block kvs = concat (map (\<lambda>(key, v). str_bytes key @ [0x3A] @ str_bytes v @ [0x0D, 0x0A]) kvs)"

definition encode_trailers :: "('h, 'x) ext \<Rightarrow> 'h \<Rightarrow> web_encoding \<Rightarrow> bytes" where
  "encode_trailers X trailers encoding =
     (let trailer_buf = trailer_block (hm_iter X trailers);
          frame = [0x80] @ u32_be (of_nat (length trailer_buf)) @ trailer_buf
      in case encoding of Base64 \<Rightarrow> base64_text X frame | Binary \<Rightarrow> frame)"

definition poll_encode :: "('h, 'x) ext \<Rightarrow> ('h, 'e) web_call \<Rightarrow> ('h, 'e) web_call \<times> ('e + 'h frame) option poll" where
  "poll_encode X c =
     (case wc_trailers c of
        Some trailer_map \<Rightarrow>
          (c\<lparr>wc_trailers := None, wc_trailers_sent := True\<rparr>,
           Ready (Some (Inr (FData (encode_trailers X trailer_map (wc_encoding c))))))
      | None \<Rightarrow>
          if wc_trailers_sent c then (c, Ready None)
          else
            (case raw_poll (wc_inner c) of
               (inner, Ready (Some (Inr (FData data)))) \<Rightarrow>
                 (c\<lparr>wc_inner := inner\<rparr>,
                  Ready (Some (Inr (FData (case wc_encoding c of Base64 \<Rightarrow> base64_text X data | Binary \<Rightarrow> data)))))
             | (inner, Ready (Some (Inr (FTrailers trailer_map)))) \<Rightarrow>
                 (c\<lparr>wc_inner := inner, wc_trailers := Some trailer_map\<rparr>, Pending)
             | (inner, Ready (Some (Inl e))) \<Rightarrow> (c\<lparr>wc_inner := inner\<rparr>, Ready (Some (Inl e)))
             | (inner, Ready None) \<Rightarrow>
                 (let c = c\<lparr>wc_inner := inner, wc_trailers_sent := True\<rparr>;
                      encoded = encode_trailers X (hm_empty X) (wc_encoding c)
                  in if encoded \<noteq> [] then (c, Ready (Some (Inr (FData encoded)))) else (c, Ready None))
             | (inner, Pending) \<Rightarrow> (c\<lparr>wc_inner := inner\<rparr>, Pending)))"

definition web_poll_frame :: "('h, 'x) ext \<Rightarrow> ('h, 'e) web_call \<Rightarrow> ('h, 'e) web_call \<times> ('e + 'h frame) option poll" where
  "web_poll_frame X c = (case wc_direction c of WebDecode \<Rightarrow> poll_decode X c | WebEncode \<Rightarrow> poll_encode X c)"

subsection \<open>The service\<close>

text \<open>The translation of a request, and what is done with the service's response to it.\<close>

definition content_type_of :: "('h, 'x) ext \<Rightarrow> ('h, 'x, 'b) http_request \<Rightarrow> string" where
  "content_type_of X req =
     (case hm_get X (hq_headers req) ''content-type'' of
        Some v \<Rightarrow> (case hv_to_str X v of Some s \<Rightarrow> s | None \<Rightarrow> '''')
      | None \<Rightarrow> '''')"

definition web_coerce_request ::
  "('h, 'x) ext \<Rightarrow> web_encoding \<Rightarrow> ('h, 'x, ('h, 'e) raw_body) http_request \<Rightarrow> ('h, 'x, ('h, 'e) web_call) http_request" where
  "web_coerce_request X encoding req =
     (let headers = hm_insert X (hq_headers req) ''content-type'' GRPC;
          headers = hm_remove X headers ''content-length'';
          headers = hm_insert X headers ''te'' ''trailers''
      in \<lparr>hq_method = hq_method req, hq_path = hq_path req, hq_version = hq_version req, hq_headers = headers,
          hq_extensions = hq_extensions req, hq_body = web_request (hq_body req) encoding\<rparr>)"

definition web_coerce_response ::
  "('h, 'x) ext \<Rightarrow> web_encoding \<Rightarrow> ('h, 'x, ('h, 'e) raw_body) http_response \<Rightarrow> ('h, 'x, ('h, 'e) web_call) http_response" where
  "web_coerce_response X encoding resp =
     (let response_ct = (case encoding of Base64 \<Rightarrow> GRPC_WEB_TEXT | Binary \<Rightarrow> GRPC_WEB);
          headers = hm_insert X (hp_headers resp) ''content-type'' response_ct;
          headers = hm_remove X headers ''content-length''
      in \<lparr>hp_status = hp_status resp, hp_version = hp_version resp, hp_headers = headers,
          hp_extensions = hp_extensions resp, hp_body = web_response (hp_body resp) encoding\<rparr>)"

definition web_call_service ::
  "('h, 'x) ext \<Rightarrow> (('h, 'x, ('h, 'e) web_call) http_request \<Rightarrow> 'f + ('h, 'x, ('h, 'r) raw_body) http_response)
     \<Rightarrow> ('h, 'x, ('h, 'e) raw_body) http_request \<Rightarrow> 'f + ('h, 'x, ('h, 'r) web_call) http_response" where
  "web_call_service X inner req =
     (let content_type = content_type_of X req in
      if \<not> is_grpc_web content_type then
        map_sum id (\<lambda>resp. \<lparr>hp_status = hp_status resp, hp_version = hp_version resp, hp_headers = hp_headers resp,
            hp_extensions = hp_extensions resp, hp_body = web_response (hp_body resp) Binary\<rparr>)
          (inner \<lparr>hq_method = hq_method req, hq_path = hq_path req, hq_version = hq_version req,
                  hq_headers = hq_headers req, hq_extensions = hq_extensions req,
                  hq_body = web_request (hq_body req) Binary\<rparr>)
      else
        (let encoding = from_content_type content_type
         in map_sum id (web_coerce_response X encoding) (inner (web_coerce_request X encoding req))))"

subsection \<open>Lemmas\<close>

text \<open>A wrapper that has ended stays ended, in both directions.\<close>

definition web_finished :: "('h, 'e) web_call \<Rightarrow> bool" where
  "web_finished c = (case wc_direction c of WebDecode \<Rightarrow> wc_inner c = [] | WebEncode \<Rightarrow> wc_trailers c = None \<and> wc_trailers_sent c)"

lemma raw_poll_None: "raw_poll evs = (evs', Ready None) \<longleftrightarrow> evs = [] \<and> evs' = []"
  by (cases evs rule: raw_poll.cases) auto

interpretation web_body: fused_body "web_poll_frame X" web_finished for X
proof
  show "web_poll_frame X c = (c, Ready None)" if "web_finished c" for c
    using that by (cases c) (auto simp: web_finished_def web_poll_frame_def poll_decode_def poll_encode_def
        split: web_direction.splits)
  show "web_finished c'" if "web_poll_frame X c = (c', Ready None)" for c c'
    using that
    by (auto simp: web_finished_def web_poll_frame_def poll_decode_def poll_encode_def Let_def raw_poll_None
        split: web_direction.splits prod.splits poll.splits option.splits sum.splits frame.splits if_splits web_encoding.splits)
qed

lemma base64_read_text [simp]: "base64_laws X \<Longrightarrow> base64_read X (base64_text X bs) = Some bs"
  by (simp add: base64_read_def base64_text_def base64_roundtrip)

text \<open>What leaves the wrapper of a response for each frame of the service's body.\<close>

definition web_out :: "('h, 'x) ext \<Rightarrow> web_encoding \<Rightarrow> bytes \<Rightarrow> bytes" where
  "web_out X encoding bs = (case encoding of Base64 \<Rightarrow> base64_text X bs | Binary \<Rightarrow> bs)"

fun map_data :: "(bytes \<Rightarrow> bytes) \<Rightarrow> ('h, 'e) raw_body \<Rightarrow> ('h, 'e) raw_body" where
  "map_data f [] = []"
| "map_data f (BFrame (FData d) # evs) = BFrame (FData (f d)) # map_data f evs"
| "map_data f (ev # evs) = ev # map_data f evs"

lemma map_data_id [simp]: "map_data (\<lambda>d. d) evs = evs"
  by (induction "\<lambda>d :: bytes. d" evs rule: map_data.induct) auto

lemma data_only_map_data [simp]: "data_only (map_data f evs) = data_only evs"
  by (induction f evs rule: map_data.induct) auto

lemma polled_web_response:
  assumes "data_only evs"
  shows "polled (web_poll_frame X) (length evs + 2 + k) (web_response (evs @ BFrame (FTrailers t) # rest) enc)
    = map_data (web_out X enc) evs @ [BPending, BFrame (FData (encode_trailers X t enc))]"
  using assms
proof (induction evs rule: data_only.induct)
  case 1
  have fin: "polled (web_poll_frame X) k c = []" if "web_finished c" for c
    using that by (cases k) (simp_all add: web_body.finished_poll)
  let ?c = "web_response rest enc"
  have "web_poll_frame X (web_response (BFrame (FTrailers t) # rest) enc) = (?c\<lparr>wc_trailers := Some t\<rparr>, Pending)"
    "web_poll_frame X (?c\<lparr>wc_trailers := Some t\<rparr>)
      = (?c\<lparr>wc_trailers_sent := True\<rparr>, Ready (Some (Inr (FData (encode_trailers X t enc)))))"
    by (simp_all add: web_response_def web_poll_frame_def poll_encode_def)
  moreover have "web_finished (?c\<lparr>wc_trailers_sent := True\<rparr>)" by (simp add: web_finished_def web_response_def)
  ultimately show ?case by (simp add: fin)
next
  case (2 evs)
  then show ?case by (simp add: web_response_def web_poll_frame_def [of X] poll_encode_def)
next
  case (3 d evs)
  then show ?case by (simp add: web_response_def web_poll_frame_def [of X] poll_encode_def web_out_def)
qed auto

lemma polled_web_request:
  assumes "base64_laws X" "data_only evs"
  shows "polled (web_poll_frame X) (length evs + k) (web_request (map_data (web_out X enc) evs @ tail) enc)
    = evs @ polled (web_poll_frame X) k (web_request tail enc)"
  using assms(2)
proof (induction evs rule: data_only.induct)
  case (2 evs)
  then show ?case by (simp add: web_request_def web_poll_frame_def [of X] poll_decode_def)
next
  case (3 d evs)
  then show ?case
    using assms(1)
    by (cases enc) (simp_all add: web_request_def web_poll_frame_def [of X] poll_decode_def web_out_def)
qed auto

subsection \<open>What a gRPC-Web client reads\<close>

text \<open>
  The reader of the protocol's specification, against which the wrapper is stated: text chunks are
  decoded one by one; the bytes are frames of messages and, last, a frame flagged with 0x80 that
  holds header lines.
\<close>

fun web_read :: "('h, 'x) ext \<Rightarrow> web_encoding \<Rightarrow> ('h, 'e) raw_body \<Rightarrow> bytes option" where
  "web_read X enc [] = Some []"
| "web_read X enc (BFrame (FData d) # evs) =
     (case (case enc of Base64 \<Rightarrow> base64_read X d | Binary \<Rightarrow> Some d) of
        Some bs \<Rightarrow> map_option ((@) bs) (web_read X enc evs)
      | None \<Rightarrow> None)"
| "web_read X enc (BPending # evs) = web_read X enc evs"
| "web_read X enc (_ # evs) = None"

definition read_field :: "bytes \<Rightarrow> (string \<times> string) option" where
  "read_field line =
     (case dropWhile (\<lambda>b. b \<noteq> 0x3A) line of
        [] \<Rightarrow> None
      | _ # v \<Rightarrow> Some (bytes_str (takeWhile (\<lambda>b. b \<noteq> 0x3A) line), bytes_str v))"

lemma dropWhile_shorter: "dropWhile P bs = a # b # rest \<Longrightarrow> length rest < length bs"
  using length_dropWhile_le [of P bs] by simp

function read_block :: "bytes \<Rightarrow> (string \<times> string) list option" where
  "read_block bs =
     (if bs = [] then Some []
      else case dropWhile (\<lambda>b. b \<noteq> 0x0D) bs of
        cr # lf # rest \<Rightarrow>
          if lf = 0x0A then
            (case read_field (takeWhile (\<lambda>b. b \<noteq> 0x0D) bs) of
               Some f \<Rightarrow> map_option ((#) f) (read_block rest)
             | None \<Rightarrow> None)
          else None
      | _ \<Rightarrow> None)"
  by pat_completeness auto
termination
  by (relation "measure length") (auto simp: dropWhile_shorter)

declare read_block.simps [simp del]

function read_frames :: "bytes \<Rightarrow> ((bool \<times> bytes) list \<times> (string \<times> string) list) option" where
  "read_frames bs =
     (if length bs < 5 then None
      else let flag = hd bs; len = be_nat (take 4 (tl bs)); rest = drop 5 bs in
        if length rest < len then None
        else if flag = 0x80 then
          (if length rest = len then map_option (Pair []) (read_block rest) else None)
        else if flag = 0 \<or> flag = 1 then
          map_option (\<lambda>(fs, t). ((flag = 1, take len rest) # fs, t)) (read_frames (drop len rest))
        else None)"
  by pat_completeness auto
termination
  by (relation "measure length") auto

declare read_frames.simps [simp del]

text \<open>Header names have no colon, and neither names nor values a carriage return.\<close>

definition line_ok :: "string \<times> string \<Rightarrow> bool" where
  "line_ok kv \<longleftrightarrow> CHR 0x3A \<notin> set (fst kv) \<and> CHR 0x0D \<notin> set (fst kv) \<and> CHR 0x0D \<notin> set (snd kv)"

lemma takeWhile_stop: "x \<notin> set as \<Longrightarrow> takeWhile (\<lambda>b. b \<noteq> x) (as @ x # bs) = as"
  and dropWhile_stop: "x \<notin> set as \<Longrightarrow> dropWhile (\<lambda>b. b \<noteq> x) (as @ x # bs) = x # bs"
  by (induction as) auto

lemma read_block_line:
  assumes "0x0D \<notin> set line"
  shows "read_block (line @ 0x0D # 0x0A # rest) =
    (case read_field line of Some f \<Rightarrow> map_option ((#) f) (read_block rest) | None \<Rightarrow> None)"
  by (subst read_block.simps)
     (simp only: takeWhile_stop [OF assms] dropWhile_stop [OF assms] list.case append_is_Nil_conv list.distinct if_False if_True
        HOL.simp_thms)

lemma read_block_trailers: "list_all line_ok kvs \<Longrightarrow> read_block (trailer_block kvs) = Some kvs"
proof (induction kvs)
  case Nil
  show ?case by (simp add: trailer_block_def read_block.simps)
next
  case (Cons kv kvs)
  obtain k v where kv: "kv = (k, v)" by fastforce
  have ok: "0x3A \<notin> set (str_bytes k)" "0x0D \<notin> set (str_bytes k)" "0x0D \<notin> set (str_bytes v)"
    using Cons.prems str_bytes_in [of "CHR 0x3A"] str_bytes_in [of "CHR 0x0D"] by (simp_all add: kv line_ok_def)
  let ?line = "str_bytes k @ 0x3A # str_bytes v"
  have cr: "0x0D \<notin> set ?line" using ok by simp
  have b: "trailer_block (kv # kvs) = ?line @ 0x0D # 0x0A # trailer_block kvs"
    by (simp add: trailer_block_def kv)
  have f: "read_field ?line = Some kv"
    using ok by (simp add: read_field_def takeWhile_stop dropWhile_stop kv)
  have "read_block (?line @ 0x0D # 0x0A # trailer_block kvs) = map_option ((#) kv) (read_block (trailer_block kvs))"
    unfolding read_block_line [OF cr] f by simp
  then show ?case using Cons b by simp
qed

lemma read_frames_message:
  assumes "length p < 2 ^ 32"
  shows "read_frames (grpc_frame c p @ rest) = map_option (\<lambda>(fs, t). ((c, p) # fs, t)) (read_frames rest)"
proof -
  have n: "be_nat (u32_be (of_nat (length p))) = length p"
    using assms by (simp add: be_nat_u32_be unat_of_nat)
  show ?thesis
    by (subst read_frames.simps) (simp add: grpc_frame_def n Let_def)
qed

lemma read_frames_trailers:
  assumes "length (trailer_block kvs) < 2 ^ 32" "list_all line_ok kvs"
  shows "read_frames ([0x80] @ u32_be (of_nat (length (trailer_block kvs))) @ trailer_block kvs) = Some ([], kvs)"
proof -
  have n: "be_nat (u32_be (of_nat (length (trailer_block kvs)))) = length (trailer_block kvs)"
    using assms(1) by (simp add: be_nat_u32_be unat_of_nat)
  show ?thesis
    by (subst read_frames.simps) (simp add: n Let_def read_block_trailers [OF assms(2)])
qed

lemma read_frames_all:
  assumes "\<forall>(c, p)\<in>set fr. length p < 2 ^ 32" "read_frames rest = Some ([], t)"
  shows "read_frames (concat (map (\<lambda>(c, p). grpc_frame c p) fr) @ rest) = Some (fr, t)"
  using assms(1)
proof (induction fr)
  case (Cons f fr)
  then show ?case by (cases f) (simp add: read_frames_message)
qed (simp add: assms(2))

lemma web_read_map_data:
  assumes "base64_laws X" "data_only evs"
  shows "web_read X enc (map_data (web_out X enc) evs @ rest) = map_option ((@) (body_data evs)) (web_read X enc rest)"
  using assms(2)
proof (induction evs rule: data_only.induct)
  case 1
  show ?case by (cases "web_read X enc rest") simp_all
next
  case (3 d evs)
  then show ?case
    using assms(1) by (cases enc; cases "web_read X enc rest") (simp_all add: web_out_def)
qed auto

text \<open>A frame that starts with a flag the protocol does not know ends the stream with an error.\<close>

lemma message_flag_error:
  assumes "si_state s = ReadHeader" "si_buf s = []" "si_body s = [BPending, BFrame (FData d)]"
    and "\<exists>len rest. d = [0x80] @ u32_be len @ rest"
  shows "snd (message X D s) = Inl (status_new X Internal ''invalid compression flag: 128 (valid: 0 or 1)'')"
proof -
  obtain len rest where d: "d = 0x80 # u32_be len @ rest" using assms(4) by auto
  let ?s1 = "s\<lparr>si_body := [BFrame (FData d)]\<rparr>" and ?s2 = "s\<lparr>si_body := [], si_buf := d\<rparr>"
  have n: "show_nat 128 = ''128''" by (simp add: show_nat.simps digit_char_def)
  have e1: "poll_pass X D s = (?s1, Some Pending)" and e2: "poll_pass X D ?s1 = (?s2, None)"
    using assms(1-3) decode_chunk_empty [of s X D] decode_chunk_empty [of ?s1 X D]
    by (simp_all add: poll_pass_def decode_poll_frame_def)
  have e3: "poll_pass X D ?s2 = (?s2\<lparr>si_buf := u32_be len @ rest\<rparr>,
      Some (Ready (Some (Inl (status_new X Internal ''invalid compression flag: 128 (valid: 0 or 1)'')))))"
    using assms(1) by (simp add: poll_pass_def decode_chunk_def inner_decode_chunk_def decode_header_def Let_def
        HEADER_SIZE_def d n)
  show ?thesis
    by (simp add: message.simps [of X D s] message.simps [of X D ?s1] poll_next.simps [of X D s] e1
        poll_next.simps [of X D ?s1] e2 poll_next.simps [of X D ?s2] e3)
qed

text \<open>The headers the translation leaves.\<close>

lemma coerced_request:
  assumes "header_laws X"
  shows "hm_get_all X (hq_headers (web_coerce_request X enc req)) k
    = (if k = ''content-type'' then [''application/grpc''] else if k = ''te'' then [''trailers'']
       else if k = ''content-length'' then [] else hm_get_all X (hq_headers req) k)"
  by (simp add: web_coerce_request_def Let_def header_lawsD [OF assms] GRPC_def)

lemma coerced_response:
  assumes "header_laws X"
  shows "hm_get_all X (hp_headers (web_coerce_response X enc resp)) k
    = (if k = ''content-type'' then [if enc = Binary then ''application/grpc-web'' else ''application/grpc-web-text'']
       else if k = ''content-length'' then [] else hm_get_all X (hp_headers resp) k)"
  by (cases enc) (simp_all add: web_coerce_response_def Let_def header_lawsD [OF assms] web_types)

lemma translated_call:
  "is_grpc_web (content_type_of X req) \<Longrightarrow> enc = from_content_type (content_type_of X req) \<Longrightarrow>
   web_call_service X inner req = map_sum id (web_coerce_response X enc) (inner (web_coerce_request X enc req))"
  by (simp add: web_call_service_def Let_def)

text \<open>A response of message frames and trailers, read back.\<close>

lemma web_response_read:
  assumes "base64_laws X" "data_only evs" "body_data evs = concat (map (\<lambda>(c, p). grpc_frame c p) fr)"
    and "\<forall>(c, p)\<in>set fr. length p < 2 ^ 32"
    and "list_all line_ok (hm_iter X t)" "length (trailer_block (hm_iter X t)) < 2 ^ 32"
    and "length evs + 2 \<le> n"
  shows "\<exists>bs. data_only (polled (web_poll_frame X) n (web_response (evs @ BFrame (FTrailers t) # rest) enc)) \<and>
    web_read X enc (polled (web_poll_frame X) n (web_response (evs @ BFrame (FTrailers t) # rest) enc)) = Some bs \<and>
    read_frames bs = Some (fr, hm_iter X t)"
proof -
  let ?b = "trailer_block (hm_iter X t)"
  obtain k where "n = length evs + 2 + k" using assms(7) le_Suc_ex by blast
  then have p: "polled (web_poll_frame X) n (web_response (evs @ BFrame (FTrailers t) # rest) enc)
      = map_data (web_out X enc) evs @ [BPending, BFrame (FData (encode_trailers X t enc))]"
    using polled_web_response [OF assms(2)] by blast
  have e: "encode_trailers X t enc = web_out X enc ([0x80] @ u32_be (of_nat (length ?b)) @ ?b)"
    by (simp add: encode_trailers_def web_out_def Let_def)
  have d: "data_only (as @ bs) \<longleftrightarrow> data_only as \<and> data_only bs" for as bs :: "('a, 'f) raw_body"
    by (induction as rule: data_only.induct) auto
  have "read_frames (body_data evs @ [0x80] @ u32_be (of_nat (length ?b)) @ ?b) = Some (fr, hm_iter X t)"
    unfolding assms(3) by (rule read_frames_all [OF assms(4) read_frames_trailers [OF assms(6,5)]])
  then show ?thesis
    using assms(1,2) unfolding p web_read_map_data [OF assms(1,2)] e
    by (cases enc) (simp_all add: d web_out_def)
qed

subsection \<open>Properties\<close>

text \<open>
  C29: A gRPC-Web client can read everything a service sends: for a response of message frames and
  trailers, in binary and in text mode, the translated body has data frames only, and the
  protocol's reader finds in it exactly the service's messages and the fields of its trailers.
\<close>

theorem web_response_readable:
  assumes "base64_laws X" "data_only evs" "body_data evs = concat (map (\<lambda>(c, p). grpc_frame c p) fr)"
    and "\<forall>(c, p)\<in>set fr. length p < 2 ^ 32"
    and "list_all line_ok (hm_iter X t)" "length (trailer_block (hm_iter X t)) < 2 ^ 32"
    and "length evs + 2 \<le> n"
  shows "\<exists>bs. data_only (polled (web_poll_frame X) n (web_response (evs @ BFrame (FTrailers t) # rest) enc)) \<and>
    web_read X enc (polled (web_poll_frame X) n (web_response (evs @ BFrame (FTrailers t) # rest) enc)) = Some bs \<and>
    read_frames bs = Some (fr, hm_iter X t)"
  by (rule web_response_read [OF assms])

theorem web_response_readable_witness:
  "\<exists>bs. web_read ref_ext Base64 (polled (web_poll_frame ref_ext) 4
        (web_response [BFrame (FData [0, 0, 0, 0, 1, 7]), BPending, BFrame (FTrailers [(''grpc-status'', ''0'')])] Base64 :: (alist, nat) web_call))
      = Some bs \<and>
    read_frames bs = Some ([(False, [7])], [(''grpc-status'', ''0'')])"
proof -
  let ?evs = "[BFrame (FData [0, 0, 0, 0, 1, 7]), BPending] :: (alist, nat) raw_body"
  have t: "list_all line_ok (hm_iter ref_ext [(''grpc-status'', ''0'')])"
    "length (trailer_block (hm_iter ref_ext [(''grpc-status'', ''0'')])) < 2 ^ 32"
    by (simp_all add: ref_ops line_ok_def trailer_block_def str_bytes_def)
  have d: "data_only ?evs" "body_data ?evs = concat (map (\<lambda>(c, p). grpc_frame c p) [(False, [7])])"
    by (simp_all add: grpc_frame_def u32_be_def)
  from web_response_readable [OF ref_base64_laws d _ t, of 4 "[]" Base64] show ?thesis
    by (auto simp: ref_ops)
qed

text \<open>
  Decoding a request undoes what encoding a response does, chunk by chunk, and what follows is
  left for the rest of the body; but in text mode a chunk cut off its four-character grid is not put
  together again when the next chunk is base64 by itself: the characters past the grid are held
  back, so the service reads the same bytes as if they had never been sent.
\<close>

theorem web_request_chunks:
  assumes "base64_laws X" "data_only evs"
    and "base64_read X (p @ q) = None" "p \<noteq> []" "length p mod 4 = 0" "length q < 4"
    and "base64_read X p = Some d" "base64_read X c = Some d'"
  shows "polled (web_poll_frame X) (length evs + k) (web_request (map_data (web_out X enc) evs @ tail) enc)
      = evs @ polled (web_poll_frame X) k (web_request tail enc) \<and>
    polled (web_poll_frame X) n (web_request [BFrame (FData (p @ q)), BFrame (FData c)] Base64)
      = polled (web_poll_frame X) n (web_request [BFrame (FData p), BFrame (FData c)] Base64)"
proof
  show "polled (web_poll_frame X) (length evs + k) (web_request (map_data (web_out X enc) evs @ tail) enc)
      = evs @ polled (web_poll_frame X) k (web_request tail enc)"
    by (rule polled_web_request [OF assms(1,2)])
  have len: "(length p + length q) div 4 * 4 = length p"
    using assms(5,6) by (auto simp: div_add1_eq [of "length p"] mod_eq_0_iff_dvd)
  then have pos: "0 < (length p + length q) div 4" using assms(4) by (cases "(length p + length q) div 4") simp_all
  have fin: "polled (web_poll_frame X) k c = []" if "web_finished c" for k and c :: "('a, 'e) web_call"
    using that by (cases k) (simp_all add: web_body.finished_poll)
  show "polled (web_poll_frame X) n (web_request [BFrame (FData (p @ q)), BFrame (FData c)] Base64)
      = polled (web_poll_frame X) n (web_request [BFrame (FData p), BFrame (FData c)] Base64)"
  proof (cases n)
    case (Suc m)
    let ?w = "\<lambda>evs b. (web_request evs Base64 :: ('a, 'e) web_call)\<lparr>wc_buf := b\<rparr>"
    have e: "polled (web_poll_frame X) k (?w [] b) = []" for k b
      by (rule fin) (simp add: web_finished_def web_request_def)
    have "web_poll_frame X (?w [BFrame (FData (p @ q)), BFrame (FData c)] []) = (?w [BFrame (FData c)] q, Ready (Some (Inr (FData d))))"
      "web_poll_frame X (?w [BFrame (FData p), BFrame (FData c)] []) = (?w [BFrame (FData c)] [], Ready (Some (Inr (FData d))))"
      using assms(3,7) len pos by (simp_all add: web_request_def web_poll_frame_def poll_decode_def Let_def)
    moreover have "polled (web_poll_frame X) m (?w [BFrame (FData c)] b) = (if m = 0 then [] else [BFrame (FData d')])" for b
      using assms(8) e by (cases m) (simp_all add: web_request_def web_poll_frame_def poll_decode_def)
    ultimately show ?thesis
      using Suc by (simp add: web_request_def)
  qed simp
qed

theorem web_request_chunks_witness:
  "polled (web_poll_frame ref_ext) 9
     (web_request [BFrame (FData (str_bytes ''AAECAw'')), BFrame (FData (str_bytes ''QFBg''))] Base64 :: (alist, nat) web_call)
   = polled (web_poll_frame ref_ext) 9
     (web_request [BFrame (FData (str_bytes ''AAEC'')), BFrame (FData (str_bytes ''QFBg''))] Base64)"
proof -
  have r: "base64_read ref_ext (str_bytes ''AAEC'' @ str_bytes ''Aw'') = None"
    "base64_read ref_ext (str_bytes ''AAEC'') = Some [0, 1, 2]"
    "base64_read ref_ext (str_bytes ''QFBg'') = Some [64, 80, 96]"
    by (simp_all add: base64_read_def bytes_str_append ref_ops b64_val_def sext4_def sext3_def sext2_def)
  have l: "str_bytes ''AAEC'' \<noteq> []" "length (str_bytes ''AAEC'') mod 4 = 0" "length (str_bytes ''Aw'') < 4"
    by (simp_all add: str_bytes_def)
  have d: "data_only ([] :: (alist, nat) raw_body)" by simp
  from web_request_chunks [OF ref_base64_laws d r(1) l r(2,3), of 9, THEN conjunct2]
  show ?thesis by (simp add: str_bytes_def)
qed

text \<open>
  Only the four gRPC-Web content types are translated. For them the service sees the request as
  native gRPC (its content type, \<^verbatim>\<open>te: trailers\<close>, no content length, every other
  header untouched, the body decoded in the encoding of the content type) and the response is
  marked with the gRPC-Web type of that encoding; for any other request no header of either
  changes.
\<close>

theorem web_translation:
  assumes "header_laws X" "is_grpc_web (content_type_of X req)" "\<not> is_grpc_web (content_type_of X other)"
    and "enc = (if content_type_of X req \<in> {GRPC_WEB, GRPC_WEB_PROTO} then Binary else Base64)"
  shows "web_call_service X inner req = map_sum id (web_coerce_response X enc) (inner (web_coerce_request X enc req)) \<and>
    hq_body (web_coerce_request X enc req) = web_request (hq_body req) enc \<and>
    hm_get_all X (hq_headers (web_coerce_request X enc req)) k
      = (if k = ''content-type'' then [''application/grpc''] else if k = ''te'' then [''trailers'']
         else if k = ''content-length'' then [] else hm_get_all X (hq_headers req) k) \<and>
    hm_get_all X (hp_headers (web_coerce_response X enc resp)) k
      = (if k = ''content-type'' then [if enc = Binary then ''application/grpc-web'' else ''application/grpc-web-text'']
         else if k = ''content-length'' then [] else hm_get_all X (hp_headers resp) k) \<and>
    web_call_service X (\<lambda>req'. if hq_headers req' = hq_headers other then Inr resp else Inl e) other
      = Inr \<lparr>hp_status = hp_status resp, hp_version = hp_version resp, hp_headers = hp_headers resp,
             hp_extensions = hp_extensions resp, hp_body = web_response (hp_body resp) Binary\<rparr>"
proof -
  have e: "enc = from_content_type (content_type_of X req)"
    using assms(2,4) by (auto simp: is_grpc_web_def from_content_type_def web_types starts_with_def)
  show ?thesis
    using translated_call [OF assms(2) e, of inner] coerced_request [OF assms(1), of enc req k]
      coerced_response [OF assms(1), of enc resp k] assms(3)
    by (simp add: web_call_service_def) (simp add: web_coerce_request_def Let_def)
qed

theorem web_translation_witness:
  "al_get_all (hq_headers (web_coerce_request ref_ext Base64
      \<lparr>hq_method = ''POST'', hq_path = ''/a/b'', hq_version = Http11,
       hq_headers = [(''content-type'', ''application/grpc-web-text'')], hq_extensions = None, hq_body = []\<rparr>)) ''te'' = [''trailers'']"
proof -
  let ?req = "\<lparr>hq_method = ''POST'', hq_path = ''/a/b'', hq_version = Http11,
    hq_headers = [(''content-type'', ''application/grpc-web-text'')], hq_extensions = None, hq_body = []\<rparr>"
  have ct: "content_type_of ref_ext ?req = ''application/grpc-web-text''"
    "content_type_of ref_ext (?req\<lparr>hq_headers := []\<rparr>) = []"
    by (simp_all add: content_type_of_def ref_eval)
  have a: "is_grpc_web (content_type_of ref_ext ?req)" "\<not> is_grpc_web (content_type_of ref_ext (?req\<lparr>hq_headers := []\<rparr>))"
    "Base64 = (if content_type_of ref_ext ?req \<in> {GRPC_WEB, GRPC_WEB_PROTO} then Binary else Base64)"
    unfolding ct by (simp_all add: is_grpc_web_def web_types)
  from web_translation [OF ref_header_laws a, of "\<lambda>_. Inl ()" "''te''", THEN conjunct2, THEN conjunct2, THEN conjunct1]
  show ?thesis by (simp add: ref_ops)
qed

text \<open>
  C30: A native gRPC response does not pass the layer unchanged: its trailers leave as a data frame,
  so a native gRPC client that reads the body decodes every message and then fails with
  \<open>Internal\<close> on the flag of that frame, whatever the status in the trailers was.
\<close>

theorem native_response_broken:
  assumes "codec_laws E D" "compressor_laws X" "all_encode X E cenc mxs src"
    and "\<forall>m\<in>set (src_items src). \<forall>p. payload_of X E cenc m = Inr p \<longrightarrow> length p \<le> recv_limit mxr"
    and "data_only evs" "body_data evs = concat (fst (src_frames X E cenc mxs src))"
    and "\<not> is_grpc_web (content_type_of X req)" "hp_body resp = evs @ [BFrame (FTrailers t)]"
  shows "\<exists>resp'. web_call_service X (\<lambda>_. Inr resp) req = Inr resp' \<and>
    collect X D (Suc (length (src_items src))) (sg_inner (new_response X D
        (as_raw (polled (web_poll_frame X) (length evs + 2) (hp_body resp'))) (hp_status resp') cenc mxr))
      = (src_items src, Some (Inl (status_new X Internal ''invalid compression flag: 128 (valid: 0 or 1)'')))"
proof -
  let ?bad = "BFrame (FData (encode_trailers X t Binary))"
  let ?body = "evs @ [BPending, ?bad]"
  have w: "web_out X Binary = (\<lambda>d. d)" by (simp add: fun_eq_iff web_out_def)
  have p: "polled (web_poll_frame X) (length evs + 2) (web_response (evs @ [BFrame (FTrailers t)]) Binary) = ?body"
    using polled_web_response [OF assms(5), of X 0 t "[]" Binary] unfolding w map_data_id by (simp only: add_0_right)
  obtain s' where s': "collect X D (Suc (length (src_items src))) (sg_inner (new_response X D (as_raw ?body) (hp_status resp) cenc mxr))
      = (case collect X D (Suc 0) s' of (ms, e) \<Rightarrow> (src_items src @ ms, e))"
    "si_state s' = ReadHeader" "si_buf s' = []" "si_body s' = [BPending, ?bad]"
    using decoded_frames [OF assms(1-6) refl, of "[BPending, ?bad]" "DirResponse (hp_status resp)"] by (auto simp: new_response_def)
  have "snd (message X D s') = Inl (status_new X Internal ''invalid compression flag: 128 (valid: 0 or 1)'')"
    by (rule message_flag_error [OF s'(2-4)]) (auto simp: encode_trailers_def Let_def)
  then have e: "collect X D (Suc 0) s' = ([], Some (Inl (status_new X Internal ''invalid compression flag: 128 (valid: 0 or 1)'')))"
    unfolding collect_end by simp
  let ?resp' = "\<lparr>hp_status = hp_status resp, hp_version = hp_version resp, hp_headers = hp_headers resp,
    hp_extensions = hp_extensions resp, hp_body = web_response (evs @ [BFrame (FTrailers t)]) Binary\<rparr>"
  have c: "web_call_service X (\<lambda>_. Inr resp) req = Inr ?resp'"
    using assms(7,8) by (simp add: web_call_service_def)
  show ?thesis
    by (rule exI [of _ ?resp'], rule conjI [OF c]) (simp only: http_response.select_convs p s'(1) e prod.case append_Nil2)
qed

theorem native_response_broken_witness:
  "collect ref_ext raw_decoder 2 (sg_inner (new_response ref_ext raw_decoder
      (as_raw (polled (web_poll_frame ref_ext) 3 (web_response
         [BFrame (FData [0, 0, 0, 0, 1, 7]), BFrame (FTrailers [(''grpc-status'', ''0'')])] Binary))) 200 None None))
    = ([[7]], Some (Inl (status_new ref_ext Internal ''invalid compression flag: 128 (valid: 0 or 1)'')))"
proof -
  let ?src = "[SrcItem [7]] :: (alist, bytes) src_ev list" and ?evs = "[BFrame (FData [0, 0, 0, 0, 1, 7])] :: alist body"
  let ?req = "\<lparr>hq_method = ''POST'', hq_path = ''/a/b'', hq_version = Http2, hq_headers = [], hq_extensions = None, hq_body = []\<rparr>
    :: (alist, bytes list option, (alist, nat) raw_body) http_request"
  let ?resp = "\<lparr>hp_status = 200, hp_version = Http2, hp_headers = [], hp_extensions = None,
    hp_body = ?evs @ [BFrame (FTrailers [(''grpc-status'', ''0'')])]\<rparr>"
  have cl: "codec_laws raw_encoder raw_decoder" by (rule prost_codec_laws) simp
  have p: "payload_of ref_ext raw_encoder None [7] = Inr [7]"
    by (simp add: payload_of_def prost_encoder_def prost_encode_def raw_encode_def)
  have f: "frame_of ref_ext raw_encoder None None [7] = Inr [0, 0, 0, 0, 1, 7]"
    by (simp add: frame_of_Inr_iff p send_limit_def DEFAULT_MAX_SEND_MESSAGE_SIZE_def grpc_frame_def u32_be_def)
  have ae: "all_encode ref_ext raw_encoder None None ?src" by (simp add: f)
  have lim: "\<forall>m\<in>set (src_items ?src). \<forall>p. payload_of ref_ext raw_encoder None m = Inr p \<longrightarrow> length p \<le> recv_limit None"
    by (simp add: p recv_limit_def DEFAULT_MAX_RECV_MESSAGE_SIZE_def)
  have d: "data_only ?evs" "body_data ?evs = concat (fst (src_frames ref_ext raw_encoder None None ?src))"
    by (simp_all add: f)
  have ct: "\<not> is_grpc_web (content_type_of ref_ext ?req)"
    by (simp add: content_type_of_def ref_eval is_grpc_web_def web_types)
  have b: "hp_body ?resp = ?evs @ [BFrame (FTrailers [(''grpc-status'', ''0'')])]" by simp
  from native_response_broken [OF cl ref_compressor_laws ae lim d ct b] show ?thesis
    using ct by (simp add: web_call_service_def numeral_eq_Suc)
qed

end
