(* ===== verification/Channel.thy ===== *)
theory Channel
  imports Serve Grpc_Client
begin

section \<open>Channels, endpoints and load balancing\<close>

text \<open>
  \<^verbatim>\<open>grpc-client/src/channel.rs\<close>, \<^verbatim>\<open>endpoint.rs\<close> and
  \<^verbatim>\<open>balance.rs\<close>: a channel is hyper's client with its settings, the address and a
  deadline for each request; an endpoint is the builder of one; a balanced channel picks one of
  several in turn. hyper and rustls are parameters. The lemmas say how a request meets its
  deadline, what the settings come to, and that the balancer is fair.
\<close>

subsection \<open>Channels\<close>

text \<open>A client is what was called on its builder, in order, and its TLS configuration \<open>'k\<close>.\<close>

datatype client_call = Http2Only bool | H2Call h2_call
datatype 'k channel_inner = ChannelHttp "client_call list" | ChannelHttps 'k "client_call list"

record ('k, 'u) channel =
  ch_inner :: "'k channel_inner"
  ch_uri :: 'u
  ch_timeout :: "nat option"

definition apply_h2_config :: "client_call list \<Rightarrow> http2_config \<Rightarrow> client_call list" where
  "apply_h2_config builder config = builder @ map H2Call (
     (case h2_initial_stream_window_size config of Some sz \<Rightarrow> [SetStreamWindow sz] | None \<Rightarrow> []) @
     (case h2_initial_connection_window_size config of Some sz \<Rightarrow> [SetConnectionWindow sz] | None \<Rightarrow> []) @
     (case h2_adaptive_window config of Some enabled \<Rightarrow> [SetAdaptiveWindow enabled] | None \<Rightarrow> []) @
     (case h2_max_frame_size config of Some sz \<Rightarrow> [SetMaxFrameSize sz] | None \<Rightarrow> []) @
     (case h2_keep_alive_interval config of Some interval \<Rightarrow> [SetKeepAliveInterval interval] | None \<Rightarrow> []) @
     (case h2_keep_alive_timeout config of Some timeout \<Rightarrow> [SetKeepAliveTimeout timeout] | None \<Rightarrow> []))"

definition connect_with_h2_config :: "'u \<Rightarrow> http2_config \<Rightarrow> 'h err + ('k, 'u) channel" where
  "connect_with_h2_config uri config =
     Inr \<lparr>ch_inner = ChannelHttp (apply_h2_config [Http2Only True] config), ch_uri = uri, ch_timeout = None\<rparr>"

definition channel_connect :: "'u \<Rightarrow> 'h err + ('k, 'u) channel" where
  "channel_connect uri = connect_with_h2_config uri http2_config_default"

definition with_timeout :: "('k, 'u) channel \<Rightarrow> nat \<Rightarrow> ('k, 'u) channel" where
  "with_timeout ch timeout = ch\<lparr>ch_timeout := Some timeout\<rparr>"

text \<open>
  rustls: the certificates of the system, those of a PEM file, a store that takes them one by one,
  and the configuration without client authentication built on a store.
\<close>

record ('h, 'c, 't, 'k) tls_ops =
  to_native_certs :: "'c list"
  to_pem_certs :: "bytes \<Rightarrow> 'h err + 'c list"
  to_empty :: 't
  to_add :: "'t \<Rightarrow> 'c \<Rightarrow> 'h err + 't"
  to_config :: "'t \<Rightarrow> 'k"

fun add_certs :: "('t \<Rightarrow> 'c \<Rightarrow> 'h err + 't) \<Rightarrow> 't \<Rightarrow> 'c list \<Rightarrow> 'h err + 't" where
  "add_certs add root_store [] = Inr root_store"
| "add_certs add root_store (cert # certs) =
     (case add root_store cert of Inl e \<Rightarrow> Inl e | Inr root_store \<Rightarrow> add_certs add root_store certs)"

definition connect_with_tls_config_and_h2 :: "'u \<Rightarrow> 'k \<Rightarrow> http2_config \<Rightarrow> 'h err + ('k, 'u) channel" where
  "connect_with_tls_config_and_h2 uri tls_config h2_config =
     Inr \<lparr>ch_inner = ChannelHttps tls_config (apply_h2_config [Http2Only True] h2_config), ch_uri = uri, ch_timeout = None\<rparr>"

definition default_tls_config :: "('h, 'c, 't, 'k) tls_ops \<Rightarrow> 'h err + 'k" where
  "default_tls_config T =
     (case add_certs (to_add T) (to_empty T) (to_native_certs T) of
        Inl e \<Rightarrow> Inl e | Inr root_store \<Rightarrow> Inr (to_config T root_store))"

definition connect_tls_with_h2_config ::
  "('h, 'c, 't, 'k) tls_ops \<Rightarrow> 'u \<Rightarrow> http2_config \<Rightarrow> 'h err + ('k, 'u) channel" where
  "connect_tls_with_h2_config T uri config =
     (case default_tls_config T of
        Inl e \<Rightarrow> Inl e | Inr tls_config \<Rightarrow> connect_with_tls_config_and_h2 uri tls_config config)"

definition connect_with_ca_and_h2_config ::
  "('h, 'c, 't, 'k) tls_ops \<Rightarrow> 'u \<Rightarrow> bytes \<Rightarrow> http2_config \<Rightarrow> 'h err + ('k, 'u) channel" where
  "connect_with_ca_and_h2_config T uri ca_pem config =
     (case to_pem_certs T ca_pem of
        Inl e \<Rightarrow> Inl e
      | Inr certs \<Rightarrow>
          (case add_certs (to_add T) (to_empty T) certs of
             Inl e \<Rightarrow> Inl e
           | Inr root_store \<Rightarrow> connect_with_tls_config_and_h2 uri (to_config T root_store) config))"

text \<open>The same with the default settings of HTTP/2.\<close>

definition connect_tls :: "('h, 'c, 't, 'k) tls_ops \<Rightarrow> 'u \<Rightarrow> 'h err + ('k, 'u) channel" where
  "connect_tls T uri = connect_tls_with_h2_config T uri http2_config_default"

definition connect_with_tls_config :: "'u \<Rightarrow> 'k \<Rightarrow> 'h err + ('k, 'u) channel" where
  "connect_with_tls_config uri tls_config = connect_with_tls_config_and_h2 uri tls_config http2_config_default"

definition connect_with_ca :: "('h, 'c, 't, 'k) tls_ops \<Rightarrow> 'u \<Rightarrow> bytes \<Rightarrow> 'h err + ('k, 'u) channel" where
  "connect_with_ca T uri ca_pem = connect_with_ca_and_h2_config T uri ca_pem http2_config_default"

text \<open>
  A request on a channel. \<open>request\<close> is hyper's client: when and with what it answers; the error
  is boxed as it is.
\<close>

definition channel_call ::
  "('h, 'x) ext \<Rightarrow> ('k channel_inner \<Rightarrow> 'q \<Rightarrow> ('h err + ('h, 'x, 'b) http_response) future) \<Rightarrow> ('b \<Rightarrow> bool)
     \<Rightarrow> ('k, 'u) channel \<Rightarrow> 'q \<Rightarrow> ('h err + ('h, 'x, 'b body_kind) http_response) future" where
  "channel_call X request is_end ch req =
     (let fut = future_map (\<lambda>r. case r of
                    Inl e \<Rightarrow> Inl e
                  | Inr resp \<Rightarrow> Inr \<lparr>hp_status = hp_status resp, hp_version = hp_version resp,
                      hp_headers = hp_headers resp, hp_extensions = hp_extensions resp,
                      hp_body = body_new is_end (hp_body resp)\<rparr>)
                  (request (ch_inner ch) req)
      in case ch_timeout ch of
           Some duration \<Rightarrow>
             future_map (\<lambda>r. case r of
                 Some result \<Rightarrow> result
               | None \<Rightarrow> Inl (EStatus (status_new X DeadlineExceeded ''channel request timed out'')))
               (tokio_timeout duration fut)
         | None \<Rightarrow> fut)"

subsection \<open>Endpoints\<close>

datatype tls_mode = TlsNone | TlsNative | TlsCustomCa bytes

record 'u endpoint =
  ep_uri :: 'u
  ep_timeout :: "nat option"
  ep_connect_timeout :: "nat option"
  ep_http2 :: http2_config
  ep_tls :: tls_mode

definition uri_is_https :: "('u \<Rightarrow> string option) \<Rightarrow> 'u \<Rightarrow> bool" where
  "uri_is_https scheme_str uri = (scheme_str uri = Some ''https'')"

definition endpoint_new :: "('u \<Rightarrow> string option) \<Rightarrow> 'u \<Rightarrow> 'u endpoint" where
  "endpoint_new scheme_str uri =
     \<lparr>ep_uri = uri, ep_timeout = None, ep_connect_timeout = None, ep_http2 = http2_config_default,
      ep_tls = (if uri_is_https scheme_str uri then TlsNative else TlsNone)\<rparr>"

text \<open>\<open>None\<close> is the failed assertion.\<close>

text \<open>From a string: a static one that does not parse is a panic, any other an error.\<close>

definition endpoint_from_static :: "(string \<Rightarrow> 'e + 'u) \<Rightarrow> ('u \<Rightarrow> string option) \<Rightarrow> string \<Rightarrow> 'u endpoint option" where
  "endpoint_from_static parse scheme_str s =
     (case parse s of Inr uri \<Rightarrow> Some (endpoint_new scheme_str uri) | Inl e \<Rightarrow> None)"

definition endpoint_try_from :: "(string \<Rightarrow> 'e + 'u) \<Rightarrow> ('u \<Rightarrow> string option) \<Rightarrow> string \<Rightarrow> 'e + 'u endpoint" where
  "endpoint_try_from parse scheme_str s =
     (case parse s of Inr uri \<Rightarrow> Inr (endpoint_new scheme_str uri) | Inl e \<Rightarrow> Inl e)"

definition endpoint_timeout :: "'u endpoint \<Rightarrow> nat \<Rightarrow> 'u endpoint option" where
  "endpoint_timeout ep timeout = (if timeout \<noteq> 0 then Some (ep\<lparr>ep_timeout := Some timeout\<rparr>) else None)"

definition endpoint_connect_timeout :: "'u endpoint \<Rightarrow> nat \<Rightarrow> 'u endpoint option" where
  "endpoint_connect_timeout ep timeout =
     (if timeout \<noteq> 0 then Some (ep\<lparr>ep_connect_timeout := Some timeout\<rparr>) else None)"

definition update_http2 :: "(http2_config \<Rightarrow> http2_config) \<Rightarrow> 'u endpoint \<Rightarrow> 'u endpoint" where
  "update_http2 f ep = ep\<lparr>ep_http2 := f (ep_http2 ep)\<rparr>"

definition endpoint_initial_stream_window_size :: "'u endpoint \<Rightarrow> u32 \<Rightarrow> 'u endpoint" where
  "endpoint_initial_stream_window_size ep sz = update_http2 (\<lambda>c. c\<lparr>h2_initial_stream_window_size := Some sz\<rparr>) ep"

definition endpoint_initial_connection_window_size :: "'u endpoint \<Rightarrow> u32 \<Rightarrow> 'u endpoint" where
  "endpoint_initial_connection_window_size ep sz =
     update_http2 (\<lambda>c. c\<lparr>h2_initial_connection_window_size := Some sz\<rparr>) ep"

definition endpoint_adaptive_window :: "'u endpoint \<Rightarrow> bool \<Rightarrow> 'u endpoint" where
  "endpoint_adaptive_window ep enabled = update_http2 (\<lambda>c. c\<lparr>h2_adaptive_window := Some enabled\<rparr>) ep"

definition endpoint_max_frame_size :: "'u endpoint \<Rightarrow> u32 \<Rightarrow> 'u endpoint" where
  "endpoint_max_frame_size ep sz = update_http2 (\<lambda>c. c\<lparr>h2_max_frame_size := Some sz\<rparr>) ep"

definition endpoint_keep_alive_interval :: "'u endpoint \<Rightarrow> nat \<Rightarrow> 'u endpoint" where
  "endpoint_keep_alive_interval ep interval = update_http2 (\<lambda>c. c\<lparr>h2_keep_alive_interval := Some interval\<rparr>) ep"

definition endpoint_keep_alive_timeout :: "'u endpoint \<Rightarrow> nat \<Rightarrow> 'u endpoint" where
  "endpoint_keep_alive_timeout ep timeout = update_http2 (\<lambda>c. c\<lparr>h2_keep_alive_timeout := Some timeout\<rparr>) ep"

definition endpoint_tls :: "'u endpoint \<Rightarrow> 'u endpoint" where
  "endpoint_tls ep = ep\<lparr>ep_tls := TlsNative\<rparr>"

definition endpoint_tls_with_ca :: "'u endpoint \<Rightarrow> bytes \<Rightarrow> 'u endpoint" where
  "endpoint_tls_with_ca ep ca_pem = ep\<lparr>ep_tls := TlsCustomCa ca_pem\<rparr>"

text \<open>
  Connecting: none of the three ways awaits anything, so the future that makes the channel is done
  at its first poll.
\<close>

definition connect_fut :: "('h, 'c, 't, 'k) tls_ops \<Rightarrow> 'u endpoint \<Rightarrow> ('h err + ('k, 'u) channel) future" where
  "connect_fut T ep = DoneAt 0
     (case ep_tls ep of
        TlsNone \<Rightarrow> connect_with_h2_config (ep_uri ep) (ep_http2 ep)
      | TlsNative \<Rightarrow> connect_tls_with_h2_config T (ep_uri ep) (ep_http2 ep)
      | TlsCustomCa ca \<Rightarrow> connect_with_ca_and_h2_config T (ep_uri ep) ca (ep_http2 ep))"

definition endpoint_connect ::
  "('h, 'x) ext \<Rightarrow> ('h, 'c, 't, 'k) tls_ops \<Rightarrow> 'u endpoint \<Rightarrow> ('h err + ('k, 'u) channel) future" where
  "endpoint_connect X T ep =
     (let channel = (case ep_connect_timeout ep of
            Some duration \<Rightarrow>
              future_map (\<lambda>r. case r of
                  None \<Rightarrow> Inl (EStatus (status_new X DeadlineExceeded ''connect timed out''))
                | Some r \<Rightarrow> r)
                (tokio_timeout duration (connect_fut T ep))
          | None \<Rightarrow> connect_fut T ep)
      in future_map (\<lambda>r. case r of
            Inl e \<Rightarrow> Inl e
          | Inr channel \<Rightarrow> Inr (case ep_timeout ep of Some timeout \<Rightarrow> with_timeout channel timeout | None \<Rightarrow> channel))
          channel)"

subsection \<open>Load balancing\<close>

text \<open>The counter is an \<^verbatim>\<open>AtomicUsize\<close>: 64 bits, and adding to it wraps.\<close>

record 'c balanced_channel =
  bc_channels :: "'c list"
  bc_next :: "64 word"

fun connect_all :: "('u \<Rightarrow> 'e + 'c) \<Rightarrow> 'u list \<Rightarrow> 'e + 'c list" where
  "connect_all connect [] = Inr []"
| "connect_all connect (uri # uris) =
     (case connect uri of
        Inl e \<Rightarrow> Inl e
      | Inr c \<Rightarrow> (case connect_all connect uris of Inl e \<Rightarrow> Inl e | Inr cs \<Rightarrow> Inr (c # cs)))"

definition from_uris_with_h2_config ::
  "'u list \<Rightarrow> http2_config \<Rightarrow> 'h err + ('k, 'u) channel balanced_channel" where
  "from_uris_with_h2_config endpoints config =
     (if endpoints = [] then Inl (EOther ''at least one endpoint is required'' None)
      else
        (case connect_all (\<lambda>uri. connect_with_h2_config uri config) endpoints of
           Inl e \<Rightarrow> Inl e | Inr channels \<Rightarrow> Inr \<lparr>bc_channels = channels, bc_next = 0\<rparr>))"

definition from_uris :: "'u list \<Rightarrow> 'h err + ('k, 'u) channel balanced_channel" where
  "from_uris endpoints = from_uris_with_h2_config endpoints http2_config_default"

definition num_endpoints :: "'c balanced_channel \<Rightarrow> nat" where
  "num_endpoints b = length (bc_channels b)"

text \<open>The index a call takes, and the channel it uses; clones share the counter.\<close>

definition balanced_index :: "'c balanced_channel \<Rightarrow> nat \<times> 'c balanced_channel" where
  "balanced_index b = (unat (bc_next b) mod length (bc_channels b), b\<lparr>bc_next := bc_next b + 1\<rparr>)"

definition balanced_call :: "('c \<Rightarrow> 'q \<Rightarrow> 'r) \<Rightarrow> 'c balanced_channel \<Rightarrow> 'q \<Rightarrow> 'c balanced_channel \<times> 'r" where
  "balanced_call call b req =
     (case balanced_index b of (idx, b') \<Rightarrow> (b', call (bc_channels b ! idx) req))"

subsection \<open>Lemmas\<close>

definition channel_response :: "('b \<Rightarrow> bool) \<Rightarrow> ('h, 'x, 'b) http_response \<Rightarrow> ('h, 'x, 'b body_kind) http_response" where
  "channel_response is_end resp =
     \<lparr>hp_status = hp_status resp, hp_version = hp_version resp, hp_headers = hp_headers resp,
      hp_extensions = hp_extensions resp, hp_body = body_new is_end (hp_body resp)\<rparr>"

interpretation channel_deadline: deadlined "request (ch_inner ch)"
  "channel_call X request is_end (with_timeout ch limit)" limit "map_sum id (channel_response is_end)"
  "Inl (EStatus (status_new X DeadlineExceeded ''channel request timed out''))" for X request is_end ch limit
  by unfold_locales
     (auto simp: channel_call_def with_timeout_def channel_response_def Let_def tokio_timeout_def future_map_def
       split: future.splits sum.splits)

lemma connect_fut_timeouts [simp]:
  "connect_fut T (ep\<lparr>ep_connect_timeout := c\<rparr>) = connect_fut T ep"
  "connect_fut T (ep\<lparr>ep_timeout := c\<rparr>) = connect_fut T ep"
  by (cases "ep_tls ep"; simp add: connect_fut_def)+

interpretation connect_deadline: deadlined "\<lambda>_. connect_fut T ep"
  "\<lambda>_. endpoint_connect X T (ep\<lparr>ep_connect_timeout := Some limit, ep_timeout := None\<rparr>)" limit "\<lambda>r. r"
  "Inl (EStatus (status_new X DeadlineExceeded ''connect timed out''))" for T ep X limit
  by unfold_locales
     (auto simp: endpoint_connect_def Let_def tokio_timeout_def future_map_def split: sum.splits future.splits)

text \<open>The indices that the next calls take.\<close>

fun picks :: "nat \<Rightarrow> 'c balanced_channel \<Rightarrow> nat list" where
  "picks 0 b = []"
| "picks (Suc k) b = (case balanced_index b of (idx, b') \<Rightarrow> idx # picks k b')"

lemma picks_consecutive:
  "unat (bc_next b) + k \<le> 2 ^ 64 \<Longrightarrow>
   picks k b = map (\<lambda>j. (unat (bc_next b) + j) mod length (bc_channels b)) [0..<k]"
proof (induction k arbitrary: b)
  case (Suc k)
  show ?case
  proof (cases k)
    case 0
    then show ?thesis by (simp add: balanced_index_def)
  next
    case (Suc j)
    then have n: "unat (bc_next b + 1) = unat (bc_next b) + 1"
      using Suc.prems by (simp add: unat_word_ariths)
    have u: "[0..<Suc k] = 0 # map Suc [0..<k]" by (simp add: upt_conv_Cons map_Suc_upt del: upt_Suc)
    show ?thesis
      unfolding u using Suc.IH [of "b\<lparr>bc_next := bc_next b + 1\<rparr>"] Suc.prems
      by (simp add: balanced_index_def n)
  qed
qed simp

lemma window_permutation:
  assumes "0 < n"
  shows "mset (map (\<lambda>j. (a + j) mod n) [0..<n]) = mset [0..<n]"
proof -
  have inj: "inj_on (\<lambda>j. (a + j) mod n) {0..<n}"
  proof (rule linorder_inj_onI')
    fix i j assume ij: "i \<in> {0..<n}" "j \<in> {0..<n}" "i < j"
    show "(a + i) mod n \<noteq> (a + j) mod n"
    proof
      assume "(a + i) mod n = (a + j) mod n"
      then have "n dvd (a + j) - (a + i)" using ij by (metis mod_eq_dvd_iff_nat add_le_cancel_left less_imp_le_nat)
      then show False using ij by (auto dest: dvd_imp_le)
    qed
  qed
  have "set (map (\<lambda>j. (a + j) mod n) [0..<n]) = {0..<n}"
    by (simp add: endo_inj_surj [OF _ _ inj] image_subset_iff assms)
  moreover have "distinct (map (\<lambda>j. (a + j) mod n) [0..<n])" using inj by (simp add: distinct_map)
  ultimately show ?thesis by (metis set_eq_iff_mset_eq_distinct distinct_upt set_upt)
qed

lemma picks_rounds:
  "bc_channels b \<noteq> [] \<Longrightarrow> unat (bc_next b) + m * length (bc_channels b) \<le> 2 ^ 64 \<Longrightarrow> i < length (bc_channels b) \<Longrightarrow>
   count (mset (map (\<lambda>j. (unat (bc_next b) + j) mod length (bc_channels b)) [0..<m * length (bc_channels b)])) i = m"
proof (induction m)
  case (Suc m)
  let ?n = "length (bc_channels b)" and ?a = "unat (bc_next b)"
  have "[0..<m * ?n + ?n] = [0..<m * ?n] @ [m * ?n..<m * ?n + ?n]" by (rule upt_add_eq_append) simp
  also have "[m * ?n..<m * ?n + ?n] = map (\<lambda>j. j + m * ?n) [0..<?n]" by (simp add: map_add_upt add.commute)
  finally have split: "[0..<Suc m * ?n] = [0..<m * ?n] @ map (\<lambda>j. j + m * ?n) [0..<?n]" by (simp add: add.commute)
  have "mset (map ((\<lambda>j. (?a + j) mod ?n) \<circ> (\<lambda>j. j + m * ?n)) [0..<?n]) = mset [0..<?n]"
    using window_permutation [of ?n "?a + m * ?n"] Suc.prems by (simp add: comp_def ac_simps del: mset_map mset_upt)
  moreover have "count (mset [0..<?n]) i = 1" using Suc.prems by (simp add: distinct_count_atmost_1 [THEN iffD1])
  ultimately show ?case using Suc unfolding split map_append map_map mset_append by simp
qed simp

subsection \<open>Properties\<close>

text \<open>
  The balancer's choice is fair: over any whole number of rounds of calls, made through any clones in any
  order, every channel gets exactly one call per round, as long as the 64-bit counter does not wrap
  in between; every call gets a channel that exists, and a channel is kept for every address.
\<close>

theorem balancer_fair:
  assumes "from_uris_with_h2_config uris config = Inr b0" "bc_channels b = bc_channels b0"
    and "unat (bc_next b) + m * num_endpoints b \<le> 2 ^ 64" "i < num_endpoints b"
  shows "num_endpoints b = length uris \<and> map ch_uri (bc_channels b) = uris \<and>
    fst (balanced_index b) < num_endpoints b \<and>
    count (mset (picks (m * num_endpoints b) b)) i = m"
proof -
  have all: "connect_all (\<lambda>uri. connect_with_h2_config uri config) us = Inr cs \<Longrightarrow> map ch_uri cs = us"
    for us and cs :: "('k, 'u) channel list"
    by (induction us arbitrary: cs) (auto simp: connect_with_h2_config_def split: sum.splits)
  have uris: "map ch_uri (bc_channels b) = uris" "uris \<noteq> []"
    using assms(1,2) by (auto simp: from_uris_with_h2_config_def all split: if_splits sum.splits)
  then have "length (bc_channels b) = length uris" by (metis length_map)
  moreover have ne: "bc_channels b \<noteq> []" using uris by auto
  ultimately show ?thesis
    using uris picks_rounds [OF ne _ assms(4) [unfolded num_endpoints_def]] picks_consecutive [of b "m * length (bc_channels b)"] assms(3)
    by (simp add: num_endpoints_def balanced_index_def)
qed

theorem balancer_fair_witness:
  "\<exists>b. (from_uris_with_h2_config [1, 2, 3 :: nat] http2_config_default :: nat err + (unit, nat) channel balanced_channel) = Inr b \<and>
     count (mset (picks 12 b)) 2 = 4"
proof -
  obtain b where b: "(from_uris_with_h2_config [1, 2, 3 :: nat] http2_config_default :: nat err + (unit, nat) channel balanced_channel) = Inr b"
    "num_endpoints b = 3" "bc_next b = 0"
    by (simp add: from_uris_with_h2_config_def connect_with_h2_config_def num_endpoints_def)
  from balancer_fair [OF b(1) refl, of 4 2] b show ?thesis by simp
qed

text \<open>
  A request on a channel with a deadline is always answered by the deadline: with hyper's own
  answer, at its own time, if that comes in time, and otherwise with an error, which a call turns
  into the status \<open>DeadlineExceeded\<close>; without a deadline hyper's answer is passed on.
\<close>

theorem channel_meets_deadline:
  "(\<exists>t r. channel_call X request is_end (with_timeout ch d) req = DoneAt t r \<and> t \<le> d \<and>
     (case request (ch_inner ch) req of
        DoneAt t' r' \<Rightarrow> if t' \<le> d then t = t' \<and> r = map_sum id (channel_response is_end) r'
          else t = d \<and> (\<exists>e. r = Inl e \<and> st_code (from_error X e) = DeadlineExceeded)
      | Never \<Rightarrow> t = d \<and> (\<exists>e. r = Inl e \<and> st_code (from_error X e) = DeadlineExceeded))) \<and>
   channel_call X request is_end (ch\<lparr>ch_timeout := None\<rparr>) req
     = future_map (map_sum id (channel_response is_end)) (request (ch_inner ch) req)"
proof
  have e: "st_code (from_error X (EStatus (status_new X DeadlineExceeded m))) = DeadlineExceeded" for m
    by (simp add: from_error_def status_new_def)
  show "\<exists>t r. channel_call X request is_end (with_timeout ch d) req = DoneAt t r \<and> t \<le> d \<and>
     (case request (ch_inner ch) req of
        DoneAt t' r' \<Rightarrow> if t' \<le> d then t = t' \<and> r = map_sum id (channel_response is_end) r'
          else t = d \<and> (\<exists>e. r = Inl e \<and> st_code (from_error X e) = DeadlineExceeded)
      | Never \<Rightarrow> t = d \<and> (\<exists>e. r = Inl e \<and> st_code (from_error X e) = DeadlineExceeded))"
  proof (cases "\<exists>t a. request (ch_inner ch) req = DoneAt t a \<and> t \<le> d")
    case True
    then obtain t a where "request (ch_inner ch) req = DoneAt t a" "t \<le> d" by blast
    with channel_deadline.in_time [of request ch req t a d X is_end] show ?thesis by simp
  next
    case False
    with channel_deadline.too_late [of request ch req d X is_end] e show ?thesis
      by (fastforce split: future.split)
  qed
  show "channel_call X request is_end (ch\<lparr>ch_timeout := None\<rparr>) req
     = future_map (map_sum id (channel_response is_end)) (request (ch_inner ch) req)"
    by (auto simp: channel_call_def channel_response_def Let_def future_map_def split: future.split sum.split)
qed

text \<open>
  An endpoint's connect timeout has no effect: nothing is awaited while a channel is made (the
  connection is opened by the first request), so the result of connecting is the same with any
  connect timeout as with none; it carries the endpoint's request deadline and HTTP/2 settings.
\<close>

theorem connect_timeout_without_effect:
  "endpoint_connect X T (ep\<lparr>ep_connect_timeout := Some d\<rparr>) = endpoint_connect X T (ep\<lparr>ep_connect_timeout := None\<rparr>) \<and>
   (\<exists>r. endpoint_connect X T ep = DoneAt 0 r \<and>
     (case r of Inl e \<Rightarrow> ep_tls ep \<noteq> TlsNone
      | Inr ch \<Rightarrow> ch_uri ch = ep_uri ep \<and> ch_timeout ch = ep_timeout ep \<and>
         (case ch_inner ch of
            ChannelHttp calls \<Rightarrow> ep_tls ep = TlsNone \<and> calls = apply_h2_config [Http2Only True] (ep_http2 ep)
          | ChannelHttps k calls \<Rightarrow> ep_tls ep \<noteq> TlsNone \<and> calls = apply_h2_config [Http2Only True] (ep_http2 ep))))"
proof
  obtain r where r: "connect_fut T ep = DoneAt 0 r" by (simp add: connect_fut_def)
  show "endpoint_connect X T (ep\<lparr>ep_connect_timeout := Some d\<rparr>) = endpoint_connect X T (ep\<lparr>ep_connect_timeout := None\<rparr>)"
    using r by (simp add: endpoint_connect_def Let_def tokio_timeout_def future_map_def split: sum.split)
  have "case r of Inl e \<Rightarrow> ep_tls ep \<noteq> TlsNone
      | Inr ch \<Rightarrow> ch_uri ch = ep_uri ep \<and> ch_timeout ch = None \<and>
         (case ch_inner ch of
            ChannelHttp calls \<Rightarrow> ep_tls ep = TlsNone \<and> calls = apply_h2_config [Http2Only True] (ep_http2 ep)
          | ChannelHttps k calls \<Rightarrow> ep_tls ep \<noteq> TlsNone \<and> calls = apply_h2_config [Http2Only True] (ep_http2 ep))"
    using r by (auto simp: connect_fut_def connect_with_h2_config_def connect_tls_with_h2_config_def
        connect_with_ca_and_h2_config_def connect_with_tls_config_and_h2_def split: tls_mode.splits sum.splits)
  then show "\<exists>r. endpoint_connect X T ep = DoneAt 0 r \<and>
     (case r of Inl e \<Rightarrow> ep_tls ep \<noteq> TlsNone
      | Inr ch \<Rightarrow> ch_uri ch = ep_uri ep \<and> ch_timeout ch = ep_timeout ep \<and>
         (case ch_inner ch of
            ChannelHttp calls \<Rightarrow> ep_tls ep = TlsNone \<and> calls = apply_h2_config [Http2Only True] (ep_http2 ep)
          | ChannelHttps k calls \<Rightarrow> ep_tls ep \<noteq> TlsNone \<and> calls = apply_h2_config [Http2Only True] (ep_http2 ep)))"
    using r by (auto simp: endpoint_connect_def Let_def tokio_timeout_def future_map_def with_timeout_def split: sum.splits option.splits)
qed

end
