(* ===== verification/FlatBuffers.thy ===== *)
theory FlatBuffers
  imports Framing
begin

section \<open>The FlatBuffers codec\<close>

text \<open>
  \<^verbatim>\<open>grpc-codec-flatbuffers/src/lib.rs\<close>: the codec over a message type's own
  \<^verbatim>\<open>encode_flatbuffer\<close> and \<^verbatim>\<open>decode_flatbuffer\<close>, which are
  parameters; a decoding error is given by its text. The lemmas show that the codec satisfies the
  contract the framing relies on, and what a message that does not decode does to a stream.
\<close>

definition flatbuffers_encode :: "('m \<Rightarrow> bytes) \<Rightarrow> 'm \<Rightarrow> bytes \<times> ('h status + unit)" where
  "flatbuffers_encode encode_flatbuffer item =
     (let data = encode_flatbuffer item in (eb_put_slice [] data, Inr ()))"

text \<open>
  \<open>None\<close>: \<^verbatim>\<open>advance\<close> panics, which it does only for a window that is longer
  than its buffer.
\<close>

definition flatbuffers_decode ::
  "('h, 'x) ext \<Rightarrow> (bytes \<Rightarrow> string + 'm) \<Rightarrow> decode_buf \<Rightarrow> (decode_buf \<times> ('h status + 'm option)) option" where
  "flatbuffers_decode X decode_flatbuffer buf =
     (let len = db_remaining buf; data = db_chunk buf in
      case decode_flatbuffer data of
        Inl e \<Rightarrow> Some (buf, Inl (status_new X Internal (''FlatBuffers decode error: '' @ e)))
      | Inr item \<Rightarrow>
          (case db_advance buf len of
             Some buf' \<Rightarrow> Some (buf', Inr (Some item))
           | None \<Rightarrow> None))"

definition flatbuffers_encoder :: "('m \<Rightarrow> bytes) \<Rightarrow> ('h, 'm) encoder" where
  "flatbuffers_encoder encode_flatbuffer =
     \<lparr>ec_encode = flatbuffers_encode encode_flatbuffer, ec_settings = buffer_settings_default\<rparr>"

text \<open>The decoder of the framing is total; the panic is a case it never meets (\<open>window_fits\<close>).\<close>

definition flatbuffers_decoder :: "('h, 'x) ext \<Rightarrow> (bytes \<Rightarrow> string + 'm) \<Rightarrow> ('h, 'm) decoder" where
  "flatbuffers_decoder X decode_flatbuffer =
     \<lparr>dc_decode = (\<lambda>buf. case flatbuffers_decode X decode_flatbuffer buf of
          Some r \<Rightarrow> r | None \<Rightarrow> (buf, Inl (status_new X Internal ''panic''))),
      dc_settings = buffer_settings_default\<rparr>"

subsection \<open>Lemmas\<close>

definition window_ok :: "decode_buf \<Rightarrow> bool" where
  "window_ok d \<longleftrightarrow> db_len d \<le> length (db_buf d)"

lemma flatbuffers_no_panic: "window_ok d \<Longrightarrow> flatbuffers_decode X f d \<noteq> None"
  by (auto simp: flatbuffers_decode_def window_ok_def Let_def db_advance_def db_remaining_def split: sum.split)

lemma window_fits:
  assumes "inner_decode_chunk X s = (s', Inr (Some w))"
  shows "case w of FromBuf d \<Rightarrow> window_ok d | FromDecompressed d \<Rightarrow> window_ok d"
  using assms
  by (auto simp: inner_decode_chunk_def decode_payload_def decode_buf_new_def window_ok_def
      split: prod.splits sum.splits bool.splits read_state.splits if_splits option.splits)

lemma flatbuffers_codec_laws:
  assumes "\<forall>m. decode_flatbuffer (encode_flatbuffer m) = Inr m"
  shows "codec_laws (flatbuffers_encoder encode_flatbuffer) (flatbuffers_decoder X decode_flatbuffer)"
  using assms
  by (simp add: codec_laws_def flatbuffers_encoder_def flatbuffers_decoder_def flatbuffers_encode_def
      flatbuffers_decode_def eb_put_slice_def Let_def db_chunk_def db_advance_def db_remaining_def)

subsection \<open>Properties\<close>

text \<open>
  Over the FlatBuffers codec a response stream decodes to the messages that were sent, in
  order, however the transport cuts the bytes, for any message type whose decoder undoes its
  encoder; and a decoder that gets a window always fits it in its buffer, so decoding never panics.
\<close>

theorem flatbuffers_stream:
  assumes "\<forall>m. decode_flatbuffer (encode_flatbuffer m) = Inr m" "compressor_laws X"
    and "E = flatbuffers_encoder encode_flatbuffer" "D = flatbuffers_decoder X decode_flatbuffer"
    and "all_encode X E cenc mxs src"
    and "\<forall>m\<in>set (src_items src). \<forall>p. payload_of X E cenc m = Inr p \<longrightarrow> length p \<le> recv_limit mxr"
    and "data_only evs" "body_data evs = concat (fst (src_frames X E cenc mxs src))"
  shows "\<exists>s'. collect X D (Suc (length (src_items src))) (sg_inner (streaming_new X D (as_raw (evs @ tail)) dir cenc mxr))
      = (case collect X D (Suc 0) s' of (ms, e) \<Rightarrow> (src_items src @ ms, e))
    \<and> si_state s' = ReadHeader \<and> si_buf s' = [] \<and> si_body s' = tail \<and>
    (inner_decode_chunk X s = (s1, Inr (Some (FromBuf d))) \<longrightarrow> flatbuffers_decode X decode_flatbuffer d \<noteq> None)"
proof -
  have "codec_laws E D" unfolding assms(3,4) by (rule flatbuffers_codec_laws [OF assms(1)])
  from decoded_frames [OF this assms(2,5-8) refl, of tail dir]
  obtain s' where "collect X D (Suc (length (src_items src))) (sg_inner (streaming_new X D (as_raw (evs @ tail)) dir cenc mxr))
      = (case collect X D (Suc 0) s' of (ms, e) \<Rightarrow> (src_items src @ ms, e))"
    "si_state s' = ReadHeader" "si_buf s' = []" "si_body s' = tail"
    by blast
  then show ?thesis using window_fits [of X s s1 "FromBuf d"] flatbuffers_no_panic by fastforce
qed

theorem flatbuffers_stream_witness:
  "\<exists>s'. collect ref_ext (flatbuffers_decoder ref_ext (Inr :: bytes \<Rightarrow> string + bytes)) (Suc (length (src_items [SrcItem [8, 9] :: (alist, bytes) src_ev])))
      (sg_inner (streaming_new ref_ext (flatbuffers_decoder ref_ext (Inr :: bytes \<Rightarrow> string + bytes))
        (as_raw ([BFrame (FData [0, 0, 0, 0]), BFrame (FData [2, 8, 9])] @ [])) DirRequest None None))
      = (case collect ref_ext (flatbuffers_decoder ref_ext (Inr :: bytes \<Rightarrow> string + bytes)) (Suc 0) s' of (ms, e) \<Rightarrow> (src_items [SrcItem [8, 9] :: (alist, bytes) src_ev] @ ms, e))
    \<and> si_state s' = ReadHeader \<and> si_buf s' = []"
proof -
  let ?E = "flatbuffers_encoder (\<lambda>m :: bytes. m) :: (alist, bytes) encoder"
  let ?evs = "[BFrame (FData [0, 0, 0, 0]), BFrame (FData [2, 8, 9])] :: alist body"
  have p: "payload_of ref_ext ?E None [8, 9] = Inr [8, 9]"
    by (simp add: payload_of_def flatbuffers_encoder_def flatbuffers_encode_def eb_put_slice_def)
  have f: "frame_of ref_ext ?E None None [8, 9] = Inr [0, 0, 0, 0, 2, 8, 9]"
    by (simp add: frame_of_Inr_iff p send_limit_def DEFAULT_MAX_SEND_MESSAGE_SIZE_def grpc_frame_def u32_be_def)
  have l: "\<forall>m :: bytes. (Inr m :: string + bytes) = Inr m" by simp
  have ae: "all_encode ref_ext ?E None None [SrcItem [8, 9]]" by (simp add: f)
  have lim: "\<forall>m\<in>set (src_items [SrcItem [8, 9]]). \<forall>p. payload_of ref_ext ?E None m = Inr p \<longrightarrow> length p \<le> recv_limit None"
    by (simp add: p recv_limit_def DEFAULT_MAX_RECV_MESSAGE_SIZE_def)
  have d: "data_only ?evs" "body_data ?evs = concat (fst (src_frames ref_ext ?E None None [SrcItem [8, 9]]))"
    by (simp_all add: f)
  from flatbuffers_stream [OF l ref_compressor_laws refl refl ae lim d, of "[]" DirRequest] show ?thesis
    by blast
qed

text \<open>
  A message that is not a valid FlatBuffer blocks the stream for good: the decoder leaves its
  bytes where they are, so the error is returned and the state is unchanged, and every later poll
  returns the same error, however often the stream is polled.
\<close>

theorem flatbuffers_error_repeats:
  assumes "si_state s = ReadBody None len" "len \<le> length (si_buf s)"
    and "decode_flatbuffer (take len (si_buf s)) = Inl e"
  shows "poll_next X (flatbuffers_decoder X decode_flatbuffer) (((\<lambda>t. fst (poll_next X (flatbuffers_decoder X decode_flatbuffer) t)) ^^ n) s)
    = (s, Ready (Some (Inl (status_new X Internal (''FlatBuffers decode error: '' @ e)))))"
proof -
  have c: "db_chunk (decode_buf_new (si_buf s) len) = take len (si_buf s)"
    by (simp add: db_chunk_def decode_buf_new_def Let_def)
  have "poll_pass X (flatbuffers_decoder X decode_flatbuffer) s
      = (s, Some (Ready (Some (Inl (status_new X Internal (''FlatBuffers decode error: '' @ e))))))"
    using assms c by (simp add: poll_pass_def decode_chunk_def inner_decode_chunk_def decode_header_def
        decode_payload_def flatbuffers_decoder_def flatbuffers_decode_def Let_def decode_buf_new_def)
  then have p: "poll_next X (flatbuffers_decoder X decode_flatbuffer) s
      = (s, Ready (Some (Inl (status_new X Internal (''FlatBuffers decode error: '' @ e)))))"
    by (subst poll_next.simps) simp
  have "((\<lambda>t. fst (poll_next X (flatbuffers_decoder X decode_flatbuffer) t)) ^^ n) s = s"
    by (induction n) (simp_all add: p)
  then show ?thesis by (simp add: p)
qed

theorem flatbuffers_error_repeats_witness:
  "\<exists>s e. poll_next ref_ext (flatbuffers_decoder ref_ext (\<lambda>_. Inl ''bad'' :: string + bytes))
      (((\<lambda>t. fst (poll_next ref_ext (flatbuffers_decoder ref_ext (\<lambda>_. Inl ''bad'' :: string + bytes)) t)) ^^ 5) s)
    = (s, Ready (Some (Inl e)))"
proof -
  let ?s = "(sg_inner (streaming_new ref_ext (flatbuffers_decoder ref_ext (\<lambda>_. Inl ''bad'' :: string + bytes)) [] DirRequest None None))
    \<lparr>si_state := ReadBody None 1, si_buf := [9]\<rparr>"
  have s: "si_state ?s = ReadBody None 1" "1 \<le> length (si_buf ?s)" by simp_all
  from flatbuffers_error_repeats [where decode_flatbuffer = "\<lambda>_. Inl ''bad'' :: string + bytes", OF s refl, of ref_ext 5] show ?thesis by blast
qed

end
