(* ===== verification/Health.thy ===== *)
theory Health
  imports Grpc_Server
begin

section \<open>The health service\<close>

text \<open>
  \<^verbatim>\<open>grpc-health/src/lib.rs\<close>: the statuses and the watch channels the service and its
  handle share, each behind a lock of its own; setting a status, checking one, watching one, and the
  dispatch on the path. Every lock is held for one statement, so setting and watching are two
  steps each, and the steps of several tasks may interleave. tokio's watch channel is a parameter.
  The lemmas say when a watcher and a check agree, and when they do not.
\<close>

datatype serving_status = StatusUnknown | Serving | NotServing | ServiceUnknown

definition serving_num :: "serving_status \<Rightarrow> nat" where
  "serving_num st = (case st of StatusUnknown \<Rightarrow> 0 | Serving \<Rightarrow> 1 | NotServing \<Rightarrow> 2 | ServiceUnknown \<Rightarrow> 3)"

record health_check_request = hc_service :: string
record health_check_response = hc_status :: nat

text \<open>
  \<^verbatim>\<open>tokio::sync::watch\<close>: a channel keeps one value. A new channel has one receiver;
  subscribing adds one; a send without receivers fails and leaves the value as it was. A stream over
  a receiver yields the value the channel has at once.
\<close>

record 'w watch_ops =
  wt_channel :: "serving_status \<Rightarrow> 'w"
  wt_subscribe :: "'w \<Rightarrow> 'w"
  wt_drop :: "'w \<Rightarrow> 'w"
  wt_send :: "'w \<Rightarrow> serving_status \<Rightarrow> 'w \<times> bool"
  wt_value :: "'w \<Rightarrow> serving_status"
  wt_receivers :: "'w \<Rightarrow> nat"

definition watch_laws :: "'w watch_ops \<Rightarrow> bool" where
  "watch_laws W \<longleftrightarrow>
     (\<forall>v. wt_value W (wt_channel W v) = v \<and> wt_receivers W (wt_channel W v) = 1) \<and>
     (\<forall>w. wt_value W (wt_subscribe W w) = wt_value W w \<and> wt_receivers W (wt_subscribe W w) = wt_receivers W w + 1) \<and>
     (\<forall>w. wt_value W (wt_drop W w) = wt_value W w \<and> wt_receivers W (wt_drop W w) = wt_receivers W w - 1) \<and>
     (\<forall>w v. if wt_receivers W w = 0 then wt_send W w v = (w, False)
        else snd (wt_send W w v) \<and> wt_value W (fst (wt_send W w v)) = v \<and>
          wt_receivers W (fst (wt_send W w v)) = wt_receivers W w)"

record 'w health_state =
  hs_statuses :: "string \<rightharpoonup> serving_status"
  hs_watchers :: "string \<rightharpoonup> 'w"

definition health_service :: "'w health_state" where
  "health_service = \<lparr>hs_statuses = [[] \<mapsto> Serving], hs_watchers = Map.empty\<rparr>"

subsection \<open>Operations\<close>

text \<open>Setting a status: the insertion under one lock, the notification under the other.\<close>

definition set_insert :: "string \<Rightarrow> serving_status \<Rightarrow> 'w health_state \<Rightarrow> 'w health_state" where
  "set_insert service st s = s\<lparr>hs_statuses := (hs_statuses s)(service \<mapsto> st)\<rparr>"

definition set_notify :: "'w watch_ops \<Rightarrow> string \<Rightarrow> serving_status \<Rightarrow> 'w health_state \<Rightarrow> 'w health_state" where
  "set_notify W service st s =
     (case hs_watchers s service of
        Some tx \<Rightarrow> (case wt_send W tx st of (tx', sent) \<Rightarrow> s\<lparr>hs_watchers := (hs_watchers s)(service \<mapsto> tx')\<rparr>)
      | None \<Rightarrow> s)"

definition set_status :: "'w watch_ops \<Rightarrow> string \<Rightarrow> serving_status \<Rightarrow> 'w health_state \<Rightarrow> 'w health_state" where
  "set_status W service st s = set_notify W service st (set_insert service st s)"

definition set_serving :: "'w watch_ops \<Rightarrow> string \<Rightarrow> 'w health_state \<Rightarrow> 'w health_state" where
  "set_serving W service s = set_status W service Serving s"

definition set_not_serving :: "'w watch_ops \<Rightarrow> string \<Rightarrow> 'w health_state \<Rightarrow> 'w health_state" where
  "set_not_serving W service s = set_status W service NotServing s"

definition check_status :: "'w health_state \<Rightarrow> string \<Rightarrow> serving_status" where
  "check_status s service_name =
     (case hs_statuses s service_name of Some st \<Rightarrow> st | None \<Rightarrow> ServiceUnknown)"

definition check_call ::
  "('h, 'x) ext \<Rightarrow> 'w health_state \<Rightarrow> ('h, 'x, health_check_request) request
     \<Rightarrow> 'h status + ('h, 'x, health_check_response) response" where
  "check_call X s request =
     Inr (response_new X \<lparr>hc_status = serving_num (check_status s (hc_service (rq_message request)))\<rparr>)"

text \<open>Watching: the status is read under one lock, the channel found or made under the other.\<close>

definition watch_read :: "'w health_state \<Rightarrow> string \<Rightarrow> serving_status option" where
  "watch_read s service_name = hs_statuses s service_name"

definition watch_subscribe ::
  "'w watch_ops \<Rightarrow> string \<Rightarrow> serving_status option \<Rightarrow> 'w health_state \<Rightarrow> 'w health_state" where
  "watch_subscribe W service_name initial_status s =
     (case hs_watchers s service_name of
        Some tx \<Rightarrow> s\<lparr>hs_watchers := (hs_watchers s)(service_name \<mapsto> wt_subscribe W tx)\<rparr>
      | None \<Rightarrow>
          (let initial = (case initial_status of Some st \<Rightarrow> st | None \<Rightarrow> ServiceUnknown)
           in s\<lparr>hs_watchers := (hs_watchers s)(service_name \<mapsto> wt_channel W initial)\<rparr>))"

definition watch_call :: "'w watch_ops \<Rightarrow> string \<Rightarrow> 'w health_state \<Rightarrow> 'w health_state" where
  "watch_call W service_name s = watch_subscribe W service_name (watch_read s service_name) s"

text \<open>What the stream of a watcher yields first.\<close>

definition watch_first :: "'w watch_ops \<Rightarrow> 'w health_state \<Rightarrow> string \<Rightarrow> serving_status option" where
  "watch_first W s service_name = map_option (wt_value W) (hs_watchers s service_name)"

text \<open>The end of a watcher's stream drops its receiver.\<close>

definition watch_drop :: "'w watch_ops \<Rightarrow> string \<Rightarrow> 'w health_state \<Rightarrow> 'w health_state" where
  "watch_drop W service_name s =
     s\<lparr>hs_watchers := (hs_watchers s)(service_name := map_option (wt_drop W) (hs_watchers s service_name))\<rparr>"

text \<open>
  The service: \<open>E\<close> and \<open>D\<close> are its prost codec, and \<open>watch\<close> is what the stream of a
  watcher yields.
\<close>

definition health_call ::
  "('h, 'x) ext \<Rightarrow> ('h, health_check_response) encoder \<Rightarrow> ('h, health_check_request) decoder \<Rightarrow> 'w health_state
     \<Rightarrow> (string \<Rightarrow> ('h, health_check_response) src_ev list) \<Rightarrow> ('h, 'x) raw_request
     \<Rightarrow> ('h, 'x, health_check_response) grpc_http_response option" where
  "health_call X E D s watch req =
     (if hq_path req = ''/grpc.health.v1.Health/Check'' then
        server_unary X (grpc_server_new E D) (check_call X s) req
      else if hq_path req = ''/grpc.health.v1.Health/Watch'' then
        server_server_streaming X (grpc_server_new E D)
          (\<lambda>request. Inr (response_new X (watch (hc_service (rq_message request))))) req
      else Some (status_into_http X body_empty (status_new X Unimplemented '''')))"

subsection \<open>Tasks that interleave\<close>

text \<open>A task between its two steps.\<close>

datatype health_task = Setting string serving_status | Watching string "serving_status option"

inductive health_step ::
  "'w watch_ops \<Rightarrow> 'w health_state \<times> health_task list \<Rightarrow> 'w health_state \<times> health_task list \<Rightarrow> bool" for W where
  set_begin: "health_step W (s, ts) (set_insert service st s, Setting service st # ts)"
| set_end: "Setting service st \<in> set ts \<Longrightarrow>
    health_step W (s, ts) (set_notify W service st s, remove1 (Setting service st) ts)"
| watch_begin: "health_step W (s, ts) (s, Watching service (watch_read s service) # ts)"
| watch_end: "Watching service initial \<in> set ts \<Longrightarrow>
    health_step W (s, ts) (watch_subscribe W service initial s, remove1 (Watching service initial) ts)"
| watcher_gone: "hs_watchers s service = Some w \<Longrightarrow> 0 < wt_receivers W w \<Longrightarrow>
    health_step W (s, ts) (watch_drop W service s, ts)"

inductive health_steps ::
  "'w watch_ops \<Rightarrow> 'w health_state \<times> health_task list \<Rightarrow> 'w health_state \<times> health_task list \<Rightarrow> bool" for W where
  refl: "health_steps W y y"
| step: "health_step W x y \<Longrightarrow> health_steps W y z \<Longrightarrow> health_steps W x z"

text \<open>Runs without interleaving in which the last watcher of a service never leaves.\<close>

inductive sequential :: "'w watch_ops \<Rightarrow> 'w health_state \<Rightarrow> bool" for W where
  init: "sequential W health_service"
| set: "sequential W s \<Longrightarrow> sequential W (set_status W service st s)"
| watch: "sequential W s \<Longrightarrow> sequential W (watch_call W service s)"
| gone: "sequential W s \<Longrightarrow> hs_watchers s service = Some w \<Longrightarrow> 1 < wt_receivers W w \<Longrightarrow>
    sequential W (watch_drop W service s)"

subsection \<open>Lemmas\<close>

lemma watch_lawsD:
  assumes "watch_laws W"
  shows "wt_value W (wt_channel W v) = v" "wt_receivers W (wt_channel W v) = 1"
    "wt_value W (wt_subscribe W w) = wt_value W w" "wt_receivers W (wt_subscribe W w) = wt_receivers W w + 1"
    "wt_value W (wt_drop W w) = wt_value W w" "wt_receivers W (wt_drop W w) = wt_receivers W w - 1"
    "wt_receivers W w = 0 \<Longrightarrow> wt_send W w v = (w, False)"
    "0 < wt_receivers W w \<Longrightarrow> wt_value W (fst (wt_send W w v)) = v"
    "0 < wt_receivers W w \<Longrightarrow> wt_receivers W (fst (wt_send W w v)) = wt_receivers W w"
  using assms unfolding watch_laws_def by auto

lemma set_status_fields:
  "hs_watchers (set_status W service st s) = (case hs_watchers s service of
     Some tx \<Rightarrow> (hs_watchers s)(service \<mapsto> fst (wt_send W tx st)) | None \<Rightarrow> hs_watchers s)"
  "check_status (set_status W service st s) x = (if x = service then st else check_status s x)"
  by (auto simp: set_status_def set_notify_def set_insert_def check_status_def split: option.split prod.split)

lemma watch_call_fields:
  assumes "watch_laws W"
  shows "check_status (watch_call W service s) x = check_status s x"
    and "hs_watchers (watch_call W service s) = (hs_watchers s)(service \<mapsto>
      (case hs_watchers s service of Some tx \<Rightarrow> wt_subscribe W tx | None \<Rightarrow> wt_channel W (check_status s service)))"
  by (auto simp: watch_call_def watch_subscribe_def watch_read_def check_status_def Let_def split: option.split)

text \<open>A service's watchers see what a check sees, and there is one.\<close>

definition watchers_agree :: "'w watch_ops \<Rightarrow> 'w health_state \<Rightarrow> bool" where
  "watchers_agree W s \<longleftrightarrow>
     (\<forall>service w. hs_watchers s service = Some w \<longrightarrow> wt_value W w = check_status s service \<and> 0 < wt_receivers W w)"

lemma watchers_agree_ops:
  assumes "watch_laws W"
  shows "watchers_agree W health_service"
    and "watchers_agree W s \<Longrightarrow> watchers_agree W (set_status W service st s)"
    and "watchers_agree W s \<Longrightarrow> watchers_agree W (watch_call W service s)"
    and "watchers_agree W s \<Longrightarrow> hs_watchers s service = Some w \<Longrightarrow> 1 < wt_receivers W w \<Longrightarrow>
      watchers_agree W (watch_drop W service s)"
proof -
  show "watchers_agree W health_service" by (simp add: watchers_agree_def health_service_def)
  show "watchers_agree W s \<Longrightarrow> watchers_agree W (set_status W service st s)"
    using watch_lawsD(8,9) [OF assms] unfolding watchers_agree_def set_status_fields
    by (auto split: option.splits if_splits)
  show "watchers_agree W s \<Longrightarrow> watchers_agree W (watch_call W service s)"
    using watch_lawsD(1-4) [OF assms] unfolding watchers_agree_def watch_call_fields [OF assms]
    by (auto split: option.splits if_splits)
  show "watchers_agree W s \<Longrightarrow> hs_watchers s service = Some w \<Longrightarrow> 1 < wt_receivers W w \<Longrightarrow>
      watchers_agree W (watch_drop W service s)"
    using watch_lawsD [OF assms]
    by (auto simp: watchers_agree_def watch_drop_def check_status_def split: if_splits)
qed

lemma sequential_agree: "sequential W s \<Longrightarrow> watch_laws W \<Longrightarrow> watchers_agree W s"
  by (induction rule: sequential.induct) (auto intro: watchers_agree_ops)

text \<open>A watch channel for the examples: its value and its receivers.\<close>

definition pair_watch :: "(serving_status \<times> nat) watch_ops" where
  "pair_watch = \<lparr>wt_channel = (\<lambda>v. (v, 1)), wt_subscribe = (\<lambda>(v, n). (v, n + 1)), wt_drop = (\<lambda>(v, n). (v, n - 1)),
     wt_send = (\<lambda>(v, n) v'. if n = 0 then ((v, n), False) else ((v', n), True)), wt_value = fst, wt_receivers = snd\<rparr>"

lemma pair_watch_laws [simp]: "watch_laws pair_watch"
  by (simp add: watch_laws_def pair_watch_def split: prod.split)

subsection \<open>Properties\<close>

text \<open>
  C31: As long as statuses are set and watched one after the other and a service's last watcher
  stays, every watcher has the status a check returns, and a new watcher's first message is that
  status.
\<close>

theorem health_watch_agrees:
  assumes "watch_laws W" "sequential W s"
  shows "watch_first W (watch_call W service s) service = Some (check_status s service) \<and>
    watch_first W s service \<in> {None, Some (check_status s service)} \<and>
    watch_first W (set_status W service st s) service \<in> {None, Some st} \<and>
    check_status (set_status W service st s) service = st"
proof -
  have "sequential W (watch_call W service s)" "sequential W (set_status W service st s)"
    using assms(2) by (auto intro: sequential.intros)
  then have "watchers_agree W (watch_call W service s)" "watchers_agree W s" "watchers_agree W (set_status W service st s)"
    using assms sequential_agree by blast+
  then show ?thesis
    using watch_call_fields [OF assms(1), of service s] set_status_fields(2) [of W service st s]
    by (auto simp: watchers_agree_def watch_first_def)
qed

theorem health_watch_agrees_witness:
  "watch_first pair_watch (watch_call pair_watch ''a'' (set_serving pair_watch ''a'' health_service)) ''a'' = Some Serving"
proof -
  have "sequential pair_watch (set_serving pair_watch ''a'' health_service)"
    unfolding set_serving_def by (intro sequential.intros)
  from health_watch_agrees [OF pair_watch_laws this, of "''a''"] show ?thesis
    by (simp add: set_serving_def set_status_fields)
qed

text \<open>
  Once the last watcher of a service has left, its channel no longer takes values: whatever
  status is set then is what a check returns, but the next watcher is given the status from before.
\<close>

theorem health_stale_watch:
  assumes "watch_laws W" "hs_watchers s service = Some w" "wt_receivers W w = 0"
  shows "check_status (set_status W service st s) service = st \<and>
    watch_first W (watch_call W service (set_status W service st s)) service = Some (wt_value W w)"
  using watch_lawsD [OF assms(1)] assms(2,3)
  by (simp add: set_status_fields watch_call_fields [OF assms(1)] watch_first_def)

theorem health_stale_watch_witness:
  "\<exists>s. s = watch_drop pair_watch ''a'' (watch_call pair_watch ''a'' (set_serving pair_watch ''a'' health_service)) \<and>
     check_status (set_status pair_watch ''a'' NotServing s) ''a'' = NotServing \<and>
     watch_first pair_watch (watch_call pair_watch ''a'' (set_status pair_watch ''a'' NotServing s)) ''a'' = Some Serving"
proof -
  let ?s = "watch_drop pair_watch ''a'' (watch_call pair_watch ''a'' (set_serving pair_watch ''a'' health_service))"
  have w: "hs_watchers ?s ''a'' = Some (Serving, 0)"
    by (simp add: watch_drop_def watch_call_def watch_subscribe_def watch_read_def set_serving_def set_status_def
        set_notify_def set_insert_def health_service_def pair_watch_def Let_def)
  from health_stale_watch [OF pair_watch_laws w, of NotServing] show ?thesis by (simp add: pair_watch_def)
qed

text \<open>
  Setting and watching race: for a service nobody watches yet there is a run of the two tasks,
  the status set between the watcher's two steps, after which no task is left, a check returns the
  new status, and the watcher has the old one.
\<close>

theorem health_watch_race:
  assumes "watch_laws W" "hs_watchers s service = None"
  shows "\<exists>s'. health_steps W (s, []) (s', []) \<and> check_status s' service = st \<and>
    watch_first W s' service = Some (check_status s service)"
proof -
  let ?w = "Watching service (watch_read s service)"
  let ?s1 = "set_insert service st s"
  let ?s2 = "set_notify W service st ?s1"
  let ?s3 = "watch_subscribe W service (watch_read s service) ?s2"
  have n: "hs_watchers ?s2 service = None" "hs_statuses ?s2 service = Some st"
    using assms(2) by (simp_all add: set_insert_def set_notify_def)
  have "health_step W (s, []) (s, [?w])" by (rule health_step.watch_begin)
  moreover have "health_step W (s, [?w]) (?s1, [Setting service st, ?w])" by (rule health_step.set_begin)
  moreover have "health_step W (?s1, [Setting service st, ?w]) (?s2, remove1 (Setting service st) [Setting service st, ?w])"
    by (rule health_step.set_end) simp
  moreover have "health_step W (?s2, [?w]) (?s3, remove1 ?w [?w])" by (rule health_step.watch_end) simp
  ultimately have "health_steps W (s, []) (?s3, [])"
    unfolding remove1.simps if_True simp_thms by (meson health_steps.intros)
  moreover have "check_status ?s3 service = st" using n by (simp add: check_status_def watch_subscribe_def Let_def)
  moreover have "watch_first W ?s3 service = Some (check_status s service)"
    using n watch_lawsD(1) [OF assms(1)] by (simp add: watch_first_def watch_subscribe_def check_status_def watch_read_def Let_def)
  ultimately show ?thesis by blast
qed

theorem health_watch_race_witness:
  "\<exists>s'. health_steps pair_watch (set_serving pair_watch ''a'' health_service, []) (s', []) \<and>
     check_status s' ''a'' = NotServing \<and> watch_first pair_watch s' ''a'' = Some Serving"
proof -
  have "hs_watchers (set_serving pair_watch ''a'' health_service) ''a'' = None"
    by (simp add: set_serving_def set_status_fields health_service_def)
  from health_watch_race [OF pair_watch_laws this, of NotServing] show ?thesis
    by (simp add: set_serving_def set_status_fields)
qed

end
