(* ===== verification/Details.thy ===== *)
theory Details
  imports Status
begin

section \<open>Typed error details\<close>

text \<open>
  \<^verbatim>\<open>grpc-types/src/any_ext.rs\<close> and \<^verbatim>\<open>status_ext.rs\<close>: the ten
  detail messages of \<^verbatim>\<open>google.rpc\<close>, packed as \<^verbatim>\<open>Any\<close> values into
  a \<^verbatim>\<open>google.rpc.Status\<close> that becomes the details of a status, and their
  extraction. The messages themselves and their prost codecs are generated, so they are
  parameters: a message is some \<open>'m\<close>, with an encoder and a decoder for each kind. The lemmas
  show that what is attached is what is extracted, also after the status has crossed the wire.
\<close>

datatype detail_kind =
    KErrorInfo | KRetryInfo | KDebugInfo | KQuotaFailure | KPreconditionFailure | KBadRequest
  | KRequestInfo | KResourceInfo | KHelp | KLocalizedMessage

record any =
  any_type_url :: string
  any_value :: bytes

datatype 'm error_detail =
    ErrorInfo 'm | RetryInfo 'm | DebugInfo 'm | QuotaFailure 'm | PreconditionFailure 'm | BadRequest 'm
  | RequestInfo 'm | ResourceInfo 'm | Help 'm | LocalizedMessage 'm
  | UnknownDetail any

record rpc_status =
  rp_code :: nat
  rp_message :: string
  rp_details :: "any list"

text \<open>
  prost: per kind \<^verbatim>\<open>encode_to_vec\<close> and \<^verbatim>\<open>decode\<close> (an error is
  given by its text) on the messages of that kind, and the same for
  \<^verbatim>\<open>google.rpc.Status\<close>, whose encoding is empty only when all its fields are.
\<close>

record 'm detail_codec =
  dt_typed :: "detail_kind \<Rightarrow> 'm \<Rightarrow> bool"
  dt_encode :: "detail_kind \<Rightarrow> 'm \<Rightarrow> bytes"
  dt_decode :: "detail_kind \<Rightarrow> bytes \<Rightarrow> string + 'm"
  rp_encode :: "rpc_status \<Rightarrow> bytes"
  rp_decode :: "bytes \<Rightarrow> string + rpc_status"

definition detail_laws :: "'m detail_codec \<Rightarrow> bool" where
  "detail_laws P \<longleftrightarrow>
     (\<forall>k m. dt_typed P k m \<longrightarrow> dt_decode P k (dt_encode P k m) = Inr m) \<and>
     (\<forall>s. rp_decode P (rp_encode P s) = Inr s) \<and>
     (\<forall>s. rp_encode P s = [] \<longrightarrow> rp_details s = [])"

definition TYPE_URL :: "detail_kind \<Rightarrow> string" where
  "TYPE_URL k = (case k of
       KErrorInfo \<Rightarrow> ''type.googleapis.com/google.rpc.ErrorInfo''
     | KRetryInfo \<Rightarrow> ''type.googleapis.com/google.rpc.RetryInfo''
     | KDebugInfo \<Rightarrow> ''type.googleapis.com/google.rpc.DebugInfo''
     | KQuotaFailure \<Rightarrow> ''type.googleapis.com/google.rpc.QuotaFailure''
     | KPreconditionFailure \<Rightarrow> ''type.googleapis.com/google.rpc.PreconditionFailure''
     | KBadRequest \<Rightarrow> ''type.googleapis.com/google.rpc.BadRequest''
     | KRequestInfo \<Rightarrow> ''type.googleapis.com/google.rpc.RequestInfo''
     | KResourceInfo \<Rightarrow> ''type.googleapis.com/google.rpc.ResourceInfo''
     | KHelp \<Rightarrow> ''type.googleapis.com/google.rpc.Help''
     | KLocalizedMessage \<Rightarrow> ''type.googleapis.com/google.rpc.LocalizedMessage'')"

text \<open>\<^verbatim>\<open>IntoAny::into_any\<close> and \<^verbatim>\<open>FromAny::from_any\<close> of a kind.\<close>

definition message_into_any :: "'m detail_codec \<Rightarrow> detail_kind \<Rightarrow> 'm \<Rightarrow> any" where
  "message_into_any P k v = \<lparr>any_type_url = TYPE_URL k, any_value = dt_encode P k v\<rparr>"

definition from_any :: "'m detail_codec \<Rightarrow> detail_kind \<Rightarrow> any \<Rightarrow> string + 'm" where
  "from_any P k a = dt_decode P k (any_value a)"

definition into_any :: "'m detail_codec \<Rightarrow> 'm error_detail \<Rightarrow> any" where
  "into_any P d = (case d of
       ErrorInfo v \<Rightarrow> message_into_any P KErrorInfo v
     | RetryInfo v \<Rightarrow> message_into_any P KRetryInfo v
     | DebugInfo v \<Rightarrow> message_into_any P KDebugInfo v
     | QuotaFailure v \<Rightarrow> message_into_any P KQuotaFailure v
     | PreconditionFailure v \<Rightarrow> message_into_any P KPreconditionFailure v
     | BadRequest v \<Rightarrow> message_into_any P KBadRequest v
     | RequestInfo v \<Rightarrow> message_into_any P KRequestInfo v
     | ResourceInfo v \<Rightarrow> message_into_any P KResourceInfo v
     | Help v \<Rightarrow> message_into_any P KHelp v
     | LocalizedMessage v \<Rightarrow> message_into_any P KLocalizedMessage v
     | UnknownDetail a \<Rightarrow> a)"

definition decode_any :: "'m detail_codec \<Rightarrow> any \<Rightarrow> string + 'm error_detail" where
  "decode_any P a =
     (let url = any_type_url a in
      if url = TYPE_URL KErrorInfo then map_sum id ErrorInfo (from_any P KErrorInfo a)
      else if url = TYPE_URL KRetryInfo then map_sum id RetryInfo (from_any P KRetryInfo a)
      else if url = TYPE_URL KDebugInfo then map_sum id DebugInfo (from_any P KDebugInfo a)
      else if url = TYPE_URL KQuotaFailure then map_sum id QuotaFailure (from_any P KQuotaFailure a)
      else if url = TYPE_URL KPreconditionFailure then map_sum id PreconditionFailure (from_any P KPreconditionFailure a)
      else if url = TYPE_URL KBadRequest then map_sum id BadRequest (from_any P KBadRequest a)
      else if url = TYPE_URL KRequestInfo then map_sum id RequestInfo (from_any P KRequestInfo a)
      else if url = TYPE_URL KResourceInfo then map_sum id ResourceInfo (from_any P KResourceInfo a)
      else if url = TYPE_URL KHelp then map_sum id Help (from_any P KHelp a)
      else if url = TYPE_URL KLocalizedMessage then map_sum id LocalizedMessage (from_any P KLocalizedMessage a)
      else Inr (UnknownDetail a))"

subsection \<open>Details of a status\<close>

definition with_error_details ::
  "('h, 'x) ext \<Rightarrow> 'm detail_codec \<Rightarrow> code \<Rightarrow> string \<Rightarrow> 'm error_detail list \<Rightarrow> 'h status" where
  "with_error_details X P c message details =
     (let any_details = map (into_any P) details;
          rpc_status = \<lparr>rp_code = code_num c, rp_message = message, rp_details = any_details\<rparr>;
          encoded = rp_encode P rpc_status
      in with_details X c message encoded)"

text \<open>Collecting into a \<^verbatim>\<open>Result\<close> stops at the first error.\<close>

fun decode_all :: "'m detail_codec \<Rightarrow> any list \<Rightarrow> string + 'm error_detail list" where
  "decode_all P [] = Inr []"
| "decode_all P (a # as) =
     (case decode_any P a of
        Inl e \<Rightarrow> Inl e
      | Inr d \<Rightarrow> (case decode_all P as of Inl e \<Rightarrow> Inl e | Inr ds \<Rightarrow> Inr (d # ds)))"

definition error_details :: "'m detail_codec \<Rightarrow> 'h status \<Rightarrow> string + 'm error_detail list" where
  "error_details P st =
     (let details_bytes = st_details st in
      if details_bytes = [] then Inr []
      else (case rp_decode P details_bytes of
              Inl e \<Rightarrow> Inl e
            | Inr rpc_status \<Rightarrow> decode_all P (rp_details rpc_status)))"

text \<open>The variant a \<^verbatim>\<open>get_details_...\<close> method matches, and the method.\<close>

definition detail_variant :: "detail_kind \<Rightarrow> 'm error_detail \<Rightarrow> 'm option" where
  "detail_variant k d = (case (k, d) of
       (KErrorInfo, ErrorInfo v) \<Rightarrow> Some v
     | (KRetryInfo, RetryInfo v) \<Rightarrow> Some v
     | (KDebugInfo, DebugInfo v) \<Rightarrow> Some v
     | (KQuotaFailure, QuotaFailure v) \<Rightarrow> Some v
     | (KPreconditionFailure, PreconditionFailure v) \<Rightarrow> Some v
     | (KBadRequest, BadRequest v) \<Rightarrow> Some v
     | (KRequestInfo, RequestInfo v) \<Rightarrow> Some v
     | (KResourceInfo, ResourceInfo v) \<Rightarrow> Some v
     | (KHelp, Help v) \<Rightarrow> Some v
     | (KLocalizedMessage, LocalizedMessage v) \<Rightarrow> Some v
     | _ \<Rightarrow> None)"

fun find_map :: "('a \<Rightarrow> 'b option) \<Rightarrow> 'a list \<Rightarrow> 'b option" where
  "find_map f [] = None"
| "find_map f (a # as) = (case f a of Some b \<Rightarrow> Some b | None \<Rightarrow> find_map f as)"

definition get_details :: "'m detail_codec \<Rightarrow> detail_kind \<Rightarrow> 'h status \<Rightarrow> 'm option" where
  "get_details P k st =
     (case error_details P st of Inl e \<Rightarrow> None | Inr ds \<Rightarrow> find_map (detail_variant k) ds)"

subsection \<open>Lemmas\<close>

text \<open>The details a program can attach: messages of their kinds, and foreign \<^verbatim>\<open>Any\<close> values.\<close>

definition detail_ok :: "'m detail_codec \<Rightarrow> 'm error_detail \<Rightarrow> bool" where
  "detail_ok P d = (case d of
       ErrorInfo v \<Rightarrow> dt_typed P KErrorInfo v
     | RetryInfo v \<Rightarrow> dt_typed P KRetryInfo v
     | DebugInfo v \<Rightarrow> dt_typed P KDebugInfo v
     | QuotaFailure v \<Rightarrow> dt_typed P KQuotaFailure v
     | PreconditionFailure v \<Rightarrow> dt_typed P KPreconditionFailure v
     | BadRequest v \<Rightarrow> dt_typed P KBadRequest v
     | RequestInfo v \<Rightarrow> dt_typed P KRequestInfo v
     | ResourceInfo v \<Rightarrow> dt_typed P KResourceInfo v
     | Help v \<Rightarrow> dt_typed P KHelp v
     | LocalizedMessage v \<Rightarrow> dt_typed P KLocalizedMessage v
     | UnknownDetail a \<Rightarrow> any_type_url a \<notin> range TYPE_URL)"

lemma TYPE_URL_inj: "TYPE_URL k = TYPE_URL k' \<longleftrightarrow> k = k'"
  by (cases k; cases k'; simp add: TYPE_URL_def)

lemma decode_into_any:
  assumes "detail_laws P" "detail_ok P d"
  shows "decode_any P (into_any P d) = Inr d"
proof -
  have r: "dt_typed P k m \<Longrightarrow> dt_decode P k (dt_encode P k m) = Inr m" for k m
    using assms(1) by (simp add: detail_laws_def)
  show ?thesis
    using assms(2) r
    by (cases d) (auto simp: decode_any_def into_any_def message_into_any_def from_any_def detail_ok_def TYPE_URL_inj Let_def)
qed

lemma decode_all_into_any:
  "detail_laws P \<Longrightarrow> list_all (detail_ok P) ds \<Longrightarrow> decode_all P (map (into_any P) ds) = Inr ds"
  by (induction ds) (simp_all add: decode_into_any)

lemma error_details_of:
  assumes "detail_laws P" "list_all (detail_ok P) ds" "st_details st' = st_details (with_error_details X P c m ds)"
  shows "error_details P st' = Inr ds"
proof -
  let ?s = "\<lparr>rp_code = code_num c, rp_message = m, rp_details = map (into_any P) ds\<rparr>"
  have "st_details st' = rp_encode P ?s"
    using assms(3) by (simp add: with_error_details_def Let_def with_details_def with_details_and_metadata_def)
  moreover have "rp_encode P ?s = [] \<Longrightarrow> ds = []" using assms(1) by (auto simp: detail_laws_def)
  ultimately show ?thesis
    using assms(1) decode_all_into_any [OF assms(1,2)] by (auto simp: error_details_def detail_laws_def Let_def)
qed

text \<open>
  A codec for the examples: a message is its bytes, whatever its kind, and a status is written as
  blocks, each behind its length in unary.
\<close>

definition block :: "bytes \<Rightarrow> bytes" where
  "block b = replicate (length b) 1 @ 0 # b"

definition unblock :: "bytes \<Rightarrow> bytes \<times> bytes" where
  "unblock bs = (let n = length (takeWhile (\<lambda>b. b = 1) bs) in (take n (drop (n + 1) bs), drop (n + n + 1) bs))"

fun unany :: "nat \<Rightarrow> bytes \<Rightarrow> any list" where
  "unany 0 bs = []"
| "unany (Suc n) bs =
     (case unblock bs of (u, bs1) \<Rightarrow>
        (case unblock bs1 of (v, bs2) \<Rightarrow> \<lparr>any_type_url = bytes_str u, any_value = v\<rparr> # unany n bs2))"

definition sample_codec :: "bytes detail_codec" where
  "sample_codec =
     \<lparr>dt_typed = (\<lambda>k m. True), dt_encode = (\<lambda>k m. m), dt_decode = (\<lambda>k b. Inr b),
      rp_encode = (\<lambda>s. block (replicate (rp_code s) 0) @ block (str_bytes (rp_message s)) @
        block (replicate (length (rp_details s)) 0) @
        concat (map (\<lambda>a. block (str_bytes (any_type_url a)) @ block (any_value a)) (rp_details s))),
      rp_decode = (\<lambda>bs. case unblock bs of (c, bs1) \<Rightarrow> case unblock bs1 of (m, bs2) \<Rightarrow>
        case unblock bs2 of (n, bs3) \<Rightarrow>
          Inr \<lparr>rp_code = length c, rp_message = bytes_str m, rp_details = unany (length n) bs3\<rparr>)\<rparr>"

lemma unblock_block [simp]: "unblock (block b @ r) = (b, r)"
proof -
  have "takeWhile (\<lambda>b. b = 1) (replicate n 1 @ 0 # b @ r) = replicate n (1 :: u8)" for n
    by (induction n) simp_all
  then show ?thesis by (simp add: unblock_def block_def Let_def)
qed

lemma unany_blocks:
  "unany (length as) (concat (map (\<lambda>a. block (str_bytes (any_type_url a)) @ block (any_value a)) as)) = as"
  by (induction as) simp_all

lemma sample_codec_laws [simp]: "detail_laws sample_codec"
  by (simp add: detail_laws_def sample_codec_def unany_blocks) (simp add: block_def)

subsection \<open>Properties\<close>

text \<open>
  C32: Typed details survive the wire: a status with details of any kinds, known and foreign, is
  written to headers and read back with the same code, message and details in the same order, and
  the getter of a kind finds the first detail of that kind.
\<close>

theorem details_cross_the_wire:
  assumes "header_laws X" "value_laws X" "percent_laws X" "base64_laws X" "detail_laws P"
    and "utf8_valid m" "list_all (detail_ok P) ds"
  shows "\<exists>hm st'. to_header_map X (with_error_details X P c m ds) = Inr hm \<and> from_header_map X hm = Some st' \<and>
    st_code st' = c \<and> st_message st' = m \<and> error_details P st' = Inr ds \<and>
    get_details P k st' = find_map (detail_variant k) ds"
proof -
  let ?st = "with_error_details X P c m ds"
  have f: "st_code ?st = c" "st_message ?st = m"
    by (simp_all add: with_error_details_def Let_def with_details_def with_details_and_metadata_def)
  obtain st' where st': "to_header_map X ?st = Inr (fst (add_header X ?st (hm_empty X)))"
    "from_header_map X (fst (add_header X ?st (hm_empty X))) = Some st'"
    "st_code st' = st_code ?st" "st_message st' = st_message ?st" "st_details st' = st_details ?st"
    using status_headers_read [OF assms(1-4), of ?st] assms(6) f by auto
  then show ?thesis
    using error_details_of [OF assms(5,7) st'(5)] f by (simp add: get_details_def)
qed

theorem details_cross_the_wire_witness:
  "\<exists>hm st'. to_header_map ref_ext (with_error_details ref_ext sample_codec InvalidArgument ''bad''
        [Help [1], BadRequest [2], BadRequest [3], UnknownDetail \<lparr>any_type_url = ''x/y'', any_value = []\<rparr>]) = Inr hm \<and>
    from_header_map ref_ext hm = Some st' \<and> get_details sample_codec KBadRequest st' = Some [2] \<and>
    get_details sample_codec KErrorInfo st' = None"
proof -
  let ?ds = "[Help [1], BadRequest [2], BadRequest [3], UnknownDetail \<lparr>any_type_url = ''x/y'', any_value = []\<rparr>]"
  have "''x/y'' \<noteq> TYPE_URL k" for k by (cases k) (simp_all add: TYPE_URL_def)
  then have ok: "list_all (detail_ok sample_codec) ?ds" by (auto simp: detail_ok_def sample_codec_def)
  have u: "utf8_valid ''bad''" by (simp add: utf8_valid_def)
  from details_cross_the_wire [OF ref_header_laws ref_value_laws ref_percent_laws ref_base64_laws sample_codec_laws u ok]
  obtain hm st' where h: "to_header_map ref_ext (with_error_details ref_ext sample_codec InvalidArgument ''bad'' ?ds) = Inr hm"
    "from_header_map ref_ext hm = Some st'" "error_details sample_codec st' = Inr ?ds"
    by blast
  then have "get_details sample_codec k st' = find_map (detail_variant k) ?ds" for k by (simp add: get_details_def)
  with h show ?thesis by (auto simp: detail_variant_def)
qed

end
