(* ===== verification/Reflection.thy ===== *)
theory Reflection
  imports Grpc_Server
begin

section \<open>The reflection service\<close>

text \<open>
  \<^verbatim>\<open>grpc-reflection/src/lib.rs\<close> and \<^verbatim>\<open>proto.rs\<close>: the builder
  that indexes file descriptors by name and by the symbols they declare, the answer to one
  request, the task that answers a stream of them, and the dispatch on the path. The descriptors
  are prost's types, of which the indexed fields are kept; decoding and encoding them are
  parameters. The lemmas say which file every symbol is answered with, and how a stream ends.
\<close>

subsection \<open>Descriptors and messages\<close>

datatype message_type =
    MessageType (mt_name: "string option") (mt_nested: "message_type list") (mt_enums: "string option list")

record service_type =
  sd_name :: "string option"
  sd_methods :: "string option list"

text \<open>\<open>'r\<close> is what else the descriptor holds.\<close>

record 'r file_descriptor =
  fd_name :: "string option"
  fd_package :: "string option"
  fd_services :: "service_type list"
  fd_messages :: "message_type list"
  fd_enums :: "string option list"
  fd_rest :: 'r

datatype message_request =
    FileByFilename string | FileContainingSymbol string | FileContainingExtension string int
  | AllExtensionNumbersOfType string | ListServices string

record reflection_request =
  rr_host :: string
  rr_message_request :: "message_request option"

datatype message_response =
    FileDescriptorResponse "bytes list"
  | AllExtensionNumbersResponse string "int list"
  | ListServicesResponse "string list"
  | ErrorResponse nat string

record reflection_response =
  rf_valid_host :: string
  rf_original_request :: "reflection_request option"
  rf_message_response :: "message_response option"

subsection \<open>The builder\<close>

record reflection_state =
  rb_service_names :: "string list"
  rb_symbols :: "string \<rightharpoonup> bytes"
  rb_files :: "string \<rightharpoonup> bytes"

definition make_fqn :: "string \<Rightarrow> string \<Rightarrow> string" where
  "make_fqn package name = (if package = [] then name else package @ ''.'' @ name)"

definition index_enums :: "string \<Rightarrow> bytes \<Rightarrow> string option list \<Rightarrow> (string \<rightharpoonup> bytes) \<Rightarrow> (string \<rightharpoonup> bytes)" where
  "index_enums parent_fqn file_bytes enums symbols =
     fold (\<lambda>e m. case e of Some enum_name \<Rightarrow> m(make_fqn parent_fqn enum_name \<mapsto> file_bytes) | None \<Rightarrow> m) enums symbols"

fun index_message_types :: "string \<Rightarrow> bytes \<Rightarrow> message_type list \<Rightarrow> (string \<rightharpoonup> bytes) \<Rightarrow> (string \<rightharpoonup> bytes)" where
  "index_message_types parent_fqn file_bytes [] symbols = symbols"
| "index_message_types parent_fqn file_bytes (MessageType name nested enums # msgs) symbols =
     index_message_types parent_fqn file_bytes msgs
       (case name of
          Some msg_name \<Rightarrow>
            (let fqn = make_fqn parent_fqn msg_name;
                 symbols1 = symbols(fqn \<mapsto> file_bytes);
                 symbols2 = index_message_types fqn file_bytes nested symbols1
             in index_enums fqn file_bytes enums symbols2)
        | None \<Rightarrow> symbols)"

definition index_service :: "string \<Rightarrow> bytes \<Rightarrow> service_type \<Rightarrow> reflection_state \<Rightarrow> reflection_state" where
  "index_service package file_bytes svc b =
     (case sd_name svc of
        Some svc_name \<Rightarrow>
          (let fqn = make_fqn package svc_name
           in b\<lparr>rb_service_names := rb_service_names b @ [fqn],
                rb_symbols := fold (\<lambda>method m. case method of
                    Some method_name \<Rightarrow> m(fqn @ ''.'' @ method_name \<mapsto> file_bytes) | None \<Rightarrow> m)
                  (sd_methods svc) ((rb_symbols b)(fqn \<mapsto> file_bytes))\<rparr>)
      | None \<Rightarrow> b)"

definition index_file :: "'r file_descriptor \<Rightarrow> bytes \<Rightarrow> reflection_state \<Rightarrow> reflection_state" where
  "index_file file file_bytes b =
     (let b1 = (case fd_name file of Some name \<Rightarrow> b\<lparr>rb_files := (rb_files b)(name \<mapsto> file_bytes)\<rparr> | None \<Rightarrow> b);
          package = (case fd_package file of Some p \<Rightarrow> p | None \<Rightarrow> []);
          b2 = fold (index_service package file_bytes) (fd_services file) b1;
          symbols = index_message_types package file_bytes (fd_messages file) (rb_symbols b2)
      in b2\<lparr>rb_symbols := index_enums package file_bytes (fd_enums file) symbols\<rparr>)"

fun register_files ::
  "('h, 'x) ext \<Rightarrow> ('r file_descriptor \<Rightarrow> string + bytes) \<Rightarrow> 'r file_descriptor list \<Rightarrow> reflection_state
     \<Rightarrow> 'h status + reflection_state" where
  "register_files X encode [] b = Inr b"
| "register_files X encode (file # fs) b =
     (case encode file of
        Inl e \<Rightarrow> Inl (status_new X Internal (''failed to re-encode FileDescriptorProto: '' @ e))
      | Inr file_bytes \<Rightarrow> register_files X encode fs (index_file file file_bytes b))"

definition register_encoded_file_descriptor_set ::
  "('h, 'x) ext \<Rightarrow> (bytes \<Rightarrow> string + 'r file_descriptor list) \<Rightarrow> ('r file_descriptor \<Rightarrow> string + bytes) \<Rightarrow> bytes
     \<Rightarrow> reflection_state \<Rightarrow> 'h status + reflection_state" where
  "register_encoded_file_descriptor_set X decode encode encoded b =
     (case decode encoded of
        Inl e \<Rightarrow> Inl (status_new X Internal (''invalid FileDescriptorSet: descriptor bytes are corrupt: '' @ e))
      | Inr fds \<Rightarrow> register_files X encode fds b)"

definition register_service :: "string \<Rightarrow> reflection_state \<Rightarrow> reflection_state" where
  "register_service name b = b\<lparr>rb_service_names := rb_service_names b @ [name]\<rparr>"

definition REFLECTION_NAME :: string where "REFLECTION_NAME = ''grpc.reflection.v1.ServerReflection''"

definition reflection_builder :: reflection_state where
  "reflection_builder = \<lparr>rb_service_names = [], rb_symbols = Map.empty, rb_files = Map.empty\<rparr>"

text \<open>The state of a built server has the fields of the builder.\<close>

definition reflection_build :: "reflection_state \<Rightarrow> reflection_state" where
  "reflection_build b =
     (if REFLECTION_NAME \<in> set (rb_service_names b) then b
      else b\<lparr>rb_service_names := rb_service_names b @ [REFLECTION_NAME]\<rparr>)"

subsection \<open>Answers\<close>

definition handle_reflection_request :: "reflection_state \<Rightarrow> reflection_request \<Rightarrow> reflection_response" where
  "handle_reflection_request state req =
     \<lparr>rf_valid_host = [], rf_original_request = Some req,
      rf_message_response = Some
        (case rr_message_request req of
           Some (ListServices _) \<Rightarrow> ListServicesResponse (rb_service_names state)
         | Some (FileContainingSymbol symbol) \<Rightarrow>
             (case rb_symbols state symbol of
                Some file_bytes \<Rightarrow> FileDescriptorResponse [file_bytes]
              | None \<Rightarrow> ErrorResponse (code_num NotFound) (''symbol not found: '' @ symbol))
         | Some (FileByFilename filename) \<Rightarrow>
             (case rb_files state filename of
                Some file_bytes \<Rightarrow> FileDescriptorResponse [file_bytes]
              | None \<Rightarrow> ErrorResponse (code_num NotFound) (''file not found: '' @ filename))
         | Some (AllExtensionNumbersOfType _) \<Rightarrow>
             ErrorResponse (code_num Unimplemented) ''extensions not supported''
         | _ \<Rightarrow> ErrorResponse (code_num InvalidArgument) ''unknown request type'')\<rparr>"

text \<open>
  The spawned task: it answers messages until the request stream ends or fails. \<open>None\<close>: it does
  not stop. The answers pass through a channel in order; a client that leaves ends the task.
\<close>

partial_function (option) answer_loop ::
  "('h, 'x) ext \<Rightarrow> ('h, reflection_request) decoder \<Rightarrow> reflection_state \<Rightarrow> 'h streaming_inner
     \<Rightarrow> reflection_response list option" where
  "answer_loop X D state input =
     (case message X D input of
        (input', Inr (Some req)) \<Rightarrow>
          Option.bind (answer_loop X D state input') (\<lambda>rs. Some (handle_reflection_request state req # rs))
      | (input', _) \<Rightarrow> Some [])"

definition reflection_info ::
  "('h, 'x) ext \<Rightarrow> reflection_state \<Rightarrow> ('h, 'x, ('h, reflection_request) streaming) request
     \<Rightarrow> 'h status + ('h, 'x, ('h, reflection_response) src_ev list) response" where
  "reflection_info X state request =
     (let input = rq_message request
      in Inr (response_new X
           (case answer_loop X (sg_decoder input) state (sg_inner input) of
              Some rs \<Rightarrow> map SrcItem rs | None \<Rightarrow> [])))"

definition reflection_call ::
  "('h, 'x) ext \<Rightarrow> ('h, reflection_response) encoder \<Rightarrow> ('h, reflection_request) decoder \<Rightarrow> reflection_state
     \<Rightarrow> ('h, 'x) raw_request \<Rightarrow> ('h, 'x, reflection_response) grpc_http_response" where
  "reflection_call X E D state req =
     (if hq_path req = ''/grpc.reflection.v1.ServerReflection/ServerReflectionInfo'' then
        server_streaming X (grpc_server_new E D) (reflection_info X state) req
      else status_into_http X body_empty (status_new X Unimplemented ''''))"

subsection \<open>Lemmas\<close>

text \<open>What a file declares: the symbols a client may ask for, and its services.\<close>

definition named :: "string \<Rightarrow> string option list \<Rightarrow> string list" where
  "named parent ns = concat (map (\<lambda>n. case n of Some x \<Rightarrow> [make_fqn parent x] | None \<Rightarrow> []) ns)"

fun message_symbols :: "string \<Rightarrow> message_type list \<Rightarrow> string list" where
  "message_symbols parent [] = []"
| "message_symbols parent (MessageType name nested enums # msgs) =
     (case name of
        Some n \<Rightarrow> (let fqn = make_fqn parent n in fqn # message_symbols fqn nested @ named fqn enums)
      | None \<Rightarrow> []) @ message_symbols parent msgs"

definition service_symbols :: "string \<Rightarrow> service_type \<Rightarrow> string list" where
  "service_symbols package svc =
     (case sd_name svc of
        Some n \<Rightarrow> make_fqn package n # concat (map (\<lambda>m. case m of Some x \<Rightarrow> [make_fqn package n @ ''.'' @ x] | None \<Rightarrow> []) (sd_methods svc))
      | None \<Rightarrow> [])"

definition file_package :: "'r file_descriptor \<Rightarrow> string" where
  "file_package f = (case fd_package f of Some p \<Rightarrow> p | None \<Rightarrow> [])"

definition file_symbols :: "'r file_descriptor \<Rightarrow> string list" where
  "file_symbols f = concat (map (service_symbols (file_package f)) (fd_services f)) @
     message_symbols (file_package f) (fd_messages f) @ named (file_package f) (fd_enums f)"

definition file_services :: "'r file_descriptor \<Rightarrow> string list" where
  "file_services f = named (file_package f) (map sd_name (fd_services f))"

text \<open>Indexing is one update of the map for all the names.\<close>

definition point_to :: "bytes \<Rightarrow> string list \<Rightarrow> (string \<rightharpoonup> bytes) \<Rightarrow> (string \<rightharpoonup> bytes)" where
  "point_to fb ns m = (\<lambda>s. if s \<in> set ns then Some fb else m s)"

lemma point_to_simps [simp]:
  "point_to fb [] m = m" "m(n \<mapsto> fb) = point_to fb [n] m" "point_to fb ms (point_to fb ns m) = point_to fb (ms @ ns) m"
  by (auto simp: point_to_def fun_eq_iff)

lemma point_to_set: "set ns = set ms \<Longrightarrow> point_to fb ns m = point_to fb ms m"
  by (simp add: point_to_def)

lemma index_enums_names: "index_enums parent fb es m = point_to fb (named parent es) m"
proof (induction es arbitrary: m)
  case (Cons e es)
  then show ?case by (cases e) (auto simp: index_enums_def named_def intro!: point_to_set)
qed (simp add: index_enums_def named_def)

lemma index_message_types_names: "index_message_types parent fb msgs m = point_to fb (message_symbols parent msgs) m"
proof (induction parent fb msgs m rule: index_message_types.induct)
  case (2 parent fb name nested enums msgs symbols)
  then show ?case by (cases name) (auto simp: index_enums_names Let_def intro!: point_to_set)
qed simp

lemma index_service_names:
  "rb_symbols (index_service package fb svc b) = point_to fb (service_symbols package svc) (rb_symbols b)"
  "rb_service_names (index_service package fb svc b) = rb_service_names b @ named package [sd_name svc]"
  "rb_files (index_service package fb svc b) = rb_files b"
proof -
  have "fold (\<lambda>method m. case method of Some x \<Rightarrow> m(fqn @ ''.'' @ x \<mapsto> fb) | None \<Rightarrow> m) ms m
      = point_to fb (concat (map (\<lambda>m. case m of Some x \<Rightarrow> [fqn @ ''.'' @ x] | None \<Rightarrow> []) ms)) m" for ms fqn m
  proof (induction ms arbitrary: m)
    case (Cons a ms)
    then show ?case by (cases a) (auto intro!: point_to_set)
  qed simp
  then show "rb_symbols (index_service package fb svc b) = point_to fb (service_symbols package svc) (rb_symbols b)"
    by (auto simp: index_service_def service_symbols_def Let_def intro!: point_to_set split: option.split)
qed (auto simp: index_service_def named_def Let_def split: option.split)

lemma index_services_names:
  "rb_symbols (fold (index_service package fb) svcs b) = point_to fb (concat (map (service_symbols package) svcs)) (rb_symbols b)"
  "rb_service_names (fold (index_service package fb) svcs b) = rb_service_names b @ named package (map sd_name svcs)"
  "rb_files (fold (index_service package fb) svcs b) = rb_files b"
proof (induction svcs arbitrary: b)
  case (Cons svc svcs)
  {
    case 1
    show ?case using Cons(1) by (auto simp: index_service_names intro!: point_to_set)
  next
    case 2
    show ?case using Cons(2) by (simp add: index_service_names named_def)
  next
    case 3
    show ?case using Cons(3) by (simp add: index_service_names)
  }
qed (simp_all add: named_def)

lemma index_file_names:
  "rb_symbols (index_file f fb b) = point_to fb (file_symbols f) (rb_symbols b)"
  "rb_service_names (index_file f fb b) = rb_service_names b @ file_services f"
  "rb_files (index_file f fb b) = (case fd_name f of Some n \<Rightarrow> (rb_files b)(n \<mapsto> fb) | None \<Rightarrow> rb_files b)"
  by (auto simp: index_file_def index_services_names index_message_types_names index_enums_names file_symbols_def
      file_package_def file_services_def Let_def simp del: point_to_simps(2) intro!: point_to_set split: option.split)

lemma register_files_names:
  "register_files X encode fds b = Inr b' \<Longrightarrow>
   rb_symbols b' symbol = (case filter (\<lambda>f. symbol \<in> set (file_symbols f)) (rev fds) of
      [] \<Rightarrow> rb_symbols b symbol | f # _ \<Rightarrow> (case encode f of Inr fb \<Rightarrow> Some fb | Inl _ \<Rightarrow> None)) \<and>
   rb_service_names b' = rb_service_names b @ concat (map file_services fds) \<and>
   list_all (\<lambda>f. \<exists>fb. encode f = Inr fb) fds"
proof (induction fds arbitrary: b)
  case (Cons f fds)
  obtain fb where fb: "encode f = Inr fb" "register_files X encode fds (index_file f fb b) = Inr b'"
    using Cons.prems by (auto split: sum.splits)
  show ?case
    using Cons.IH [OF fb(2)] fb(1) by (auto simp: index_file_names point_to_def split: list.splits)
qed simp

lemma answer_loop_collect:
  "collect X D n s = (ms, Some e) \<Longrightarrow> answer_loop X D state s = Some (map (handle_reflection_request state) ms)"
proof (induction n arbitrary: s ms)
  case (Suc n)
  obtain s1 r where m: "message X D s = (s1, r)" by fastforce
  show ?case
  proof (cases "\<exists>q. r = Inr (Some q)")
    case True
    then obtain q ms1 where "r = Inr (Some q)" "collect X D n s1 = (ms1, Some e)" "ms = q # ms1"
      using Suc.prems m by (auto split: prod.splits)
    then show ?thesis using Suc.IH m by (simp add: answer_loop.simps [of X D state s])
  next
    case False
    then show ?thesis using Suc.prems m by (auto simp: answer_loop.simps [of X D state s] split: sum.splits option.splits)
  qed
qed simp

subsection \<open>Properties\<close>

text \<open>
  C33: Reflection knows exactly what was registered: for every name a file declares (its services
  and methods, its messages and enums at every depth of nesting) the answer is that file, the last
  one where several declare it; any other name is not found; and the list of services is those of
  the files and the reflection service itself.
\<close>

theorem reflection_answers_declarations:
  assumes "register_encoded_file_descriptor_set X decode encode encoded reflection_builder = Inr b" "decode encoded = Inr fds"
  shows "rf_message_response (handle_reflection_request (reflection_build b) \<lparr>rr_host = h, rr_message_request = Some (FileContainingSymbol symbol)\<rparr>)
      = Some (case filter (\<lambda>f. symbol \<in> set (file_symbols f)) (rev fds) of
          f # _ \<Rightarrow> (case encode f of Inr fb \<Rightarrow> FileDescriptorResponse [fb] | Inl _ \<Rightarrow> ErrorResponse 5 (''symbol not found: '' @ symbol))
        | [] \<Rightarrow> ErrorResponse 5 (''symbol not found: '' @ symbol)) \<and>
    list_all (\<lambda>f. \<exists>fb. encode f = Inr fb) fds \<and>
    (\<exists>ns. rf_message_response (handle_reflection_request (reflection_build b) \<lparr>rr_host = h, rr_message_request = Some (ListServices q)\<rparr>)
      = Some (ListServicesResponse ns) \<and>
     set ns = set (concat (map file_services fds)) \<union> {REFLECTION_NAME})"
proof -
  have r: "register_files X encode fds reflection_builder = Inr b"
    using assms by (simp add: register_encoded_file_descriptor_set_def)
  have b: "rb_symbols (reflection_build b) = rb_symbols b"
    "set (rb_service_names (reflection_build b)) = set (rb_service_names b) \<union> {REFLECTION_NAME}"
    by (auto simp: reflection_build_def)
  show ?thesis
    using register_files_names [OF r, of symbol] b
    by (auto simp: handle_reflection_request_def reflection_builder_def list_all_iff split: list.splits sum.splits)
qed

theorem reflection_answers_declarations_witness:
  "\<exists>b. register_encoded_file_descriptor_set ref_ext (\<lambda>_. Inr [\<lparr>fd_name = Some ''a.proto'', fd_package = Some ''p'',
        fd_services = [\<lparr>sd_name = Some ''S'', sd_methods = [Some ''M'']\<rparr>],
        fd_messages = [MessageType (Some ''T'') [MessageType (Some ''U'') [] []] []], fd_enums = [], fd_rest = ()\<rparr>])
      (\<lambda>f. Inr [7]) [] reflection_builder = Inr b \<and>
    rf_message_response (handle_reflection_request (reflection_build b)
      \<lparr>rr_host = [], rr_message_request = Some (FileContainingSymbol ''p.T.U'')\<rparr>) = Some (FileDescriptorResponse [[7]])"
proof -
  let ?fds = "[\<lparr>fd_name = Some ''a.proto'', fd_package = Some ''p'',
        fd_services = [\<lparr>sd_name = Some ''S'', sd_methods = [Some ''M'']\<rparr>],
        fd_messages = [MessageType (Some ''T'') [MessageType (Some ''U'') [] []] []], fd_enums = [], fd_rest = ()\<rparr>]"
  obtain b where b: "register_encoded_file_descriptor_set ref_ext (\<lambda>_. Inr ?fds) (\<lambda>f. Inr [7]) [] reflection_builder = Inr b"
    by (simp add: register_encoded_file_descriptor_set_def)
  have "''p.T.U'' \<in> set (file_symbols (hd ?fds))"
    by (simp add: file_symbols_def file_package_def make_fqn_def Let_def)
  with reflection_answers_declarations [OF b refl, of "[]" "''p.T.U''"] b show ?thesis by (auto split: list.splits)
qed

text \<open>
  A stream of reflection requests is answered in order, one answer per message, until it ends;
  but a stream that fails (a message that does not decode, a broken body) ends the same way: the
  answers so far are sent and the response carries no error.
\<close>

theorem reflection_stream_ends_ok:
  assumes "collect X (sg_decoder (rq_message request)) n (sg_inner (rq_message request)) = (reqs, Some outcome)"
  shows "reflection_info X state request
    = Inr (response_new X (map (\<lambda>q. SrcItem (handle_reflection_request state q)) reqs))"
  using answer_loop_collect [OF assms, of state] by (simp add: reflection_info_def Let_def comp_def)

theorem reflection_stream_ends_ok_witness:
  "reflection_info ref_ext reflection_builder
     (request_new ref_ext (streaming_new ref_ext
        \<lparr>dc_decode = (\<lambda>d. (d, Inr None)), dc_settings = buffer_settings_default\<rparr> [BErr (EOther ''broken'' None)] DirRequest None None))
   = Inr (response_new ref_ext [])"
proof -
  let ?D = "\<lparr>dc_decode = (\<lambda>d. (d, Inr None)), dc_settings = buffer_settings_default\<rparr> :: (alist, reflection_request) decoder"
  let ?r = "request_new ref_ext (streaming_new ref_ext ?D [BErr (EOther ''broken'' None)] DirRequest None None)"
  let ?s = "sg_inner (rq_message ?r)"
  let ?e = "map_error ref_ext (EOther ''broken'' None)"
  have "snd (message ref_ext ?D ?s) = Inl ?e"
    by (rule message_end(3)) (simp_all add: request_new_def streaming_new_def map_err_body_def map_error_def from_error_def
        set_source_def status_new_def with_details_and_metadata_def)
  then have "collect ref_ext (sg_decoder (rq_message ?r)) (Suc 0) ?s = ([], Some (Inl ?e))"
    unfolding collect_end by (simp add: request_new_def streaming_new_def)
  from reflection_stream_ends_ok [OF this, of reflection_builder] show ?thesis by simp
qed

end
