(* ===== verification/Codegen.thy ===== *)
theory Codegen
  imports Prelude "HOL-Library.Monad_Syntax" "HOL-Library.Sublist"
begin

section \<open>The generator of server and client stubs\<close>

text \<open>
  \<^verbatim>\<open>grpc-codegen/src/ir.rs\<close>, \<^verbatim>\<open>client_gen.rs\<close>,
  \<^verbatim>\<open>server_gen.rs\<close> and \<^verbatim>\<open>protobuf.rs\<close>: from the definition of a
  service to the Rust code of its server trait, its dispatcher and its client.

  A \<^verbatim>\<open>TokenStream\<close> is a list of token trees, as in proc-macro2 (the spacing of
  punctuation is left out). What \<^verbatim>\<open>quote!\<close> writes between its interpolations is
  \<open>rust\<close> of the template's text. The service definition and its methods belong to the
  crate codegen-schema, the change of case to heck, and the checks of identifiers and type
  paths to proc-macro2: they are the parameter \<open>C\<close>. A panic of the generator is
  \<open>None\<close>.
\<close>

subsection \<open>Token trees\<close>

datatype delimiter = Paren | Brace | Bracket

datatype token = Ident string | Punct char | Lit string | Group delimiter "token list"

abbreviation paren :: "token list \<Rightarrow> token list" where "paren ts \<equiv> [Group Paren ts]"
abbreviation brace :: "token list \<Rightarrow> token list" where "brace ts \<equiv> [Group Brace ts]"

definition is_word_char :: "char \<Rightarrow> bool" where
  "is_word_char c =
     (let n = of_char c :: nat in 48 \<le> n \<and> n \<le> 57 \<or> 65 \<le> n \<and> n \<le> 90 \<or> n = 95 \<or> 97 \<le> n \<and> n \<le> 122)"

text \<open>
  \<open>lex s w ts st\<close> reads the text \<open>s\<close>: \<open>w\<close> holds the characters of the word being read,
  \<open>ts\<close> the tokens of the open group, \<open>st\<close> the groups around it, each in reverse.
\<close>

definition end_word :: "string \<Rightarrow> token list \<Rightarrow> token list" where
  "end_word w ts = (if w = [] then ts else Ident (rev w) # ts)"

fun close_group :: "token list \<Rightarrow> (delimiter \<times> token list) list \<Rightarrow> token list \<times> (delimiter \<times> token list) list" where
  "close_group ts [] = (ts, [])"
| "close_group ts ((d, up) # st) = (Group d (rev ts) # up, st)"

definition open_delimiter :: "char \<Rightarrow> delimiter option" where
  "open_delimiter c =
     (if c = CHR ''('' then Some Paren else if c = CHR ''{'' then Some Brace
      else if c = CHR ''['' then Some Bracket else None)"

primrec lex :: "string \<Rightarrow> string \<Rightarrow> token list \<Rightarrow> (delimiter \<times> token list) list \<Rightarrow> token list" where
  "lex [] w ts st = rev (end_word w ts)"
| "lex (c # cs) w ts st =
     (if is_word_char c then lex cs (c # w) ts st
      else if c = CHR '' '' \<or> c = CHR 0x0A then lex cs [] (end_word w ts) st
      else case open_delimiter c of
        Some d \<Rightarrow> lex cs [] [] ((d, end_word w ts) # st)
      | None \<Rightarrow>
          if c = CHR '')'' \<or> c = CHR ''}'' \<or> c = CHR '']''
          then lex cs [] (fst (close_group (end_word w ts) st)) (snd (close_group (end_word w ts) st))
          else lex cs [] (Punct c # end_word w ts) st)"

definition rust :: "string \<Rightarrow> token list" where
  "rust s = lex s [] [] []"

text \<open>A piece of code somewhere in a token stream, in whatever group.\<close>

inductive inside :: "token list \<Rightarrow> token list \<Rightarrow> bool" where
  inside_here: "inside ts (pre @ ts @ post)"
| inside_group: "inside ts us \<Longrightarrow> inside ts (pre @ Group d us # post)"

text \<open>How Rust reads the arms of a \<^verbatim>\<open>match\<close> on a string: the first arm whose literal
  is the string, or \<^verbatim>\<open>_\<close>.\<close>

fun split_commas :: "token list \<Rightarrow> token list list" where
  "split_commas [] = [[]]"
| "split_commas (t # ts) =
     (if t = Punct CHR '','' then [] # split_commas ts
      else (case split_commas ts of [] \<Rightarrow> [[t]] | a # as \<Rightarrow> (t # a) # as))"

fun arm_body :: "string \<Rightarrow> token list \<Rightarrow> token list option" where
  "arm_body p (pat # eq # gt # body) =
     (if eq = Punct CHR ''='' \<and> gt = Punct CHR ''>'' \<and> (pat = Lit p \<or> pat = Ident ''_'') then Some body else None)"
| "arm_body p _ = None"

fun first_arm :: "string \<Rightarrow> token list list \<Rightarrow> token list option" where
  "first_arm p [] = None"
| "first_arm p (a # as) = (case arm_body p a of Some b \<Rightarrow> Some b | None \<Rightarrow> first_arm p as)"

definition match_arm :: "string \<Rightarrow> token list \<Rightarrow> token list option" where
  "match_arm p arms = first_arm p (split_commas arms)"

subsection \<open>Service definitions\<close>

datatype streaming_type = StreamNone | StreamServer | StreamClient | StreamBiDi

record method_def =
  md_name :: string
  md_rust_name :: "string option"
  md_input_type :: string
  md_output_type :: string
  md_streaming :: streaming_type
  md_codec_path :: string
  md_comments :: "string list"

record service_def =
  sd_name :: string
  sd_package :: "string option"
  sd_methods :: "method_def list"
  sd_comments :: "string list"

record codegen_ext =
  ce_validate :: "service_def \<Rightarrow> string list"
  ce_fqn :: "service_def \<Rightarrow> string"
  ce_grpc_path :: "method_def \<Rightarrow> string \<Rightarrow> string"
  ce_rust_name :: "method_def \<Rightarrow> string"
  ce_streaming_from :: "bool \<times> bool \<Rightarrow> streaming_type"
  ce_streaming_mode :: "method_def \<Rightarrow> string"
  ce_snake_case :: "string \<Rightarrow> string"
  ce_upper_camel_case :: "string \<Rightarrow> string"
  ce_is_ident :: "string \<Rightarrow> bool"
  ce_parse :: "string \<Rightarrow> token list option"

text \<open>What the tests of \<^verbatim>\<open>ir.rs\<close> show of codegen-schema.\<close>

definition codegen_laws :: "codegen_ext \<Rightarrow> bool" where
  "codegen_laws C \<longleftrightarrow>
     (\<forall>m fqn. ce_grpc_path C m fqn = ''/'' @ fqn @ ''/'' @ md_name m) \<and>
     (\<forall>s. sd_package s \<noteq> Some [] \<longrightarrow>
        ce_fqn C s = (case sd_package s of Some p \<Rightarrow> p @ ''.'' @ sd_name s | None \<Rightarrow> sd_name s)) \<and>
     (\<forall>c s. ce_streaming_from C (c, s)
        = (if c then if s then StreamBiDi else StreamClient else if s then StreamServer else StreamNone))"

definition format_ident :: "codegen_ext \<Rightarrow> string \<Rightarrow> token option" where
  "format_ident C s = (if ce_is_ident C s then Some (Ident s) else None)"

definition comments_to_doc_tokens :: "string list \<Rightarrow> token list" where
  "comments_to_doc_tokens comments =
     concat (map (\<lambda>c. Punct CHR ''#'' # [Group Bracket (rust ''doc ='' @ [Lit ('' '' @ c)])]) comments)"

subsection \<open>The client\<close>

definition gen_connect_method :: "token \<Rightarrow> token list" where
  "gen_connect_method client_name =
     rust ''impl'' @ [client_name] @ rust ''<grpc_client::Channel>'' @
     brace (
       rust ''pub async fn connect(uri: http::Uri,) -> Result<Self, Box<dyn std::error::Error + Send + Sync>>
        {
          let channel = grpc_client::Channel::connect(uri.clone()).await?;
          Ok(Self { inner: Grpc::with_origin(channel, uri), })
        }'')"

definition ready_check :: "token list" where
  "ready_check =
     rust ''self.inner.ready().await.map_err'' @
     paren (rust ''|e| Status::unknown'' @
       paren (rust ''format!'' @ paren ([Lit ''Service was not ready: {}''] @ rust '', e.into()''))) @
     rust ''?;''"

definition let_codec :: "token list \<Rightarrow> token list \<Rightarrow> token list \<Rightarrow> token list" where
  "let_codec codec_path input output =
     rust ''let codec ='' @ codec_path @ rust ''::<'' @ input @ rust '','' @ output @ rust ''>::default();''"

definition let_path :: "string \<Rightarrow> token list" where
  "let_path path = rust ''let path = PathAndQuery::from_static'' @ paren [Lit path] @ rust '';''"

definition gen_rpc_method :: "codegen_ext \<Rightarrow> string \<Rightarrow> method_def \<Rightarrow> token list option" where
  "gen_rpc_method C service_fqn method = do {
     let method_docs = comments_to_doc_tokens (md_comments method);
     name \<leftarrow> format_ident C (ce_rust_name C method);
     let path = ce_grpc_path C method service_fqn;
     let proto_name = md_name method;
     codec_path \<leftarrow> ce_parse C (md_codec_path method);
     input \<leftarrow> ce_parse C (md_input_type method);
     output \<leftarrow> ce_parse C (md_output_type method);
     let prepare = ready_check @ let_codec codec_path input output @ let_path path;
     let extension =
       rust ''req.extensions_mut().insert'' @
       paren (rust ''GrpcMethod::new'' @ paren ([Lit service_fqn] @ rust '','' @ [Lit proto_name])) @ rust '';'';
     Some (case md_streaming method of
       StreamNone \<Rightarrow>
         method_docs @ rust ''pub async fn'' @ [name] @
         paren (rust ''&mut self, request: impl IntoRequest<'' @ input @ rust ''>,'') @
         rust ''-> Result<Response<'' @ output @ rust ''>, Status>'' @
         brace (prepare @ rust ''let mut req = request.into_request();'' @ extension @
           rust ''self.inner.unary(req, path, codec).await'')
     | StreamServer \<Rightarrow>
         method_docs @ rust ''pub async fn'' @ [name] @
         paren (rust ''&mut self, request: impl IntoRequest<'' @ input @ rust ''>,'') @
         rust ''-> Result<Response<Streaming<'' @ output @ rust ''>>, Status>'' @
         brace (prepare @ rust ''let mut req = request.into_request();'' @ extension @
           rust ''self.inner.server_streaming(req, path, codec).await'')
     | StreamClient \<Rightarrow>
         method_docs @ rust ''pub async fn'' @ [name] @
         paren (rust ''&mut self, request: impl IntoStreamingRequest<Message ='' @ input @ rust ''>,'') @
         rust ''-> Result<Response<'' @ output @ rust ''>, Status>'' @
         brace (prepare @ rust ''let mut req = request.into_streaming_request();'' @ extension @
           rust ''self.inner.client_streaming(req, path, codec).await'')
     | StreamBiDi \<Rightarrow>
         method_docs @ rust ''pub async fn'' @ [name] @
         paren (rust ''&mut self, request: impl IntoStreamingRequest<Message ='' @ input @ rust ''>,'') @
         rust ''-> Result<Response<Streaming<'' @ output @ rust ''>>, Status>'' @
         brace (prepare @ rust ''let mut req = request.into_streaming_request();'' @ extension @
           rust ''self.inner.streaming(req, path, codec).await''))
   }"

definition has_streaming :: "streaming_type set \<Rightarrow> service_def \<Rightarrow> bool" where
  "has_streaming kinds service = list_ex (\<lambda>m. md_streaming m \<in> kinds) (sd_methods service)"

definition client_generate :: "codegen_ext \<Rightarrow> service_def \<Rightarrow> token list option" where
  "client_generate C service = (if ce_validate C service \<noteq> [] then None else do {
     client_name \<leftarrow> format_ident C (sd_name service @ ''Client'');
     mod_name \<leftarrow> format_ident C (ce_snake_case C (sd_name service) @ ''_client'');
     let fqn = ce_fqn C service;
     let service_docs = comments_to_doc_tokens (sd_comments service);
     let connect_method = gen_connect_method client_name;
     rpc_methods \<leftarrow> those (map (gen_rpc_method C fqn) (sd_methods service));
     let streaming_response_import =
       (if has_streaming {StreamServer, StreamBiDi} service then rust ''use grpc_core::codec::Streaming;'' else []);
     let streaming_request_import =
       (if has_streaming {StreamClient, StreamBiDi} service
        then rust ''use grpc_core::request::IntoStreamingRequest;'' else []);
     Some (rust ''#[allow(unused_imports)] pub mod'' @ [mod_name] @
       brace (
         rust ''use grpc_client::{Grpc, GrpcService}; use grpc_core::body::Body;'' @
         streaming_response_import @
         rust ''use grpc_core::extensions::GrpcMethod; use grpc_core::request::IntoRequest;'' @
         streaming_request_import @
         rust ''use grpc_core::{Response, Status}; use http::uri::PathAndQuery; use http_body::Body as HttpBody;'' @
         service_docs @
         rust ''#[derive(Debug, Clone)] pub struct'' @ [client_name] @ rust ''<T> { inner: Grpc<T>, }'' @
         connect_method @
         rust ''impl<T>'' @ [client_name] @
         rust ''<T> {
             pub fn new(inner: T) -> Self { let inner = Grpc::new(inner); Self { inner } }
             pub fn with_origin(inner: T, origin: http::Uri) -> Self {
               let inner = Grpc::with_origin(inner, origin); Self { inner } } }'' @
         rust ''impl<T>'' @ [client_name] @
         rust ''<T> where T: GrpcService<Body>, T::Error: Into<grpc_core::BoxError>,
             T::ResponseBody: HttpBody<Data = bytes::Bytes> + Send + 'static,
             <T::ResponseBody as HttpBody>::Error: Into<grpc_core::BoxError>,'' @
         brace (concat rpc_methods)))
   })"

subsection \<open>The server\<close>

definition strip_suffix :: "string \<Rightarrow> string \<Rightarrow> string option" where
  "strip_suffix suf s = map_option rev (strip_prefix (rev suf) (rev s))"

definition response_stream_ident :: "codegen_ext \<Rightarrow> string \<Rightarrow> token option" where
  "response_stream_ident C proto_name =
     format_ident C ((case strip_suffix ''Stream'' proto_name of Some base \<Rightarrow> base | None \<Rightarrow> proto_name) @ ''ResponseStream'')"

definition gen_trait_method :: "codegen_ext \<Rightarrow> method_def \<Rightarrow> token list option" where
  "gen_trait_method C method = do {
     name \<leftarrow> format_ident C (ce_rust_name C method);
     input \<leftarrow> ce_parse C (md_input_type method);
     output \<leftarrow> ce_parse C (md_output_type method);
     case md_streaming method of
       StreamNone \<Rightarrow>
         Some (rust ''fn'' @ [name] @ paren (rust ''&self, request: Request<'' @ input @ rust ''>'') @
           rust ''-> BoxFuture<Result<Response<'' @ output @ rust ''>, Status>>;'')
     | StreamServer \<Rightarrow> do {
         stream_type \<leftarrow> response_stream_ident C (md_name method);
         Some (rust ''fn'' @ [name] @ paren (rust ''&self, request: Request<'' @ input @ rust ''>'') @
           rust ''-> BoxFuture<Result<Response<Self::'' @ [stream_type] @ rust ''>, Status>>;'') }
     | StreamClient \<Rightarrow>
         Some (rust ''fn'' @ [name] @ paren (rust ''&self, request: Request<Streaming<'' @ input @ rust ''>>'') @
           rust ''-> BoxFuture<Result<Response<'' @ output @ rust ''>, Status>>;'')
     | StreamBiDi \<Rightarrow> do {
         stream_type \<leftarrow> response_stream_ident C (md_name method);
         Some (rust ''fn'' @ [name] @ paren (rust ''&self, request: Request<Streaming<'' @ input @ rust ''>>'') @
           rust ''-> BoxFuture<Result<Response<Self::'' @ [stream_type] @ rust ''>, Status>>;'') }
   }"

definition gen_trait_assoc_type :: "codegen_ext \<Rightarrow> method_def \<Rightarrow> token list option" where
  "gen_trait_assoc_type C method = do {
     stream_type \<leftarrow> response_stream_ident C (md_name method);
     output \<leftarrow> ce_parse C (md_output_type method);
     Some (rust ''type'' @ [stream_type] @ rust '': Stream<Item = Result<'' @ output @
       rust '', Status>> + Send + 'static;'')
   }"

definition gen_svc_struct :: "codegen_ext \<Rightarrow> token \<Rightarrow> method_def \<Rightarrow> token list option" where
  "gen_svc_struct C service_name method = do {
     svc_name \<leftarrow> format_ident C (ce_upper_camel_case C (ce_rust_name C method) @ ''Svc'');
     method_name \<leftarrow> format_ident C (ce_rust_name C method);
     input \<leftarrow> ce_parse C (md_input_type method);
     output \<leftarrow> ce_parse C (md_output_type method);
     let struct_head = rust ''struct'' @ [svc_name] @ rust ''<T:'' @ [service_name] @ rust ''>(Arc<T>);'' @
       rust ''impl<T:'' @ [service_name] @ rust ''>'';
     let forward = brace (
       rust ''let inner = Arc::clone(&self.0);'' @
       rust ''Box::pin'' @ paren (rust ''async move'' @ brace (rust ''inner.'' @ [method_name] @ rust ''(request).await'')));
     case md_streaming method of
       StreamNone \<Rightarrow>
         Some (struct_head @ rust ''grpc_server::UnaryService<'' @ input @ rust ''> for'' @ [svc_name] @ rust ''<T>'' @
           brace (rust ''type Response ='' @ output @ rust '';'' @
             rust ''type Future = BoxFuture<Result<Response<'' @ output @ rust ''>, Status>>;'' @
             rust ''fn call'' @ paren (rust ''&mut self, request: Request<'' @ input @ rust ''>'') @
             rust ''-> Self::Future'' @ forward))
     | StreamServer \<Rightarrow> do {
         stream_type \<leftarrow> response_stream_ident C (md_name method);
         Some (struct_head @ rust ''grpc_server::ServerStreamingService<'' @ input @ rust ''> for'' @ [svc_name] @ rust ''<T>'' @
           brace (rust ''type Response ='' @ output @ rust '';'' @
             rust ''type ResponseStream = T::'' @ [stream_type] @ rust '';'' @
             rust ''type Future = BoxFuture<Result<Response<Self::ResponseStream>, Status>>;'' @
             rust ''fn call'' @ paren (rust ''&mut self, request: Request<'' @ input @ rust ''>'') @
             rust ''-> Self::Future'' @ forward)) }
     | StreamClient \<Rightarrow>
         Some (struct_head @ rust ''grpc_server::ClientStreamingService<'' @ input @ rust ''> for'' @ [svc_name] @ rust ''<T>'' @
           brace (rust ''type Response ='' @ output @ rust '';'' @
             rust ''type Future = BoxFuture<Result<Response<'' @ output @ rust ''>, Status>>;'' @
             rust ''fn call'' @ paren (rust ''&mut self, request: Request<Streaming<'' @ input @ rust ''>>'') @
             rust ''-> Self::Future'' @ forward))
     | StreamBiDi \<Rightarrow> do {
         stream_type \<leftarrow> response_stream_ident C (md_name method);
         Some (struct_head @ rust ''grpc_server::StreamingService<'' @ input @ rust ''> for'' @ [svc_name] @ rust ''<T>'' @
           brace (rust ''type Response ='' @ output @ rust '';'' @
             rust ''type ResponseStream = T::'' @ [stream_type] @ rust '';'' @
             rust ''type Future = BoxFuture<Result<Response<Self::ResponseStream>, Status>>;'' @
             rust ''fn call'' @ paren (rust ''&mut self, request: Request<Streaming<'' @ input @ rust ''>>'') @
             rust ''-> Self::Future'' @ forward)) }
   }"

definition gen_dispatch_arm :: "codegen_ext \<Rightarrow> string \<Rightarrow> method_def \<Rightarrow> token list option" where
  "gen_dispatch_arm C service_fqn method = do {
     let path = ce_grpc_path C method service_fqn;
     svc_name \<leftarrow> format_ident C (ce_upper_camel_case C (ce_rust_name C method) @ ''Svc'');
     codec_path \<leftarrow> ce_parse C (md_codec_path method);
     input \<leftarrow> ce_parse C (md_input_type method);
     output \<leftarrow> ce_parse C (md_output_type method);
     let grpc_method = (case md_streaming method of
         StreamNone \<Rightarrow> rust ''grpc.unary'' @ paren ([svc_name] @ rust ''(inner), req'') @ rust ''.await''
       | StreamServer \<Rightarrow> rust ''grpc.server_streaming'' @ paren ([svc_name] @ rust ''(inner), req'') @ rust ''.await''
       | StreamClient \<Rightarrow> rust ''grpc.client_streaming'' @ paren ([svc_name] @ rust ''(inner), req'') @ rust ''.await''
       | StreamBiDi \<Rightarrow> rust ''grpc.streaming'' @ paren ([svc_name] @ rust ''(inner), req'') @ rust ''.await'');
     Some ([Lit path] @ rust ''=> Box::pin'' @
       paren (rust ''async move'' @ brace (
         rust ''let mut grpc = grpc_server::Grpc::new'' @
         paren (codec_path @ rust ''::<'' @ output @ rust '','' @ input @ rust ''>::default()'') @ rust '';'' @
         rust ''Ok'' @ paren grpc_method)) @
       rust '','')
   }"

definition fallback_body :: "token list" where
  "fallback_body =
     rust ''Box::pin'' @ paren (rust ''async'' @ brace (
       rust ''let status = Status::unimplemented'' @ paren [Lit ''method not found''] @ rust '';'' @
       rust ''Ok(status.into_http())''))"

definition server_generate :: "codegen_ext \<Rightarrow> service_def \<Rightarrow> token list option" where
  "server_generate C service = (if ce_validate C service \<noteq> [] then None else do {
     service_name \<leftarrow> format_ident C (sd_name service);
     server_name \<leftarrow> format_ident C (sd_name service @ ''Server'');
     mod_name \<leftarrow> format_ident C (ce_snake_case C (sd_name service) @ ''_server'');
     let fqn = ce_fqn C service;
     let service_docs = comments_to_doc_tokens (sd_comments service);
     trait_methods \<leftarrow> those (map (gen_trait_method C) (sd_methods service));
     trait_assoc_types \<leftarrow> those (map (gen_trait_assoc_type C)
       (filter (\<lambda>m. md_streaming m \<in> {StreamServer, StreamBiDi}) (sd_methods service)));
     svc_structs \<leftarrow> those (map (gen_svc_struct C service_name) (sd_methods service));
     dispatch_arms \<leftarrow> those (map (gen_dispatch_arm C fqn) (sd_methods service));
     let streaming_imports =
       (if list_ex (\<lambda>m. md_streaming m \<noteq> StreamNone) (sd_methods service)
        then rust ''use tokio_stream::Stream; use grpc_core::Streaming;'' else []);
     Some (rust ''#[allow(unused_imports)] pub mod'' @ [mod_name] @
       brace (
         rust ''use std::convert::Infallible; use std::future::Future; use std::pin::Pin; use std::sync::Arc;
           use std::task::{Context, Poll};'' @
         streaming_imports @
         rust ''use grpc_core::body::Body; use grpc_core::{Request, Response, Status};
           type BoxFuture<T> = Pin<Box<dyn Future<Output = T> + Send + 'static>>;'' @
         service_docs @
         rust ''pub trait'' @ [service_name] @ rust '': Send + Sync + 'static'' @
         brace (concat trait_assoc_types @ concat trait_methods) @
         rust ''pub struct'' @ [server_name] @ rust ''<T> { inner: Arc<T>, }'' @
         rust ''impl<T> Clone for'' @ [server_name] @
         rust ''<T> { fn clone(&self) -> Self { Self { inner: Arc::clone(&self.inner) } } }'' @
         rust ''impl<T:'' @ [service_name] @ rust ''>'' @ [server_name] @
         rust ''<T> { pub fn new(inner: T) -> Self { Self { inner: Arc::new(inner) } } }'' @
         rust ''impl<T:'' @ [service_name] @ rust ''> grpc_server::NamedService for'' @ [server_name] @ rust ''<T>'' @
         brace (rust ''const NAME: &'static str ='' @ [Lit fqn] @ rust '';'') @
         concat svc_structs @
         rust ''impl<T, B> tower_service::Service<http::Request<B>> for'' @ [server_name] @
         rust ''<T> where T:'' @ [service_name] @
         rust '', B: grpc_core::http_body::Body<Data = grpc_core::bytes::Bytes> + Send + 'static,
           B::Error: Into<grpc_core::BoxError>,'' @
         brace (
           rust ''type Response = http::Response<Body>; type Error = Infallible;
             type Future = BoxFuture<Result<http::Response<Body>, Infallible>>;
             fn poll_ready(&mut self, _cx: &mut Context<'_>) -> Poll<Result<(), Infallible>> { Poll::Ready(Ok(())) }
             fn call(&mut self, req: http::Request<B>) -> Self::Future'' @
           brace (
             rust ''let (parts, body) = req.into_parts();
               let req = http::Request::from_parts(parts, Body::new(body));
               let inner = self.inner.clone();'' @
             rust ''match req.uri().path()'' @
             brace (concat dispatch_arms @ rust ''_ =>'' @ fallback_body @ rust '','')))))
   })"

subsection \<open>From protobuf descriptors\<close>

record method_descriptor_proto =
  mp_name :: "string option"
  mp_input_type :: "string option"
  mp_output_type :: "string option"
  mp_client_streaming :: "bool option"
  mp_server_streaming :: "bool option"

record service_descriptor_proto =
  sp_name :: "string option"
  sp_method :: "method_descriptor_proto list"

definition DEFAULT_CODEC_PATH :: string where
  "DEFAULT_CODEC_PATH = ''grpc_core::codec::prost_codec::ProstCodec''"

text \<open>\<^verbatim>\<open>as_deref().filter(|s| !s.is_empty()).ok_or(e)\<close>.\<close>

definition required :: "string \<Rightarrow> string option \<Rightarrow> string + string" where
  "required e f = (case f of Some s \<Rightarrow> if s = [] then Inl e else Inr s | None \<Rightarrow> Inl e)"

definition resolve_type :: "string \<Rightarrow> string \<Rightarrow> string" where
  "resolve_type proto_type proto_path =
     (let cleaned = (case strip_prefix ''.'' proto_type of Some s \<Rightarrow> s | None \<Rightarrow> proto_type);
          type_name = last (str_split CHR ''.'' cleaned)
      in proto_path @ ''::'' @ type_name)"

definition method_from_proto :: "codegen_ext \<Rightarrow> string \<Rightarrow> method_descriptor_proto \<Rightarrow> string + method_def" where
  "method_from_proto C proto_path proto =
     (case required ''method descriptor is missing a name'' (mp_name proto) of Inl e \<Rightarrow> Inl e
      | Inr proto_name \<Rightarrow>
      (case required (''method `'' @ proto_name @ ''` is missing an input_type'') (mp_input_type proto) of Inl e \<Rightarrow> Inl e
       | Inr input \<Rightarrow>
       (case required (''method `'' @ proto_name @ ''` is missing an output_type'') (mp_output_type proto) of Inl e \<Rightarrow> Inl e
        | Inr output \<Rightarrow>
          let client_streaming = (case mp_client_streaming proto of Some b \<Rightarrow> b | None \<Rightarrow> False);
              server_streaming = (case mp_server_streaming proto of Some b \<Rightarrow> b | None \<Rightarrow> False)
          in Inr \<lparr>md_name = proto_name, md_rust_name = None,
               md_input_type = resolve_type input proto_path, md_output_type = resolve_type output proto_path,
               md_streaming = ce_streaming_from C (client_streaming, server_streaming),
               md_codec_path = DEFAULT_CODEC_PATH, md_comments = []\<rparr>)))"

text \<open>\<^verbatim>\<open>collect::<Result<Vec<_>, _>>()\<close>: the first error, or all values.\<close>

fun collect_results :: "('e + 'a) list \<Rightarrow> 'e + 'a list" where
  "collect_results [] = Inr []"
| "collect_results (Inl e # rs) = Inl e"
| "collect_results (Inr a # rs) = map_sum id ((#) a) (collect_results rs)"

definition service_from_proto :: "codegen_ext \<Rightarrow> service_descriptor_proto \<Rightarrow> string \<Rightarrow> string \<Rightarrow> string + service_def" where
  "service_from_proto C proto package proto_path =
     (case required ''service descriptor is missing a name'' (sp_name proto) of Inl e \<Rightarrow> Inl e
      | Inr name \<Rightarrow>
      (case collect_results (map (method_from_proto C proto_path) (sp_method proto)) of Inl e \<Rightarrow> Inl e
       | Inr methods \<Rightarrow> Inr \<lparr>sd_name = name, sd_package = Some package, sd_methods = methods, sd_comments = []\<rparr>))"

subsection \<open>Lemmas\<close>

named_theorems tokens \<open>the tokens of short templates\<close>

lemmas rust_eval = rust_def end_word_def is_word_char_def open_delimiter_def Let_def

lemma rust_short [tokens]:
  "rust '','' = [Punct CHR '','']" "rust ''.await'' = [Punct CHR ''.'', Ident ''await'']"
  "rust ''=> Box::pin'' = [Punct CHR ''='', Punct CHR ''>'', Ident ''Box'', Punct CHR '':'', Punct CHR '':'', Ident ''pin'']"
  "rust ''Box::pin'' = [Ident ''Box'', Punct CHR '':'', Punct CHR '':'', Ident ''pin'']"
  "rust ''_ =>'' = [Ident ''_'', Punct CHR ''='', Punct CHR ''>'']"
  by (simp_all add: rust_eval)

lemma rust_calls [tokens]:
  "rust ''grpc.unary'' = rust ''grpc.'' @ [Ident ''unary'']"
  "rust ''grpc.server_streaming'' = rust ''grpc.'' @ [Ident ''server_streaming'']"
  "rust ''grpc.client_streaming'' = rust ''grpc.'' @ [Ident ''client_streaming'']"
  "rust ''grpc.streaming'' = rust ''grpc.'' @ [Ident ''streaming'']"
  by (simp_all add: rust_eval)

definition client_call :: "string \<Rightarrow> token list" where
  "client_call name = rust ''self.inner.'' @ [Ident name] @ rust ''(req, path, codec).await''"

lemma rust_client_calls:
  "rust ''self.inner.unary(req, path, codec).await'' = client_call ''unary''"
  "rust ''self.inner.server_streaming(req, path, codec).await'' = client_call ''server_streaming''"
  "rust ''self.inner.client_streaming(req, path, codec).await'' = client_call ''client_streaming''"
  "rust ''self.inner.streaming(req, path, codec).await'' = client_call ''streaming''"
  by (simp_all add: rust_eval client_call_def)

lemma inside_refl: "inside ts ts"
  using inside_here [of ts "[]" "[]"] by simp

lemma inside_group_only: "inside ts us \<Longrightarrow> inside ts [Group d us]"
  using inside_group [of ts us "[]" d "[]"] by simp

lemma inside_append: "inside ts us \<Longrightarrow> inside ts (a @ us) \<and> inside ts (us @ b)"
proof (induction rule: inside.induct)
  case (inside_here ts pre post)
  show ?case
    using inside.inside_here [of ts "a @ pre" post] inside.inside_here [of ts pre "post @ b"] by simp
next
  case (inside_group ts us pre d post)
  show ?case
    using inside.inside_group [OF inside_group.hyps, of "a @ pre" d post]
      inside.inside_group [OF inside_group.hyps, of pre d "post @ b"] by simp
qed

lemma inside_right: "inside ts us \<Longrightarrow> inside ts (a @ us)"
  and inside_left: "inside ts us \<Longrightarrow> inside ts (us @ b)"
  by (simp_all add: inside_append)

lemma inside_Cons: "inside ts us \<Longrightarrow> inside ts (t # us)"
  using inside_right [of ts us "[t]"] by simp

lemmas inside_search = inside_refl inside_group_only inside_right inside_left inside_Cons

lemma inside_concat: "ts \<in> set tss \<Longrightarrow> inside ts (concat tss)"
  using inside_here by (fastforce dest!: split_list)

lemma inside_trans: "inside us vs \<Longrightarrow> inside ts us \<Longrightarrow> inside ts vs"
proof (induction rule: inside.induct)
  case (inside_here us pre post)
  then show ?case by (blast intro: inside_search)
next
  case (inside_group us vs pre d post)
  then show ?case using inside.inside_group [of ts vs pre d post] by simp
qed

lemma split_commas_arm: "Punct CHR '','' \<notin> set a \<Longrightarrow> split_commas (a @ Punct CHR '','' # ts) = a # split_commas ts"
  by (induction a) auto

lemma match_arm_literal:
  "Punct CHR '','' \<notin> set b \<Longrightarrow>
    match_arm p ((Lit q # Punct CHR ''='' # Punct CHR ''>'' # b) @ Punct CHR '','' # arms) = (if q = p then Some b else match_arm p arms)"
  unfolding match_arm_def by (subst split_commas_arm) simp_all

lemma match_arm_default:
  "Punct CHR '','' \<notin> set b \<Longrightarrow> match_arm p ((Ident ''_'' # Punct CHR ''='' # Punct CHR ''>'' # b) @ [Punct CHR '','']) = Some b"
  using split_commas_arm [of "Ident ''_'' # Punct CHR ''='' # Punct CHR ''>'' # b" "[]"] by (simp add: match_arm_def)

lemma those_list_all2: "those (map f xs) = Some ys \<Longrightarrow> list_all2 (\<lambda>x y. f x = Some y) xs ys"
  by (induction xs arbitrary: ys) (auto split: option.splits)

lemma those_member: "those (map f xs) = Some ys \<Longrightarrow> x \<in> set xs \<Longrightarrow> \<exists>y\<in>set ys. f x = Some y"
  by (induction xs arbitrary: ys) (auto split: option.splits)

definition call_name :: "streaming_type \<Rightarrow> string" where
  "call_name k = (case k of StreamNone \<Rightarrow> ''unary'' | StreamServer \<Rightarrow> ''server_streaming''
     | StreamClient \<Rightarrow> ''client_streaming'' | StreamBiDi \<Rightarrow> ''streaming'')"

text \<open>What an arm of the dispatcher does for a method: its kind of call, on its service, with a
  codec that encodes its output and decodes its input.\<close>

definition arm_serves :: "codegen_ext \<Rightarrow> method_def \<Rightarrow> token list \<Rightarrow> bool" where
  "arm_serves C m arm \<longleftrightarrow>
     inside (rust ''grpc.'' @ [Ident (call_name (md_streaming m))] @
       paren (Ident (ce_upper_camel_case C (ce_rust_name C m) @ ''Svc'') # rust ''(inner), req'') @ rust ''.await'') arm \<and>
     (\<exists>codec input output. ce_parse C (md_codec_path m) = Some codec \<and>
        ce_parse C (md_input_type m) = Some input \<and> ce_parse C (md_output_type m) = Some output \<and>
        inside (codec @ rust ''::<'' @ output @ rust '','' @ input @ rust ''>::default()'') arm)"

lemma gen_dispatch_arm_shape:
  assumes "gen_dispatch_arm C fqn m = Some d"
  shows "\<exists>b. d = (Lit (ce_grpc_path C m fqn) # Punct CHR ''='' # Punct CHR ''>'' # b) @ [Punct CHR '',''] \<and>
    Punct CHR '','' \<notin> set b \<and> arm_serves C m b"
proof -
  from assms obtain codec inp outp where p:
    "ce_parse C (md_codec_path m) = Some codec" "ce_parse C (md_input_type m) = Some inp"
    "ce_parse C (md_output_type m) = Some outp"
    by (auto simp: gen_dispatch_arm_def bind_eq_Some_conv)
  let ?call = "rust ''grpc.'' @ [Ident (call_name (md_streaming m))] @
     paren (Ident (ce_upper_camel_case C (ce_rust_name C m) @ ''Svc'') # rust ''(inner), req'') @ rust ''.await''"
  let ?new = "codec @ rust ''::<'' @ outp @ rust '','' @ inp @ rust ''>::default()''"
  let ?b = "rust ''Box::pin'' @ paren (rust ''async move'' @ brace (rust ''let mut grpc = grpc_server::Grpc::new'' @
     paren ?new @ rust '';'' @ rust ''Ok'' @ paren ?call))"
  have "d = (Lit (ce_grpc_path C m fqn) # Punct CHR ''='' # Punct CHR ''>'' # ?b) @ [Punct CHR '','']"
    using assms p
    by (cases "md_streaming m")
       (auto simp: gen_dispatch_arm_def bind_eq_Some_conv format_ident_def call_name_def tokens split: if_splits)
  moreover have "Punct CHR '','' \<notin> set ?b" by (simp add: tokens)
  moreover have "inside X (a @ paren (b @ brace (c @ paren Y @ d @ e @ paren X)))"
    "inside Y (a @ paren (b @ brace (c @ paren Y @ d @ e @ paren X)))" for a b c d e X Y :: "token list" by (fast intro: inside_search)+
  then have "inside ?call ?b" "inside ?new ?b" .
  ultimately show ?thesis unfolding arm_serves_def using p by blast
qed

text \<open>What a generated client method does: it calls the method's path with its kind of call and a
  codec that encodes its input and decodes its output.\<close>

definition method_calls :: "codegen_ext \<Rightarrow> string \<Rightarrow> method_def \<Rightarrow> token list \<Rightarrow> bool" where
  "method_calls C path m body \<longleftrightarrow>
     inside (let_path path) body \<and> inside (client_call (call_name (md_streaming m))) body \<and>
     (\<exists>codec input output. ce_parse C (md_codec_path m) = Some codec \<and>
        ce_parse C (md_input_type m) = Some input \<and> ce_parse C (md_output_type m) = Some output \<and>
        inside (let_codec codec input output) body)"

lemma method_shape:
  "docs @ f @ name # Group Paren p # r @ out @ r' @ brace body = d \<Longrightarrow> P body \<Longrightarrow>
     \<exists>sig body. d = docs @ f @ name # sig @ brace body \<and> P body"
  by (rule exI [of _ "paren p @ r @ out @ r'"]) auto

lemma gen_rpc_method_shape:
  assumes "gen_rpc_method C fqn m = Some d"
  shows "\<exists>sig body. d = comments_to_doc_tokens (md_comments m) @ rust ''pub async fn'' @ [Ident (ce_rust_name C m)] @ sig @ brace body \<and>
    method_calls C (ce_grpc_path C m fqn) m body"
proof -
  from assms obtain codec inp outp where p:
    "ce_parse C (md_codec_path m) = Some codec" "ce_parse C (md_input_type m) = Some inp"
    "ce_parse C (md_output_type m) = Some outp" and id: "ce_is_ident C (ce_rust_name C m)"
    by (auto simp: gen_rpc_method_def bind_eq_Some_conv Let_def format_ident_def split: if_splits)
  have calls: "inside (let_path (ce_grpc_path C m fqn)) T \<Longrightarrow> inside (client_call (call_name (md_streaming m))) T \<Longrightarrow>
      inside (let_codec codec inp outp) T \<Longrightarrow> method_calls C (ce_grpc_path C m fqn) m T" for T
    unfolding method_calls_def using p by blast
  show ?thesis
    using assms p id
    by (cases "md_streaming m")
       (simp_all add: gen_rpc_method_def Let_def format_ident_def rust_client_calls,
        (erule method_shape, rule calls; (simp add: call_name_def)?; fast intro: inside_search)+)
qed

lemma server_dispatch:
  assumes "server_generate C svc = Some server"
  obtains arms where "those (map (gen_dispatch_arm C (ce_fqn C svc)) (sd_methods svc)) = Some arms"
    "inside (rust ''match req.uri().path()'' @ brace (concat arms @ rust ''_ =>'' @ fallback_body @ rust '','')) server"
proof -
  from assms obtain arms where arms: "those (map (gen_dispatch_arm C (ce_fqn C svc)) (sd_methods svc)) = Some arms"
    by (auto simp: server_generate_def bind_eq_Some_conv Let_def split: if_splits)
  from assms arms have "inside (rust ''match req.uri().path()'' @ brace (concat arms @ rust ''_ =>'' @ fallback_body @ rust '','')) server"
    apply (auto simp: server_generate_def bind_eq_Some_conv Let_def split: if_splits)
    apply ((rule inside_refl | rule inside_group_only | rule inside_right | rule inside_Cons)+)
    done
  with arms show ?thesis by (rule that)
qed

lemma client_methods:
  assumes "client_generate C svc = Some client"
  obtains methods where "those (map (gen_rpc_method C (ce_fqn C svc)) (sd_methods svc)) = Some methods"
    "inside (concat methods) client"
proof -
  from assms obtain methods where methods: "those (map (gen_rpc_method C (ce_fqn C svc)) (sd_methods svc)) = Some methods"
    by (auto simp: client_generate_def bind_eq_Some_conv Let_def split: if_splits)
  from assms methods have "inside (concat methods) client"
    apply (auto simp: client_generate_def bind_eq_Some_conv Let_def split: if_splits)
    apply ((rule inside_refl | rule inside_group_only | rule inside_right | rule inside_Cons)+)
    done
  with methods show ?thesis by (rule that)
qed

lemma match_arm_dispatch:
  assumes "list_all2 (\<lambda>m d. gen_dispatch_arm C fqn m = Some d) ms ds" "codegen_laws C"
  shows "(p \<notin> (\<lambda>m. ce_grpc_path C m fqn) ` set ms \<longrightarrow> match_arm p (concat ds @ rest) = match_arm p rest) \<and>
    (distinct (map md_name ms) \<longrightarrow>
       (\<forall>m\<in>set ms. \<exists>arm. match_arm (ce_grpc_path C m fqn) (concat ds @ rest) = Some arm \<and> arm_serves C m arm))"
  using assms(1)
proof (induction rule: list_all2_induct)
  case (Cons m ms d ds)
  have path: "ce_grpc_path C x fqn = ce_grpc_path C y fqn \<longleftrightarrow> md_name x = md_name y" for x y
    using assms(2) by (simp add: codegen_laws_def)
  obtain b where b: "d = (Lit (ce_grpc_path C m fqn) # Punct CHR ''='' # Punct CHR ''>'' # b) @ [Punct CHR '','']"
    "Punct CHR '','' \<notin> set b" "arm_serves C m b"
    using gen_dispatch_arm_shape [OF Cons.hyps(1)] by blast
  have first: "match_arm q (d @ concat ds @ rest)
      = (if ce_grpc_path C m fqn = q then Some b else match_arm q (concat ds @ rest))" for q
    using match_arm_literal [OF b(2), of q "ce_grpc_path C m fqn" "concat ds @ rest"] by (simp add: b(1))
  show ?case using Cons.IH b(3) by (auto simp: first path image_iff)
qed simp

text \<open>
  C22: The generated client and the generated server meet: for every method of a service, the client's
  method calls the path at which the server's dispatcher has that method, with the same kind of
  call, and encodes and decodes what the server decodes and encodes; every other path is answered
  by the fallback, \<open>Unimplemented\<close>.
\<close>

theorem generated_client_meets_server:
  assumes "codegen_laws C" "server_generate C svc = Some server" "client_generate C svc = Some client"
    and "distinct (map md_name (sd_methods svc))" "m \<in> set (sd_methods svc)"
  shows "\<exists>arms sig body arm. inside (rust ''match req.uri().path()'' @ brace arms) server \<and>
    inside (rust ''pub async fn'' @ [Ident (ce_rust_name C m)] @ sig @ brace body) client \<and>
    method_calls C (''/'' @ ce_fqn C svc @ ''/'' @ md_name m) m body \<and>
    match_arm (''/'' @ ce_fqn C svc @ ''/'' @ md_name m) arms = Some arm \<and> arm_serves C m arm \<and>
    (\<forall>p. p \<notin> (\<lambda>m. ''/'' @ ce_fqn C svc @ ''/'' @ md_name m) ` set (sd_methods svc) \<longrightarrow> match_arm p arms = Some fallback_body)"
proof -
  have path: "ce_grpc_path C m fqn = ''/'' @ fqn @ ''/'' @ md_name m" for m fqn
    using assms(1) by (simp add: codegen_laws_def)
  obtain arms where arms: "those (map (gen_dispatch_arm C (ce_fqn C svc)) (sd_methods svc)) = Some arms"
    and server: "inside (rust ''match req.uri().path()'' @ brace (concat arms @ rust ''_ =>'' @ fallback_body @ rust '','')) server"
    by (rule server_dispatch [OF assms(2)])
  obtain methods where methods: "those (map (gen_rpc_method C (ce_fqn C svc)) (sd_methods svc)) = Some methods"
    and client: "inside (concat methods) client"
    by (rule client_methods [OF assms(3)])
  obtain d where d: "d \<in> set methods" "gen_rpc_method C (ce_fqn C svc) m = Some d"
    using those_member [OF methods assms(5)] by blast
  then obtain sig body where body: "d = comments_to_doc_tokens (md_comments m) @ rust ''pub async fn'' @ [Ident (ce_rust_name C m)] @ sig @ brace body"
    "method_calls C (''/'' @ ce_fqn C svc @ ''/'' @ md_name m) m body"
    using gen_rpc_method_shape [OF d(2)] by (auto simp: path)
  have "inside (rust ''pub async fn'' @ [Ident (ce_rust_name C m)] @ sig @ brace body) client"
    using inside_trans [OF client inside_trans [OF inside_concat [OF d(1)]]] inside_right [OF inside_refl]
    unfolding body(1) by blast
  moreover have default: "match_arm p (rust ''_ =>'' @ fallback_body @ rust '','') = Some fallback_body" for p
  proof -
    have "Punct CHR '','' \<notin> set fallback_body" by (simp add: fallback_body_def tokens)
    from match_arm_default [OF this] show ?thesis by (simp add: tokens)
  qed
  let ?arms = "concat arms @ rust ''_ =>'' @ fallback_body @ rust '',''"
  note dispatch = match_arm_dispatch [OF those_list_all2 [OF arms] assms(1),
      of _ "rust ''_ =>'' @ fallback_body @ rust '',''", unfolded default path]
  obtain arm where "match_arm (''/'' @ ce_fqn C svc @ ''/'' @ md_name m) ?arms = Some arm" "arm_serves C m arm"
    using dispatch assms(4,5) by blast
  moreover have "\<forall>p. p \<notin> (\<lambda>m. ''/'' @ ce_fqn C svc @ ''/'' @ md_name m) ` set (sd_methods svc) \<longrightarrow> match_arm p ?arms = Some fallback_body"
    using dispatch by blast
  ultimately show ?thesis using server body(2) by blast
qed

text \<open>A parameter \<open>C\<close> for the witnesses: names as they are, every string an identifier, types
  as the lexer reads them.\<close>

definition sample_codegen :: codegen_ext where
  "sample_codegen = \<lparr>ce_validate = (\<lambda>_. []),
     ce_fqn = (\<lambda>s. case sd_package s of Some p \<Rightarrow> p @ ''.'' @ sd_name s | None \<Rightarrow> sd_name s),
     ce_grpc_path = (\<lambda>m fqn. ''/'' @ fqn @ ''/'' @ md_name m),
     ce_rust_name = (\<lambda>m. case md_rust_name m of Some n \<Rightarrow> n | None \<Rightarrow> md_name m),
     ce_streaming_from = (\<lambda>(c, s). if c then if s then StreamBiDi else StreamClient
        else if s then StreamServer else StreamNone),
     ce_streaming_mode = (\<lambda>_. ''streaming''), ce_snake_case = id, ce_upper_camel_case = id,
     ce_is_ident = (\<lambda>_. True), ce_parse = (\<lambda>s. Some (rust s))\<rparr>"

definition greeter_method :: "string \<Rightarrow> streaming_type \<Rightarrow> method_def" where
  "greeter_method name kind = \<lparr>md_name = name, md_rust_name = None, md_input_type = ''super::HelloRequest'',
     md_output_type = ''super::HelloReply'', md_streaming = kind, md_codec_path = DEFAULT_CODEC_PATH, md_comments = []\<rparr>"

definition greeter_service :: service_def where
  "greeter_service = \<lparr>sd_name = ''Greeter'', sd_package = Some ''helloworld'',
     sd_methods = [greeter_method ''SayHello'' StreamNone, greeter_method ''SayHelloStream'' StreamServer],
     sd_comments = [''A greeter.'']\<rparr>"

lemma sample_codegen_laws: "codegen_laws sample_codegen"
  by (simp add: codegen_laws_def sample_codegen_def)

lemma sample_generates:
  "\<exists>server client. server_generate sample_codegen greeter_service = Some server \<and>
     client_generate sample_codegen greeter_service = Some client"
  by (simp add: server_generate_def client_generate_def greeter_service_def greeter_method_def sample_codegen_def
      format_ident_def gen_rpc_method_def gen_trait_method_def gen_trait_assoc_type_def gen_svc_struct_def
      gen_dispatch_arm_def response_stream_ident_def Let_def)

theorem generated_client_meets_server_witness:
  "\<exists>server client arms arm. server_generate sample_codegen greeter_service = Some server \<and>
     client_generate sample_codegen greeter_service = Some client \<and>
     inside (rust ''match req.uri().path()'' @ brace arms) server \<and>
     match_arm ''/helloworld.Greeter/SayHelloStream'' arms = Some arm \<and>
     arm_serves sample_codegen (greeter_method ''SayHelloStream'' StreamServer) arm"
proof -
  obtain server client where g: "server_generate sample_codegen greeter_service = Some server"
    "client_generate sample_codegen greeter_service = Some client"
    using sample_generates by blast
  have fqn: "''/'' @ ce_fqn sample_codegen greeter_service @ ''/'' @ md_name (greeter_method ''SayHelloStream'' StreamServer)
      = ''/helloworld.Greeter/SayHelloStream''"
    by (simp add: sample_codegen_def greeter_service_def greeter_method_def)
  have "distinct (map md_name (sd_methods greeter_service))"
    "greeter_method ''SayHelloStream'' StreamServer \<in> set (sd_methods greeter_service)"
    by (simp_all add: greeter_service_def greeter_method_def)
  from generated_client_meets_server [OF sample_codegen_laws g this] g show ?thesis
    unfolding fqn by blast
qed

lemma required_Inr [simp]: "required e f = Inr s \<longleftrightarrow> f = Some s \<and> s \<noteq> []"
  by (auto simp: required_def split: option.split)

lemma str_split_at: "str_split sep (p @ sep # s) = str_split sep p @ str_split sep s"
proof (induction p)
  case (Cons c p)
  show ?case
  proof (cases "c = sep")
    case False
    obtain x xs where "str_split sep p = x # xs" using str_split_nonempty [of sep p] by (cases "str_split sep p") auto
    with Cons False show ?thesis by simp
  qed (simp add: Cons)
qed simp

lemma resolve_type_last:
  assumes "CHR ''.'' \<notin> set name"
  shows "resolve_type (package @ ''.'' @ name) path = path @ ''::'' @ name"
proof (cases package)
  case Nil
  then show ?thesis using assms by (simp add: resolve_type_def Let_def str_split_no_sep)
next
  case (Cons c q)
  have "last (str_split CHR ''.'' (p @ CHR ''.'' # name)) = name" for p
    using assms by (simp add: str_split_at str_split_no_sep)
  from this [of q] this [of "c # q"] Cons show ?thesis by (auto simp: resolve_type_def Let_def simp del: str_split.simps)
qed

lemma collect_results_ok: "(\<exists>ys. collect_results (map f xs) = Inr ys) \<longleftrightarrow> (\<forall>x\<in>set xs. \<exists>y. f x = Inr y)"
proof (induction xs)
  case (Cons x xs)
  show ?case
  proof (cases "f x")
    case (Inr y)
    with Cons show ?thesis by (cases "collect_results (map f xs)") auto
  qed simp
qed simp

lemma collect_results_all: "collect_results (map f xs) = Inr ys \<Longrightarrow> list_all2 (\<lambda>x y. f x = Inr y) xs ys"
proof (induction xs arbitrary: ys)
  case (Cons x xs)
  then show ?case by (cases "f x"; cases "collect_results (map f xs)") auto
qed simp

text \<open>The fields a method descriptor must have.\<close>

definition method_complete :: "method_descriptor_proto \<Rightarrow> bool" where
  "method_complete m \<longleftrightarrow> mp_name m \<notin> {None, Some []} \<and> mp_input_type m \<notin> {None, Some []} \<and> mp_output_type m \<notin> {None, Some []}"

lemma required_ok: "(\<exists>s. required e f = Inr s) \<longleftrightarrow> f \<notin> {None, Some []}"
  by (cases f) auto

lemma method_from_proto_Inr:
  "method_from_proto C path p = Inr m \<longleftrightarrow> method_complete p \<and>
     m = \<lparr>md_name = the (mp_name p), md_rust_name = None, md_input_type = resolve_type (the (mp_input_type p)) path,
       md_output_type = resolve_type (the (mp_output_type p)) path,
       md_streaming = ce_streaming_from C (mp_client_streaming p = Some True, mp_server_streaming p = Some True),
       md_codec_path = DEFAULT_CODEC_PATH, md_comments = []\<rparr>"
  by (auto simp: method_from_proto_def method_complete_def Let_def required_def split: sum.splits option.splits if_splits)

text \<open>
  A service is read from its descriptor as it is declared: exactly when it and all its methods
  are complete, with its methods in order, each with its own name, path and streaming kind. A
  message type keeps its last segment only, so types of the same name from different packages
  become the same Rust type.
\<close>

theorem service_from_proto_exact:
  assumes "codegen_laws C" "package \<noteq> []"
  shows "(case service_from_proto C proto package path of
      Inl e \<Rightarrow> sp_name proto \<in> {None, Some []} \<or> \<not> list_all method_complete (sp_method proto)
    | Inr svc \<Rightarrow> sp_name proto = Some (sd_name svc) \<and> sd_name svc \<noteq> [] \<and>
        list_all2 (\<lambda>p m. method_complete p \<and> mp_name p = Some (md_name m) \<and>
            ce_grpc_path C m (ce_fqn C svc) = ''/'' @ package @ ''.'' @ sd_name svc @ ''/'' @ md_name m \<and>
            (md_streaming m \<in> {StreamClient, StreamBiDi} \<longleftrightarrow> mp_client_streaming p = Some True) \<and>
            (md_streaming m \<in> {StreamServer, StreamBiDi} \<longleftrightarrow> mp_server_streaming p = Some True) \<and>
            (\<forall>pkg name. CHR ''.'' \<notin> set name \<and> mp_input_type p = Some (pkg @ ''.'' @ name) \<longrightarrow>
               md_input_type m = path @ ''::'' @ name))
          (sp_method proto) (sd_methods svc))"
proof (cases "service_from_proto C proto package path")
  case (Inl e)
  have "collect_results (map (method_from_proto C path) (sp_method proto)) = Inl e' \<Longrightarrow>
      \<not> list_all method_complete (sp_method proto)" for e'
    using collect_results_ok [of "method_from_proto C path" "sp_method proto"]
    by (auto simp: method_from_proto_Inr list_all_iff)
  with Inl show ?thesis
    by (auto simp: service_from_proto_def required_def split: sum.splits option.splits if_splits)
next
  case (Inr svc)
  then have methods: "collect_results (map (method_from_proto C path) (sp_method proto)) = Inr (sd_methods svc)"
    and svc: "sp_name proto = Some (sd_name svc)" "sd_name svc \<noteq> []" "sd_package svc = Some package"
    by (auto simp: service_from_proto_def split: sum.splits)
  have "list_all2 (\<lambda>p m. method_from_proto C path p = Inr m) (sp_method proto) (sd_methods svc)"
    by (rule collect_results_all [OF methods])
  then have "list_all2 (\<lambda>p m. method_complete p \<and> mp_name p = Some (md_name m) \<and>
        ce_grpc_path C m (ce_fqn C svc) = ''/'' @ package @ ''.'' @ sd_name svc @ ''/'' @ md_name m \<and>
        (md_streaming m \<in> {StreamClient, StreamBiDi} \<longleftrightarrow> mp_client_streaming p = Some True) \<and>
        (md_streaming m \<in> {StreamServer, StreamBiDi} \<longleftrightarrow> mp_server_streaming p = Some True) \<and>
        (\<forall>pkg name. CHR ''.'' \<notin> set name \<and> mp_input_type p = Some (pkg @ ''.'' @ name) \<longrightarrow>
           md_input_type m = path @ ''::'' @ name)) (sp_method proto) (sd_methods svc)"
  proof (rule list_all2_mono)
    fix p m assume m: "method_from_proto C path p = Inr m"
    then have "method_complete p" "mp_name p = Some (md_name m)"
      "md_streaming m = ce_streaming_from C (mp_client_streaming p = Some True, mp_server_streaming p = Some True)"
      "md_input_type m = resolve_type (the (mp_input_type p)) path"
      by (auto simp: method_from_proto_Inr method_complete_def)
    then show "method_complete p \<and> mp_name p = Some (md_name m) \<and>
        ce_grpc_path C m (ce_fqn C svc) = ''/'' @ package @ ''.'' @ sd_name svc @ ''/'' @ md_name m \<and>
        (md_streaming m \<in> {StreamClient, StreamBiDi} \<longleftrightarrow> mp_client_streaming p = Some True) \<and>
        (md_streaming m \<in> {StreamServer, StreamBiDi} \<longleftrightarrow> mp_server_streaming p = Some True) \<and>
        (\<forall>pkg name. CHR ''.'' \<notin> set name \<and> mp_input_type p = Some (pkg @ ''.'' @ name) \<longrightarrow>
           md_input_type m = path @ ''::'' @ name)"
      using assms svc by (simp add: codegen_laws_def resolve_type_last [simplified])
  qed
  with Inr svc show ?thesis by simp
qed

theorem service_from_proto_exact_witness:
  "\<exists>svc m. service_from_proto sample_codegen \<lparr>sp_name = Some ''Greeter'', sp_method = [\<lparr>mp_name = Some ''SayHello'',
       mp_input_type = Some ''.google.protobuf.Empty'', mp_output_type = Some ''.helloworld.HelloReply'',
       mp_client_streaming = None, mp_server_streaming = Some True\<rparr>]\<rparr> ''helloworld'' ''super'' = Inr svc \<and>
     sd_methods svc = [m] \<and> md_streaming m = StreamServer \<and> md_input_type m = ''super::Empty''"
proof -
  let ?m = "\<lparr>mp_name = Some ''SayHello'', mp_input_type = Some ''.google.protobuf.Empty'',
     mp_output_type = Some ''.helloworld.HelloReply'', mp_client_streaming = None, mp_server_streaming = Some True\<rparr>"
  let ?p = "\<lparr>sp_name = Some ''Greeter'', sp_method = [?m]\<rparr>"
  obtain svc where svc: "service_from_proto sample_codegen ?p ''helloworld'' ''super'' = Inr svc"
    by (auto simp: service_from_proto_def method_from_proto_def required_def Let_def)
  have single: "list_all2 P [x] ys \<Longrightarrow> \<exists>y. ys = [y] \<and> P x y" for P and x :: method_descriptor_proto and ys :: "method_def list"
    by (auto simp: list_all2_Cons1)
  note exact = service_from_proto_exact [OF sample_codegen_laws, of "''helloworld''" ?p "''super''", unfolded svc sum.case]
  have "''helloworld'' \<noteq> []" by simp
  from single [OF exact [OF this, THEN conjunct2, THEN conjunct2, unfolded service_descriptor_proto.select_convs]]
  show ?thesis
    apply (elim exE conjE)
    subgoal for m
      apply (drule spec [of _ "''.google.protobuf''"], drule spec [of _ "''Empty''"])
      apply (rule exI [of _ svc], rule exI [of _ m], rule conjI [OF svc], cases "md_streaming m")
         apply simp_all
      done
    done
qed

end
