(* ===== verification/Dart.thy ===== *)
theory Dart
  imports Codegen
begin

section \<open>The generator of Dart clients\<close>

text \<open>
  \<^verbatim>\<open>grpc-codegen/src/dart_client_gen.rs\<close>: the text of a Dart client class, line by
  line as the code writes it with \<^verbatim>\<open>writeln!\<close>. A generator is the list of the lines
  it writes; \<open>written\<close> is the text.
\<close>

definition written :: "string list \<Rightarrow> string" where
  "written lines = concat (map (\<lambda>l. l @ [CHR 0x0A]) lines)"

text \<open>\<^verbatim>\<open>str::replace\<close> and \<^verbatim>\<open>str::split\<close> on the separator
  \<^verbatim>\<open>::\<close>.\<close>

fun replace_colons :: "string \<Rightarrow> string" where
  "replace_colons (c # d # s) =
     (if c = CHR '':'' \<and> d = CHR '':'' then CHR ''.'' # replace_colons s else c # replace_colons (d # s))"
| "replace_colons s = s"

fun split_colons :: "string \<Rightarrow> string list" where
  "split_colons [] = [[]]"
| "split_colons [c] = [[c]]"
| "split_colons (c # d # s) =
     (if c = CHR '':'' \<and> d = CHR '':'' then [] # split_colons s
      else (case split_colons (d # s) of [] \<Rightarrow> [[c]] | p # ps \<Rightarrow> (c # p) # ps))"

definition extract_short_name :: "string \<Rightarrow> string" where
  "extract_short_name fully_qualified = last (split_colons fully_qualified)"

definition extract_type_name :: "string \<Rightarrow> string" where
  "extract_type_name fully_qualified =
     (case strip_prefix ''.::'' fully_qualified of
        Some stripped \<Rightarrow> stripped
      | None \<Rightarrow> replace_colons fully_qualified)"

subsection \<open>Methods\<close>

definition gen_unary_method :: "string \<Rightarrow> string \<Rightarrow> string \<Rightarrow> string list" where
  "gen_unary_method input_type output_type method_name_snake =
    [''  Future<'' @ output_type @ ''> '' @ method_name_snake @ ''('',
     ''    '' @ input_type @ '' request, {'',
     ''    grpc.CallOptions? options,'',
     ''  }) async {'',
     ''    final response = await $createUnaryCall('',
     ''      _'' @ method_name_snake @ '','',
     ''      request,'',
     ''      options: options,'',
     ''    );'',
     ''    return response;'',
     ''  }'']"

definition gen_server_streaming_method :: "string \<Rightarrow> string \<Rightarrow> string \<Rightarrow> string list" where
  "gen_server_streaming_method input_type output_type method_name_snake =
    [''  grpc.ResponseStream<'' @ output_type @ ''> '' @ method_name_snake @ ''('',
     ''    '' @ input_type @ '' request, {'',
     ''    grpc.CallOptions? options,'',
     ''  }) {'',
     ''    return $createStreamingCall(_'' @ method_name_snake @ '', Stream.value(request), options: options);'',
     ''  }'']"

definition gen_client_streaming_method :: "string \<Rightarrow> string \<Rightarrow> string \<Rightarrow> string list" where
  "gen_client_streaming_method input_type output_type method_name_snake =
    [''  Future<'' @ output_type @ ''> '' @ method_name_snake @ ''('',
     ''    Stream<'' @ input_type @ ''> request, {'',
     ''    grpc.CallOptions? options,'',
     ''  }) async {'',
     ''    final response = await $createStreamingCall(_'' @ method_name_snake @ '', request, options: options);'',
     ''    return response;'',
     ''  }'']"

definition gen_bidi_streaming_method :: "string \<Rightarrow> string \<Rightarrow> string \<Rightarrow> string list" where
  "gen_bidi_streaming_method input_type output_type method_name_snake =
    [''  grpc.ResponseStream<'' @ output_type @ ''> '' @ method_name_snake @ ''('',
     ''    Stream<'' @ input_type @ ''> request, {'',
     ''    grpc.CallOptions? options,'',
     ''  }) {'',
     ''    return $createStreamingCall(_'' @ method_name_snake @ '', request, options: options);'',
     ''  }'']"

definition gen_dart_method :: "codegen_ext \<Rightarrow> string \<Rightarrow> method_def \<Rightarrow> string list" where
  "gen_dart_method C service_fqn method =
     (let method_name_snake = ce_rust_name C method;
          grpc_path = ce_grpc_path C method service_fqn;
          input_type = extract_type_name (md_input_type method);
          output_type = extract_type_name (md_output_type method);
          input_type_short = extract_short_name (md_input_type method);
          output_type_short = extract_short_name (md_output_type method)
      in map (\<lambda>comment. ''  /// '' @ comment) (md_comments method) @
         [''  static final _'' @ method_name_snake @ '' = grpc.ClientMethod<'' @ input_type @ '', '' @ output_type @ ''>('',
          ''    '' @ [CHR 0x27] @ grpc_path @ [CHR 0x27] @ '','',
          ''    _serialize_'' @ input_type_short @ '','',
          ''    _deserialize_'' @ output_type_short @ '','',
          ''  );'',
          ''''] @
         (case md_streaming method of
            StreamNone \<Rightarrow> gen_unary_method input_type output_type method_name_snake
          | StreamServer \<Rightarrow> gen_server_streaming_method input_type output_type method_name_snake
          | StreamClient \<Rightarrow> gen_client_streaming_method input_type output_type method_name_snake
          | StreamBiDi \<Rightarrow> gen_bidi_streaming_method input_type output_type method_name_snake))"

subsection \<open>Serialization helpers\<close>

definition gen_serializer :: "string \<Rightarrow> string list" where
  "gen_serializer type_name =
    ['''',
     ''  static Uint8List _serialize_'' @ type_name @ ''('' @ type_name @ '' request) {'',
     ''    // Serialize by unpacking to T class and using T.pack() to build the table.'',
     ''    final builder = fb.Builder(deduplicateTables: false);'',
     ''    builder.finish(request.unpack().pack(builder));'',
     ''    return builder.buffer;'',
     ''  }'',
     '''',
     ''  static '' @ type_name @ '' _deserialize_'' @ type_name @ ''(List<int> responseBytes) {'',
     ''    // The generated FlatBuffers table has a constructor that accepts bytes.'',
     ''    return '' @ type_name @ ''(responseBytes is Uint8List ? responseBytes : Uint8List.fromList(responseBytes));'',
     ''  }'']"

definition gen_serializers :: "string list \<Rightarrow> string list" where
  "gen_serializers types = ''  // Serialization helpers'' # concat (map gen_serializer types)"

subsection \<open>The client class\<close>

text \<open>The loop over the methods, with the types that need helpers so far.\<close>

definition add_type :: "string \<Rightarrow> string list \<Rightarrow> string list" where
  "add_type t types = (if t \<in> set types then types else types @ [t])"

fun gen_dart_methods :: "codegen_ext \<Rightarrow> string \<Rightarrow> method_def list \<Rightarrow> string list \<Rightarrow> string list \<times> string list" where
  "gen_dart_methods C fqn [] types = ([], types)"
| "gen_dart_methods C fqn (method # methods) types =
     (case gen_dart_methods C fqn methods
         (add_type (extract_short_name (md_output_type method)) (add_type (extract_short_name (md_input_type method)) types)) of
        (lines, types') \<Rightarrow> (gen_dart_method C fqn method @ [''''] @ lines, types'))"

definition package_import :: "string option \<Rightarrow> string \<Rightarrow> string" where
  "package_import package proto_path =
     (case package of
        Some pkg \<Rightarrow>
          if pkg = [] then proto_path @ ''_generated.dart''
          else ''package:'' @ proto_path @ ''/'' @ map (\<lambda>c. if c = CHR ''.'' then CHR ''/'' else c) pkg @ ''_generated.dart''
      | None \<Rightarrow> proto_path @ ''_generated.dart'')"

definition dart_head :: "codegen_ext \<Rightarrow> service_def \<Rightarrow> string \<Rightarrow> string list" where
  "dart_head C service proto_path =
     [''// automatically generated by grpc-codegen, do not modify.'',
      ''// ignore_for_file: unused_import, unused_field, unused_local_variable'',
      '''',
      ''library;'',
      ''''] @
     map (\<lambda>comment. ''/// '' @ comment) (sd_comments service) @
     [''import 'dart:typed_data' show Uint8List;'',
      ''import 'package:grpc/grpc.dart' as grpc;'',
      ''import 'package:flat_buffers/flat_buffers.dart' as fb;'',
      ''import '' @ [CHR 0x27] @ package_import (sd_package service) proto_path @ [CHR 0x27] @ '';'',
      '''']"

definition dart_class :: "string \<Rightarrow> string list" where
  "dart_class client_name =
     [''class '' @ client_name @ '' extends grpc.Client {'',
      ''  '' @ client_name @ ''(grpc.ClientChannel channel, {'',
      ''    grpc.CallOptions? options,'',
      ''    List<grpc.ClientInterceptor>? interceptors,'',
      ''  }) : super(channel, options: options, interceptors: interceptors);'',
      '''',
      ''  static Future<'' @ client_name @ ''> create({'',
      ''    required String host,'',
      ''    required int port,'',
      ''    grpc.CallOptions? options,'',
      ''    List<grpc.ClientInterceptor>? interceptors,'',
      ''  }) async {'',
      ''    final channel = grpc.ClientChannel('',
      ''      host,'',
      ''      port: port,'',
      ''      options: grpc.ChannelOptions('',
      ''        credentials: grpc.ChannelCredentials.insecure(),'',
      ''      ),'',
      ''    );'',
      ''    return '' @ client_name @ ''(channel, options: options, interceptors: interceptors);'',
      ''  }'',
      '''']"

definition dart_generate :: "codegen_ext \<Rightarrow> service_def \<Rightarrow> string \<Rightarrow> string option" where
  "dart_generate C service proto_path =
     (if ce_validate C service \<noteq> [] then None
      else case gen_dart_methods C (ce_fqn C service) (sd_methods service) [] of
        (lines, types) \<Rightarrow>
          Some (written (dart_head C service proto_path @
            dart_class (ce_upper_camel_case C (sd_name service) @ ''Client'') @
            lines @ gen_serializers types @ ['''', ''}''])))"

subsection \<open>Lemmas and properties\<close>

lemma add_type_distinct [simp]: "distinct (add_type t types) \<longleftrightarrow> distinct types"
  by (auto simp: add_type_def)

lemma set_add_type [simp]: "set (add_type t types) = insert t (set types)"
  by (auto simp: add_type_def)

definition short_types :: "method_def list \<Rightarrow> string set" where
  "short_types methods = (\<lambda>m. extract_short_name (md_input_type m)) ` set methods \<union> (\<lambda>m. extract_short_name (md_output_type m)) ` set methods"

lemma gen_dart_methods_spec:
  "gen_dart_methods C fqn methods types = (lines, types') \<Longrightarrow>
     lines = concat (map (\<lambda>m. gen_dart_method C fqn m @ [[]]) methods) \<and>
     set types' = set types \<union> short_types methods \<and> (distinct types \<longrightarrow> distinct types')"
proof (induction methods arbitrary: types lines)
  case (Cons m methods)
  then show ?case by (force simp: short_types_def split: prod.splits)
qed (simp add: short_types_def)

lemma split_colons_name: "CHR '':'' \<notin> set name \<Longrightarrow> split_colons name = [name]"
proof (induction name rule: split_colons.induct)
  case (3 c d s)
  then show ?case by auto
qed simp_all

lemma split_colons_path: "CHR '':'' \<notin> set path \<Longrightarrow> split_colons (path @ ''::'' @ name) = path # split_colons name"
proof (induction path rule: split_colons.induct)
  case (3 c d s)
  then show ?case by auto
qed auto

lemma replace_colons_name: "CHR '':'' \<notin> set name \<Longrightarrow> replace_colons name = name"
  by (induction name rule: replace_colons.induct) auto

lemma replace_colons_path:
  "CHR '':'' \<notin> set path \<Longrightarrow> replace_colons (path @ ''::'' @ name) = path @ ''.'' @ replace_colons name"
proof (induction path rule: split_colons.induct)
  case (3 c d s)
  then show ?case by auto
qed auto

text \<open>
  What a method of the client must have: the path the server dispatches on, between quotes; helpers
  for its two types that are among the ones the class defines; and a signature of its kind, with a
  stream of requests exactly when the client streams and a stream of responses exactly when the
  server does.
\<close>

definition serializer_head :: "string \<Rightarrow> string" where
  "serializer_head t = ''  static Uint8List _serialize_'' @ t @ ''('' @ t @ '' request) {''"

definition deserializer_head :: "string \<Rightarrow> string" where
  "deserializer_head t = ''  static '' @ t @ '' _deserialize_'' @ t @ ''(List<int> responseBytes) {''"

definition dart_signature :: "codegen_ext \<Rightarrow> method_def \<Rightarrow> string list" where
  "dart_signature C m =
     (let input_type = extract_type_name (md_input_type m); output_type = extract_type_name (md_output_type m);
          client_streams = md_streaming m \<in> {StreamClient, StreamBiDi};
          server_streams = md_streaming m \<in> {StreamServer, StreamBiDi}
      in [(if server_streams then ''  grpc.ResponseStream<'' else ''  Future<'') @ output_type @ ''> '' @ ce_rust_name C m @ ''('',
          (if client_streams then ''    Stream<'' @ input_type @ ''>'' else ''    '' @ input_type) @ '' request, {''])"

definition dart_method_sound :: "codegen_ext \<Rightarrow> string \<Rightarrow> string list \<Rightarrow> method_def \<Rightarrow> bool" where
  "dart_method_sound C fqn helpers m =
     (let lines = set (gen_dart_method C fqn m);
          input_short = extract_short_name (md_input_type m); output_short = extract_short_name (md_output_type m)
      in ''    '' @ [CHR 0x27] @ ce_grpc_path C m fqn @ [CHR 0x27] @ '','' \<in> lines \<and>
         ''    _serialize_'' @ input_short @ '','' \<in> lines \<and> serializer_head input_short \<in> set helpers \<and>
         ''    _deserialize_'' @ output_short @ '','' \<in> lines \<and> deserializer_head output_short \<in> set helpers \<and>
         set (dart_signature C m) \<subseteq> lines)"

lemma gen_serializer_heads: "serializer_head t \<in> set (gen_serializer t)" "deserializer_head t \<in> set (gen_serializer t)"
  by (simp_all add: gen_serializer_def serializer_head_def deserializer_head_def)

lemma dart_signature_lines: "set (dart_signature C m) \<subseteq> set (gen_dart_method C fqn m)"
  by (cases "md_streaming m")
    (simp_all add: dart_signature_def gen_dart_method_def Let_def gen_unary_method_def gen_server_streaming_method_def
      gen_client_streaming_method_def gen_bidi_streaming_method_def)

lemma gen_dart_method_descriptor:
  "''    '' @ [CHR 0x27] @ ce_grpc_path C m fqn @ [CHR 0x27] @ '','' \<in> set (gen_dart_method C fqn m)"
  "''    _serialize_'' @ extract_short_name (md_input_type m) @ '','' \<in> set (gen_dart_method C fqn m)"
  "''    _deserialize_'' @ extract_short_name (md_output_type m) @ '','' \<in> set (gen_dart_method C fqn m)"
  by (simp_all add: gen_dart_method_def Let_def)

lemma dart_methods_sound:
  assumes "set types = short_types methods" "m \<in> set methods"
  shows "dart_method_sound C fqn (concat (map gen_serializer types)) m"
proof -
  have "extract_short_name (md_input_type m) \<in> set types" "extract_short_name (md_output_type m) \<in> set types"
    using assms by (auto simp: short_types_def)
  then have "serializer_head (extract_short_name (md_input_type m)) \<in> set (concat (map gen_serializer types))"
    "deserializer_head (extract_short_name (md_output_type m)) \<in> set (concat (map gen_serializer types))"
    using gen_serializer_heads by (simp_all only: set_concat set_map) blast+
  then show ?thesis
    unfolding dart_method_sound_def Let_def using gen_dart_method_descriptor dart_signature_lines by blast
qed

text \<open>
  C36: The Dart client is complete: after its head it has every method of the service in order, and
  then one pair of serialization helpers for every short name of a message type, none twice. Each
  method's descriptor has the path the server dispatches on and refers to helpers that are defined,
  and its signature streams requests exactly when the client does and responses exactly when the
  server does. The short name of a type under a module
  is the type's own name, and its annotation is the module and that name, but just the name for the
  module \<^verbatim>\<open>.\<close>.
\<close>

theorem dart_client_complete:
  assumes "ce_validate C svc = []" "CHR '':'' \<notin> set module" "CHR '':'' \<notin> set name"
  shows "(\<exists>types. dart_generate C svc proto_path = Some (written (dart_head C svc proto_path @
        dart_class (ce_upper_camel_case C (sd_name svc) @ ''Client'') @
        concat (map (\<lambda>m. gen_dart_method C (ce_fqn C svc) m @ [[]]) (sd_methods svc)) @
        ''  // Serialization helpers'' # concat (map gen_serializer types) @ [[], ''}''])) \<and>
      distinct types \<and> set types = short_types (sd_methods svc) \<and>
      (\<forall>m \<in> set (sd_methods svc). dart_method_sound C (ce_fqn C svc) (concat (map gen_serializer types)) m)) \<and>
    extract_short_name (module @ ''::'' @ name) = name \<and>
    extract_type_name (module @ ''::'' @ name) = (if module = ''.'' then name else module @ ''.'' @ name)"
proof (intro conjI)
  obtain lines types where g: "gen_dart_methods C (ce_fqn C svc) (sd_methods svc) [] = (lines, types)"
    by (cases "gen_dart_methods C (ce_fqn C svc) (sd_methods svc) []")
  from gen_dart_methods_spec [OF g] g assms(1)
  show "\<exists>types. dart_generate C svc proto_path = Some (written (dart_head C svc proto_path @
        dart_class (ce_upper_camel_case C (sd_name svc) @ ''Client'') @
        concat (map (\<lambda>m. gen_dart_method C (ce_fqn C svc) m @ [[]]) (sd_methods svc)) @
        ''  // Serialization helpers'' # concat (map gen_serializer types) @ [[], ''}''])) \<and>
      distinct types \<and> set types = short_types (sd_methods svc) \<and>
      (\<forall>m \<in> set (sd_methods svc). dart_method_sound C (ce_fqn C svc) (concat (map gen_serializer types)) m)"
    by (intro exI [of _ types]) (simp add: dart_generate_def gen_serializers_def dart_methods_sound)
  show "extract_short_name (module @ ''::'' @ name) = name"
    using split_colons_path [OF assms(2), of name] split_colons_name [OF assms(3)] by (simp add: extract_short_name_def)
  show "extract_type_name (module @ ''::'' @ name) = (if module = ''.'' then name else module @ ''.'' @ name)"
  proof (cases "strip_prefix ''.::'' (module @ ''::'' @ name)")
    case None
    then have "module \<noteq> ''.''" by auto
    with None show ?thesis
      using replace_colons_path [OF assms(2), of name] replace_colons_name [OF assms(3)]
      by (simp only: extract_type_name_def option.case if_False)
  next
    case (Some r)
    then have e: "module @ ''::'' @ name = ''.::'' @ r" by (simp only: strip_prefix_Some_iff)
    have "module = ''.''"
    proof (cases module)
      case (Cons c m)
      then show ?thesis using e assms(2) by (cases m) auto
    qed (use e in simp)
    with e Some show ?thesis by (simp add: extract_type_name_def)
  qed
qed

theorem dart_client_complete_witness:
  "extract_type_name ''super::HelloRequest'' = ''super.HelloRequest'' \<and>
   (\<exists>text types. dart_generate sample_codegen greeter_service ''hello'' = Some text \<and>
      set types = {''HelloRequest'', ''HelloReply''} \<and> distinct types)"
proof -
  have "ce_validate sample_codegen greeter_service = []" "CHR '':'' \<notin> set ''super''" "CHR '':'' \<notin> set ''HelloRequest''"
    by (simp_all add: sample_codegen_def)
  note t = dart_client_complete [OF this, of "''hello''"]
  have "short_types (sd_methods greeter_service) = {''HelloRequest'', ''HelloReply''}"
    by (auto simp: short_types_def greeter_service_def greeter_method_def extract_short_name_def)
  with t show ?thesis by auto
qed

end
