(* ===== verification/Stubs.thy ===== *)
theory Stubs
  imports Dart "HOL-Library.Char_ord" "HOL-Library.List_Lexorder"
begin

section \<open>The generator of FlatBuffers stubs\<close>

text \<open>
  \<^verbatim>\<open>grpc-codegen/src/flatbuffers.rs\<close>: which messages of a schema the services need
  (a worklist over the message types), their aliases and codec implementations, and the server and
  client modules. The schema's types belong to the crate codegen-schema; only the fields the code
  reads are kept. \<^verbatim>\<open>None\<close> is a panic, \<open>Inl\<close> the error of a result.
\<close>

subsection \<open>Schemas\<close>

datatype fb_type =
    FScalar | FEnum | FForeignKey
  | FMessage string "string option"
  | FVector fb_type | FOptional fb_type
  | FMap fb_type fb_type
  | FOneOf "fb_type list"

record message_def =
  mg_name :: string
  mg_namespace :: "string option"
  mg_fields :: "fb_type list"

record enum_def =
  en_name :: string
  en_namespace :: "string option"
  en_is_union :: bool

record schema_def =
  sc_messages :: "message_def list"
  sc_enums :: "enum_def list"
  sc_services :: "service_def list"

definition FB_CODEC_PATH :: string where
  "FB_CODEC_PATH = ''grpc_codec_flatbuffers::FlatBuffersCodec''"

subsection \<open>Names of messages\<close>

definition nonempty :: "string option \<Rightarrow> string option" where
  "nonempty ns = (if ns = Some [] then None else ns)"

definition qualified_name :: "string option \<Rightarrow> string \<Rightarrow> string" where
  "qualified_name namespace name = (case nonempty namespace of Some ns \<Rightarrow> ns @ ''.'' @ name | None \<Rightarrow> name)"

text \<open>\<^verbatim>\<open>rfind('.')\<close> and the parts around it.\<close>

definition split_qualified :: "string \<Rightarrow> string option \<times> string" where
  "split_qualified qn =
     (case dropWhile (\<lambda>c. c \<noteq> CHR ''.'') (rev qn) of
        [] \<Rightarrow> (None, qn)
      | _ # ns \<Rightarrow> (Some (rev ns), rev (takeWhile (\<lambda>c. c \<noteq> CHR ''.'') (rev qn))))"

definition namespace_matches :: "string option \<Rightarrow> string option \<Rightarrow> bool" where
  "namespace_matches namespace have =
     (case namespace of None \<Rightarrow> True | Some req \<Rightarrow> req = [] \<or> have = Some req)"

definition find_message :: "schema_def \<Rightarrow> string option \<Rightarrow> string \<Rightarrow> message_def option" where
  "find_message schema namespace name =
     find (\<lambda>m. mg_name m = name \<and> namespace_matches namespace (mg_namespace m)) (sc_messages schema)"

text \<open>\<^verbatim>\<open>rsplit("::").next()\<close>: what is behind the last double colon, on the reversed
  text what is before the first one.\<close>

fun before_colons :: "string \<Rightarrow> string" where
  "before_colons (c # d # s) = (if c = CHR '':'' \<and> d = CHR '':'' then [] else c # before_colons (d # s))"
| "before_colons s = s"

definition qualify_message :: "schema_def \<Rightarrow> string \<Rightarrow> string option" where
  "qualify_message schema raw =
     (let bare = rev (before_colons (rev raw))
      in map_option (\<lambda>m. qualified_name (mg_namespace m) (mg_name m)) (find (\<lambda>m. mg_name m = bare) (sc_messages schema)))"

definition add_io_messages :: "schema_def \<Rightarrow> method_def \<Rightarrow> string set \<Rightarrow> string set" where
  "add_io_messages schema method out =
     (let out' = (case qualify_message schema (md_input_type method) of Some qn \<Rightarrow> insert qn out | None \<Rightarrow> out)
      in case qualify_message schema (md_output_type method) of Some qn \<Rightarrow> insert qn out' | None \<Rightarrow> out')"

definition collect_rpc_io_messages :: "schema_def \<Rightarrow> string set" where
  "collect_rpc_io_messages schema =
     fold (add_io_messages schema) (concat (map sd_methods (sc_services schema))) {}"

subsection \<open>The messages the services need\<close>

fun collect_referenced_messages :: "schema_def \<Rightarrow> fb_type \<Rightarrow> string list" where
  "collect_referenced_messages schema FScalar = []"
| "collect_referenced_messages schema FEnum = []"
| "collect_referenced_messages schema FForeignKey = []"
| "collect_referenced_messages schema (FMessage name package) =
     (case find_message schema package name of
        Some msg \<Rightarrow> [qualified_name (mg_namespace msg) (mg_name msg)]
      | None \<Rightarrow> [])"
| "collect_referenced_messages schema (FVector inner) = collect_referenced_messages schema inner"
| "collect_referenced_messages schema (FOptional inner) = collect_referenced_messages schema inner"
| "collect_referenced_messages schema (FMap key value) =
     collect_referenced_messages schema key @ collect_referenced_messages schema value"
| "collect_referenced_messages schema (FOneOf variants) = concat (map (collect_referenced_messages schema) variants)"

definition message_of :: "schema_def \<Rightarrow> string \<Rightarrow> message_def option" where
  "message_of schema qn = find_message schema (fst (split_qualified qn)) (snd (split_qualified qn))"

definition referenced_by :: "schema_def \<Rightarrow> message_def \<Rightarrow> string list" where
  "referenced_by schema msg = concat (map (collect_referenced_messages schema) (mg_fields msg))"

lemma split_qualified_inj: "split_qualified a = split_qualified b \<Longrightarrow> a = b"
proof -
  have "qn = (case split_qualified qn of (None, n) \<Rightarrow> n | (Some ns, n) \<Rightarrow> ns @ ''.'' @ n)" for qn
  proof (cases "dropWhile (\<lambda>c. c \<noteq> CHR ''.'') (rev qn)")
    case (Cons c r)
    then have "c = CHR ''.''" using hd_dropWhile [of "\<lambda>c. c \<noteq> CHR ''.''" "rev qn"] by simp
    moreover have "rev qn = takeWhile (\<lambda>c. c \<noteq> CHR ''.'') (rev qn) @ c # r"
      using takeWhile_dropWhile_id [of "\<lambda>c. c \<noteq> CHR ''.''" "rev qn"] Cons by simp
    then have "rev (rev qn) = rev (takeWhile (\<lambda>c. c \<noteq> CHR ''.'') (rev qn) @ c # r)" by (rule arg_cong)
    ultimately show ?thesis using Cons by (simp add: split_qualified_def)
  next
    case Nil
    then show ?thesis by (simp only: split_qualified_def list.case prod.case option.case)
  qed
  then show "split_qualified a = split_qualified b \<Longrightarrow> a = b" by metis
qed

lemma find_message_Some:
  "find_message schema ns name = Some m \<Longrightarrow>
     m \<in> set (sc_messages schema) \<and> mg_name m = name \<and> ns \<in> {None, Some [], mg_namespace m}"
  by (auto simp: find_message_def find_Some_iff namespace_matches_def split: option.splits)

lemma finite_known: "finite {qn. message_of schema qn \<noteq> None}"
proof (rule finite_imageD)
  let ?n = "{None, Some []} \<union> mg_namespace ` set (sc_messages schema)"
  have "split_qualified ` {qn. message_of schema qn \<noteq> None} \<subseteq> ?n \<times> mg_name ` set (sc_messages schema)"
  proof
    fix p assume "p \<in> split_qualified ` {qn. message_of schema qn \<noteq> None}"
    then obtain m where "find_message schema (fst p) (snd p) = Some m" by (auto simp: message_of_def)
    from find_message_Some [OF this] show "p \<in> ?n \<times> mg_name ` set (sc_messages schema)" by (cases p) auto
  qed
  then show "finite (split_qualified ` {qn. message_of schema qn \<noteq> None})" by (rule finite_subset) simp
  show "inj_on split_qualified {qn. message_of schema qn \<noteq> None}" by (auto intro: inj_onI split_qualified_inj)
qed

text \<open>The frontier is a stack whose top comes first.\<close>

function collect_loop :: "schema_def \<Rightarrow> string set \<Rightarrow> string list \<Rightarrow> string set" where
  "collect_loop schema out [] = out"
| "collect_loop schema out (qn # frontier) =
     (if qn \<in> out then collect_loop schema out frontier
      else case message_of schema qn of
        None \<Rightarrow> collect_loop schema (insert qn out) frontier
      | Some msg \<Rightarrow> collect_loop schema (insert qn out) (rev (referenced_by schema msg) @ frontier))"
  by pat_completeness auto
termination
proof (relation "measures [\<lambda>(schema, out, frontier). card ({qn. message_of schema qn \<noteq> None} - out), \<lambda>(schema, out, frontier). length frontier]")
  fix schema :: schema_def and out :: "string set" and qn frontier
  show "message_of schema qn = None \<Longrightarrow> ((schema, insert qn out, frontier), schema, out, qn # frontier)
      \<in> measures [\<lambda>(schema, out, frontier). card ({qn. message_of schema qn \<noteq> None} - out), \<lambda>(schema, out, frontier). length frontier]"
    by (simp add: Diff_insert0)
  fix msg
  assume "qn \<notin> out" "message_of schema qn = Some msg"
  then have "card ({q. message_of schema q \<noteq> None} - insert qn out) < card ({q. message_of schema q \<noteq> None} - out)"
    by (intro psubset_card_mono finite_Diff finite_known) auto
  then show "((schema, insert qn out, rev (referenced_by schema msg) @ frontier), schema, out, qn # frontier)
      \<in> measures [\<lambda>(schema, out, frontier). card ({qn. message_of schema qn \<noteq> None} - out), \<lambda>(schema, out, frontier). length frontier]"
    by simp
qed simp_all

definition collect_rpc_relevant_messages :: "schema_def \<Rightarrow> string set" where
  "collect_rpc_relevant_messages schema =
     collect_loop schema {} (rev (sorted_list_of_set (collect_rpc_io_messages schema)))"

subsection \<open>The stubs\<close>

fun join_segments :: "token list list \<Rightarrow> token list" where
  "join_segments [] = []"
| "join_segments [s] = s"
| "join_segments (s # t # segments) = s @ rust ''::'' @ join_segments (t # segments)"

definition generated_path_tokens :: "codegen_ext \<Rightarrow> string option \<Rightarrow> string \<Rightarrow> bool \<Rightarrow> token list option" where
  "generated_path_tokens C namespace name owned = do {
     modules \<leftarrow> (case nonempty namespace of
         Some ns \<Rightarrow> those (map (\<lambda>part. format_ident C (ce_snake_case C part)) (str_split CHR ''.'' ns))
       | None \<Rightarrow> Some []);
     type_name \<leftarrow> (if owned then format_ident C (name @ ''T'') else format_ident C name);
     Some (join_segments ([rust ''generated''] @ map (\<lambda>m. [m]) modules @ [[type_name]]))
   }"

definition alias_tokens :: "codegen_ext \<Rightarrow> string option \<Rightarrow> string \<Rightarrow> bool \<Rightarrow> token list option" where
  "alias_tokens C namespace name owned = do {
     path \<leftarrow> generated_path_tokens C namespace name owned;
     alias \<leftarrow> format_ident C name;
     Some (rust ''pub use'' @ path @ rust ''as'' @ [alias] @ rust '';'')
   }"

definition message_impl :: "codegen_ext \<Rightarrow> string \<Rightarrow> token list option" where
  "message_impl C msg_name = do {
     let ns = fst (split_qualified msg_name);
     let name = snd (split_qualified msg_name);
     owned_path \<leftarrow> generated_path_tokens C ns name True;
     reader_path \<leftarrow> generated_path_tokens C ns name False;
     alias \<leftarrow> format_ident C name;
     let err_label = ''invalid '' @ name @ '': {e}'';
     Some (rust ''impl grpc_codec_flatbuffers::FlatBufferGrpcMessage for'' @ [alias] @
       brace (
         rust ''fn encode_flatbuffer(&self) -> ::std::vec::Vec<u8>'' @
         brace (
           rust ''let mut builder = grpc_codec_flatbuffers::flatbuffers::FlatBufferBuilder::new();
             let root ='' @ owned_path @ rust ''::pack(self, &mut builder);
             builder.finish(root, None); builder.finished_data().to_vec()'') @
         rust ''fn decode_flatbuffer(data: &[u8]) -> ::std::result::Result<Self, ::std::string::String>'' @
         brace (
           rust ''let reader = grpc_codec_flatbuffers::flatbuffers::root::<'' @ reader_path @ rust ''>(data).map_err'' @
           paren (rust ''|e| format!'' @ paren [Lit err_label]) @ rust ''?;'' @
           rust ''Ok(reader.unpack())'')))
   }"

definition method_to_ir :: "codegen_ext \<Rightarrow> method_def \<Rightarrow> string + method_def" where
  "method_to_ir C m =
     (if md_streaming m \<noteq> StreamNone
      then Inl (''FlatBuffers gRPC stub generator does not yet support streaming RPC `'' @ md_name m @
        ''` (mode: '' @ ce_streaming_mode C m @ '')'')
      else Inr (m\<lparr>md_input_type := ''super::'' @ md_input_type m, md_output_type := ''super::'' @ md_output_type m,
        md_codec_path := FB_CODEC_PATH\<rparr>))"

definition service_to_ir :: "codegen_ext \<Rightarrow> service_def \<Rightarrow> string + service_def" where
  "service_to_ir C svc =
     map_sum id (\<lambda>methods. svc\<lparr>sd_methods := methods\<rparr>) (collect_results (map (method_to_ir C) (sd_methods svc)))"

fun service_modules :: "codegen_ext \<Rightarrow> service_def list \<Rightarrow> (string + token list) option" where
  "service_modules C [] = Some (Inr [])"
| "service_modules C (svc # svcs) =
     (case service_to_ir C svc of
        Inl e \<Rightarrow> Some (Inl e)
      | Inr ir \<Rightarrow> do {
          server \<leftarrow> server_generate C ir;
          client \<leftarrow> client_generate C ir;
          rest \<leftarrow> service_modules C svcs;
          Some (map_sum id (\<lambda>ts. server @ client @ ts) rest)
        })"

definition generate_grpc_stubs :: "codegen_ext \<Rightarrow> schema_def \<Rightarrow> (string + token list) option" where
  "generate_grpc_stubs C schema = do {
     let needed = collect_rpc_relevant_messages schema;
     aliases \<leftarrow> those (map (\<lambda>msg. alias_tokens C (mg_namespace msg) (mg_name msg) True)
       (filter (\<lambda>msg. qualified_name (mg_namespace msg) (mg_name msg) \<in> needed) (sc_messages schema)));
     enums \<leftarrow> those (map (\<lambda>en. alias_tokens C (en_namespace en) (en_name en) False)
       (filter (\<lambda>en. \<not> en_is_union en) (sc_enums schema)));
     impls \<leftarrow> those (map (message_impl C) (sorted_list_of_set (collect_rpc_io_messages schema)));
     modules \<leftarrow> service_modules C (sc_services schema);
     Some (map_sum id (\<lambda>ts. concat aliases @ concat enums @ concat impls @ ts) modules)
   }"

text \<open>The Dart clients of all services of a schema.\<close>

definition generate_dart_client :: "codegen_ext \<Rightarrow> schema_def \<Rightarrow> string \<Rightarrow> string option" where
  "generate_dart_client C schema proto_path =
     map_option concat (those (map (\<lambda>svc. dart_generate C svc proto_path) (sc_services schema)))"

subsection \<open>Lemmas and properties\<close>

text \<open>The messages the services reach, as a specification: the least set that has the inputs and
  outputs of the methods and is closed under the types of a message's fields.\<close>

inductive rpc_reachable :: "schema_def \<Rightarrow> string \<Rightarrow> bool" for schema where
  reach_io: "qn \<in> collect_rpc_io_messages schema \<Longrightarrow> rpc_reachable schema qn"
| reach_field: "rpc_reachable schema qn \<Longrightarrow> message_of schema qn = Some msg \<Longrightarrow> qn' \<in> set (referenced_by schema msg) \<Longrightarrow>
     rpc_reachable schema qn'"

lemma collect_loop_sound:
  "\<forall>qn\<in>out \<union> set frontier. rpc_reachable schema qn \<Longrightarrow> qn \<in> collect_loop schema out frontier \<Longrightarrow> rpc_reachable schema qn"
proof (induction schema out frontier rule: collect_loop.induct)
  case (2 schema out q frontier)
  show ?case
  proof (cases "q \<in> out")
    case True
    with 2 show ?thesis by simp
  next
    case False
    show ?thesis
    proof (cases "message_of schema q")
      case None
      with False 2 show ?thesis by simp
    next
      case (Some msg)
      have "\<forall>r\<in>set (referenced_by schema msg). rpc_reachable schema r"
        using Some 2(4) by (auto intro: rpc_reachable.reach_field)
      with 2(3) [OF False Some] 2(4,5) False Some show ?thesis by auto
    qed
  qed
qed simp

text \<open>The loop's invariant: what is out has its references out or on the frontier.\<close>

definition frontier_ok :: "schema_def \<Rightarrow> string set \<Rightarrow> string list \<Rightarrow> bool" where
  "frontier_ok schema out frontier \<longleftrightarrow>
     (\<forall>qn\<in>out. \<forall>msg. message_of schema qn = Some msg \<longrightarrow> set (referenced_by schema msg) \<subseteq> out \<union> set frontier)"

lemma collect_loop_closed:
  "frontier_ok schema out frontier \<Longrightarrow>
     out \<union> set frontier \<subseteq> collect_loop schema out frontier \<and> frontier_ok schema (collect_loop schema out frontier) []"
proof (induction schema out frontier rule: collect_loop.induct)
  case (2 schema out q frontier)
  show ?case
  proof (cases "q \<in> out")
    case True
    with 2(4) have "frontier_ok schema out frontier" by (auto simp: frontier_ok_def)
    from 2(1) [OF True this] True show ?thesis by auto
  next
    case False
    show ?thesis
    proof (cases "message_of schema q")
      case None
      with 2(4) have "frontier_ok schema (insert q out) frontier" by (auto simp: frontier_ok_def)
      from 2(2) [OF False None this] False None show ?thesis by auto
    next
      case (Some msg)
      with 2(4) have "frontier_ok schema (insert q out) (rev (referenced_by schema msg) @ frontier)"
        by (auto simp: frontier_ok_def)
      from 2(3) [OF False Some this] False Some show ?thesis by auto
    qed
  qed
qed simp

lemma finite_io_messages: "finite (collect_rpc_io_messages schema)"
proof -
  have "finite A \<Longrightarrow> finite (fold (add_io_messages schema) ms A)" for ms A
    by (induction ms arbitrary: A) (simp_all add: add_io_messages_def Let_def split: option.split)
  then show ?thesis by (simp add: collect_rpc_io_messages_def)
qed

lemma io_messages_iff:
  "qn \<in> collect_rpc_io_messages schema \<longleftrightarrow>
     (\<exists>svc\<in>set (sc_services schema). \<exists>m\<in>set (sd_methods svc).
        qualify_message schema (md_input_type m) = Some qn \<or> qualify_message schema (md_output_type m) = Some qn)"
proof -
  have "qn \<in> fold (add_io_messages schema) ms A \<longleftrightarrow> qn \<in> A \<or>
      (\<exists>m\<in>set ms. qualify_message schema (md_input_type m) = Some qn \<or> qualify_message schema (md_output_type m) = Some qn)" for ms A
    by (induction ms arbitrary: A) (auto simp: add_io_messages_def Let_def split: option.splits)
  then show ?thesis by (simp add: collect_rpc_io_messages_def)
qed

lemma relevant_messages: "collect_rpc_relevant_messages schema = {qn. rpc_reachable schema qn}"
proof -
  let ?io = "rev (sorted_list_of_set (collect_rpc_io_messages schema))"
  have io: "set ?io = collect_rpc_io_messages schema" using finite_io_messages by simp
  note closed = collect_loop_closed [of schema "{}" ?io, unfolded io]
  have "rpc_reachable schema qn \<Longrightarrow> qn \<in> collect_loop schema {} ?io" for qn
  proof (induction rule: rpc_reachable.induct)
    case (reach_io qn)
    then show ?case using closed by (auto simp: frontier_ok_def)
  next
    case (reach_field qn msg qn')
    then show ?case using closed by (auto simp: frontier_ok_def)
  qed
  moreover have "qn \<in> collect_loop schema {} ?io \<Longrightarrow> rpc_reachable schema qn" for qn
    by (rule collect_loop_sound) (auto simp: io finite_io_messages intro: rpc_reachable.reach_io)
  ultimately show ?thesis by (auto simp: collect_rpc_relevant_messages_def)
qed

text \<open>
  C34: The worklist over the message types ends on every schema, recursive ones included, and finds
  exactly the messages the services need: the inputs and outputs of their methods and whatever
  their fields refer to, directly or through other messages.
\<close>

theorem relevant_messages_exact:
  "collect_rpc_relevant_messages schema = {qn. rpc_reachable schema qn}"
  by (rule relevant_messages)

lemma map_sum_Inr: "map_sum id f r = Inr y \<longleftrightarrow> (\<exists>x. r = Inr x \<and> y = f x)"
  by (cases r) auto

lemma service_modules_unary:
  "service_modules C svcs = Some (Inr ts) \<Longrightarrow> svc \<in> set svcs \<Longrightarrow> m \<in> set (sd_methods svc) \<Longrightarrow> md_streaming m = StreamNone"
proof (induction svcs arbitrary: ts)
  case (Cons s svcs)
  then obtain ir rest where ir: "service_to_ir C s = Inr ir" "service_modules C svcs = Some (Inr rest)"
    by (auto simp: bind_eq_Some_conv map_sum_Inr split: sum.splits)
  then obtain ms where "collect_results (map (method_to_ir C) (sd_methods s)) = Inr ms"
    by (cases "collect_results (map (method_to_ir C) (sd_methods s))") (auto simp: service_to_ir_def)
  then have "\<forall>m\<in>set (sd_methods s). \<exists>m'. method_to_ir C m = Inr m'"
    using collect_results_ok [of "method_to_ir C" "sd_methods s"] by blast
  then have "\<forall>m\<in>set (sd_methods s). md_streaming m = StreamNone"
    by (auto simp: method_to_ir_def split: if_splits)
  with Cons ir(2) show ?case by auto
qed simp

lemma before_colons_id: "CHR '':'' \<notin> set s \<Longrightarrow> before_colons s = s"
  by (induction s rule: before_colons.induct) auto

lemma qualify_message_name:
  "CHR '':'' \<notin> set name \<Longrightarrow> find_message schema None name = Some g \<Longrightarrow>
     qualify_message schema name = Some (qualified_name (mg_namespace g) name)"
  by (auto simp: qualify_message_def before_colons_id find_message_def namespace_matches_def find_Some_iff)

lemma sublist_concat: "x \<in> set xs \<Longrightarrow> sublist x (concat xs)"
proof -
  assume "x \<in> set xs"
  then obtain ys zs where "concat xs = concat ys @ x @ concat zs" by (auto dest!: split_list)
  then show ?thesis by (simp only: sublist_appendI)
qed

lemma sublist_in_append: "sublist x b \<Longrightarrow> sublist x (a @ b @ c)"
  by (rule sublist_order.order_trans [of x b]) simp_all

text \<open>
  C35: Generated FlatBuffers stubs define what they use: generation succeeds only for services whose
  methods are all unary, and then every message the services reach has its alias, and every message
  that is a method's input or output has the codec implementation of its alias.
\<close>

theorem stubs_define_messages:
  assumes "generate_grpc_stubs C schema = Some (Inr ts)" "svc \<in> set (sc_services schema)" "m \<in> set (sd_methods svc)"
    and "name = md_input_type m \<or> name = md_output_type m" "CHR '':'' \<notin> set name" "find_message schema None name = Some g"
  shows "md_streaming m = StreamNone \<and>
    (\<exists>impl. message_impl C (qualified_name (mg_namespace g) name) = Some impl \<and> sublist impl ts) \<and>
    rpc_reachable schema (qualified_name (mg_namespace g) name) \<and>
    (\<forall>msg\<in>set (sc_messages schema). rpc_reachable schema (qualified_name (mg_namespace msg) (mg_name msg)) \<longrightarrow>
       (\<exists>alias. alias_tokens C (mg_namespace msg) (mg_name msg) True = Some alias \<and> sublist alias ts))"
proof -
  from assms(1) obtain aliases enums impls ms where
    aliases: "those (map (\<lambda>msg. alias_tokens C (mg_namespace msg) (mg_name msg) True)
        (filter (\<lambda>msg. qualified_name (mg_namespace msg) (mg_name msg) \<in> collect_rpc_relevant_messages schema)
          (sc_messages schema))) = Some aliases"
    and impls: "those (map (message_impl C) (sorted_list_of_set (collect_rpc_io_messages schema))) = Some impls"
    and modules: "service_modules C (sc_services schema) = Some (Inr ms)"
    and ts: "ts = concat aliases @ concat enums @ concat impls @ ms"
    by (auto simp: generate_grpc_stubs_def Let_def bind_eq_Some_conv map_sum_Inr)
  have io: "qualified_name (mg_namespace g) name \<in> collect_rpc_io_messages schema"
    using assms(2-6) qualify_message_name [OF assms(5,6)] by (auto simp: io_messages_iff)
  then obtain impl where impl: "impl \<in> set impls" "message_impl C (qualified_name (mg_namespace g) name) = Some impl"
    using those_member [OF impls] finite_io_messages by auto
  have "sublist impl ts"
    unfolding ts using sublist_in_append [OF sublist_concat [OF impl(1)], of "concat aliases @ concat enums" ms] by simp
  moreover have "\<exists>alias. alias_tokens C (mg_namespace msg) (mg_name msg) True = Some alias \<and> sublist alias ts"
    if msg: "msg \<in> set (sc_messages schema)" "rpc_reachable schema (qualified_name (mg_namespace msg) (mg_name msg))" for msg
  proof -
    from msg have "msg \<in> set (filter (\<lambda>msg. qualified_name (mg_namespace msg) (mg_name msg) \<in> collect_rpc_relevant_messages schema) (sc_messages schema))"
      by (simp add: relevant_messages)
    from those_member [OF aliases this] obtain al where
      "al \<in> set aliases" "alias_tokens C (mg_namespace msg) (mg_name msg) True = Some al" by blast
    then show ?thesis
      unfolding ts using sublist_in_append [OF sublist_concat, of al aliases "[]" "concat enums @ concat impls @ ms"] by auto
  qed
  ultimately show ?thesis
    using impl(2) service_modules_unary [OF modules assms(2,3)] rpc_reachable.reach_io [OF io] by blast
qed

lemma those_total: "\<forall>x\<in>set xs. \<exists>y. f x = Some y \<Longrightarrow> \<exists>ys. those (map f xs) = Some ys"
  by (induction xs) auto

definition node_schema :: schema_def where
  "node_schema = \<lparr>sc_messages =
       [\<lparr>mg_name = ''Request'', mg_namespace = Some ''tree'', mg_fields = [FVector (FMessage ''Node'' (Some ''tree''))]\<rparr>,
        \<lparr>mg_name = ''Node'', mg_namespace = Some ''tree'', mg_fields = [FScalar, FOptional (FMessage ''Node'' (Some ''tree''))]\<rparr>],
     sc_enums = [],
     sc_services = [\<lparr>sd_name = ''Trees'', sd_package = Some ''tree'',
       sd_methods = [greeter_method ''Depth'' StreamNone\<lparr>md_input_type := ''Request'', md_output_type := ''Node''\<rparr>],
       sd_comments = []\<rparr>]\<rparr>"

lemma sample_paths: "\<exists>ts. generated_path_tokens sample_codegen ns name owned = Some ts"
proof -
  have "\<exists>ms. those (map (\<lambda>part. format_ident sample_codegen (ce_snake_case sample_codegen part)) parts) = Some ms" for parts
    by (rule those_total) (simp add: format_ident_def sample_codegen_def)
  then show ?thesis
    by (cases "nonempty ns") (auto simp: generated_path_tokens_def bind_eq_Some_conv format_ident_def sample_codegen_def)
qed

lemma node_stubs: "\<exists>ts. generate_grpc_stubs sample_codegen node_schema = Some (Inr ts)"
proof -
  have al: "\<exists>ts. alias_tokens sample_codegen ns name owned = Some ts" for ns name owned
    using sample_paths [of ns name owned] by (auto simp: alias_tokens_def format_ident_def sample_codegen_def)
  have impl: "\<exists>ts. message_impl sample_codegen qn = Some ts" for qn
    using sample_paths [of "fst (split_qualified qn)" "snd (split_qualified qn)" True]
      sample_paths [of "fst (split_qualified qn)" "snd (split_qualified qn)" False]
    by (auto simp: message_impl_def Let_def format_ident_def sample_codegen_def)
  have "\<exists>ts. service_modules sample_codegen (sc_services node_schema) = Some (Inr ts)"
    by (simp add: node_schema_def greeter_method_def service_to_ir_def method_to_ir_def server_generate_def client_generate_def
        sample_codegen_def format_ident_def gen_rpc_method_def gen_trait_method_def gen_svc_struct_def
        gen_dispatch_arm_def Let_def)
  moreover have "\<exists>as. those (map (\<lambda>msg. alias_tokens sample_codegen (mg_namespace msg) (mg_name msg) True) msgs) = Some as"
    for msgs :: "message_def list" by (rule those_total) (simp add: al)
  moreover have "\<exists>is. those (map (message_impl sample_codegen) qns) = Some is" for qns
    by (rule those_total) (simp add: impl)
  moreover have "sc_enums node_schema = []" by (simp add: node_schema_def)
  ultimately show ?thesis
    unfolding generate_grpc_stubs_def Let_def by (auto simp: bind_eq_Some_conv) metis
qed

theorem stubs_define_messages_witness:
  "\<exists>ts impl al. generate_grpc_stubs sample_codegen node_schema = Some (Inr ts) \<and>
     message_impl sample_codegen ''tree.Node'' = Some impl \<and> sublist impl ts \<and>
     alias_tokens sample_codegen (Some ''tree'') ''Node'' True = Some al \<and> sublist al ts"
proof -
  obtain ts where ts: "generate_grpc_stubs sample_codegen node_schema = Some (Inr ts)" using node_stubs by blast
  let ?svc = "hd (sc_services node_schema)"
  let ?m = "hd (sd_methods ?svc)"
  let ?node = "\<lparr>mg_name = ''Node'', mg_namespace = Some ''tree'',
    mg_fields = [FScalar, FOptional (FMessage ''Node'' (Some ''tree''))]\<rparr>"
  have "?svc \<in> set (sc_services node_schema)" "?m \<in> set (sd_methods ?svc)"
    "''Node'' = md_input_type ?m \<or> ''Node'' = md_output_type ?m" "CHR '':'' \<notin> set ''Node''"
    "find_message node_schema None ''Node'' = Some ?node" "?node \<in> set (sc_messages node_schema)"
    "qualified_name (mg_namespace ?node) ''Node'' = ''tree.Node''" "mg_name ?node = ''Node''" "mg_namespace ?node = Some ''tree''"
    by (simp_all add: node_schema_def greeter_method_def find_message_def namespace_matches_def qualified_name_def nonempty_def)
  note facts = this
  from stubs_define_messages [OF ts facts(1-5)] facts(6-9) ts show ?thesis by metis
qed

end
