(* ===== verification/Build.thy ===== *)
theory Build
  imports Stubs
begin

section \<open>The build scripts' entry points\<close>

text \<open>
  \<^verbatim>\<open>grpc-build/src/protobuf.rs\<close> and \<^verbatim>\<open>flatbuffers.rs\<close>: compiling schema
  files to the files of the output directory. The parsers, analyzers, message generators and the
  formatter are other crates and the operating system answers for files and the environment: they
  are the fields of \<open>B\<close>. The file system is the map of file contents; what a failed run has
  written stays. \<open>None\<close> is a panic of the stub generator.
\<close>

datatype io_kind = OtherError | NotFoundError | InvalidDataError | WriteError

type_synonym io_error = "io_kind \<times> string"
type_synonym files = "string \<rightharpoonup> string"

record proto_file =
  pf_package :: "string option"
  pf_service :: "service_descriptor_proto list"

record ('f, 's) build_ext =
  be_out_dir :: "string + string"
  be_metadata :: "string \<Rightarrow> string + unit"
  be_file_name :: "string \<Rightarrow> string option"
  be_file_stem :: "string \<Rightarrow> string option"
  be_analyze :: "string list \<Rightarrow> (string \<Rightarrow> string option) \<Rightarrow> string + 'f"
  be_generate_rust :: "'f \<Rightarrow> string + (string \<times> string) list"
  be_files :: "'f \<Rightarrow> proto_file list"
  be_serialize :: "'f \<Rightarrow> string"
  be_format :: "token list \<Rightarrow> string + string"
  be_unwritable :: "string \<Rightarrow> string option"
  be_compile_fbs :: "string list \<Rightarrow> string list \<Rightarrow> string + 's"
  be_fbs_code :: "'s \<Rightarrow> string + string"
  be_fbs_schema :: "'s \<Rightarrow> string + schema_def"

subsection \<open>Paths, files and imports\<close>

text \<open>\<^verbatim>\<open>Path::join\<close> on Unix.\<close>

definition path_join :: "string \<Rightarrow> string \<Rightarrow> string" where
  "path_join dir name =
     (if starts_with name ''/'' then name
      else if dir = [] \<or> last dir = CHR ''/'' then dir @ name
      else dir @ ''/'' @ name)"

text \<open>\<^verbatim>\<open>std::fs::write\<close>.\<close>

definition fs_write :: "('f, 's) build_ext \<Rightarrow> string \<Rightarrow> string \<Rightarrow> files \<Rightarrow> (io_error + unit) \<times> files" where
  "fs_write B path content fs =
     (case be_unwritable B path of Some e \<Rightarrow> (Inl (WriteError, e), fs) | None \<Rightarrow> (Inr (), fs(path \<mapsto> content)))"

fun write_all :: "('f, 's) build_ext \<Rightarrow> (string \<times> string) list \<Rightarrow> files \<Rightarrow> (io_error + unit) \<times> files" where
  "write_all B [] fs = (Inr (), fs)"
| "write_all B ((path, content) # rest) fs =
     (case fs_write B path content fs of
        (Inl e, fs') \<Rightarrow> (Inl e, fs')
      | (Inr _, fs') \<Rightarrow> write_all B rest fs')"

text \<open>\<^verbatim>\<open>DirResolver\<close>: the first include directory that has the file.\<close>

fun dir_resolve :: "files \<Rightarrow> string list \<Rightarrow> string \<Rightarrow> string option" where
  "dir_resolve fs [] name = None"
| "dir_resolve fs (dir # dirs) name =
     (case fs (path_join dir name) of Some content \<Rightarrow> Some content | None \<Rightarrow> dir_resolve fs dirs name)"

subsection \<open>Protobuf\<close>

definition descriptor_const :: string where
  "descriptor_const = [CHR 0x0A] @
     ''/// Encoded `FileDescriptorSet` for gRPC server reflection.'' @ [CHR 0x0A] @
     ''/// Pass to `ReflectionServer::builder().register_encoded_file_descriptor_set(FILE_DESCRIPTOR_SET)`.'' @ [CHR 0x0A] @
     ''pub const FILE_DESCRIPTOR_SET: &[u8] = include_bytes!(concat!(env!('' @ [CHR 0x22] @ ''OUT_DIR'' @ [CHR 0x22] @
     ''), '' @ [CHR 0x22] @ ''/descriptor.bin'' @ [CHR 0x22] @ ''));'' @ [CHR 0x0A]"

definition package_to_mod_name :: "string \<Rightarrow> string" where
  "package_to_mod_name package =
     (if package = [] then ''_.rs'' else map (\<lambda>c. if c = CHR ''.'' then CHR ''_'' else c) package)"

definition unwrap_or_default :: "string option \<Rightarrow> string" where
  "unwrap_or_default o' = (case o' of Some s \<Rightarrow> s | None \<Rightarrow> [])"

fun service_list_tokens :: "codegen_ext \<Rightarrow> (string \<times> service_descriptor_proto) list \<Rightarrow> (string + token list) option" where
  "service_list_tokens C [] = Some (Inr [])"
| "service_list_tokens C ((package, svc_proto) # rest) =
     (case service_from_proto C svc_proto package ''super'' of
        Inl e \<Rightarrow> Some (Inl e)
      | Inr svc_def \<Rightarrow> do {
          server \<leftarrow> server_generate C svc_def;
          client \<leftarrow> client_generate C svc_def;
          tokens \<leftarrow> service_list_tokens C rest;
          Some (map_sum id (\<lambda>ts. server @ client @ ts) tokens)
        })"

definition service_tokens :: "codegen_ext \<Rightarrow> proto_file list \<Rightarrow> (string + token list) option" where
  "service_tokens C pfs =
     service_list_tokens C (concat (map (\<lambda>f. map (Pair (unwrap_or_default (pf_package f))) (pf_service f)) pfs))"

definition combined_code :: "string \<Rightarrow> string \<Rightarrow> string" where
  "combined_code service_code code = code @ [CHR 0x0A] @ service_code @ [CHR 0x0A] @ descriptor_const"

text \<open>Steps 4 and 5: writing what was generated.\<close>

definition write_proto_output ::
  "('f, 's) build_ext \<Rightarrow> string \<Rightarrow> 'f \<Rightarrow> (string \<times> string) list \<Rightarrow> string \<Rightarrow> files \<Rightarrow> (io_error + unit) \<times> files" where
  "write_proto_output B out_dir fds message_code service_code fs =
     write_all B
       (map (\<lambda>(mod_path, code). (path_join out_dir mod_path, combined_code service_code code)) message_code @
        [(path_join out_dir ''descriptor.bin'', be_serialize B fds)] @
        (if message_code = [] \<and> service_code \<noteq> []
         then [(path_join out_dir (package_to_mod_name (case be_files B fds of
                  [] \<Rightarrow> [] | f # _ \<Rightarrow> unwrap_or_default (pf_package f)) @ ''.rs''), service_code)]
         else [])) fs"

definition compile_proto ::
  "codegen_ext \<Rightarrow> ('f, 's) build_ext \<Rightarrow> string \<Rightarrow> string list \<Rightarrow> string \<Rightarrow> files \<Rightarrow> ((io_error + unit) \<times> files) option" where
  "compile_proto C B out_dir includes proto_path fs =
     (case be_metadata B proto_path of
        Inl e \<Rightarrow> Some (Inl (NotFoundError, ''failed to read '' @ proto_path @ '': '' @ e), fs)
      | Inr _ \<Rightarrow>
        let file_name = (case be_file_name B proto_path of Some n \<Rightarrow> n | None \<Rightarrow> ''unknown.proto'')
        in case be_analyze B [file_name] (dir_resolve fs includes) of
          Inl e \<Rightarrow> Some (Inl (InvalidDataError, ''failed to analyze '' @ proto_path @ '': '' @ e), fs)
        | Inr fds \<Rightarrow>
          (case be_generate_rust B fds of
             Inl e \<Rightarrow> Some (Inl (OtherError, ''codegen failed for '' @ proto_path @ '': '' @ e), fs)
           | Inr message_code \<Rightarrow>
             (case service_tokens C (be_files B fds) of
                None \<Rightarrow> None
              | Some (Inl e) \<Rightarrow> Some (Inl (OtherError, ''invalid service descriptor: '' @ e), fs)
              | Some (Inr tokens) \<Rightarrow>
                (case (if tokens = [] then Inr [] else be_format B tokens) of
                   Inl e \<Rightarrow> Some (Inl (OtherError, ''generated service code is invalid: '' @ e), fs)
                 | Inr service_code \<Rightarrow> Some (write_proto_output B out_dir fds message_code service_code fs)))))"

fun compile_proto_list ::
  "codegen_ext \<Rightarrow> ('f, 's) build_ext \<Rightarrow> string \<Rightarrow> string list \<Rightarrow> string list \<Rightarrow> files \<Rightarrow> ((io_error + unit) \<times> files) option" where
  "compile_proto_list C B out_dir includes [] fs = Some (Inr (), fs)"
| "compile_proto_list C B out_dir includes (p # ps) fs =
     (case compile_proto C B out_dir includes p fs of
        None \<Rightarrow> None
      | Some (Inl e, fs') \<Rightarrow> Some (Inl e, fs')
      | Some (Inr _, fs') \<Rightarrow> compile_proto_list C B out_dir includes ps fs')"

definition compile_protos ::
  "codegen_ext \<Rightarrow> ('f, 's) build_ext \<Rightarrow> string list \<Rightarrow> string list \<Rightarrow> files \<Rightarrow> ((io_error + unit) \<times> files) option" where
  "compile_protos C B protos includes fs =
     (case be_out_dir B of
        Inl e \<Rightarrow> Some (Inl (OtherError, ''OUT_DIR not set: '' @ e), fs)
      | Inr out_dir \<Rightarrow> compile_proto_list C B out_dir includes protos fs)"

subsection \<open>FlatBuffers\<close>

definition compile_fbs_dart ::
  "codegen_ext \<Rightarrow> ('f, 's) build_ext \<Rightarrow> string list \<Rightarrow> string list \<Rightarrow> string \<Rightarrow> files \<Rightarrow> ((io_error + unit) \<times> files) option" where
  "compile_fbs_dart C B fbs_files includes proto_path fs =
     (case be_out_dir B of
        Inl e \<Rightarrow> Some (Inl (OtherError, ''OUT_DIR not set: '' @ e), fs)
      | Inr out_dir \<Rightarrow>
        (case be_compile_fbs B fbs_files includes of
           Inl e \<Rightarrow> Some (Inl (OtherError, ''flatbuffers compilation failed: '' @ e), fs)
         | Inr schema \<Rightarrow>
           (case be_fbs_schema B schema of
              Inl e \<Rightarrow> Some (Inl (OtherError, ''schema conversion failed: '' @ e), fs)
            | Inr schema_def \<Rightarrow>
              (case generate_dart_client C schema_def proto_path of
                 None \<Rightarrow> None
               | Some code \<Rightarrow>
                   Some (if code \<noteq> [] then fs_write B (path_join out_dir ''grpc_clients.dart'') code fs
                         else (Inr (), fs))))))"

definition grpc_stubs_code :: "codegen_ext \<Rightarrow> ('f, 's) build_ext \<Rightarrow> schema_def \<Rightarrow> (io_error + string) option" where
  "grpc_stubs_code C B schema_def =
     (if sc_services schema_def = [] then Some (Inr (''// no services declared in schema'' @ [CHR 0x0A]))
      else case generate_grpc_stubs C schema_def of
        None \<Rightarrow> None
      | Some (Inl e) \<Rightarrow> Some (Inl (OtherError, ''flatbuffers gRPC stub codegen failed: '' @ e))
      | Some (Inr tokens) \<Rightarrow>
          (case be_format B tokens of
             Inl e \<Rightarrow> Some (Inl (OtherError, ''flatbuffers gRPC stub generator emitted invalid Rust syntax: '' @ e))
           | Inr formatted \<Rightarrow> Some (Inr formatted)))"

definition compile_fbs ::
  "codegen_ext \<Rightarrow> ('f, 's) build_ext \<Rightarrow> string list \<Rightarrow> string list \<Rightarrow> files \<Rightarrow> ((io_error + unit) \<times> files) option" where
  "compile_fbs C B fbs_files includes fs =
     (case be_out_dir B of
        Inl e \<Rightarrow> Some (Inl (OtherError, ''OUT_DIR not set: '' @ e), fs)
      | Inr out_dir \<Rightarrow>
        (case be_compile_fbs B fbs_files includes of
           Inl e \<Rightarrow> Some (Inl (OtherError, ''flatbuffers compilation failed: '' @ e), fs)
         | Inr schema \<Rightarrow>
           (case be_fbs_code B schema of
              Inl e \<Rightarrow> Some (Inl (OtherError, ''flatbuffers codegen failed: '' @ e), fs)
            | Inr code \<Rightarrow>
              let out_name = (case fbs_files of
                    [] \<Rightarrow> ''flatbuffers_generated''
                  | f # _ \<Rightarrow> (case be_file_stem B f of Some s \<Rightarrow> s | None \<Rightarrow> ''flatbuffers_generated''))
              in case fs_write B (path_join out_dir (out_name @ ''_generated.rs'')) code fs of
                (Inl e, fs') \<Rightarrow> Some (Inl e, fs')
              | (Inr _, fs') \<Rightarrow>
                (case be_fbs_schema B schema of
                   Inl e \<Rightarrow> Some (Inl (OtherError, ''schema conversion failed: '' @ e), fs')
                 | Inr schema_def \<Rightarrow>
                   (case grpc_stubs_code C B schema_def of
                      None \<Rightarrow> None
                    | Some (Inl e) \<Rightarrow> Some (Inl e, fs')
                    | Some (Inr stubs) \<Rightarrow> Some (fs_write B (path_join out_dir (out_name @ ''_grpc.rs'')) stubs fs'))))))"

subsection \<open>Lemmas and properties\<close>

lemma write_all_Inr: "write_all B ws fs = (Inr (), fs') \<Longrightarrow> fs' = fs ++ map_of (rev ws)"
proof (induction ws arbitrary: fs)
  case (Cons w ws)
  obtain path content where w: "w = (path, content)" by (cases w)
  with Cons.prems have "write_all B ws (fs(path \<mapsto> content)) = (Inr (), fs')"
    by (auto simp: fs_write_def split: option.splits)
  from Cons.IH [OF this] have "fs' = fs(path \<mapsto> content) ++ map_of (rev ws)" .
  also have "\<dots> = fs ++ map_of (rev (w # ws))"
    by (rule ext) (simp add: w map_add_def split: option.split)
  finally show ?case .
qed simp

lemma compile_proto_Inr:
  assumes "compile_proto C B out_dir includes p fs = Some (Inr (), fs')"
  shows "\<exists>fds modules service_code.
    be_analyze B [case be_file_name B p of Some n \<Rightarrow> n | None \<Rightarrow> ''unknown.proto''] (dir_resolve fs includes) = Inr fds \<and>
    be_generate_rust B fds = Inr modules \<and> write_proto_output B out_dir fds modules service_code fs = (Inr (), fs')"
  using assms by (auto simp: compile_proto_def Let_def split: sum.splits option.splits)

lemma compile_proto_list_snoc:
  "compile_proto_list C B out_dir includes (ps @ [q]) fs = Some (Inr (), fs') \<longleftrightarrow>
     (\<exists>fs1. compile_proto_list C B out_dir includes ps fs = Some (Inr (), fs1) \<and>
        compile_proto C B out_dir includes q fs1 = Some (Inr (), fs'))"
proof (induction ps arbitrary: fs)
  case Nil
  show ?case by (auto split: option.splits prod.splits sum.splits)
next
  case (Cons p ps)
  then show ?case by (auto split: option.splits prod.splits sum.splits)
qed

lemma path_join_last: "name \<noteq> [] \<Longrightarrow> last (path_join dir name) = last name"
  by (simp add: path_join_def)

text \<open>
  Compiling several protobuf files writes one descriptor set, that of the last file: every
  module of the last file has its code and the services, and includes that set; what earlier files
  wrote stays unless the last file has a module of the same name, but the descriptor set their
  modules include is now the last file's.
\<close>

theorem last_proto_wins:
  assumes "compile_protos C B (ps @ [q]) includes fs = Some (Inr (), fs')" "be_out_dir B = Inr out"
  shows "\<exists>fs1 fds modules service_code.
    compile_protos C B ps includes fs = Some (Inr (), fs1) \<and>
    be_analyze B [case be_file_name B q of Some n \<Rightarrow> n | None \<Rightarrow> ''unknown.proto''] (dir_resolve fs1 includes) = Inr fds \<and>
    be_generate_rust B fds = Inr modules \<and>
    fs' (path_join out ''descriptor.bin'') = Some (be_serialize B fds) \<and>
    (\<forall>(m, code)\<in>set modules. distinct (map (\<lambda>(m, _). path_join out m) modules) \<and> path_join out m \<noteq> path_join out ''descriptor.bin'' \<longrightarrow>
       fs' (path_join out m) = Some (combined_code service_code code)) \<and>
    (\<forall>path. modules \<noteq> [] \<and> path \<notin> insert (path_join out ''descriptor.bin'') ((\<lambda>(m, _). path_join out m) ` set modules) \<longrightarrow>
       fs' path = fs1 path)"
proof -
  from assms obtain fs1 where
    before: "compile_protos C B ps includes fs = Some (Inr (), fs1)"
    and q: "compile_proto C B out includes q fs1 = Some (Inr (), fs')"
    by (auto simp: compile_protos_def compile_proto_list_snoc)
  from compile_proto_Inr [OF q] obtain fds modules service_code where
    fds: "be_analyze B [case be_file_name B q of Some n \<Rightarrow> n | None \<Rightarrow> ''unknown.proto''] (dir_resolve fs1 includes) = Inr fds"
    "be_generate_rust B fds = Inr modules" and
    w: "write_proto_output B out fds modules service_code fs1 = (Inr (), fs')" by blast
  let ?d = "path_join out ''descriptor.bin''"
  let ?ms = "map (\<lambda>(m, code). (path_join out m, combined_code service_code code)) modules"
  define extra where "extra = rev (if modules = [] \<and> service_code \<noteq> []
     then [(path_join out (package_to_mod_name (case be_files B fds of [] \<Rightarrow> [] | f # _ \<Rightarrow> unwrap_or_default (pf_package f)) @ ''.rs''),
            service_code)] else [])"
  have fs': "fs' = fs1 ++ map_of (extra @ (?d, be_serialize B fds) # rev ?ms)"
    using write_all_Inr [OF w [unfolded write_proto_output_def]] unfolding extra_def by (simp only: rev_append) simp
  have extra: "modules \<noteq> [] \<Longrightarrow> extra = []" "\<And>p. p \<in> fst ` set extra \<Longrightarrow> last p = CHR ''s''"
    by (auto simp: extra_def path_join_last split: if_splits)
  have "last ?d \<noteq> CHR ''s''" by (simp add: path_join_last)
  then have "?d \<notin> fst ` set extra" using extra(2) by blast
  then have "map_of extra ?d = None" by (simp add: map_of_eq_None_iff)
  then have d: "fs' ?d = Some (be_serialize B fds)" by (simp add: fs' map_add_def)
  have m: "fs' (path_join out m) = Some (combined_code service_code code)"
    if "(m, code) \<in> set modules" "distinct (map (\<lambda>(m, _). path_join out m) modules)" "path_join out m \<noteq> ?d" for m code
  proof -
    have "map fst (rev ?ms) = rev (map (\<lambda>(m, _). path_join out m) modules)"
      by (simp add: rev_map [symmetric] split_def comp_def)
    then have "distinct (map fst (rev ?ms))" using that(2) by simp
    moreover have "(path_join out m, combined_code service_code code) \<in> set (rev ?ms)" using that(1) by force
    ultimately have "map_of (rev ?ms) (path_join out m) = Some (combined_code service_code code)" by (rule map_of_is_SomeI)
    moreover have "extra = []" using that(1) extra(1) by (cases modules) auto
    ultimately show ?thesis using that(3) by (simp add: fs' map_add_def)
  qed
  have "fs' path = fs1 path" if "modules \<noteq> []" "path \<notin> insert ?d ((\<lambda>(m, _). path_join out m) ` set modules)" for path
  proof -
    have "path \<notin> fst ` set (rev ?ms)" using that(2) by force
    then have "map_of (rev ?ms) path = None" by (simp only: map_of_eq_None_iff not_False_eq_True)
    with that extra(1) show ?thesis by (auto simp: fs' map_add_def)
  qed
  with before fds d m show ?thesis by blast
qed

definition sample_build :: "(string, unit) build_ext" where
  "sample_build = \<lparr>be_out_dir = Inr ''out'', be_metadata = (\<lambda>_. Inr ()), be_file_name = Some, be_file_stem = Some,
     be_analyze = (\<lambda>names _. Inr (hd names)), be_generate_rust = (\<lambda>f. Inr [(f @ ''.rs'', ''struct M;'')]),
     be_files = (\<lambda>_. []), be_serialize = (\<lambda>f. ''set of '' @ f), be_format = (\<lambda>_. Inr []), be_unwritable = (\<lambda>_. None),
     be_compile_fbs = (\<lambda>_ _. Inr ()), be_fbs_code = (\<lambda>_. Inr ''readers''),
     be_fbs_schema = (\<lambda>_. Inr \<lparr>sc_messages = [], sc_enums = [], sc_services = []\<rparr>)\<rparr>"

theorem last_proto_wins_witness:
  "\<exists>fs'. compile_protos sample_codegen sample_build [''a'', ''b''] [] Map.empty = Some (Inr (), fs') \<and>
     fs' ''out/a.rs'' = Some (combined_code [] ''struct M;'') \<and> fs' ''out/descriptor.bin'' = Some ''set of b''"
proof -
  have join: "path_join ''out'' name = ''out/'' @ name" if "name \<noteq> []" "hd name \<noteq> CHR ''/''" for name
    using that by (cases name) (simp_all add: path_join_def starts_with_def)
  obtain fs' where c: "compile_protos sample_codegen sample_build ([''a''] @ [''b'']) [] Map.empty = Some (Inr (), fs')"
    and a: "fs' ''out/a.rs'' = Some (combined_code [] ''struct M;'')"
    by (simp add: compile_protos_def compile_proto_def sample_build_def service_tokens_def write_proto_output_def fs_write_def join)
  have "be_out_dir sample_build = Inr ''out''" by (simp add: sample_build_def)
  from last_proto_wins [OF c this] have "fs' ''out/descriptor.bin'' = Some ''set of b''"
    by (auto simp: sample_build_def join)
  with c a show ?thesis by simp
qed

end
