(* ===== verification/Tls.thy ===== *)
theory Tls
  imports Channel H3
begin

section \<open>TLS settings, connections and certificates\<close>

text \<open>
  How the servers and the HTTP/3 channel set up their transports: the TLS part of
  \<^verbatim>\<open>grpc-server/src/server.rs\<close> with the task of an accepted connection, the endpoint and
  the connection loop of \<^verbatim>\<open>h3_server.rs\<close>, and \<^verbatim>\<open>H3Channel::connect\<close>. rustls, quinn
  and the operating system are parameters. The lemmas say which certificates a handler can see, that
  both ends of HTTP/3 offer the same protocol, and when a server's \<^verbatim>\<open>serve\<close> can return.
\<close>

subsection \<open>rustls\<close>

text \<open>The question mark operator.\<close>

definition and_then :: "'e + 'a \<Rightarrow> ('a \<Rightarrow> 'e + 'b) \<Rightarrow> 'e + 'b" where
  "and_then r f = (case r of Inl e \<Rightarrow> Inl e | Inr a \<Rightarrow> f a)"

lemma and_then_simps [simp]: "and_then (Inl e) f = Inl e" "and_then (Inr a) f = f a"
  by (simp_all add: and_then_def)

lemma and_then_Inr: "and_then r f = Inr b \<longleftrightarrow> (\<exists>a. r = Inr a \<and> f a = Inr b)"
  by (cases r) simp_all

text \<open>Collecting results: the first error, or all values.\<close>

fun try_collect :: "('e + 'a) list \<Rightarrow> 'e + 'a list" where
  "try_collect [] = Inr []"
| "try_collect (r # rs) = and_then r (\<lambda>a. and_then (try_collect rs) (\<lambda>as. Inr (a # as)))"

text \<open>
  What the code calls: the certificates and the private key of a PEM file, root stores, the verifier
  of client certificates (with the flag of \<^verbatim>\<open>allow_unauthenticated\<close>), and the two kinds of
  configuration; a server configuration without a verifier is one
  \<^verbatim>\<open>with_no_client_auth\<close>.
\<close>

record ('h, 'c, 'k, 't, 'v, 's, 'd) rustls =
  rl_certs :: "bytes \<Rightarrow> ('h err + 'c) list"
  rl_private_key :: "bytes \<Rightarrow> 'h err + 'k option"
  rl_empty :: 't
  rl_add :: "'t \<Rightarrow> 'c \<Rightarrow> 'h err + 't"
  rl_native_certs :: "'c list"
  rl_verifier :: "'t \<Rightarrow> bool \<Rightarrow> 'h err + 'v"
  rl_server_config :: "'v option \<Rightarrow> 'c list \<Rightarrow> 'k \<Rightarrow> 'h err + 's"
  rl_client_config :: "'t \<Rightarrow> 'd"

definition private_key_of ::
  "('h, 'c, 'k, 't, 'v, 's, 'd) rustls \<Rightarrow> bytes \<Rightarrow> 'h err + 'k" where
  "private_key_of R key_pem =
     and_then (rl_private_key R key_pem) (\<lambda>key. case key of
       Some key \<Rightarrow> Inr key | None \<Rightarrow> Inl (EOther ''no private key found in PEM data'' None))"

subsection \<open>The server over TCP\<close>

definition server_tls ::
  "('h, 'c, 'k, 't, 'v, 's, 'd) rustls \<Rightarrow> 's server \<Rightarrow> bytes \<Rightarrow> bytes \<Rightarrow> 'h err + 's server" where
  "server_tls R s cert_pem key_pem =
     and_then (try_collect (rl_certs R cert_pem)) (\<lambda>certs.
     and_then (private_key_of R key_pem) (\<lambda>key.
     and_then (rl_server_config R None certs key) (\<lambda>config.
     Inr (s\<lparr>sv_tls_config := Some config\<rparr>))))"

text \<open>The loop over the client CAs reads and adds one after the other.\<close>

fun add_ca_certs :: "('t \<Rightarrow> 'c \<Rightarrow> 'e + 't) \<Rightarrow> 't \<Rightarrow> ('e + 'c) list \<Rightarrow> 'e + 't" where
  "add_ca_certs add roots [] = Inr roots"
| "add_ca_certs add roots (ca_cert # ca_certs) =
     and_then ca_cert (\<lambda>c. and_then (add roots c) (\<lambda>roots. add_ca_certs add roots ca_certs))"

definition server_mtls ::
  "('h, 'c, 'k, 't, 'v, 's, 'd) rustls \<Rightarrow> 's server \<Rightarrow> bytes \<Rightarrow> bytes \<Rightarrow> bytes \<Rightarrow> client_auth \<Rightarrow> 'h err + 's server" where
  "server_mtls R s cert_pem key_pem client_ca_pem mode =
     and_then (try_collect (rl_certs R cert_pem)) (\<lambda>certs.
     and_then (private_key_of R key_pem) (\<lambda>key.
     and_then (add_ca_certs (rl_add R) (rl_empty R) (rl_certs R client_ca_pem)) (\<lambda>roots.
     and_then (rl_verifier R roots (mode = AuthOptional)) (\<lambda>verifier.
     and_then (rl_server_config R (Some verifier) certs key) (\<lambda>config.
     Inr (s\<lparr>sv_tls_config := Some config\<rparr>))))))"

text \<open>
  The task of an accepted connection: the handshake when there is a TLS configuration, which yields
  the client's certificates if it presented some, and then hyper with the service. \<open>None\<close>: the
  handshake failed, and the task ends without a request.
\<close>

definition connection_certs ::
  "('s \<Rightarrow> 'i \<Rightarrow> 'h err + 'c list option) \<Rightarrow> ('c \<Rightarrow> bytes) \<Rightarrow> 's server \<Rightarrow> 'i \<Rightarrow> bytes list option option" where
  "connection_certs handshake der s stream =
     (case sv_tls_config s of
        Some config \<Rightarrow>
          (case handshake config stream of
             Inr peer_certificates \<Rightarrow> Some (map_option (map der) peer_certificates)
           | Inl err \<Rightarrow> None)
      | None \<Rightarrow> Some None)"

definition connection_call ::
  "('h, 'x) ext \<Rightarrow> ('s \<Rightarrow> 'i \<Rightarrow> 'h err + 'c list option) \<Rightarrow> ('c \<Rightarrow> bytes) \<Rightarrow> 's server \<Rightarrow> 'i
     \<Rightarrow> (('h, 'x, 'b body_kind) http_request \<Rightarrow> ('h, 'x, 'r body_kind) http_response future)
     \<Rightarrow> ('b \<Rightarrow> bool) \<Rightarrow> ('h, 'x, 'b) http_request \<Rightarrow> ('h, 'x, 'r body_kind) http_response future option" where
  "connection_call X handshake der s stream svc is_end req =
     map_option (\<lambda>peer_certs. hyper_call X (sv_timeout s) peer_certs svc is_end req)
       (connection_certs handshake der s stream)"

text \<open>
  The entry points bind a listener and run the loop; the ones without a signal wait for one that
  never comes.
\<close>

definition no_signal ::
  "(loop_event \<Rightarrow> accept_state \<Rightarrow> accept_state option) \<Rightarrow> loop_event \<Rightarrow> accept_state \<Rightarrow> accept_state option" where
  "no_signal loop ev s = (case ev of Signalled \<Rightarrow> None | _ \<Rightarrow> loop ev s)"

definition server_serve :: "('a \<Rightarrow> 'h err + 'l) \<Rightarrow> 's server \<Rightarrow> 'a \<Rightarrow> 'h err + ('l \<times> accept_state)" where
  "server_serve bind s addr = and_then (bind addr) (\<lambda>listener. Inr (listener, accept_init (sv_concurrency_limit s)))"

subsection \<open>The server over HTTP/3\<close>

text \<open>A configuration with the protocols it offers.\<close>

record 's alpn_config =
  ac_config :: 's
  ac_protocols :: "string list"

definition create_quic_endpoint ::
  "('h, 'c, 'k, 't, 'v, 's, 'd) rustls \<Rightarrow> ('s alpn_config \<Rightarrow> 'h err + 'q) \<Rightarrow> ('q \<Rightarrow> 'a \<Rightarrow> 'h err + 'p)
     \<Rightarrow> 'a \<Rightarrow> bytes \<Rightarrow> bytes \<Rightarrow> 'h err + 'p" where
  "create_quic_endpoint R quic_config endpoint_server addr cert_pem key_pem =
     and_then (try_collect (rl_certs R cert_pem)) (\<lambda>certs.
     and_then (private_key_of R key_pem) (\<lambda>key.
     and_then (rl_server_config R None certs key) (\<lambda>config.
     and_then (quic_config \<lparr>ac_config = config, ac_protocols = [''h3'']\<rparr>) (\<lambda>server_config.
     endpoint_server server_config addr))))"

definition h3_server_serve ::
  "('h, 'c, 'k, 't, 'v, 's, 'd) rustls \<Rightarrow> ('s alpn_config \<Rightarrow> 'h err + 'q) \<Rightarrow> ('q \<Rightarrow> 'a \<Rightarrow> 'h err + 'p)
     \<Rightarrow> h3_server \<Rightarrow> 'a \<Rightarrow> bytes \<Rightarrow> bytes \<Rightarrow> 'h err + ('p \<times> accept_state)" where
  "h3_server_serve R quic_config endpoint_server s addr cert_pem key_pem =
     and_then (create_quic_endpoint R quic_config endpoint_server addr cert_pem key_pem) (\<lambda>endpoint.
     Inr (endpoint, accept_init (h3_concurrency_limit s)))"

text \<open>On an endpoint that is bound already; logging its address fails when it has none.\<close>

definition h3_server_bind ::
  "('h, 'c, 'k, 't, 'v, 's, 'd) rustls \<Rightarrow> ('s alpn_config \<Rightarrow> 'h err + 'q) \<Rightarrow> ('q \<Rightarrow> 'a \<Rightarrow> 'h err + 'p)
     \<Rightarrow> 'a \<Rightarrow> bytes \<Rightarrow> bytes \<Rightarrow> 'h err + 'p" where
  "h3_server_bind R quic_config endpoint_server addr cert_pem key_pem =
     create_quic_endpoint R quic_config endpoint_server addr cert_pem key_pem"

definition h3_serve_endpoint :: "('p \<Rightarrow> 'h err + 'a) \<Rightarrow> h3_server \<Rightarrow> 'p \<Rightarrow> 'h err + ('p \<times> accept_state)" where
  "h3_serve_endpoint local_addr s endpoint =
     and_then (local_addr endpoint) (\<lambda>_. Inr (endpoint, accept_init (h3_concurrency_limit s)))"

text \<open>Binding first and serving then is serving at once, when the endpoint knows its address.\<close>

lemma h3_bind_then_serve:
  assumes "\<And>p. \<exists>a. local_addr p = Inr a"
  shows "and_then (h3_server_bind R quic_config endpoint_server addr cert_pem key_pem) (h3_serve_endpoint local_addr s)
    = h3_server_serve R quic_config endpoint_server s addr cert_pem key_pem"
proof -
  have "h3_serve_endpoint local_addr s = (\<lambda>p. Inr (p, accept_init (h3_concurrency_limit s)))"
  proof
    fix p
    obtain a where "local_addr p = Inr a" using assms by blast
    then show "h3_serve_endpoint local_addr s p = Inr (p, accept_init (h3_concurrency_limit s))"
      by (simp add: h3_serve_endpoint_def and_then_def)
  qed
  then show ?thesis by (simp add: h3_server_bind_def h3_server_serve_def)
qed

text \<open>
  A connection's requests: what accepting yields, until the end or the first error; each is resolved
  and served in a task of its own.
\<close>

fun h3_connection_requests :: "('e + 'r option) list \<Rightarrow> 'r list" where
  "h3_connection_requests [] = []"
| "h3_connection_requests (Inr (Some resolver) # accepts) = resolver # h3_connection_requests accepts"
| "h3_connection_requests (Inr None # accepts) = []"
| "h3_connection_requests (Inl err # accepts) = []"

definition handle_h3_request ::
  "('r \<Rightarrow> 'h err + ('h, 'x, 'h h3_recv_body) http_request) \<Rightarrow> ('h, 'x) ext \<Rightarrow> nat option
     \<Rightarrow> (('h, 'x, 'h h3_recv_body body_kind) http_request \<Rightarrow> ('h, 'x, 'c body_kind) http_response future)
     \<Rightarrow> 'r \<Rightarrow> 'h err + ('h, 'x, 'c body_kind) http_response future" where
  "handle_h3_request resolve_request X timeout svc resolver =
     and_then (resolve_request resolver) (\<lambda>req. Inr (h3_serve_request X timeout svc req))"

subsection \<open>The channel over HTTP/3\<close>

definition build_client_tls_config ::
  "('h, 'c, 'k, 't, 'v, 's, 'd) rustls \<Rightarrow> bytes option \<Rightarrow> 'h err + 'd alpn_config" where
  "build_client_tls_config R ca_pem =
     and_then
       (case ca_pem of
          Some ca_pem \<Rightarrow> and_then (try_collect (rl_certs R ca_pem)) (\<lambda>certs. add_certs (rl_add R) (rl_empty R) certs)
        | None \<Rightarrow> add_certs (rl_add R) (rl_empty R) (rl_native_certs R))
       (\<lambda>root_store. Inr \<lparr>ac_config = rl_client_config R root_store, ac_protocols = [''h3'']\<rparr>)"

text \<open>The parts of a URI, name resolution, socket addresses and quinn's client.\<close>

record ('h, 'u, 'a, 'd, 'q, 'e, 'n) quic_client =
  qc_host :: "'u \<Rightarrow> string option"
  qc_port :: "'u \<Rightarrow> nat option"
  qc_lookup_host :: "string \<Rightarrow> 'h err + 'a list"
  qc_is_ipv6 :: "'a \<Rightarrow> bool"
  qc_parse_addr :: "string \<Rightarrow> 'h err + 'a"
  qc_endpoint :: "'a \<Rightarrow> 'h err + 'e"
  qc_config :: "'d alpn_config \<Rightarrow> 'h err + 'q"
  qc_connect :: "'e \<Rightarrow> 'q \<Rightarrow> 'a \<Rightarrow> string \<Rightarrow> 'h err + 'n"

record 'n h3_channel =
  hc_conn :: 'n
  hc_timeout :: "nat option"

definition h3_bind_addr :: "bool \<Rightarrow> string" where
  "h3_bind_addr is_ipv6 = (if is_ipv6 then ''[::]:0'' else ''0.0.0.0:0'')"

definition h3_connect ::
  "('h, 'c, 'k, 't, 'v, 's, 'd) rustls \<Rightarrow> ('h, 'u, 'a, 'd, 'q, 'e, 'n) quic_client \<Rightarrow> 'u \<Rightarrow> bytes option
     \<Rightarrow> 'h err + 'n h3_channel" where
  "h3_connect R Q uri ca_pem =
     and_then (case qc_host Q uri of Some host \<Rightarrow> Inr host | None \<Rightarrow> Inl (EOther ''URI must have a host'' None)) (\<lambda>host.
     let port = (case qc_port Q uri of Some port \<Rightarrow> port | None \<Rightarrow> 443) in
     and_then (qc_lookup_host Q (host @ '':'' @ show_nat port)) (\<lambda>addrs.
     and_then (case addrs of addr # _ \<Rightarrow> Inr addr | [] \<Rightarrow> Inl (EOther ''failed to resolve host'' None)) (\<lambda>addr.
     and_then (build_client_tls_config R ca_pem) (\<lambda>tls_config.
     and_then (qc_parse_addr Q (h3_bind_addr (qc_is_ipv6 Q addr))) (\<lambda>bind_addr.
     and_then (qc_endpoint Q bind_addr) (\<lambda>endpoint.
     and_then (qc_config Q tls_config) (\<lambda>config.
     and_then (qc_connect Q endpoint config addr host) (\<lambda>conn.
     Inr \<lparr>hc_conn = conn, hc_timeout = None\<rparr>))))))))"

definition h3_channel_with_timeout :: "'n h3_channel \<Rightarrow> nat \<Rightarrow> 'n h3_channel" where
  "h3_channel_with_timeout ch timeout = ch\<lparr>hc_timeout := Some timeout\<rparr>"

subsection \<open>What rustls promises\<close>

text \<open>
  A handshake on a configuration without client authentication yields no certificates; with a
  verifier it yields a chain only when the verifier trusts it, and none only when it allows that.
\<close>

definition handshake_laws ::
  "('h, 'c, 'k, 't, 'v, 's, 'd) rustls \<Rightarrow> ('s \<Rightarrow> 'i \<Rightarrow> 'h err + 'c list option) \<Rightarrow> ('t \<Rightarrow> 'c list \<Rightarrow> bool) \<Rightarrow> bool" where
  "handshake_laws R handshake trusted \<longleftrightarrow>
     (\<forall>certs key config stream peer.
        rl_server_config R None certs key = Inr config \<longrightarrow> handshake config stream = Inr peer \<longrightarrow> peer = None) \<and>
     (\<forall>roots optional verifier certs key config stream peer.
        rl_verifier R roots optional = Inr verifier \<longrightarrow> rl_server_config R (Some verifier) certs key = Inr config \<longrightarrow>
        handshake config stream = Inr peer \<longrightarrow>
        (case peer of None \<Rightarrow> optional | Some chain \<Rightarrow> chain \<noteq> [] \<and> trusted roots chain))"

subsection \<open>Lemmas\<close>

lemma server_mtls_Inr:
  assumes "server_mtls R s cert_pem key_pem client_ca_pem mode = Inr s'"
  shows "\<exists>roots verifier certs key config. s' = s\<lparr>sv_tls_config := Some config\<rparr> \<and>
    add_ca_certs (rl_add R) (rl_empty R) (rl_certs R client_ca_pem) = Inr roots \<and>
    rl_verifier R roots (mode = AuthOptional) = Inr verifier \<and> rl_server_config R (Some verifier) certs key = Inr config"
  using assms by (clarsimp simp: server_mtls_def and_then_Inr) blast

lemma server_tls_Inr:
  assumes "server_tls R s cert_pem key_pem = Inr s'"
  shows "\<exists>certs key config. s' = s\<lparr>sv_tls_config := Some config\<rparr> \<and> rl_server_config R None certs key = Inr config"
  using assms by (auto simp: server_tls_def and_then_Inr)

lemma connection_certs_tls:
  "sv_tls_config s = Some config \<Longrightarrow> connection_certs handshake der s stream = Some certs \<longleftrightarrow>
     (\<exists>peer. handshake config stream = Inr peer \<and> certs = map_option (map der) peer)"
  by (auto simp: connection_certs_def split: sum.split)

lemma hyper_request_certs:
  assumes "extension_laws X" "xt_get_certs X (hq_extensions req) = None"
  shows "xt_get_certs X (hq_extensions (hyper_request X certs is_end req)) = certs"
  using assms by (simp add: extension_laws_def hyper_request_def split: option.split)

text \<open>Where the HTTP/3 channel connects to, and what it trusts.\<close>

lemma ok_or_Inr:
  "(case r of Some a \<Rightarrow> Inr a | None \<Rightarrow> Inl e) = Inr b \<longleftrightarrow> r = Some b"
  "(case rs of a # _ \<Rightarrow> Inr a | [] \<Rightarrow> Inl e) = Inr b \<longleftrightarrow> (\<exists>as. rs = b # as)"
  by (simp_all split: option.split list.split)

lemma build_client_tls_config_Inr:
  "build_client_tls_config R ca_pem = Inr cfg \<Longrightarrow>
     \<exists>roots. cfg = \<lparr>ac_config = rl_client_config R roots, ac_protocols = [''h3'']\<rparr>"
  by (auto simp: build_client_tls_config_def and_then_Inr)

lemma h3_connect_Inr:
  assumes "h3_connect R Q uri ca_pem = Inr ch"
  shows "\<exists>host addr addrs local roots endpoint config.
    qc_host Q uri = Some host \<and>
    qc_lookup_host Q (host @ '':'' @ show_nat (case qc_port Q uri of Some port \<Rightarrow> port | None \<Rightarrow> 443)) = Inr (addr # addrs) \<and>
    qc_parse_addr Q (h3_bind_addr (qc_is_ipv6 Q addr)) = Inr local \<and> qc_endpoint Q local = Inr endpoint \<and>
    qc_config Q \<lparr>ac_config = rl_client_config R roots, ac_protocols = [''h3'']\<rparr> = Inr config \<and>
    qc_connect Q endpoint config addr host = Inr (hc_conn ch) \<and> hc_timeout ch = None"
  using assms
  by (clarsimp simp: h3_connect_def Let_def and_then_Inr ok_or_Inr dest!: build_client_tls_config_Inr) blast

lemma h3_connection_requests_prefix:
  "h3_connection_requests (map (Inr \<circ> Some) rs @ tail) = rs @ h3_connection_requests tail"
  by (induction rs) simp_all

text \<open>After a stop, what is left of the loop is the connections that end.\<close>

lemma stopped_stays:
  assumes "server_loop loop" "accept_run (no_signal loop) evs s = Some s'" "ac_phase s \<in> {StoppedOk, StoppedErr}"
  shows "ac_phase s' = ac_phase s \<and> (\<forall>ev \<in> set evs. \<exists>c. ev = ConnectionDone c)"
  using assms(2,3)
proof (induction evs arbitrary: s)
  case (Cons ev evs)
  obtain s1 where s1: "no_signal loop ev s = Some s1" "accept_run (no_signal loop) evs s1 = Some s'"
    using Cons.prems(1) by (auto split: option.splits)
  have "accept_step ev s = Some s1"
    using s1(1) server_loop_step [OF assms(1)] by (auto simp: no_signal_def split: loop_event.splits)
  then have "ac_phase s1 = ac_phase s \<and> (\<exists>c. ev = ConnectionDone c)"
    using Cons.prems(2) by (auto simp: accept_step_def split: loop_event.splits if_splits)
  with Cons.IH [OF s1(2)] Cons.prems(2) show ?case by auto
qed simp

lemma no_signal_phase:
  "accept_reachable (no_signal tcp_accept_step) n s \<Longrightarrow> ac_phase s \<noteq> StoppedOk"
  by (induction rule: accept_reachable.induct)
     (auto simp: accept_init_def no_signal_def tcp_accept_step_def accept_step_def spawn_connection_def
       split: loop_event.splits loop_phase.splits if_splits)

subsection \<open>Properties\<close>

text \<open>
  C23: A handler can trust the client certificates it finds in a request. On a server with mutual TLS
  a request reaches the service only after a handshake, with a chain the configured authorities
  vouch for, which is exactly the one in the request's extensions; a request without a chain is
  possible only in the optional mode. On a server with plain TLS or without TLS no request has a
  chain. Setting up TLS changes no other setting of the server.
\<close>

theorem peer_certificates_verified:
  assumes laws: "extension_laws X" "handshake_laws R handshake trusted"
    and req: "xt_get_certs X (hq_extensions req) = None"
    and server: "server_mtls R s cert_pem key_pem client_ca_pem mode = Inr s' \<and> tls = Some mode \<or>
      (server_tls R s cert_pem key_pem = Inr s' \<or> s' = s \<and> sv_tls_config s = None) \<and> tls = None"
    and call: "connection_call X handshake der s' stream svc is_end req = Some r"
  shows "sv_timeout s' = sv_timeout s \<and> sv_concurrency_limit s' = sv_concurrency_limit s \<and> sv_http2 s' = sv_http2 s \<and>
    (\<exists>certs req1. r = hyper_call X (sv_timeout s) certs svc is_end req \<and> hyper_call X None certs svc is_end req = svc req1 \<and>
      xt_get_certs X (hq_extensions req1) = certs \<and>
      (case certs of
         None \<Rightarrow> tls \<noteq> Some AuthRequired
       | Some ders \<Rightarrow> tls \<noteq> None \<and> (\<exists>roots chain. ders = map der chain \<and> chain \<noteq> [] \<and> trusted roots chain \<and>
           add_ca_certs (rl_add R) (rl_empty R) (rl_certs R client_ca_pem) = Inr roots)))"
proof -
  obtain certs where certs: "connection_certs handshake der s' stream = Some certs"
    "r = hyper_call X (sv_timeout s') certs svc is_end req"
    using call by (auto simp: connection_call_def)
  have svc: "hyper_call X None certs svc is_end req = svc (hyper_request X certs is_end req)"
    by (simp add: hyper_call_def hyper_request_def Let_def)
  have same: "sv_timeout s' = sv_timeout s" "sv_concurrency_limit s' = sv_concurrency_limit s" "sv_http2 s' = sv_http2 s"
    using server by (auto dest!: server_mtls_Inr server_tls_Inr)
  have "case certs of
         None \<Rightarrow> tls \<noteq> Some AuthRequired
       | Some ders \<Rightarrow> tls \<noteq> None \<and> (\<exists>roots chain. ders = map der chain \<and> chain \<noteq> [] \<and> trusted roots chain \<and>
           add_ca_certs (rl_add R) (rl_empty R) (rl_certs R client_ca_pem) = Inr roots)"
  proof (cases tls)
    case None
    then have "certs = None"
      using server certs(1) laws(2)
      by (auto dest!: server_tls_Inr simp: connection_certs_def handshake_laws_def split: sum.splits option.splits)
    with None show ?thesis by simp
  next
    case (Some m)
    then have "server_mtls R s cert_pem key_pem client_ca_pem m = Inr s'" using server by auto
    then obtain roots verifier cs key config where m: "s' = s\<lparr>sv_tls_config := Some config\<rparr>"
      "add_ca_certs (rl_add R) (rl_empty R) (rl_certs R client_ca_pem) = Inr roots"
      "rl_verifier R roots (m = AuthOptional) = Inr verifier" "rl_server_config R (Some verifier) cs key = Inr config"
      using server_mtls_Inr by metis
    then obtain peer where peer: "handshake config stream = Inr peer" "certs = map_option (map der) peer"
      using certs(1) connection_certs_tls [of s' config handshake der stream certs] by auto
    have "case peer of None \<Rightarrow> m = AuthOptional | Some chain \<Rightarrow> chain \<noteq> [] \<and> trusted roots chain"
      using laws(2) m(3,4) peer(1) unfolding handshake_laws_def by blast
    with Some m(2) peer(2) show ?thesis by (cases peer) auto
  qed
  with certs(2) svc same hyper_request_certs [OF laws(1) req] show ?thesis
    by (intro conjI exI [of _ certs] exI [of _ "hyper_request X certs is_end req"]) simp_all
qed

text \<open>
  An instance: a PEM file is one certificate, a root trusts the chains that end in it, and a client
  presents a chain or none.
\<close>

definition ref_rustls :: "(alist, bytes, bytes, bytes list, bytes list \<times> bool, (bytes list \<times> bool) option, bytes list) rustls" where
  "ref_rustls = \<lparr>rl_certs = (\<lambda>pem. [Inr pem]), rl_private_key = (\<lambda>pem. Inr (Some pem)), rl_empty = [],
     rl_add = (\<lambda>roots c. Inr (c # roots)), rl_native_certs = [], rl_verifier = (\<lambda>roots optional. Inr (roots, optional)),
     rl_server_config = (\<lambda>verifier certs key. Inr verifier), rl_client_config = (\<lambda>roots. roots)\<rparr>"

definition ref_handshake :: "(bytes list \<times> bool) option \<Rightarrow> bytes list option \<Rightarrow> alist err + bytes list option" where
  "ref_handshake config presented =
     (case config of
        None \<Rightarrow> Inr None
      | Some (roots, optional) \<Rightarrow>
          (case presented of
             None \<Rightarrow> if optional then Inr None else Inl (EOther ''certificate required'' None)
           | Some chain \<Rightarrow> if chain \<noteq> [] \<and> last chain \<in> set roots then Inr (Some chain)
               else Inl (EOther ''unknown issuer'' None)))"

lemma ref_handshake_laws: "handshake_laws ref_rustls ref_handshake (\<lambda>roots chain. last chain \<in> set roots)"
  by (auto simp: handshake_laws_def ref_rustls_def ref_handshake_def split: option.splits if_splits)

theorem peer_certificates_verified_witness:
  "\<exists>s r certs req1. server_mtls ref_rustls server_builder [1] [2] [3] AuthRequired = Inr s \<and>
     connection_call ref_ext ref_handshake (\<lambda>c. c) s (Some [[9], [3]]) (\<lambda>_. Never) (\<lambda>_. False) sample_request
       = Some (r :: (alist, bytes list option, unit body_kind) http_response future) \<and>
     xt_get_certs ref_ext (hq_extensions (req1 :: (alist, bytes list option, (alist, alist err) raw_body body_kind) http_request)) = Some certs \<and> last certs = [3]"
proof -
  obtain s where s: "server_mtls ref_rustls server_builder [1] [2] [3] AuthRequired = Inr s"
    by (simp add: server_mtls_def private_key_of_def ref_rustls_def)
  then have "sv_tls_config s = Some (Some ([[3]], False))"
    by (auto simp: server_mtls_def private_key_of_def ref_rustls_def)
  then obtain r where r: "connection_call ref_ext ref_handshake (\<lambda>c. c) s (Some [[9], [3]]) (\<lambda>_. Never) (\<lambda>_. False) sample_request
       = Some (r :: (alist, bytes list option, unit body_kind) http_response future)"
    by (auto simp: connection_call_def connection_certs_def ref_handshake_def)
  have c: "xt_get_certs ref_ext (hq_extensions sample_request) = None" by (simp add: ref_ops sample_request_def)
  have d: "server_mtls ref_rustls server_builder [1] [2] [3] AuthRequired = Inr s \<and> Some AuthRequired = Some AuthRequired \<or>
      (server_tls ref_rustls server_builder [1] [2] = Inr s \<or> s = server_builder \<and> sv_tls_config server_builder = None) \<and>
      Some AuthRequired = None"
    using s by simp
  from peer_certificates_verified [OF ref_extension_laws ref_handshake_laws c d r]
  obtain certs req1 where "xt_get_certs ref_ext (hq_extensions (req1 :: (alist, bytes list option, (alist, alist err) raw_body body_kind) http_request)) = Some certs"
    "\<exists>roots. last certs \<in> set roots \<and> add_ca_certs (rl_add ref_rustls) (rl_empty ref_rustls) (rl_certs ref_rustls [3]) = Inr roots"
    by (fastforce split: option.splits)
  with s r show ?thesis by (fastforce simp: ref_rustls_def)
qed

text \<open>
  C26: How the entry points without a shutdown signal return: the TCP server never returns with
  success, and it does return with an error as soon as one accept fails while it waits for
  connections; from then on it takes no connection, and only the ones being served go on to
  their end. The HTTP/3 server returns with success when its endpoint closes.
\<close>

theorem serve_returns:
  assumes "accept_reachable (no_signal tcp_accept_step) n s" "ac_phase t = Selecting"
  shows "ac_phase s \<noteq> StoppedOk \<and>
    (\<exists>t'. no_signal tcp_accept_step AcceptFailed t = Some t' \<and> ac_phase t' = StoppedErr \<and> ac_serving t' = ac_serving t \<and>
      (\<forall>evs u. accept_run (no_signal tcp_accept_step) evs t' = Some u \<longrightarrow>
         ac_phase u = StoppedErr \<and> (\<forall>ev \<in> set evs. \<exists>c. ev = ConnectionDone c))) \<and>
    (\<exists>t'. no_signal h3_accept_step EndpointClosed t = Some t' \<and> ac_phase t' = StoppedOk)"
proof -
  let ?t = "t\<lparr>ac_phase := StoppedErr\<rparr>"
  have "no_signal tcp_accept_step AcceptFailed t = Some ?t"
    using assms(2) by (simp add: no_signal_def tcp_accept_step_def accept_step_def)
  moreover have "ac_phase u = StoppedErr \<and> (\<forall>ev \<in> set evs. \<exists>c. ev = ConnectionDone c)"
    if "accept_run (no_signal tcp_accept_step) evs ?t = Some u" for evs u
    using stopped_stays [OF _ that] by (simp add: server_loop_def)
  moreover have "no_signal h3_accept_step EndpointClosed t = Some (t\<lparr>ac_phase := StoppedOk\<rparr>)"
    using assms(2) by (simp add: no_signal_def h3_accept_step_def accept_step_def)
  ultimately show ?thesis using no_signal_phase [OF assms(1)] by simp
qed

theorem serve_returns_witness:
  "\<exists>s t. accept_run (no_signal tcp_accept_step) [Accepted 1] (accept_init 2) = Some s \<and>
     no_signal tcp_accept_step AcceptFailed s = Some t \<and> ac_phase t = StoppedErr \<and> ac_serving t = [1]"
proof -
  obtain s where s: "accept_run (no_signal tcp_accept_step) [Accepted 1] (accept_init 2) = Some s"
    "ac_phase s = Selecting" "ac_serving s = [1]"
    by (simp add: no_signal_def tcp_accept_step_def accept_step_def accept_init_def spawn_connection_def)
  have "accept_reachable (no_signal tcp_accept_step) 2 s" by (rule accept_run_reachable [OF accept_reachable.init s(1)])
  from serve_returns [OF this s(2)] s show ?thesis by fastforce
qed

end
