(* ===== verification/Rpc.thy ===== *)
theory Rpc
  imports Grpc_Client Grpc_Server
begin

section \<open>A call from end to end\<close>

text \<open>
  The composition of the client's call, the network and the server's handler: the client sends
  the request its code builds, the network carries the body however it likes to cut it, the
  server's handler decodes it, calls the method, and its response comes back the same way. Nothing
  here is code of the repository but the two ends, which are those of the component theories.
\<close>

subsection \<open>The network\<close>

text \<open>What polling a body \<open>n\<close> times at most puts on the wire.\<close>

definition sent_body :: "('h, 'x) ext \<Rightarrow> nat \<Rightarrow> ('h, 'm) encode_body body_kind \<Rightarrow> 'h body" where
  "sent_body X n k = (case k of KEmpty \<Rightarrow> [] | KWrap b \<Rightarrow> body_events X n b)"

text \<open>A network keeps the bytes in order and the trailers behind them; how it cuts the bytes and
  when they come is its own affair.\<close>

definition network_laws :: "('h body \<Rightarrow> 'h body) \<Rightarrow> bool" where
  "network_laws carry \<longleftrightarrow>
     (\<forall>d. data_only d \<longrightarrow> data_only (carry d) \<and> body_data (carry d) = body_data d) \<and>
     (\<forall>d t. data_only d \<longrightarrow>
        (\<exists>d'. data_only d' \<and> body_data d' = body_data d \<and> carry (d @ [BFrame (FTrailers t)]) = d' @ [BFrame (FTrailers t)]))"

text \<open>Extensions stay in the process they were made in; the receiver starts with none.\<close>

definition carried_request ::
  "('h, 'x) ext \<Rightarrow> ('h body \<Rightarrow> 'h body) \<Rightarrow> nat \<Rightarrow> ('h, 'x, ('h, 'm) encode_body body_kind) http_request \<Rightarrow> ('h, 'x) raw_request" where
  "carried_request X carry n r =
     \<lparr>hq_method = hq_method r, hq_path = hq_path r, hq_version = hq_version r, hq_headers = hq_headers r,
      hq_extensions = xt_empty X, hq_body = as_raw (carry (sent_body X n (hq_body r)))\<rparr>"

definition carried_response ::
  "('h, 'x) ext \<Rightarrow> ('h body \<Rightarrow> 'h body) \<Rightarrow> nat \<Rightarrow> ('h, 'x, 'n) grpc_http_response \<Rightarrow> ('h, 'x) raw_response" where
  "carried_response X carry n r =
     \<lparr>hp_status = hp_status r, hp_version = hp_version r, hp_headers = hp_headers r,
      hp_extensions = xt_empty X, hp_body = as_raw (carry (sent_body X n (hp_body r)))\<rparr>"

text \<open>The transport that reaches a handler over such a network; a handler that does not answer is
  an error of the transport.\<close>

definition reaching ::
  "('h, 'x) ext \<Rightarrow> ('h body \<Rightarrow> 'h body) \<Rightarrow> nat \<Rightarrow> (('h, 'x) raw_request \<Rightarrow> ('h, 'x, 'n) grpc_http_response option)
     \<Rightarrow> ('h, 'x, 'm) transport" where
  "reaching X carry n handler r =
     (case handler (carried_request X carry n r) of
        Some resp \<Rightarrow> Inr (carried_response X carry n resp)
      | None \<Rightarrow> Inl (EStatus (status_new X Unavailable [])))"

text \<open>A message that passes the sender's and the receiver's limits.\<close>

definition deliverable ::
  "('h, 'x) ext \<Rightarrow> ('h, 'm) encoder \<Rightarrow> compression_encoding option \<Rightarrow> nat option \<Rightarrow> nat option \<Rightarrow> 'm \<Rightarrow> bool" where
  "deliverable X E cenc mxs mxr m \<longleftrightarrow>
     (\<exists>f p. frame_of X E cenc mxs m = Inr f \<and> payload_of X E cenc m = Inr p \<and> length p \<le> recv_limit mxr)"

text \<open>Two statuses that agree but for their metadata and source.\<close>

definition same_status :: "'h status \<Rightarrow> 'h status \<Rightarrow> bool" where
  "same_status st st' \<longleftrightarrow> st_code st' = st_code st \<and> st_message st' = st_message st \<and> st_details st' = st_details st"

text \<open>Metadata that agree on every name that is not reserved.\<close>

definition same_metadata :: "('h, 'x) ext \<Rightarrow> 'h \<Rightarrow> 'h \<Rightarrow> bool" where
  "same_metadata X h h' \<longleftrightarrow> (\<forall>k. k \<in> set GRPC_RESERVED_HEADERS \<or> hm_get_all X h' k = hm_get_all X h k)"

text \<open>What a method may answer, and what the caller of a method with one response has of it.\<close>

definition answerable_once ::
  "('h, 'x) ext \<Rightarrow> ('h, 'm, 'n) grpc_server \<Rightarrow> compression_encoding option \<Rightarrow> nat option
     \<Rightarrow> 'h status + ('h, 'x, 'n) response \<Rightarrow> bool" where
  "answerable_once X G acc mxr res \<longleftrightarrow>
     (case res of
        Inl st \<Rightarrow> st_code st \<noteq> Ok \<and> utf8_valid (st_message st)
      | Inr resp \<Rightarrow> deliverable X (gs_encoder G) acc (gs_max_encoding G) mxr (rs_message resp))"

definition once_result ::
  "('h, 'x) ext \<Rightarrow> 'h status + ('h, 'x, 'n) response \<Rightarrow> 'h status + ('h, 'x, 'n) response \<Rightarrow> bool" where
  "once_result X res r \<longleftrightarrow>
     (case res of
        Inl st \<Rightarrow> (\<exists>st'. r = Inl st' \<and> same_status st st')
      | Inr resp \<Rightarrow> (\<exists>resp'. r = Inr resp' \<and> rs_message resp' = rs_message resp \<and>
          same_metadata X (rs_metadata resp) (rs_metadata resp')))"

subsection \<open>Lemmas\<close>

lemma deliverable_frame:
  assumes "deliverable X E cenc mxs mxr m" "codec_laws E D" "compressor_laws X"
  shows "\<exists>p. frame_of X E cenc mxs m = Inr (grpc_frame (cenc \<noteq> None) p) \<and> payload_ok X D cenc mxr (cenc \<noteq> None) p m"
  using assms payload_of_ok [OF assms(2,3)] by (fastforce simp: deliverable_def frame_of_Inr_iff)

text \<open>One message on the wire, in either direction.\<close>

lemma one_message_events:
  assumes "value_laws X" "percent_laws X" "base64_laws X" "frame_of X E cenc mx m = Inr f" "1 < n"
    and "b = new_server E [SrcItem m] cenc mx \<or> b = new_client E [SrcItem m] cenc mx"
  shows "\<exists>evs. data_only evs \<and> body_data evs = f \<and> body_events X n b = evs @ body_end X (eb_role b) None"
  using new_body_events [OF assms(1-3), of "[SrcItem m]" n b E cenc mx] assms(4-6) by auto

text \<open>The trailers of a successful response, after its only message.\<close>

lemma message_ok_trailers:
  assumes "si_state s = ReadHeader" "si_buf s = []" "si_body s = [BFrame (FTrailers t)]" "si_trailers s = None"
    and "from_header_map X t = Some st" "st_code st = Ok" "si_direction s = DirResponse status"
  shows "\<exists>s'. message X D s = (s', Inr None) \<and> si_trailers s' = Some t"
proof -
  have "poll_pass X D s = (s\<lparr>si_body := [], si_trailers := Some t\<rparr>, Some (Ready None))"
    using assms decode_chunk_empty [OF assms(1,2), of X D]
    by (simp add: poll_pass_def decode_poll_frame_def decode_response_def infer_grpc_status_def)
  then have "message X D s = (s\<lparr>si_body := [], si_trailers := Some t\<rparr>, Inr None)"
    by (simp add: message.simps [of X D s] poll_next.simps [of X D s])
  then show ?thesis by auto
qed

lemma response_trailers:
  assumes "si_state s = ReadHeader" "si_buf s @ body_data evs = []" "data_only evs"
    and "si_body s = evs @ [BFrame (FTrailers t)]" "si_trailers s = None" "si_direction s = DirResponse status"
    and "from_header_map X t = Some st" "st_code st = Ok"
  shows "\<exists>s'. streaming_trailers X D s = Some (s', Inr (Some t))"
proof -
  obtain s1 where m: "message X D s = message X D s1"
    and s1: "si_state s1 = ReadHeader" "si_buf s1 = []" "si_body s1 = [BFrame (FTrailers t)]" "same_params s s1"
    using message_drained [of s evs "[BFrame (FTrailers t)]" X D] assms(1-4) by auto
  obtain s2 where "message X D s1 = (s2, Inr None)" "si_trailers s2 = Some t"
    using message_ok_trailers [OF s1(1-3) _ assms(7,8), of status D] s1(4) assms(5,6) by (auto simp: same_params_def)
  with m have "drain X D s = Some (s2, Inr ())" "si_trailers s2 = Some t" by (simp_all add: drain.simps [of X D s])
  then show ?thesis using assms(5) by (simp add: streaming_trailers_def)
qed

text \<open>A status written into the headers of a response without a body.\<close>

lemma status_response_read:
  assumes "header_laws X" "value_laws X" "percent_laws X" "base64_laws X" "utf8_valid (st_message st)"
  shows "\<exists>st'. from_header_map X (hp_headers (status_into_http X b st)) = Some st' \<and>
    st_code st' = st_code st \<and> st_message st' = st_message st \<and> st_details st' = st_details st"
    and "hm_get X (hp_headers (status_into_http X b st)) ENCODING_HEADER = None"
proof -
  let ?h0 = "hm_insert X (hm_empty X) ''content-type'' GRPC_CONTENT_TYPE"
  have ok: "add_header X st ?h0 = (fst (add_header X st ?h0), Inr ())"
    using add_header_Inr [OF assms(2-4), of st ?h0] by (cases "add_header X st ?h0") simp
  have h: "hp_headers (status_into_http X b st) = fst (add_header X st ?h0)"
    by (simp add: status_into_http_def http_response_new_def Let_def) (subst ok, simp)
  have ne: "GRPC_STATUS \<noteq> GRPC_MESSAGE" "GRPC_STATUS \<noteq> GRPC_STATUS_DETAILS" "GRPC_MESSAGE \<noteq> GRPC_STATUS_DETAILS"
    "''content-type'' \<notin> {GRPC_STATUS, GRPC_MESSAGE, GRPC_STATUS_DETAILS, ENCODING_HEADER}"
    "ENCODING_HEADER \<notin> {GRPC_STATUS, GRPC_MESSAGE, GRPC_STATUS_DETAILS}"
    "{GRPC_STATUS, GRPC_MESSAGE, GRPC_STATUS_DETAILS, ENCODING_HEADER} \<subseteq> set GRPC_RESERVED_HEADERS"
    by (simp_all add: status_names GRPC_RESERVED_HEADERS_def ENCODING_HEADER_def)
  note ga = add_header_get_all [OF assms(1-4), of st ?h0] header_lawsD [OF assms(1)]
  have st: "hm_get X (fst (add_header X st ?h0)) GRPC_STATUS = Some (to_header_value (st_code st))"
    and msg: "hm_get X (fst (add_header X st ?h0)) GRPC_MESSAGE
      = (if st_message st = [] then None else Some (pct_encode X (ENCODING_SET X) (st_message st)))"
    and det: "hm_get X (fst (add_header X st ?h0)) GRPC_STATUS_DETAILS
      = (if st_details st = [] then None else Some (b64_encode X False (st_details st)))"
    and enc: "hm_get X (fst (add_header X st ?h0)) ENCODING_HEADER = None"
    using ne by (auto simp: hm_get_eq [OF assms(1)] ga)
  note pct = percent_roundtrip [OF assms(3), of "ENCODING_SET X", OF encoding_set_percent]
  note b64 = base64_roundtrip(1) [OF assms(4)]
  show "\<exists>st'. from_header_map X (hp_headers (status_into_http X b st)) = Some st' \<and>
    st_code st' = st_code st \<and> st_message st' = st_message st \<and> st_details st' = st_details st"
    using assms(5)
    by (simp add: h from_header_map_def st msg det Let_def pct b64 decode_utf8_def code_from_bytes_header_value
        with_details_and_metadata_def)
  show "hm_get X (hp_headers (status_into_http X b st)) ENCODING_HEADER = None" by (simp add: h enc)
qed

subsection \<open>The two directions\<close>

text \<open>The encoding both sides agree on for responses.\<close>

definition negotiated :: "'o grpc_client \<Rightarrow> ('h, 'm, 'n) grpc_server \<Rightarrow> compression_encoding option" where
  "negotiated C G = find (\<lambda>e. is_enabled (gc_accept C) e \<and> is_enabled (gs_send G) e) ENCODINGS"

text \<open>The request a client sends, as the server's handler sees it before it looks at the body.\<close>

lemma request_prepared:
  fixes request :: "('h, 'x, 'm poll list) request"
  defines "source \<equiv> stream_ok (rq_message request) :: ('h, 'm) src_ev list"
  assumes laws: "header_laws X" "value_laws X" and uri: "client_uri X U C path = Inr uri"
    and enc: "\<forall>e. gc_send C = Some e \<longrightarrow> is_enabled (gs_accept G) e"
  shows "\<exists>r. prepare_request X U C (request_map (body_new eb_is_end_stream)
        (request_map (\<lambda>s. new_client E (stream_ok s) (gc_send C) (gc_max_encoding C)) request)) path = Inr r \<and>
    hq_path r = uri \<and> hq_body r = KWrap (new_client E source (gc_send C) (gc_max_encoding C)) \<and>
    from_encoding_header X (hq_headers r) (gs_accept G) = Inr (gc_send C) \<and>
    from_accept_encoding_header X (hq_headers r) (gs_send G) = negotiated C G \<and>
    (\<forall>k. k \<in> set GRPC_RESERVED_HEADERS \<or> hm_get_all X (hq_headers r) k = hm_get_all X (rq_metadata request) k)"
proof -
  let ?b = "new_client E source (gc_send C) (gc_max_encoding C)"
  let ?request = "request_map (body_new eb_is_end_stream)
        (request_map (\<lambda>s. new_client E (stream_ok s) (gc_send C) (gc_max_encoding C)) request)"
  have body: "rq_message ?request = KWrap ?b" "rq_metadata ?request = rq_metadata request"
    by (simp_all add: request_map_def source_def body_new_def new_client_def)
  obtain r where r: "prepare_request X U C ?request path = Inr r" "hq_body r = KWrap ?b" "hq_path r = uri"
    and h: "\<And>k. hm_get_all X (hq_headers r) k =
      (if k = ''te'' then [''trailers''] else if k = ''content-type'' then [GRPC_CONTENT_TYPE]
       else if k = ENCODING_HEADER then (case gc_send C of Some e \<Rightarrow> [encoding_as_str e] | None \<Rightarrow> [])
       else if k = ACCEPT_ENCODING_HEADER then
         (case into_accept_encoding_header_value (gc_accept C) of Some v \<Rightarrow> [v] | None \<Rightarrow> [])
       else if k \<in> set GRPC_RESERVED_HEADERS then [] else hm_get_all X (rq_metadata request) k)"
    using prepare_request_headers [OF laws(1) uri, of ?request] body by auto
  have ne: "ENCODING_HEADER \<notin> {''te'', ''content-type''}" "ACCEPT_ENCODING_HEADER \<notin> {''te'', ''content-type'', ENCODING_HEADER}"
    "{ENCODING_HEADER, ACCEPT_ENCODING_HEADER, ''te'', ''content-type''} \<subseteq> set GRPC_RESERVED_HEADERS"
    by (simp_all add: ENCODING_HEADER_def ACCEPT_ENCODING_HEADER_def GRPC_RESERVED_HEADERS_def)
  have g: "hm_get X (hq_headers r) ENCODING_HEADER = map_option encoding_as_str (gc_send C)"
    "hm_get X (hq_headers r) ACCEPT_ENCODING_HEADER = into_accept_encoding_header_value (gc_accept C)"
    using ne by (auto simp: hm_get_eq [OF laws(1)] h split: option.split)
  have fe: "from_encoding_header X (hq_headers r) (gs_accept G) = Inr (gc_send C)"
    by (rule from_encoding_header_named [OF laws(2) g(1) enc])
  have acc: "from_accept_encoding_header X (hq_headers r) (gs_send G) = negotiated C G"
    unfolding negotiated_def by (rule first_common [OF laws(2) g(2)])
  have md: "k \<in> set GRPC_RESERVED_HEADERS \<or> hm_get_all X (hq_headers r) k = hm_get_all X (rq_metadata request) k" for k
    using ne(3) h [of k] by auto
  show ?thesis by (rule exI [of _ r]) (use r fe acc md in simp)
qed

text \<open>The request of a unary call as it comes out of the network, and what the handler makes of it.\<close>

lemma unary_request_carried:
  assumes laws: "header_laws X" "value_laws X" "percent_laws X" "base64_laws X" "compressor_laws X"
    and net: "network_laws carry" "1 < n" and codec: "codec_laws E (gs_decoder G)"
    and uri: "client_uri X U C path = Inr uri"
    and enc: "\<forall>e. gc_send C = Some e \<longrightarrow> is_enabled (gs_accept G) e"
    and msg: "deliverable X E (gc_send C) (gc_max_encoding C) (gs_max_decoding G) (rq_message request)"
  shows "\<exists>r raw w p. prepare_request X U C (request_map (body_new eb_is_end_stream)
        (request_map (\<lambda>s. new_client E (stream_ok s) (gc_send C) (gc_max_encoding C)) (request_map (\<lambda>m. [Ready m]) request))) path = Inr r \<and>
    carried_request X carry n r = raw \<and> hq_path raw = uri \<and> hq_extensions raw = xt_empty X \<and>
    hq_body raw = as_raw w \<and> data_only w \<and> body_data w = grpc_frame (gc_send C \<noteq> None) p \<and>
    payload_ok X (gs_decoder G) (gc_send C) (gs_max_decoding G) (gc_send C \<noteq> None) p (rq_message request) \<and>
    from_encoding_header X (hq_headers raw) (gs_accept G) = Inr (gc_send C) \<and>
    from_accept_encoding_header X (hq_headers raw) (gs_send G) = negotiated C G \<and>
    same_metadata X (rq_metadata request) (hq_headers raw)"
proof -
  let ?m = "rq_message request"
  let ?b = "new_client E [SrcItem ?m] (gc_send C) (gc_max_encoding C)"
  obtain r where r: "prepare_request X U C (request_map (body_new eb_is_end_stream)
        (request_map (\<lambda>s. new_client E (stream_ok s) (gc_send C) (gc_max_encoding C)) (request_map (\<lambda>m. [Ready m]) request))) path = Inr r"
    "hq_path r = uri" "hq_body r = KWrap ?b"
    "from_encoding_header X (hq_headers r) (gs_accept G) = Inr (gc_send C)"
    "from_accept_encoding_header X (hq_headers r) (gs_send G) = negotiated C G"
    "\<forall>k. k \<in> set GRPC_RESERVED_HEADERS \<or> hm_get_all X (hq_headers r) k = hm_get_all X (rq_metadata request) k"
    using request_prepared [OF laws(1,2) uri enc, of E "request_map (\<lambda>m. [Ready m]) request"]
    by (auto simp: request_map_def stream_ok_def)
  obtain p where p: "frame_of X E (gc_send C) (gc_max_encoding C) ?m = Inr (grpc_frame (gc_send C \<noteq> None) p)"
    "payload_ok X (gs_decoder G) (gc_send C) (gs_max_decoding G) (gc_send C \<noteq> None) p ?m"
    using deliverable_frame [OF msg codec laws(5)] by blast
  obtain evs where evs: "data_only evs" "body_data evs = grpc_frame (gc_send C \<noteq> None) p" "body_events X n ?b = evs"
    using one_message_events [OF laws(2-4) p(1) net(2), of ?b] by (auto simp: body_end_def new_client_def)
  have w: "data_only (carry evs)" "body_data (carry evs) = grpc_frame (gc_send C \<noteq> None) p"
    using net(1) evs by (auto simp: network_laws_def)
  let ?r = "carried_request X carry n r"
  have cr: "hq_headers ?r = hq_headers r" "hq_path ?r = hq_path r" "hq_extensions ?r = xt_empty X" "hq_body ?r = as_raw (carry evs)"
    by (simp_all add: carried_request_def sent_body_def r(3) evs(3))
  show ?thesis
    by (rule exI [of _ r], rule exI [of _ ?r], rule exI [of _ "carry evs"], rule exI [of _ p])
       (use r cr w p(2) in \<open>simp add: same_metadata_def\<close>)
qed

lemma unary_request_arrives:
  assumes laws: "header_laws X" "value_laws X" "percent_laws X" "base64_laws X" "compressor_laws X"
    and net: "network_laws carry" "1 < n" and codec: "codec_laws E (gs_decoder G)"
    and uri: "client_uri X U C path = Inr uri"
    and enc: "\<forall>e. gc_send C = Some e \<longrightarrow> is_enabled (gs_accept G) e"
    and msg: "deliverable X E (gc_send C) (gc_max_encoding C) (gs_max_decoding G) (rq_message request)"
  shows "\<exists>r req. prepare_request X U C (request_map (body_new eb_is_end_stream)
        (request_map (\<lambda>s. new_client E (stream_ok s) (gc_send C) (gc_max_encoding C)) (request_map (\<lambda>m. [Ready m]) request))) path = Inr r \<and>
    map_request_unary X G (carried_request X carry n r) = Some (Inr req) \<and>
    from_accept_encoding_header X (hq_headers (carried_request X carry n r)) (gs_send G) = negotiated C G \<and>
    rq_message req = rq_message request \<and> rq_extensions req = xt_empty X \<and>
    same_metadata X (rq_metadata request) (rq_metadata req)"
proof -
  obtain r w p where r: "prepare_request X U C (request_map (body_new eb_is_end_stream)
        (request_map (\<lambda>s. new_client E (stream_ok s) (gc_send C) (gc_max_encoding C)) (request_map (\<lambda>m. [Ready m]) request))) path = Inr r"
    and raw: "hq_extensions (carried_request X carry n r) = xt_empty X" "hq_body (carried_request X carry n r) = as_raw w"
      "data_only w" "body_data w = grpc_frame (gc_send C \<noteq> None) p"
      "payload_ok X (gs_decoder G) (gc_send C) (gs_max_decoding G) (gc_send C \<noteq> None) p (rq_message request)"
      "from_encoding_header X (hq_headers (carried_request X carry n r)) (gs_accept G) = Inr (gc_send C)"
      "from_accept_encoding_header X (hq_headers (carried_request X carry n r)) (gs_send G) = negotiated C G"
      "same_metadata X (rq_metadata request) (hq_headers (carried_request X carry n r))"
    using unary_request_carried [OF laws net codec uri enc msg] by blast
  have "map_request_unary X G (carried_request X carry n r) = Some (Inr (request_from_http_parts (carried_request X carry n r) (rq_message request)))"
    by (rule map_request_unary_ok [OF raw(6,5,2-4)])
  with r raw show ?thesis
    by (intro exI [of _ r] exI [of _ "request_from_http_parts (carried_request X carry n r) (rq_message request)"])
       (simp add: request_from_http_parts_def)
qed

lemma negotiated_enabled: "negotiated C G = Some e \<Longrightarrow> is_enabled (gc_accept C) e"
  by (auto simp: negotiated_def find_Some_iff)

text \<open>How the client reads a response over the network: a failure, and one message with \<open>Ok\<close>.\<close>

lemma failed_response_read:
  fixes X :: "('h, 'x) ext" and G :: "('h, 'm, 'n) grpc_server"
  assumes laws: "header_laws X" "value_laws X" "percent_laws X" "base64_laws X"
    and st: "st_code st \<noteq> Ok" "utf8_valid (st_message st)"
  shows "\<exists>st'. create_response X C D (carried_response X carry n (map_response X G (Inl st) acc)) = Inl st' \<and>
    st_code st' = st_code st \<and> st_message st' = st_message st \<and> st_details st' = st_details st"
proof -
  let ?resp = "carried_response X carry n (map_response X G (Inl st) acc)"
  have "hp_headers ?resp = hp_headers (status_into_http X (body_empty :: ('h, 'n) encode_body body_kind) st)"
    by (simp add: carried_response_def map_response_def)
  moreover have "from_encoding_header X (hp_headers (status_into_http X (body_empty :: ('h, 'n) encode_body body_kind) st)) (gc_accept C) = Inr None"
    by (rule from_encoding_header_named [OF laws(2)]) (simp_all add: status_response_read(2) [OF laws st(2)])
  ultimately show ?thesis
    using status_response_read(1) [OF laws st(2), of "body_empty :: ('h, 'n) encode_body body_kind"] st(1) by (auto simp: create_response_def)
qed

text \<open>A response whose body is sent whole: the client has its headers and a stream over the carried bytes.\<close>

lemma response_created:
  assumes laws: "header_laws X" "value_laws X"
    and net: "network_laws carry" and sent: "data_only evs"
      "body_events X n (new_server (gs_encoder G) (rs_message resp) (negotiated C G) (gs_max_encoding G)) = evs @ [BFrame (FTrailers t)]"
  shows "\<exists>w. data_only w \<and> body_data w = body_data evs \<and>
    create_response X C D (carried_response X carry n (map_response X G (Inr resp) (negotiated C G)))
      = Inr (response_from_http_parts (carried_response X carry n (map_response X G (Inr resp) (negotiated C G)))
          (new_response X D (as_raw (w @ [BFrame (FTrailers t)])) 200 (negotiated C G) (gc_max_decoding C))) \<and>
    (\<forall>k. k \<in> set GRPC_RESERVED_HEADERS \<or>
       hm_get_all X (hp_headers (carried_response X carry n (map_response X G (Inr resp) (negotiated C G)))) k = hm_get_all X (rs_metadata resp) k)"
proof -
  let ?acc = "negotiated C G"
  let ?http = "map_response X G (Inr resp) ?acc"
  obtain w where w: "data_only w" "body_data w = body_data evs" "carry (evs @ [BFrame (FTrailers t)]) = w @ [BFrame (FTrailers t)]"
    using net sent(1) unfolding network_laws_def by metis
  let ?resp = "carried_response X carry n ?http"
  have resp: "hp_headers ?resp = hp_headers ?http" "hp_status ?resp = 200" "hp_body ?resp = as_raw (w @ [BFrame (FTrailers t)])"
    by (simp_all add: carried_response_def map_response_body sent_body_def sent(2) w(3))
  have ne: "GRPC_STATUS \<noteq> ''content-type''" "GRPC_STATUS \<noteq> ENCODING_HEADER" "ENCODING_HEADER \<noteq> ''content-type''"
    "{GRPC_STATUS, ENCODING_HEADER, ''content-type''} \<subseteq> set GRPC_RESERVED_HEADERS"
    by (simp_all add: GRPC_STATUS_def ENCODING_HEADER_def GRPC_RESERVED_HEADERS_def)
  have none: "from_header_map X (hp_headers ?http) = None"
    using ne by (intro from_header_map_None) (simp add: hm_get_eq [OF laws(1)] map_response_headers [OF laws(1)])
  have "hm_get X (hp_headers ?http) ENCODING_HEADER = map_option encoding_as_str ?acc"
    using ne by (simp add: hm_get_eq [OF laws(1)] map_response_headers [OF laws(1)] split: option.split)
  then have enc: "from_encoding_header X (hp_headers ?http) (gc_accept C) = Inr ?acc"
    using negotiated_enabled by (intro from_encoding_header_named [OF laws(2)]) auto
  have md: "k \<in> set GRPC_RESERVED_HEADERS \<or> hm_get_all X (hp_headers ?http) k = hm_get_all X (rs_metadata resp) k" for k
    using ne(4) map_response_headers [OF laws(1), of G resp ?acc k] by auto
  show ?thesis
    by (rule exI [of _ w]) (simp add: create_response_def resp none enc w md)
qed

lemma ok_response_read:
  fixes X :: "('h, 'x) ext" and G :: "('h, 'm, 'n) grpc_server"
  assumes laws: "header_laws X" "value_laws X" "percent_laws X" "base64_laws X" "compressor_laws X"
    and net: "network_laws carry" "1 < n" and codec: "codec_laws (gs_encoder G) D"
    and msg: "deliverable X (gs_encoder G) (negotiated C G) (gs_max_encoding G) (gc_max_decoding C) (rs_message resp)"
  shows "\<exists>body s1 s2 t http. create_response X C D
        (carried_response X carry n (map_response X G (once_response (Inr resp)) (negotiated C G)))
      = Inr (response_from_http_parts http body) \<and>
    message X (sg_decoder body) (sg_inner body) = (s1, Inr (Some (rs_message resp))) \<and>
    streaming_trailers X (sg_decoder body) s1 = Some (s2, Inr (Some t)) \<and>
    (\<forall>k. k \<in> set GRPC_RESERVED_HEADERS \<or> hm_get_all X t k = []) \<and>
    (\<forall>k. k \<in> set GRPC_RESERVED_HEADERS \<or>
       hm_get_all X (hp_headers (http :: ('h, 'x) raw_response)) k = hm_get_all X (rs_metadata resp) k)"
proof -
  let ?acc = "negotiated C G"
  let ?once = "response_map (\<lambda>m. [SrcItem m]) resp"
  define t where "t = fst (add_header X (status_new X Ok []) (hm_empty X))"
  obtain p where p: "frame_of X (gs_encoder G) ?acc (gs_max_encoding G) (rs_message resp) = Inr (grpc_frame (?acc \<noteq> None) p)"
    "payload_ok X D ?acc (gc_max_decoding C) (?acc \<noteq> None) p (rs_message resp)"
    using deliverable_frame [OF msg codec laws(5)] by blast
  obtain evs where evs: "data_only evs" "body_data evs = grpc_frame (?acc \<noteq> None) p"
    "body_events X n (new_server (gs_encoder G) (rs_message ?once) ?acc (gs_max_encoding G)) = evs @ [BFrame (FTrailers t)]"
    using one_message_events [OF laws(2-4) p(1) net(2), of "new_server (gs_encoder G) [SrcItem (rs_message resp)] ?acc (gs_max_encoding G)"]
    by (auto simp: body_end_def new_server_def t_def response_map_def)
  obtain w where w: "data_only w" "body_data w = grpc_frame (?acc \<noteq> None) p"
    and create: "create_response X C D (carried_response X carry n (map_response X G (Inr ?once) ?acc))
      = Inr (response_from_http_parts (carried_response X carry n (map_response X G (Inr ?once) ?acc))
          (new_response X D (as_raw (w @ [BFrame (FTrailers t)])) 200 ?acc (gc_max_decoding C)))"
    and md: "\<forall>k. k \<in> set GRPC_RESERVED_HEADERS \<or>
       hm_get_all X (hp_headers (carried_response X carry n (map_response X G (Inr ?once) ?acc))) k = hm_get_all X (rs_metadata resp) k"
    using response_created [OF laws(1,2) net(1) evs(1,3), of D] evs(2) by (auto simp: response_map_def)
  define body where "body = new_response X D (as_raw (w @ [BFrame (FTrailers t)])) 200 ?acc (gc_max_decoding C)"
  have dec: "sg_decoder body = D" by (simp add: body_def new_response_def streaming_new_def)
  let ?s = "sg_inner body"
  have s: "si_state ?s = ReadHeader" "si_buf ?s = []" "si_body ?s = w @ [BFrame (FTrailers t)]" "si_encoding ?s = ?acc"
    "si_max_message_size ?s = gc_max_decoding C" "si_direction ?s = DirResponse 200" "si_trailers ?s = None"
    by (simp_all add: body_def new_response_def streaming_new_def map_err_as_raw)
  have ok: "payload_ok X D (si_encoding ?s) (si_max_message_size ?s) (?acc \<noteq> None) p (rs_message resp)" using p(2) s by simp
  have aw: "awaits (?acc \<noteq> None) p [] ?s w [BFrame (FTrailers t)]" using s w by (simp add: awaits_def)
  obtain s1 w1 where m: "message X D ?s = (s1, Inr (Some (rs_message resp)))" "si_state s1 = ReadHeader"
    "si_buf s1 @ body_data w1 = []" "data_only w1" "si_body s1 = w1 @ [BFrame (FTrailers t)]" "same_params ?s s1"
    using message_awaits [OF ok aw] by blast
  have u: "utf8_valid (st_message (status_new X Ok []))" by simp
  obtain st where st: "from_header_map X t = Some st" "st_code st = Ok"
    using status_headers_read [OF laws(1-4) u] by (auto simp: t_def)
  have s1: "si_trailers s1 = None" "si_direction s1 = DirResponse 200"
    using m(6) s(6,7) by (simp_all add: same_params_def)
  obtain s2 where tr: "streaming_trailers X D s1 = Some (s2, Inr (Some t))"
    using response_trailers [OF m(2-5) s1 st] by blast
  have "GRPC_STATUS \<in> set GRPC_RESERVED_HEADERS" by (simp add: GRPC_STATUS_def GRPC_RESERVED_HEADERS_def)
  then have ts: "k \<in> set GRPC_RESERVED_HEADERS \<or> hm_get_all X t k = []" for k
    unfolding t_def add_header_get_all [OF laws(1-4)] header_lawsD(1) [OF laws(1)]
    by (auto simp: metadata_new_def header_lawsD [OF laws(1)] status_names GRPC_RESERVED_HEADERS_def)
  show ?thesis
    unfolding once_response_def map_sum.simps
    by (rule exI [of _ body], rule exI [of _ s1], rule exI [of _ s2], rule exI [of _ t], rule exI [of _ "carried_response X carry n (map_response X G (Inr ?once) ?acc)"])
       (simp add: create [folded body_def] dec m(1) tr ts md)
qed

text \<open>The caller of a method with one response.\<close>

lemma once_result_arrives:
  fixes X :: "('h, 'x) ext" and G :: "('h, 'm, 'n) grpc_server"
  assumes laws: "header_laws X" "value_laws X" "percent_laws X" "base64_laws X" "compressor_laws X"
    and net: "network_laws carry" "1 < n" and codec: "codec_laws (gs_encoder G) D"
    and res: "answerable_once X G (negotiated C G) (gc_max_decoding C) res"
    and call: "client_streaming_call X U C E D tr request path
      = create_response X C D (carried_response X carry n (map_response X G (once_response res) (negotiated C G)))"
  shows "\<exists>r. client_client_streaming X U C E D tr request path = Some r \<and> once_result X res r"
proof (cases res)
  case (Inl st)
  then have st: "st_code st \<noteq> Ok" "utf8_valid (st_message st)" using res by (simp_all add: answerable_once_def)
  from failed_response_read [OF laws(1-4) st, of C D carry n G "negotiated C G"] call Inl show ?thesis
    by (auto simp: client_client_streaming_def once_response_def once_result_def same_status_def)
next
  case (Inr resp)
  then have d: "deliverable X (gs_encoder G) (negotiated C G) (gs_max_encoding G) (gc_max_decoding C) (rs_message resp)"
    using res by (simp add: answerable_once_def)
  obtain body s1 s2 t and http :: "('h, 'x) raw_response" where
    read: "create_response X C D (carried_response X carry n (map_response X G (once_response (Inr resp)) (negotiated C G)))
      = Inr (response_from_http_parts http body)"
    "message X (sg_decoder body) (sg_inner body) = (s1, Inr (Some (rs_message resp)))"
    "streaming_trailers X (sg_decoder body) s1 = Some (s2, Inr (Some t))"
    "\<forall>k. k \<in> set GRPC_RESERVED_HEADERS \<or> hm_get_all X t k = []"
    "\<forall>k. k \<in> set GRPC_RESERVED_HEADERS \<or> hm_get_all X (hp_headers http) k = hm_get_all X (rs_metadata resp) k"
    using ok_response_read [OF laws net codec d] by blast
  let ?resp = "response_from_parts (metadata_merge X (hp_headers http) t) (rs_message resp) (hp_extensions http)"
  have c: "client_client_streaming X U C E D tr request path = Some (Inr ?resp)"
    using call Inr read by (simp add: client_client_streaming_def response_from_http_parts_def)
  have "same_metadata X (rs_metadata resp) (rs_metadata ?resp)"
    using read(4,5) by (auto simp: same_metadata_def response_from_parts_def metadata_merge_def header_lawsD [OF laws(1)])
  with c Inr show ?thesis by (simp add: once_result_def response_from_parts_def)
qed

subsection \<open>The property\<close>

text \<open>
  C2: A unary call reaches the method and comes back. Over any network that keeps the order of the
  bytes, with codecs that undo each other, a request encoding the server accepts, and messages
  within the limits of both sides, the server's method is called with a request that has the caller's
  message and metadata (but for the reserved names), and the client's call returns what
  the method returned for it: its message and metadata, or its status with code, message and details. The two
  sides compress responses with the first encoding the client accepts and the server sends.
\<close>

theorem unary_rpc_end_to_end:
  assumes laws: "header_laws X" "value_laws X" "percent_laws X" "base64_laws X" "compressor_laws X"
    and net: "network_laws carry" "1 < n"
    and codecs: "codec_laws E (gs_decoder G)" "codec_laws (gs_encoder G) D"
    and uri: "client_uri X U C path = Inr uri"
    and enc: "\<forall>e. gc_send C = Some e \<longrightarrow> is_enabled (gs_accept G) e"
    and msg: "deliverable X E (gc_send C) (gc_max_encoding C) (gs_max_decoding G) (rq_message request)"
    and svc: "\<forall>req. rq_message req = rq_message request \<longrightarrow> answerable_once X G (negotiated C G) (gc_max_decoding C) (svc req)"
  shows "\<exists>req r. rq_message req = rq_message request \<and> rq_extensions req = xt_empty X \<and>
    same_metadata X (rq_metadata request) (rq_metadata req) \<and>
    client_unary X U C E D (reaching X carry n (server_unary X G svc)) request path = Some r \<and> once_result X (svc req) r"
proof -
  obtain http req where http: "prepare_request X U C (request_map (body_new eb_is_end_stream)
        (request_map (\<lambda>s. new_client E (stream_ok s) (gc_send C) (gc_max_encoding C)) (request_map (\<lambda>m. [Ready m]) request))) path = Inr http"
    and server: "map_request_unary X G (carried_request X carry n http) = Some (Inr req)"
      "from_accept_encoding_header X (hq_headers (carried_request X carry n http)) (gs_send G) = negotiated C G"
    and req: "rq_message req = rq_message request" "rq_extensions req = xt_empty X"
      "same_metadata X (rq_metadata request) (rq_metadata req)"
    using unary_request_arrives [OF laws net codecs(1) uri enc msg] by blast
  have call: "client_streaming_call X U C E D (reaching X carry n (server_unary X G svc)) (request_map (\<lambda>m. [Ready m]) request) path
      = create_response X C D (carried_response X carry n (map_response X G (once_response (svc req)) (negotiated C G)))"
    by (simp add: client_streaming_call_def http reaching_def server_unary_def server)
  have res: "answerable_once X G (negotiated C G) (gc_max_decoding C) (svc req)" using svc req(1) by blast
  from once_result_arrives [OF laws net codecs(2) res call] req show ?thesis unfolding client_unary_def by blast
qed

text \<open>A network that delivers every byte on its own, after a pause.\<close>

fun byte_wise :: "'h body \<Rightarrow> 'h body" where
  "byte_wise [] = []"
| "byte_wise (BFrame (FData d) # evs) = concat (map (\<lambda>b. [BPending, BFrame (FData [b])]) d) @ byte_wise evs"
| "byte_wise (ev # evs) = ev # byte_wise evs"

lemma byte_wise_data:
  "data_only evs \<Longrightarrow> data_only (concat (map (\<lambda>b. [BPending, BFrame (FData [b])]) d) @ evs)"
  "body_data (concat (map (\<lambda>b. [BPending, BFrame (FData [b])]) d) @ evs) = d @ body_data evs"
  by (induction d) simp_all

lemma byte_wise_network: "network_laws byte_wise"
proof -
  have ok: "data_only evs \<Longrightarrow> data_only (byte_wise evs) \<and> body_data (byte_wise evs) = body_data evs \<and>
      byte_wise (evs @ [BFrame (FTrailers t)]) = byte_wise evs @ [BFrame (FTrailers t)]" for evs :: "'h body" and t
    by (induction evs rule: data_only.induct) (simp_all add: byte_wise_data)
  show ?thesis
    unfolding network_laws_def
  proof (intro conjI allI impI)
    fix d :: "'a body" and t
    assume d: "data_only d"
    from ok [OF d] show "data_only (byte_wise d)" "body_data (byte_wise d) = body_data d" by blast+
    from ok [OF d] show "\<exists>d'. data_only d' \<and> body_data d' = body_data d \<and>
        byte_wise (d @ [BFrame (FTrailers t)]) = d' @ [BFrame (FTrailers t)]" by blast
  qed
qed

abbreviation gzip_client :: "unit grpc_client" where
  "gzip_client \<equiv> client_accept_compressed (client_send_compressed plain_client Gzip) Gzip"

abbreviation gzip_server :: "(alist, bytes, bytes) grpc_server" where
  "gzip_server \<equiv> server_send_compressed (server_accept_compressed raw_server Gzip) Gzip"

lemma gzip_setup:
  "negotiated gzip_client gzip_server = Some Gzip" "client_uri ref_ext plain_uri gzip_client ''/s.S/m'' = Inr ''/s.S/m''"
  "codec_laws raw_encoder (gs_decoder gzip_server)" "codec_laws (gs_encoder gzip_server) raw_decoder"
  "\<forall>e. gc_send gzip_client = Some e \<longrightarrow> is_enabled (gs_accept gzip_server) e"
  "gs_encoder gzip_server = raw_encoder" "gc_send gzip_client = Some Gzip"
  "gc_max_encoding gzip_client = None" "gc_max_decoding gzip_client = None"
  "gs_max_encoding gzip_server = None" "gs_max_decoding gzip_server = None"
  by (simp_all add: client_accept_compressed_def client_send_compressed_def plain_client_def client_with_origin_def
      server_send_compressed_def server_accept_compressed_def grpc_server_new_def enable_def is_enabled_def
      negotiated_def ENCODINGS_def client_uri_def plain_uri_def prost_codec_laws)

lemma gzip_payload:
  assumes "m = [] \<or> hd m \<noteq> 255" "length m < 1000"
  shows "payload_of ref_ext raw_encoder (Some Gzip) m = Inr (31 # m)" "\<exists>f. frame_of ref_ext raw_encoder (Some Gzip) None m = Inr f"
proof -
  show p: "payload_of ref_ext raw_encoder (Some Gzip) m = Inr (31 # m)"
    using assms(1) by (simp add: payload_of_def prost_encoder_def prost_encode_def raw_encode_def compress_def ref_ops store_compress_def)
  show "\<exists>f. frame_of ref_ext raw_encoder (Some Gzip) None m = Inr f"
    using assms(2) p by (simp add: frame_of_Inr_iff send_limit_def DEFAULT_MAX_SEND_MESSAGE_SIZE_def)
qed

lemma gzip_deliverable:
  "m = [] \<or> hd m \<noteq> 255 \<Longrightarrow> length m < 1000 \<Longrightarrow> deliverable ref_ext raw_encoder (Some Gzip) None None m"
  using gzip_payload [of m] by (auto simp: deliverable_def recv_limit_def DEFAULT_MAX_RECV_MESSAGE_SIZE_def)

theorem unary_rpc_end_to_end_witness:
  "\<exists>resp. client_unary ref_ext plain_uri gzip_client raw_encoder raw_decoder
       (reaching ref_ext byte_wise 4 (server_unary ref_ext gzip_server (\<lambda>r. Inr (response_new ref_ext (rev (rq_message r))))))
       (request_new ref_ext [7, 8]) ''/s.S/m'' = Some (Inr resp) \<and> rs_message resp = [8, 7]"
proof -
  let ?C = gzip_client and ?G = gzip_server
  have msg: "deliverable ref_ext raw_encoder (gc_send ?C) (gc_max_encoding ?C) (gs_max_decoding ?G) (rq_message (request_new ref_ext [7, 8]))"
    unfolding gzip_setup by (rule gzip_deliverable) (simp_all add: request_new_def)
  have svc: "\<forall>req. rq_message req = rq_message (request_new ref_ext [7, 8]) \<longrightarrow>
      answerable_once ref_ext ?G (negotiated ?C ?G) (gc_max_decoding ?C)
        (Inr (response_new ref_ext (rev (rq_message req))) :: alist status + (alist, bytes list option, bytes) response)"
    unfolding gzip_setup answerable_once_def by (simp add: gzip_deliverable request_new_def response_new_def)
  from unary_rpc_end_to_end [OF ref_header_laws ref_value_laws ref_percent_laws ref_base64_laws ref_compressor_laws
      byte_wise_network _ gzip_setup(3,4,2,5) msg svc, of 4]
  show ?thesis by (auto simp: once_result_def request_new_def response_new_def)
qed

end
