(* ===== verification/Streaming_Rpc.thy ===== *)
theory Streaming_Rpc
  imports Rpc
begin

section \<open>Streaming calls from end to end\<close>

text \<open>
  The three kinds of calls with streams, composed as in \<open>Rpc\<close>: the client's side of
  \<^verbatim>\<open>grpc-client/src/grpc.rs\<close>, any network that keeps the order of the bytes, and the
  server's side of \<^verbatim>\<open>grpc-server/src/grpc.rs\<close>. A method with a stream of requests gets the
  decoder's state and reads it as it likes; the statements say what reading it to its end yields.
\<close>

subsection \<open>Streams\<close>

text \<open>The messages of a request stream, whatever its pauses.\<close>

definition stream_items :: "'m poll list \<Rightarrow> 'm list" where
  "stream_items ps = concat (map (\<lambda>p. case p of Pending \<Rightarrow> [] | Ready m \<Rightarrow> [m]) ps)"

text \<open>Reading a stream to its end yields these messages and ends so.\<close>

definition stream_yields :: "('h, 'x) ext \<Rightarrow> ('h, 'm) streaming \<Rightarrow> 'm list \<Rightarrow> 'h status + unit \<Rightarrow> bool" where
  "stream_yields X strm ms e \<longleftrightarrow> collect X (sg_decoder strm) (Suc (length ms)) (sg_inner strm) = (ms, Some e)"

text \<open>All messages pass the sender's and the receiver's limits; the status the server ends with.\<close>

definition deliverable_stream ::
  "('h, 'x) ext \<Rightarrow> ('h, 'm) encoder \<Rightarrow> compression_encoding option \<Rightarrow> nat option \<Rightarrow> nat option \<Rightarrow> ('h, 'm) src_ev list \<Rightarrow> bool" where
  "deliverable_stream X E cenc mxs mxr src \<longleftrightarrow> all_encode X E cenc mxs src \<and>
     (\<forall>m\<in>set (src_items src). \<forall>p. payload_of X E cenc m = Inr p \<longrightarrow> length p \<le> recv_limit mxr)"

definition final_status ::
  "('h, 'x) ext \<Rightarrow> ('h, 'm) encoder \<Rightarrow> compression_encoding option \<Rightarrow> nat option \<Rightarrow> ('h, 'm) src_ev list \<Rightarrow> 'h status" where
  "final_status X E cenc mxs src =
     (case snd (src_frames X E cenc mxs src) of Some st \<Rightarrow> st | None \<Rightarrow> status_new X Ok [])"

subsection \<open>Lemmas\<close>

lemma stream_ok_items: "src_items (stream_ok ps) = stream_items ps"
  by (induction ps) (auto simp: stream_ok_def stream_items_def split: poll.split)

lemma stream_ok_frames: "all_encode X E cenc mx (stream_ok ps) \<Longrightarrow> snd (src_frames X E cenc mx (stream_ok ps)) = None"
  by (induction ps) (auto simp: stream_ok_def split: poll.split sum.splits prod.splits)

lemma streaming_request_arrives:
  fixes X :: "('h, 'x) ext" and G :: "('h, 'm, 'n) grpc_server" and request :: "('h, 'x, 'm poll list) request"
  assumes laws: "header_laws X" "value_laws X" "percent_laws X" "base64_laws X" "compressor_laws X"
    and net: "network_laws carry" "length (rq_message request) < n" and codec: "codec_laws E (gs_decoder G)"
    and uri: "client_uri X U C path = Inr uri"
    and enc: "\<forall>e. gc_send C = Some e \<longrightarrow> is_enabled (gs_accept G) e"
    and msgs: "deliverable_stream X E (gc_send C) (gc_max_encoding C) (gs_max_decoding G) (stream_ok (rq_message request))"
  shows "\<exists>r req. prepare_request X U C (request_map (body_new eb_is_end_stream)
        (request_map (\<lambda>s. new_client E (stream_ok s) (gc_send C) (gc_max_encoding C)) request)) path = Inr r \<and>
    map_request_streaming X G (carried_request X carry n r) = Inr req \<and>
    from_accept_encoding_header X (hq_headers (carried_request X carry n r)) (gs_send G) = negotiated C G \<and>
    stream_yields X (rq_message req) (stream_items (rq_message request)) (Inr ()) \<and>
    rq_extensions req = xt_empty X \<and> same_metadata X (rq_metadata request) (rq_metadata req)"
proof -
  let ?src = "stream_ok (rq_message request) :: ('h, 'm) src_ev list"
  let ?b = "new_client E ?src (gc_send C) (gc_max_encoding C)"
  obtain r where r: "prepare_request X U C (request_map (body_new eb_is_end_stream)
        (request_map (\<lambda>s. new_client E (stream_ok s) (gc_send C) (gc_max_encoding C)) request)) path = Inr r"
    "hq_body r = KWrap ?b"
    "from_encoding_header X (hq_headers r) (gs_accept G) = Inr (gc_send C)"
    "from_accept_encoding_header X (hq_headers r) (gs_send G) = negotiated C G"
    "\<forall>k. k \<in> set GRPC_RESERVED_HEADERS \<or> hm_get_all X (hq_headers r) k = hm_get_all X (rq_metadata request) k"
    using request_prepared [OF laws(1,2) uri enc, of E request] by blast
  have ae: "all_encode X E (gc_send C) (gc_max_encoding C) ?src"
    and lim: "\<forall>m\<in>set (src_items ?src). \<forall>p. payload_of X E (gc_send C) m = Inr p \<longrightarrow> length p \<le> recv_limit (gs_max_decoding G)"
    using msgs by (simp_all add: deliverable_stream_def)
  have len: "length ?src < n" using net(2) by (simp add: stream_ok_def)
  note sent = client_stream_sent [OF laws(2-4) ae len stream_ok_frames [OF ae]]
  let ?w = "carry (body_events X n ?b)"
  have w: "data_only ?w" "body_data ?w = concat (fst (src_frames X E (gc_send C) (gc_max_encoding C) ?src))"
    using net(1) sent by (auto simp: network_laws_def)
  let ?r = "carried_request X carry n r"
  have cr: "hq_headers ?r = hq_headers r" "hq_extensions ?r = xt_empty X" "hq_body ?r = as_raw ?w"
    by (simp_all add: carried_request_def sent_body_def r(2))
  let ?body = "new_request X (gs_decoder G) (as_raw ?w) (gc_send C) (gs_max_decoding G)"
  have "map_request_streaming X G ?r = Inr (request_from_http_parts ?r ?body)"
    by (simp add: map_request_streaming_def cr r(3))
  moreover have "stream_yields X ?body (stream_items (rq_message request)) (Inr ())"
    using request_stream_read [OF codec laws(5) ae lim w] unfolding stream_ok_items
    by (simp add: stream_yields_def new_request_def streaming_new_def)
  ultimately show ?thesis
    using r cr by (intro exI [of _ r] exI [of _ "request_from_http_parts ?r ?body"])
      (simp add: request_from_http_parts_def same_metadata_def)
qed

lemma response_stream_arrives:
  fixes X :: "('h, 'x) ext" and G :: "('h, 'm, 'n) grpc_server"
  assumes laws: "header_laws X" "value_laws X" "percent_laws X" "base64_laws X" "compressor_laws X"
    and net: "network_laws carry" "length (rs_message resp) < n" and codec: "codec_laws (gs_encoder G) D"
    and msgs: "deliverable_stream X (gs_encoder G) (negotiated C G) (gs_max_encoding G) (gc_max_decoding C) (rs_message resp)"
    and final: "final = final_status X (gs_encoder G) (negotiated C G) (gs_max_encoding G) (rs_message resp)"
      "utf8_valid (st_message final)"
  shows "\<exists>resp' e. create_response X C D (carried_response X carry n (map_response X G (Inr resp) (negotiated C G))) = Inr resp' \<and>
    stream_yields X (rs_message resp') (src_items (rs_message resp)) e \<and>
    (case e of Inr _ \<Rightarrow> st_code final = Ok | Inl st \<Rightarrow> st_code final \<noteq> Ok \<and> same_status final st) \<and>
    same_metadata X (rs_metadata resp) (rs_metadata resp')"
proof -
  let ?acc = "negotiated C G" and ?src = "rs_message resp"
  define t where "t = fst (add_header X final (hm_empty X))"
  have ae: "all_encode X (gs_encoder G) ?acc (gs_max_encoding G) ?src"
    and lim: "\<forall>m\<in>set (src_items ?src). \<forall>p. payload_of X (gs_encoder G) ?acc m = Inr p \<longrightarrow> length p \<le> recv_limit (gc_max_decoding C)"
    using msgs by (simp_all add: deliverable_stream_def)
  obtain evs where evs: "data_only evs" "body_data evs = concat (fst (src_frames X (gs_encoder G) ?acc (gs_max_encoding G) ?src))"
    "body_events X n (new_server (gs_encoder G) ?src ?acc (gs_max_encoding G)) = evs @ [BFrame (FTrailers t)]"
    using server_stream_sent [OF laws(2-4) ae net(2) final(1) [unfolded final_status_def]] by (auto simp: t_def)
  obtain w where w: "data_only w" "body_data w = body_data evs"
    and create: "create_response X C D (carried_response X carry n (map_response X G (Inr resp) ?acc))
      = Inr (response_from_http_parts (carried_response X carry n (map_response X G (Inr resp) ?acc))
          (new_response X D (as_raw (w @ [BFrame (FTrailers t)])) 200 ?acc (gc_max_decoding C)))"
    and md: "\<forall>k. k \<in> set GRPC_RESERVED_HEADERS \<or>
       hm_get_all X (hp_headers (carried_response X carry n (map_response X G (Inr resp) ?acc))) k = hm_get_all X (rs_metadata resp) k"
    using response_created [OF laws(1,2) net(1) evs(1,3), of D] by blast
  obtain st where st: "from_header_map X t = Some st" "same_status final st"
    using status_headers_read [OF laws(1-4) final(2)] by (auto simp: t_def same_status_def)
  let ?body = "new_response X D (as_raw (w @ [BFrame (FTrailers t)])) 200 ?acc (gc_max_decoding C)"
  let ?e = "if st_code st = Ok then Inr () else Inl st"
  have "stream_yields X ?body (src_items ?src) ?e"
    using response_stream_read [OF codec laws(5) ae lim w(1) _ st(1)] w(2) evs(2)
    by (simp add: stream_yields_def new_response_def streaming_new_def)
  with create md st show ?thesis
    by (intro exI [of _ "response_from_http_parts (carried_response X carry n (map_response X G (Inr resp) ?acc)) ?body"] exI [of _ ?e])
       (simp add: response_from_http_parts_def same_metadata_def same_status_def)
qed

text \<open>What the caller of a streaming method has: the method's failure, or its stream.\<close>

definition stream_result ::
  "('h, 'x) ext \<Rightarrow> ('h, 'm, 'n) grpc_server \<Rightarrow> compression_encoding option
     \<Rightarrow> 'h status + ('h, 'x, ('h, 'n) src_ev list) response \<Rightarrow> 'h status + ('h, 'x, ('h, 'n) streaming) response \<Rightarrow> bool" where
  "stream_result X G acc res r \<longleftrightarrow>
     (case res of
        Inl st \<Rightarrow> (\<exists>st'. r = Inl st' \<and> same_status st st')
      | Inr resp \<Rightarrow> (\<exists>resp' e. r = Inr resp' \<and> stream_yields X (rs_message resp') (src_items (rs_message resp)) e \<and>
          (let final = final_status X (gs_encoder G) acc (gs_max_encoding G) (rs_message resp)
           in case e of Inr _ \<Rightarrow> st_code final = Ok | Inl st \<Rightarrow> st_code final \<noteq> Ok \<and> same_status final st) \<and>
          same_metadata X (rs_metadata resp) (rs_metadata resp')))"

text \<open>What a method may answer: a failure, or a stream within the limits that ends soon enough.\<close>

definition answerable ::
  "('h, 'x) ext \<Rightarrow> ('h, 'm, 'n) grpc_server \<Rightarrow> compression_encoding option \<Rightarrow> nat option \<Rightarrow> nat
     \<Rightarrow> 'h status + ('h, 'x, ('h, 'n) src_ev list) response \<Rightarrow> bool" where
  "answerable X G acc mxr n res \<longleftrightarrow>
     (case res of
        Inl st \<Rightarrow> st_code st \<noteq> Ok \<and> utf8_valid (st_message st)
      | Inr resp \<Rightarrow> length (rs_message resp) < n \<and>
          deliverable_stream X (gs_encoder G) acc (gs_max_encoding G) mxr (rs_message resp) \<and>
          utf8_valid (st_message (final_status X (gs_encoder G) acc (gs_max_encoding G) (rs_message resp))))"

lemma stream_result_arrives:
  assumes laws: "header_laws X" "value_laws X" "percent_laws X" "base64_laws X" "compressor_laws X"
    and net: "network_laws carry" and codec: "codec_laws (gs_encoder G) D"
    and res: "answerable X G (negotiated C G) (gc_max_decoding C) n res"
  shows "stream_result X G (negotiated C G) res
    (create_response X C D (carried_response X carry n (map_response X G res (negotiated C G))))"
proof (cases res)
  case (Inl st)
  then have st: "st_code st \<noteq> Ok" "utf8_valid (st_message st)" using res by (simp_all add: answerable_def)
  from failed_response_read [OF laws(1-4) st, of C D carry n G "negotiated C G"] show ?thesis
    by (auto simp: Inl stream_result_def same_status_def)
next
  case (Inr resp)
  let ?final = "final_status X (gs_encoder G) (negotiated C G) (gs_max_encoding G) (rs_message resp)"
  have r: "length (rs_message resp) < n" "utf8_valid (st_message ?final)"
    "deliverable_stream X (gs_encoder G) (negotiated C G) (gs_max_encoding G) (gc_max_decoding C) (rs_message resp)"
    using res by (simp_all add: Inr answerable_def)
  from response_stream_arrives [OF laws net r(1) codec r(3) refl r(2)] show ?thesis
    by (auto simp: Inr stream_result_def Let_def)
qed

subsection \<open>Properties\<close>

text \<open>
  C6: A bidirectional call carries both streams whole. Over any network that keeps the order of the
  bytes, with codecs that undo each other, a request encoding the server accepts, and messages within
  the limits of both sides: the method is called with a stream that yields exactly the caller's
  messages in order, and with the caller's metadata; and the
  caller has the method's failure, or its metadata and a stream that yields exactly the messages the
  method sent and then ends with the status the method ended with.
\<close>

theorem bidi_rpc_end_to_end:
  assumes laws: "header_laws X" "value_laws X" "percent_laws X" "base64_laws X" "compressor_laws X"
    and net: "network_laws carry" "length (rq_message request) < n"
    and codecs: "codec_laws E (gs_decoder G)" "codec_laws (gs_encoder G) D"
    and uri: "client_uri X U C path = Inr uri"
    and enc: "\<forall>e. gc_send C = Some e \<longrightarrow> is_enabled (gs_accept G) e"
    and msgs: "deliverable_stream X E (gc_send C) (gc_max_encoding C) (gs_max_decoding G) (stream_ok (rq_message request))"
    and svc: "\<forall>req. stream_yields X (rq_message req) (stream_items (rq_message request)) (Inr ()) \<longrightarrow>
      answerable X G (negotiated C G) (gc_max_decoding C) n (svc req)"
  shows "\<exists>req. stream_yields X (rq_message req) (stream_items (rq_message request)) (Inr ()) \<and>
    rq_extensions req = xt_empty X \<and> same_metadata X (rq_metadata request) (rq_metadata req) \<and>
    stream_result X G (negotiated C G) (svc req)
      (client_streaming_call X U C E D (reaching X carry n (\<lambda>r. Some (server_streaming X G svc r))) request path)"
proof -
  obtain r req where r: "prepare_request X U C (request_map (body_new eb_is_end_stream)
        (request_map (\<lambda>s. new_client E (stream_ok s) (gc_send C) (gc_max_encoding C)) request)) path = Inr r"
    "map_request_streaming X G (carried_request X carry n r) = Inr req"
    "from_accept_encoding_header X (hq_headers (carried_request X carry n r)) (gs_send G) = negotiated C G"
    and req: "stream_yields X (rq_message req) (stream_items (rq_message request)) (Inr ())"
    "rq_extensions req = xt_empty X" "same_metadata X (rq_metadata request) (rq_metadata req)"
    using streaming_request_arrives [OF laws net codecs(1) uri enc msgs] by blast
  have "client_streaming_call X U C E D (reaching X carry n (\<lambda>r. Some (server_streaming X G svc r))) request path
    = create_response X C D (carried_response X carry n (map_response X G (svc req) (negotiated C G)))"
    by (simp add: client_streaming_call_def r reaching_def server_streaming_def)
  moreover have "stream_result X G (negotiated C G) (svc req)
      (create_response X C D (carried_response X carry n (map_response X G (svc req) (negotiated C G))))"
    by (rule stream_result_arrives [OF laws net(1) codecs(2)]) (use svc req(1) in blast)
  ultimately show ?thesis using req by auto
qed

text \<open>A response stream that is answerable on the example server.\<close>

abbreviation sample_answer :: "alist status + (alist, bytes list option, (alist, bytes) src_ev list) response" where
  "sample_answer \<equiv> Inr (response_new ref_ext [SrcItem [8, 7], SrcPending, SrcErr sample_status])"

lemma sample_answerable: "answerable ref_ext gzip_server (Some Gzip) None 4 sample_answer"
proof -
  obtain f where "frame_of ref_ext raw_encoder (Some Gzip) None [8, 7] = Inr f" using gzip_payload(2) [of "[8, 7]"] by auto
  then show ?thesis
    unfolding answerable_def gzip_setup
    by (simp add: response_new_def deliverable_stream_def final_status_def gzip_payload(1) recv_limit_def
        DEFAULT_MAX_RECV_MESSAGE_SIZE_def sample_status_def utf8_valid_def)
qed

abbreviation sample_stream :: "(alist, bytes list option, bytes poll list) request" where
  "sample_stream \<equiv> request_new ref_ext [Ready [7, 8], Pending, Ready [5]]"

lemma sample_stream_deliverable:
  "deliverable_stream ref_ext raw_encoder (Some Gzip) None None (stream_ok (rq_message sample_stream))"
  "stream_items (rq_message sample_stream) = [[7, 8], [5]]" "length (rq_message sample_stream) < 4"
proof -
  obtain f1 where "frame_of ref_ext raw_encoder (Some Gzip) None [7, 8] = Inr f1" using gzip_payload(2) [of "[7, 8]"] by auto
  moreover obtain f2 where "frame_of ref_ext raw_encoder (Some Gzip) None [5] = Inr f2" using gzip_payload(2) [of "[5]"] by auto
  ultimately show "deliverable_stream ref_ext raw_encoder (Some Gzip) None None (stream_ok (rq_message sample_stream))"
    by (simp add: deliverable_stream_def request_new_def stream_ok_def gzip_payload(1) recv_limit_def DEFAULT_MAX_RECV_MESSAGE_SIZE_def)
qed (simp_all add: request_new_def stream_items_def)

theorem bidi_rpc_end_to_end_witness:
  "\<exists>req :: (alist, bytes list option, (alist, bytes) streaming) request.
    stream_yields ref_ext (rq_message req) [[7, 8], [5]] (Inr ()) \<and>
    stream_result ref_ext gzip_server (Some Gzip) sample_answer
      (client_streaming_call ref_ext plain_uri gzip_client raw_encoder raw_decoder
        (reaching ref_ext byte_wise 4 (\<lambda>r. Some (server_streaming ref_ext gzip_server (\<lambda>_. sample_answer) r)))
        sample_stream ''/s.S/m'')"
proof -
  note cfg = gzip_setup(1,7-11)
  have msgs: "deliverable_stream ref_ext raw_encoder (gc_send gzip_client) (gc_max_encoding gzip_client)
      (gs_max_decoding gzip_server) (stream_ok (rq_message sample_stream))"
    unfolding cfg by (rule sample_stream_deliverable(1))
  have svc: "answerable ref_ext gzip_server (negotiated gzip_client gzip_server) (gc_max_decoding gzip_client) 4 sample_answer"
    unfolding cfg by (rule sample_answerable)
  from bidi_rpc_end_to_end [OF ref_header_laws ref_value_laws ref_percent_laws ref_base64_laws ref_compressor_laws
      byte_wise_network sample_stream_deliverable(3) gzip_setup(3,4,2,5) msgs, of "\<lambda>_. sample_answer"] svc
  show ?thesis unfolding gzip_setup(1) sample_stream_deliverable(2) by blast
qed

text \<open>
  C7: The calls with one stream are carried whole too, under the same conditions. Server streaming: the
  method is called with the caller's message and metadata, and the caller has the method's failure,
  or its metadata and a stream of exactly the method's messages that ends with its status. Client
  streaming: the method's request stream yields exactly the caller's messages, and the caller has the
  method's one response with its metadata, or its failure.
\<close>

theorem one_way_streaming_end_to_end:
  assumes laws: "header_laws X" "value_laws X" "percent_laws X" "base64_laws X" "compressor_laws X"
    and net: "network_laws carry" "1 < n" "length (rq_message stream_request) < n"
    and codecs: "codec_laws E (gs_decoder G)" "codec_laws (gs_encoder G) D"
    and uri: "client_uri X U C path = Inr uri"
    and enc: "\<forall>e. gc_send C = Some e \<longrightarrow> is_enabled (gs_accept G) e"
    and msg: "deliverable X E (gc_send C) (gc_max_encoding C) (gs_max_decoding G) (rq_message request)"
    and msgs: "deliverable_stream X E (gc_send C) (gc_max_encoding C) (gs_max_decoding G) (stream_ok (rq_message stream_request))"
    and lister: "\<forall>req. rq_message req = rq_message request \<longrightarrow> answerable X G (negotiated C G) (gc_max_decoding C) n (lister req)"
    and recorder: "\<forall>req. stream_yields X (rq_message req) (stream_items (rq_message stream_request)) (Inr ()) \<longrightarrow>
      answerable_once X G (negotiated C G) (gc_max_decoding C) (recorder req)"
  shows "(\<exists>req. rq_message req = rq_message request \<and> rq_extensions req = xt_empty X \<and>
      same_metadata X (rq_metadata request) (rq_metadata req) \<and>
      stream_result X G (negotiated C G) (lister req)
        (client_server_streaming X U C E D (reaching X carry n (server_server_streaming X G lister)) request path)) \<and>
    (\<exists>req r. stream_yields X (rq_message req) (stream_items (rq_message stream_request)) (Inr ()) \<and>
      rq_extensions req = xt_empty X \<and> same_metadata X (rq_metadata stream_request) (rq_metadata req) \<and>
      client_client_streaming X U C E D (reaching X carry n (\<lambda>r. Some (server_client_streaming X G recorder r))) stream_request path
        = Some r \<and> once_result X (recorder req) r)"
proof (rule conjI)
  obtain http req where http: "prepare_request X U C (request_map (body_new eb_is_end_stream)
        (request_map (\<lambda>s. new_client E (stream_ok s) (gc_send C) (gc_max_encoding C)) (request_map (\<lambda>m. [Ready m]) request))) path = Inr http"
      "map_request_unary X G (carried_request X carry n http) = Some (Inr req)"
      "from_accept_encoding_header X (hq_headers (carried_request X carry n http)) (gs_send G) = negotiated C G"
    and req: "rq_message req = rq_message request" "rq_extensions req = xt_empty X"
      "same_metadata X (rq_metadata request) (rq_metadata req)"
    using unary_request_arrives [OF laws net(1,2) codecs(1) uri enc msg] by blast
  have "client_server_streaming X U C E D (reaching X carry n (server_server_streaming X G lister)) request path
      = create_response X C D (carried_response X carry n (map_response X G (lister req) (negotiated C G)))"
    by (simp add: client_server_streaming_def client_streaming_call_def http reaching_def server_server_streaming_def)
  moreover have "stream_result X G (negotiated C G) (lister req)
      (create_response X C D (carried_response X carry n (map_response X G (lister req) (negotiated C G))))"
    by (rule stream_result_arrives [OF laws net(1) codecs(2)]) (use lister req(1) in blast)
  ultimately show "\<exists>req. rq_message req = rq_message request \<and> rq_extensions req = xt_empty X \<and>
      same_metadata X (rq_metadata request) (rq_metadata req) \<and>
      stream_result X G (negotiated C G) (lister req)
        (client_server_streaming X U C E D (reaching X carry n (server_server_streaming X G lister)) request path)"
    using req by (intro exI [of _ req]) simp
next
  let ?tr = "reaching X carry n (\<lambda>r. Some (server_client_streaming X G recorder r))"
  obtain http req where http: "prepare_request X U C (request_map (body_new eb_is_end_stream)
        (request_map (\<lambda>s. new_client E (stream_ok s) (gc_send C) (gc_max_encoding C)) stream_request)) path = Inr http"
      "map_request_streaming X G (carried_request X carry n http) = Inr req"
      "from_accept_encoding_header X (hq_headers (carried_request X carry n http)) (gs_send G) = negotiated C G"
    and req: "stream_yields X (rq_message req) (stream_items (rq_message stream_request)) (Inr ())"
      "rq_extensions req = xt_empty X" "same_metadata X (rq_metadata stream_request) (rq_metadata req)"
    using streaming_request_arrives [OF laws net(1,3) codecs(1) uri enc msgs] by blast
  have call: "client_streaming_call X U C E D ?tr stream_request path
      = create_response X C D (carried_response X carry n (map_response X G (once_response (recorder req)) (negotiated C G)))"
    by (simp add: client_streaming_call_def http reaching_def server_client_streaming_def)
  have "answerable_once X G (negotiated C G) (gc_max_decoding C) (recorder req)" using recorder req(1) by blast
  from once_result_arrives [OF laws net(1,2) codecs(2) this call] req
  show "\<exists>req r. stream_yields X (rq_message req) (stream_items (rq_message stream_request)) (Inr ()) \<and>
      rq_extensions req = xt_empty X \<and> same_metadata X (rq_metadata stream_request) (rq_metadata req) \<and>
      client_client_streaming X U C E D ?tr stream_request path = Some r \<and> once_result X (recorder req) r"
    by blast
qed

theorem one_way_streaming_end_to_end_witness:
  "stream_result ref_ext gzip_server (Some Gzip) sample_answer
     (client_server_streaming ref_ext plain_uri gzip_client raw_encoder raw_decoder
       (reaching ref_ext byte_wise 4 (server_server_streaming ref_ext gzip_server (\<lambda>_. sample_answer)))
       (request_new ref_ext [7, 8]) ''/s.S/m'') \<and>
   (\<exists>resp. client_client_streaming ref_ext plain_uri gzip_client raw_encoder raw_decoder
       (reaching ref_ext byte_wise 4 (\<lambda>r. Some (server_client_streaming ref_ext gzip_server (\<lambda>_. Inr (response_new ref_ext [2])) r)))
       sample_stream ''/s.S/m'' = Some (Inr resp) \<and> rs_message resp = [2])"
proof -
  note cfg = gzip_setup(1,7-11)
  let ?one = "Inr (response_new ref_ext [2]) :: alist status + (alist, bytes list option, bytes) response"
  have msg: "deliverable ref_ext raw_encoder (gc_send gzip_client) (gc_max_encoding gzip_client) (gs_max_decoding gzip_server)
      (rq_message (request_new ref_ext [7, 8]))"
    unfolding cfg by (rule gzip_deliverable) (simp_all add: request_new_def)
  have msgs: "deliverable_stream ref_ext raw_encoder (gc_send gzip_client) (gc_max_encoding gzip_client)
      (gs_max_decoding gzip_server) (stream_ok (rq_message sample_stream))"
    unfolding cfg by (rule sample_stream_deliverable(1))
  have lister: "answerable ref_ext gzip_server (negotiated gzip_client gzip_server) (gc_max_decoding gzip_client) 4 sample_answer"
    unfolding cfg by (rule sample_answerable)
  have recorder: "answerable_once ref_ext gzip_server (negotiated gzip_client gzip_server) (gc_max_decoding gzip_client) ?one"
    unfolding gzip_setup answerable_once_def by (simp add: gzip_deliverable response_new_def)
  from one_way_streaming_end_to_end [OF ref_header_laws ref_value_laws ref_percent_laws ref_base64_laws ref_compressor_laws
      byte_wise_network _ sample_stream_deliverable(3) gzip_setup(3,4,2,5) msg msgs, of "\<lambda>_. sample_answer" "\<lambda>_. ?one"]
    lister recorder
  have "stream_result ref_ext gzip_server (negotiated gzip_client gzip_server) sample_answer
     (client_server_streaming ref_ext plain_uri gzip_client raw_encoder raw_decoder
       (reaching ref_ext byte_wise 4 (server_server_streaming ref_ext gzip_server (\<lambda>_. sample_answer)))
       (request_new ref_ext [7, 8]) ''/s.S/m'') \<and>
   (\<exists>r. client_client_streaming ref_ext plain_uri gzip_client raw_encoder raw_decoder
       (reaching ref_ext byte_wise 4 (\<lambda>r. Some (server_client_streaming ref_ext gzip_server (\<lambda>_. ?one) r)))
       sample_stream ''/s.S/m'' = Some r \<and> once_result ref_ext ?one r)" by simp blast
  then show ?thesis unfolding gzip_setup(1) by (auto simp: once_result_def response_new_def)
qed

end
