(* ===== verification/Stack.thy ===== *)
theory Stack
  imports Streaming_Rpc Serve
begin

section \<open>A unary call through the whole server\<close>

text \<open>
  The server's parts put together as \<^verbatim>\<open>Server::serve\<close> runs them: the adapter with the
  deadline (\<open>hyper_call\<close>), the router (\<open>router_call\<close>), the interceptor (\<open>intercepted_call\<close>) and the
  handler of a unary method (\<open>server_unary\<close>), behind a network and a client. The property says what
  the caller gets in every case.
\<close>

subsection \<open>The stack\<close>

text \<open>
  A request's body is wrapped twice on its way to the handler, by the adapter and by the router; each
  wrapper turns the body's errors into statuses, and an ended body is empty.
\<close>

definition unwrapped :: "('h, 'x) ext \<Rightarrow> ('h, 'h err) raw_body body_kind body_kind \<Rightarrow> ('h, 'h err) raw_body" where
  "unwrapped X k = (case k of KWrap (KWrap b) \<Rightarrow> as_raw (map_err_body X b) | _ \<Rightarrow> [])"

definition service_of ::
  "('b body_kind \<Rightarrow> ('h, 'h err) raw_body) \<Rightarrow> (('h, 'x) raw_request \<Rightarrow> ('h, 'x, 'n) grpc_http_response option)
     \<Rightarrow> ('h, 'x, 'b body_kind, ('h, 'n) encode_body body_kind) service" where
  "service_of read handler req = the (handler
     \<lparr>hq_method = hq_method req, hq_path = hq_path req, hq_version = hq_version req, hq_headers = hq_headers req,
      hq_extensions = hq_extensions req, hq_body = read (hq_body req)\<rparr>)"

abbreviation as_service ::
  "('h, 'x) ext \<Rightarrow> (('h, 'x) raw_request \<Rightarrow> ('h, 'x, 'n) grpc_http_response option)
     \<Rightarrow> ('h, 'x, ('h, 'h err) raw_body body_kind body_kind, ('h, 'n) encode_body body_kind) service" where
  "as_service X \<equiv> service_of (unwrapped X)"

text \<open>\<open>delay\<close> is how long the router's future takes.\<close>

definition served ::
  "('h, 'x) ext \<Rightarrow> (('h, 'h err) raw_body \<Rightarrow> bool)
     \<Rightarrow> ((string \<times> ('h, 'x, ('h, 'h err) raw_body body_kind body_kind, ('h, 'n) encode_body body_kind) service) list
         \<Rightarrow> (string \<times> ('h, 'x, ('h, 'h err) raw_body body_kind body_kind, ('h, 'n) encode_body body_kind) service) list)
     \<Rightarrow> ('h, 'x, ('h, 'h err) raw_body body_kind body_kind, ('h, 'n) encode_body body_kind) service router
     \<Rightarrow> nat option \<Rightarrow> bytes list option \<Rightarrow> nat \<Rightarrow> ('h, 'x) raw_request \<Rightarrow> ('h, 'x, 'n) grpc_http_response option" where
  "served X is_end iter router timeout peer_certs delay req =
     (case hyper_call X timeout peer_certs (\<lambda>req. DoneAt delay (router_call X iter (body_is_end_stream is_end) router req)) is_end req of
        DoneAt t resp \<Rightarrow> Some resp
      | Never \<Rightarrow> None)"

text \<open>When a server with a deadline answers.\<close>

definition answer_time :: "nat option \<Rightarrow> nat \<Rightarrow> nat" where
  "answer_time timeout delay = (case timeout of Some d \<Rightarrow> min d delay | None \<Rightarrow> delay)"

subsection \<open>Lemmas\<close>

lemma unwrapped_wrapped:
  assumes "\<And>b. is_end b \<Longrightarrow> b = []"
  shows "unwrapped X (body_new (body_is_end_stream is_end) (body_new is_end (as_raw w))) = as_raw w"
proof (cases "is_end (as_raw w)")
  case True
  then have "as_raw w = []" using assms by blast
  then show ?thesis
    using True by (simp add: unwrapped_def body_new_def body_empty_def body_is_end_stream_def split: body_kind.split)
next
  case False
  then show ?thesis
    by (simp add: unwrapped_def body_new_def body_empty_def body_is_end_stream_def map_err_as_raw)
qed

lemma served_eq:
  "served X is_end iter router timeout peer_certs delay req = Some
     (if \<exists>d. timeout = Some d \<and> d < delay
      then status_into_http X body_empty (status_new X DeadlineExceeded ''request timed out'')
      else router_call X iter (body_is_end_stream is_end) router (hyper_request X peer_certs is_end req))"
  by (auto simp: served_def hyper_call_def hyper_request_def tokio_timeout_def future_map_def Let_def split: option.splits)

lemma encoding_headers_same:
  assumes "header_laws X" "\<forall>k \<in> set GRPC_RESERVED_HEADERS. hm_get_all X h' k = hm_get_all X h k"
  shows "from_encoding_header X h' e = from_encoding_header X h e"
    and "from_accept_encoding_header X h' e = from_accept_encoding_header X h e"
proof -
  have "{ENCODING_HEADER, ACCEPT_ENCODING_HEADER} \<subseteq> set GRPC_RESERVED_HEADERS"
    by (simp add: ENCODING_HEADER_def ACCEPT_ENCODING_HEADER_def GRPC_RESERVED_HEADERS_def)
  then have "hm_get X h' ENCODING_HEADER = hm_get X h ENCODING_HEADER"
    "hm_get X h' ACCEPT_ENCODING_HEADER = hm_get X h ACCEPT_ENCODING_HEADER"
    using assms(2) by (simp_all add: hm_get_eq [OF assms(1)])
  then show "from_encoding_header X h' e = from_encoding_header X h e"
    "from_accept_encoding_header X h' e = from_accept_encoding_header X h e"
    by (simp_all add: from_encoding_header_def from_accept_encoding_header_def)
qed

lemma only_service:
  assumes "\<And>xs. mset (iter xs) = mset xs" "CHR ''/'' \<notin> set name" "CHR ''/'' \<notin> set other"
  shows "route iter (add_service router_new name svc) (''/'' @ other @ ''/'' @ m) = (if other = name then Some svc else None)"
  using route_segment [OF router_ok_add [OF router_ok_new assms(2)] assms(1,3), of svc m]
  by (simp add: add_service_def router_new_def Let_def update_conv)

lemma answered_status: "map_response X G (once_response (Inl st)) acc = status_into_http X body_empty st"
  by (simp add: once_response_def map_response_def)

text \<open>What the stack makes of the request: its result before it is encoded.\<close>

definition stack_result ::
  "('h, 'x) ext \<Rightarrow> nat option \<Rightarrow> nat \<Rightarrow> bool \<Rightarrow> (('h, 'x, unit) request \<Rightarrow> 'h status + ('h, 'x, unit) request)
     \<Rightarrow> (('h, 'x, 'm) request \<Rightarrow> 'h status + ('h, 'x, 'n) response) \<Rightarrow> ('h, 'x, unit) request \<Rightarrow> 'm
     \<Rightarrow> 'h status + ('h, 'x, 'n) response" where
  "stack_result X timeout delay known intercept svc q msg =
     (if \<exists>d. timeout = Some d \<and> d < delay then Inl (status_new X DeadlineExceeded ''request timed out'')
      else if \<not> known then Inl (status_new X Unimplemented ''service not found'')
      else case intercept q of
          Inl st \<Rightarrow> Inl st
        | Inr i \<Rightarrow> svc \<lparr>rq_metadata = rq_metadata i, rq_message = msg, rq_extensions = rq_extensions i\<rparr>)"

text \<open>The router on a request of either server, whose body reads as \<open>w\<close>.\<close>

lemma routed_result:
  fixes X :: "('h, 'x) ext" and G :: "('h, 'm, 'n) grpc_server" and hr :: "('h, 'x, 'b) http_request"
  assumes laws: "header_laws X" and iter: "\<And>xs. mset (iter xs) = mset xs"
    and names: "CHR ''/'' \<notin> set name" "CHR ''/'' \<notin> set other"
    and keeps: "\<forall>q i. intercept q = Inr i \<longrightarrow>
      (\<forall>k \<in> set GRPC_RESERVED_HEADERS. hm_get_all X (rq_metadata i) k = hm_get_all X (rq_metadata q) k)"
    and raw: "hq_path hr = ''/'' @ other @ ''/'' @ m" "read (body_new is_end (hq_body hr)) = as_raw w"
      "data_only w" "body_data w = grpc_frame c p"
      "payload_ok X (gs_decoder G) enc (gs_max_decoding G) c p msg"
      "from_encoding_header X (hq_headers hr) (gs_accept G) = Inr enc"
      "from_accept_encoding_header X (hq_headers hr) (gs_send G) = acc"
  shows "router_call X iter is_end (add_service router_new name (intercepted_call X intercept (service_of read (server_unary X G svc)))) hr
    = map_response X G (once_response (stack_result X None 0 (other = name) intercept svc
        (request_from_parts (hq_headers hr) () (hq_extensions hr)) msg)) acc"
proof (cases "other = name")
  case False
  then show ?thesis
    using only_service [OF iter names, of _ m] raw(1)
    by (simp add: router_call_def Let_def stack_result_def answered_status add_service_def router_new_def)
next
  case True
  let ?q = "request_from_parts (hq_headers hr) () (hq_extensions hr)"
  have rt: "route iter (add_service router_new name s) (hq_path hr) = Some s" for s
    using only_service [OF iter names, of s m] True raw(1) by simp
  show ?thesis
  proof (cases "intercept ?q")
    case (Inl st)
    then show ?thesis
      by (simp add: router_call_def Let_def rt intercepted_call_def stack_result_def answered_status True)
  next
    case (Inr i)
    let ?req = "\<lparr>hq_method = hq_method hr, hq_path = hq_path hr, hq_version = hq_version hr, hq_headers = rq_metadata i,
      hq_extensions = rq_extensions i, hq_body = as_raw w\<rparr>"
    have res: "\<forall>k \<in> set GRPC_RESERVED_HEADERS. hm_get_all X (rq_metadata i) k = hm_get_all X (hq_headers hr) k"
      using keeps Inr by (auto simp: request_from_parts_def)
    have e: "from_encoding_header X (hq_headers ?req) (gs_accept G) = Inr enc"
      "from_accept_encoding_header X (hq_headers ?req) (gs_send G) = acc"
      using encoding_headers_same [OF laws res] raw(6,7) by simp_all
    have "map_request_unary X G ?req = Some (Inr (request_from_http_parts ?req msg))"
      by (rule map_request_unary_ok [OF e(1) raw(5) _ raw(3,4)]) simp
    then have "server_unary X G svc ?req
        = Some (map_response X G (once_response (svc (request_from_http_parts ?req msg))) acc)"
      using e(2) by (simp add: server_unary_def)
    then show ?thesis
      using Inr
      by (simp add: router_call_def Let_def rt intercepted_call_def stack_result_def service_of_def raw(2) True
          request_from_http_parts_def)
  qed
qed

lemma stack_result_late:
  "stack_result X timeout delay known intercept svc q msg =
     (if \<exists>d. timeout = Some d \<and> d < delay then Inl (status_new X DeadlineExceeded ''request timed out'')
      else stack_result X None 0 known intercept svc q msg)"
  unfolding stack_result_def by (cases "\<exists>d. timeout = Some d \<and> d < delay") auto

lemma stack_result_answerable:
  assumes "\<forall>q st. intercept q = Inl st \<longrightarrow> st_code st \<noteq> Ok \<and> utf8_valid (st_message st)"
    and "\<forall>req. rq_message req = msg \<longrightarrow> answerable_once X G acc mxr (svc req)"
  shows "answerable_once X G acc mxr (stack_result X timeout delay known intercept svc q msg)"
proof -
  have "utf8_valid ''request timed out''" "utf8_valid ''service not found''" by (simp_all add: utf8_valid_def)
  moreover have "answerable_once X G acc mxr (Inl st)" if "st_code st \<noteq> Ok" "utf8_valid (st_message st)" for st
    using that by (simp add: answerable_once_def)
  ultimately show ?thesis using assms by (cases "intercept q") (simp_all add: stack_result_def)
qed

lemma served_result:
  fixes X :: "('h, 'x) ext" and G :: "('h, 'm, 'n) grpc_server"
  assumes laws: "header_laws X"
    and ends: "\<And>b. is_end b \<Longrightarrow> b = []" and iter: "\<And>xs. mset (iter xs) = mset xs"
    and names: "CHR ''/'' \<notin> set name" "CHR ''/'' \<notin> set other"
    and keeps: "\<forall>q i. intercept q = Inr i \<longrightarrow>
      (\<forall>k \<in> set GRPC_RESERVED_HEADERS. hm_get_all X (rq_metadata i) k = hm_get_all X (rq_metadata q) k)"
    and raw: "hq_path raw = ''/'' @ other @ ''/'' @ m" "hq_body raw = as_raw w" "data_only w" "body_data w = grpc_frame c p"
      "payload_ok X (gs_decoder G) enc (gs_max_decoding G) c p msg"
      "from_encoding_header X (hq_headers raw) (gs_accept G) = Inr enc"
      "from_accept_encoding_header X (hq_headers raw) (gs_send G) = acc"
    and q: "q = request_from_parts (hq_headers raw) () (hq_extensions (hyper_request X peer_certs is_end raw))"
  shows "served X is_end iter (add_service router_new name (intercepted_call X intercept (as_service X (server_unary X G svc))))
      timeout peer_certs delay raw
    = Some (map_response X G (once_response (stack_result X timeout delay (other = name) intercept svc q msg)) acc)"
proof -
  let ?hr = "hyper_request X peer_certs is_end raw"
  have hr: "hq_path ?hr = ''/'' @ other @ ''/'' @ m" "hq_headers ?hr = hq_headers raw"
    "from_encoding_header X (hq_headers ?hr) (gs_accept G) = Inr enc"
    "from_accept_encoding_header X (hq_headers ?hr) (gs_send G) = acc"
    using raw(1,6,7) by (simp_all add: hyper_request_def)
  have body: "unwrapped X (body_new (body_is_end_stream is_end) (hq_body ?hr)) = as_raw w"
    using unwrapped_wrapped [of is_end X w] ends by (simp add: hyper_request_def raw(2))
  show ?thesis
    using routed_result [where hr = ?hr and read = "unwrapped X" and is_end = "body_is_end_stream is_end",
        OF laws iter names keeps hr(1) body raw(3-5) hr(3,4)]
    by (subst stack_result_late) (auto simp: served_eq q hr(2) answered_status)
qed

text \<open>A service directly behind the router.\<close>

lemma served_handler:
  fixes X :: "('h, 'x) ext" and raw :: "('h, 'x) raw_request"
  assumes ends: "\<And>b. is_end b \<Longrightarrow> b = []" and rt: "route iter R p = Some (as_service X handler)"
    and raw: "hq_path raw = p" "hq_body raw = as_raw w"
    and handler: "handler (raw\<lparr>hq_extensions := hq_extensions (hyper_request X peer_certs is_end raw)\<rparr>) = Some resp"
  shows "served X is_end iter R timeout peer_certs delay raw
    = Some (if \<exists>d. timeout = Some d \<and> d < delay
        then status_into_http X body_empty (status_new X DeadlineExceeded ''request timed out'') else resp)"
proof -
  let ?hr = "hyper_request X peer_certs is_end raw"
  have path: "hq_path ?hr = hq_path raw" by (simp add: hyper_request_def)
  have body: "unwrapped X (body_new (body_is_end_stream is_end) (hq_body ?hr)) = as_raw w"
    using unwrapped_wrapped [of is_end X w] ends by (simp add: hyper_request_def raw(2))
  have "\<lparr>hq_method = hq_method ?hr, hq_path = hq_path ?hr, hq_version = hq_version ?hr, hq_headers = hq_headers ?hr,
      hq_extensions = hq_extensions ?hr, hq_body = as_raw w\<rparr> = raw\<lparr>hq_extensions := hq_extensions ?hr\<rparr>"
    using raw(2) by (cases raw) (simp add: hyper_request_def)
  then have "router_call X iter (body_is_end_stream is_end) R ?hr = resp"
    using handler by (simp add: router_call_def Let_def path raw(1) rt service_of_def body)
  then show ?thesis by (auto simp: served_eq)
qed

text \<open>The only service of a router.\<close>

lemma route_only:
  assumes "\<forall>xs. mset (iter xs) = mset xs" "CHR ''/'' \<notin> set name"
  shows "route iter (add_service router_new name svc) (''/'' @ name @ ''/'' @ m) = Some svc"
  using only_service [of iter name name svc m] assms by simp

text \<open>
  A call to a service that answers one method on the path as a handler does, directly behind the router;
  \<open>timed_result\<close> is what the server's deadline leaves of the method's result.
\<close>

definition timed_result :: "('h, 'x) ext \<Rightarrow> nat option \<Rightarrow> nat \<Rightarrow> 'h status + 'r \<Rightarrow> 'h status + 'r" where
  "timed_result X timeout delay res =
     (if \<exists>d. timeout = Some d \<and> d < delay then Inl (status_new X DeadlineExceeded ''request timed out'') else res)"

lemma late_response:
  "(if \<exists>d. timeout = Some d \<and> d < delay
    then status_into_http X body_empty (status_new X DeadlineExceeded ''request timed out'') else map_response X G res acc)
   = map_response X G (timed_result X timeout delay res) acc"
  unfolding timed_result_def by (auto simp: map_response_def)

lemma once_response_timed: "once_response (timed_result X timeout delay res) = timed_result X timeout delay (once_response res)"
  by (auto simp: once_response_def timed_result_def)

lemma late_answerable:
  "answerable_once X G acc mxr res \<Longrightarrow> answerable_once X G acc mxr (timed_result X timeout delay res)"
  "answerable X G acc mxr n ress \<Longrightarrow> answerable X G acc mxr n (timed_result X timeout delay ress)"
  by (simp_all add: timed_result_def answerable_once_def answerable_def utf8_valid_def)

text \<open>What the handler behind the router is called with, and that it decodes to the caller's message.\<close>

definition delivered ::
  "('h, 'x) ext \<Rightarrow> ('h body \<Rightarrow> 'h body) \<Rightarrow> nat \<Rightarrow> bytes list option \<Rightarrow> (('h, 'h err) raw_body \<Rightarrow> bool)
     \<Rightarrow> ('h, 'x, ('h, 'm) encode_body body_kind) http_request \<Rightarrow> ('h, 'x) raw_request" where
  "delivered X carry n peer_certs is_end r =
     (carried_request X carry n r)\<lparr>hq_extensions := hq_extensions (hyper_request X peer_certs is_end (carried_request X carry n r))\<rparr>"

lemma unary_reaches:
  fixes X :: "('h, 'x) ext" and G :: "('h, 'm, 'n) grpc_server"
  assumes laws: "header_laws X" "value_laws X" "percent_laws X" "base64_laws X" "compressor_laws X"
    and net: "network_laws carry" "1 < n" and codec: "codec_laws E (gs_decoder G)"
    and uri: "client_uri X U C path = Inr uri"
    and enc: "\<forall>e. gc_send C = Some e \<longrightarrow> is_enabled (gs_accept G) e"
    and msg: "deliverable X E (gc_send C) (gc_max_encoding C) (gs_max_decoding G) (rq_message request)"
  shows "\<exists>r req w. prepare_request X U C (request_map (body_new eb_is_end_stream)
        (request_map (\<lambda>s. new_client E (stream_ok s) (gc_send C) (gc_max_encoding C)) (request_map (\<lambda>m. [Ready m]) request))) path = Inr r \<and>
    hq_path (carried_request X carry n r) = uri \<and> hq_body (carried_request X carry n r) = as_raw w \<and>
    map_request_unary X G (delivered X carry n peer_certs is_end r) = Some (Inr req) \<and>
    from_accept_encoding_header X (hq_headers (delivered X carry n peer_certs is_end r)) (gs_send G) = negotiated C G \<and>
    rq_message req = rq_message request \<and> same_metadata X (rq_metadata request) (rq_metadata req)"
proof -
  obtain r w p where r: "prepare_request X U C (request_map (body_new eb_is_end_stream)
        (request_map (\<lambda>s. new_client E (stream_ok s) (gc_send C) (gc_max_encoding C)) (request_map (\<lambda>m. [Ready m]) request))) path = Inr r"
    and raw: "hq_path (carried_request X carry n r) = uri" "hq_body (carried_request X carry n r) = as_raw w"
      "data_only w" "body_data w = grpc_frame (gc_send C \<noteq> None) p"
      "payload_ok X (gs_decoder G) (gc_send C) (gs_max_decoding G) (gc_send C \<noteq> None) p (rq_message request)"
      "from_encoding_header X (hq_headers (carried_request X carry n r)) (gs_accept G) = Inr (gc_send C)"
      "from_accept_encoding_header X (hq_headers (carried_request X carry n r)) (gs_send G) = negotiated C G"
      "same_metadata X (rq_metadata request) (hq_headers (carried_request X carry n r))"
    using unary_request_carried [OF laws net codec uri enc msg] by blast
  let ?raw = "delivered X carry n peer_certs is_end r"
  let ?req = "request_from_http_parts ?raw (rq_message request)"
  have "map_request_unary X G ?raw = Some (Inr ?req)"
    by (rule map_request_unary_ok [OF _ raw(5) _ raw(3,4)]) (simp_all add: delivered_def raw(2,6))
  with r raw(1,2,7,8) show ?thesis
    by (intro exI [of _ r] exI [of _ ?req] exI [of _ w]) (simp add: request_from_http_parts_def delivered_def)
qed

lemma streaming_reaches:
  fixes X :: "('h, 'x) ext" and G :: "('h, 'm, 'n) grpc_server" and request :: "('h, 'x, 'm poll list) request"
  assumes laws: "header_laws X" "value_laws X" "percent_laws X" "base64_laws X" "compressor_laws X"
    and net: "network_laws carry" "length (rq_message request) < n" and codec: "codec_laws E (gs_decoder G)"
    and uri: "client_uri X U C path = Inr uri"
    and enc: "\<forall>e. gc_send C = Some e \<longrightarrow> is_enabled (gs_accept G) e"
    and msgs: "deliverable_stream X E (gc_send C) (gc_max_encoding C) (gs_max_decoding G) (stream_ok (rq_message request))"
  shows "\<exists>r req w. prepare_request X U C (request_map (body_new eb_is_end_stream)
        (request_map (\<lambda>s. new_client E (stream_ok s) (gc_send C) (gc_max_encoding C)) request)) path = Inr r \<and>
    hq_path (carried_request X carry n r) = uri \<and> hq_body (carried_request X carry n r) = as_raw w \<and>
    map_request_streaming X G (delivered X carry n peer_certs is_end r) = Inr req \<and>
    from_accept_encoding_header X (hq_headers (delivered X carry n peer_certs is_end r)) (gs_send G) = negotiated C G \<and>
    stream_yields X (rq_message req) (stream_items (rq_message request)) (Inr ()) \<and>
    same_metadata X (rq_metadata request) (rq_metadata req)"
proof -
  obtain r req where r: "prepare_request X U C (request_map (body_new eb_is_end_stream)
        (request_map (\<lambda>s. new_client E (stream_ok s) (gc_send C) (gc_max_encoding C)) request)) path = Inr r"
    and req: "map_request_streaming X G (carried_request X carry n r) = Inr req"
    "from_accept_encoding_header X (hq_headers (carried_request X carry n r)) (gs_send G) = negotiated C G"
    "stream_yields X (rq_message req) (stream_items (rq_message request)) (Inr ())"
    "same_metadata X (rq_metadata request) (rq_metadata req)"
    using streaming_request_arrives [OF laws net codec uri enc msgs] by blast
  let ?raw = "carried_request X carry n r"
  let ?req = "req\<lparr>rq_extensions := hq_extensions (hyper_request X peer_certs is_end ?raw)\<rparr>"
  have path: "hq_path ?raw = uri"
    using request_prepared [OF laws(1,2) uri enc, of E request] r by (auto simp: carried_request_def)
  obtain w where w: "hq_body ?raw = as_raw w" by (simp add: carried_request_def)
  have "map_request_streaming X G (delivered X carry n peer_certs is_end r) = Inr ?req"
    using req(1) by (auto simp: map_request_streaming_def request_from_http_parts_def delivered_def split: sum.splits)
  with r path w req(2-4) show ?thesis
    by (intro exI [of _ r] exI [of _ ?req] exI [of _ w]) (simp add: delivered_def)
qed

text \<open>What comes back of the response the handler gave.\<close>

lemma service_response:
  fixes X :: "('h, 'x) ext" and G :: "('h, 'm, 'n) grpc_server"
  assumes ends: "\<forall>b. is_end b \<longrightarrow> b = []" and rt: "route iter R p = Some (as_service X handler)"
    and r: "prepare_request X U C (request_map (body_new eb_is_end_stream)
        (request_map (\<lambda>s. new_client E (stream_ok s) (gc_send C) (gc_max_encoding C)) request)) path = Inr r"
      "hq_path (carried_request X carry n r) = p" "hq_body (carried_request X carry n r) = as_raw w"
    and h: "handler (delivered X carry n peer_certs is_end r) = Some (map_response X G res acc)"
  shows "client_streaming_call X U C E D (reaching X carry n (served X is_end iter R timeout peer_certs delay)) request path
    = create_response X C D (carried_response X carry n (map_response X G (timed_result X timeout delay res) acc))"
proof -
  have "served X is_end iter R timeout peer_certs delay (carried_request X carry n r)
      = Some (map_response X G (timed_result X timeout delay res) acc)"
    unfolding late_response [symmetric]
    by (rule served_handler [where handler = handler, OF ends [rule_format] rt r(2,3) h [unfolded delivered_def]])
  then show ?thesis by (simp add: client_streaming_call_def r reaching_def)
qed

text \<open>The four kinds of calls.\<close>

lemma unary_service_call:
  fixes X :: "('h, 'x) ext" and G :: "('h, 'm, 'n) grpc_server"
  assumes laws: "header_laws X" "value_laws X" "percent_laws X" "base64_laws X" "compressor_laws X"
    and net: "network_laws carry" "1 < n"
    and codecs: "codec_laws E (gs_decoder G)" "codec_laws (gs_encoder G) D"
    and uri: "client_uri X U C path = Inr p"
    and enc: "\<forall>e. gc_send C = Some e \<longrightarrow> is_enabled (gs_accept G) e"
    and msg: "deliverable X E (gc_send C) (gc_max_encoding C) (gs_max_decoding G) (rq_message request)"
    and ends: "\<forall>b. is_end b \<longrightarrow> b = []" and rt: "route iter R p = Some (as_service X handler)"
    and handler: "\<forall>r. hq_path r = p \<longrightarrow> handler r = server_unary X G svc r"
    and svc: "\<forall>req. rq_message req = rq_message request \<longrightarrow> answerable_once X G (negotiated C G) (gc_max_decoding C) (svc req)"
  shows "\<exists>req r q. rq_message req = rq_message request \<and> same_metadata X (rq_metadata request) (rq_metadata req) \<and>
    prepare_request X U C (request_map (body_new eb_is_end_stream)
        (request_map (\<lambda>s. new_client E (stream_ok s) (gc_send C) (gc_max_encoding C)) (request_map (\<lambda>m. [Ready m]) request))) path = Inr q \<and>
    hq_path (delivered X carry n peer_certs is_end q) = p \<and>
    map_request_unary X G (delivered X carry n peer_certs is_end q) = Some (Inr req) \<and>
    client_unary X U C E D (reaching X carry n (served X is_end iter R timeout peer_certs delay)) request path = Some r \<and>
    once_result X (timed_result X timeout delay (svc req)) r"
proof -
  obtain q req w where q: "prepare_request X U C (request_map (body_new eb_is_end_stream)
        (request_map (\<lambda>s. new_client E (stream_ok s) (gc_send C) (gc_max_encoding C)) (request_map (\<lambda>m. [Ready m]) request))) path = Inr q"
    and raw: "hq_path (carried_request X carry n q) = p" "hq_body (carried_request X carry n q) = as_raw w"
      "map_request_unary X G (delivered X carry n peer_certs is_end q) = Some (Inr req)"
      "from_accept_encoding_header X (hq_headers (delivered X carry n peer_certs is_end q)) (gs_send G) = negotiated C G"
    and req: "rq_message req = rq_message request" "same_metadata X (rq_metadata request) (rq_metadata req)"
    using unary_reaches [OF laws net codecs(1) uri enc msg, of peer_certs is_end] by blast
  have path: "hq_path (delivered X carry n peer_certs is_end q) = p" by (simp add: delivered_def raw(1))
  have h: "handler (delivered X carry n peer_certs is_end q) = Some (map_response X G (once_response (svc req)) (negotiated C G))"
    using handler path raw(3,4) by (simp add: server_unary_def)
  let ?res = "timed_result X timeout delay (svc req)"
  have "answerable_once X G (negotiated C G) (gc_max_decoding C) ?res" using svc req(1) late_answerable(1) by blast
  from once_result_arrives [OF laws net codecs(2) this
      service_response [where handler = handler, OF ends rt q raw(1,2) h, unfolded once_response_timed [symmetric]]] req q raw(3) path
  show ?thesis unfolding client_unary_def by blast
qed

lemma lister_service_call:
  fixes X :: "('h, 'x) ext" and G :: "('h, 'm, 'n) grpc_server"
  assumes laws: "header_laws X" "value_laws X" "percent_laws X" "base64_laws X" "compressor_laws X"
    and net: "network_laws carry" "1 < n"
    and codecs: "codec_laws E (gs_decoder G)" "codec_laws (gs_encoder G) D"
    and uri: "client_uri X U C path = Inr p"
    and enc: "\<forall>e. gc_send C = Some e \<longrightarrow> is_enabled (gs_accept G) e"
    and msg: "deliverable X E (gc_send C) (gc_max_encoding C) (gs_max_decoding G) (rq_message request)"
    and ends: "\<forall>b. is_end b \<longrightarrow> b = []" and rt: "route iter R p = Some (as_service X handler)"
    and handler: "\<forall>r. hq_path r = p \<longrightarrow> handler r = server_server_streaming X G svc r"
    and svc: "\<forall>req. rq_message req = rq_message request \<longrightarrow> answerable X G (negotiated C G) (gc_max_decoding C) n (svc req)"
  shows "\<exists>req. rq_message req = rq_message request \<and> same_metadata X (rq_metadata request) (rq_metadata req) \<and>
    stream_result X G (negotiated C G) (timed_result X timeout delay (svc req))
      (client_server_streaming X U C E D (reaching X carry n (served X is_end iter R timeout peer_certs delay)) request path)"
proof -
  obtain q req w where q: "prepare_request X U C (request_map (body_new eb_is_end_stream)
        (request_map (\<lambda>s. new_client E (stream_ok s) (gc_send C) (gc_max_encoding C)) (request_map (\<lambda>m. [Ready m]) request))) path = Inr q"
    and raw: "hq_path (carried_request X carry n q) = p" "hq_body (carried_request X carry n q) = as_raw w"
      "map_request_unary X G (delivered X carry n peer_certs is_end q) = Some (Inr req)"
      "from_accept_encoding_header X (hq_headers (delivered X carry n peer_certs is_end q)) (gs_send G) = negotiated C G"
    and req: "rq_message req = rq_message request" "same_metadata X (rq_metadata request) (rq_metadata req)"
    using unary_reaches [OF laws net codecs(1) uri enc msg, of peer_certs is_end] by blast
  have h: "handler (delivered X carry n peer_certs is_end q) = Some (map_response X G (svc req) (negotiated C G))"
    using handler raw by (simp add: server_server_streaming_def delivered_def)
  have "answerable X G (negotiated C G) (gc_max_decoding C) n (timed_result X timeout delay (svc req))"
    using svc req(1) late_answerable(2) by blast
  from stream_result_arrives [OF laws net(1) codecs(2) this] req show ?thesis
    unfolding client_server_streaming_def service_response [where handler = handler, OF ends rt q raw(1,2) h]
    by (intro exI [of _ req]) simp
qed

lemma recorder_service_call:
  fixes X :: "('h, 'x) ext" and G :: "('h, 'm, 'n) grpc_server"
  assumes laws: "header_laws X" "value_laws X" "percent_laws X" "base64_laws X" "compressor_laws X"
    and net: "network_laws carry" "1 < n" "length (rq_message request) < n"
    and codecs: "codec_laws E (gs_decoder G)" "codec_laws (gs_encoder G) D"
    and uri: "client_uri X U C path = Inr p"
    and enc: "\<forall>e. gc_send C = Some e \<longrightarrow> is_enabled (gs_accept G) e"
    and msgs: "deliverable_stream X E (gc_send C) (gc_max_encoding C) (gs_max_decoding G) (stream_ok (rq_message request))"
    and ends: "\<forall>b. is_end b \<longrightarrow> b = []" and rt: "route iter R p = Some (as_service X handler)"
    and handler: "\<forall>r. hq_path r = p \<longrightarrow> handler r = Some (server_client_streaming X G svc r)"
    and svc: "\<forall>req. stream_yields X (rq_message req) (stream_items (rq_message request)) (Inr ()) \<longrightarrow>
      answerable_once X G (negotiated C G) (gc_max_decoding C) (svc req)"
  shows "\<exists>req r. stream_yields X (rq_message req) (stream_items (rq_message request)) (Inr ()) \<and>
    same_metadata X (rq_metadata request) (rq_metadata req) \<and>
    client_client_streaming X U C E D (reaching X carry n (served X is_end iter R timeout peer_certs delay)) request path = Some r \<and>
    once_result X (timed_result X timeout delay (svc req)) r"
proof -
  obtain q req w where q: "prepare_request X U C (request_map (body_new eb_is_end_stream)
        (request_map (\<lambda>s. new_client E (stream_ok s) (gc_send C) (gc_max_encoding C)) request)) path = Inr q"
    and raw: "hq_path (carried_request X carry n q) = p" "hq_body (carried_request X carry n q) = as_raw w"
      "map_request_streaming X G (delivered X carry n peer_certs is_end q) = Inr req"
      "from_accept_encoding_header X (hq_headers (delivered X carry n peer_certs is_end q)) (gs_send G) = negotiated C G"
    and req: "stream_yields X (rq_message req) (stream_items (rq_message request)) (Inr ())"
      "same_metadata X (rq_metadata request) (rq_metadata req)"
    using streaming_reaches [OF laws net(1,3) codecs(1) uri enc msgs, of peer_certs is_end] by blast
  have h: "handler (delivered X carry n peer_certs is_end q) = Some (map_response X G (once_response (svc req)) (negotiated C G))"
    using handler raw by (simp add: server_client_streaming_def delivered_def)
  have "answerable_once X G (negotiated C G) (gc_max_decoding C) (timed_result X timeout delay (svc req))"
    using svc req(1) late_answerable(1) by blast
  from once_result_arrives [OF laws net(1,2) codecs(2) this
      service_response [where handler = handler, OF ends rt q raw(1,2) h, unfolded once_response_timed [symmetric]]] req
  show ?thesis by blast
qed

lemma bidi_service_call:
  fixes X :: "('h, 'x) ext" and G :: "('h, 'm, 'n) grpc_server"
  assumes laws: "header_laws X" "value_laws X" "percent_laws X" "base64_laws X" "compressor_laws X"
    and net: "network_laws carry" "length (rq_message request) < n"
    and codecs: "codec_laws E (gs_decoder G)" "codec_laws (gs_encoder G) D"
    and uri: "client_uri X U C path = Inr p"
    and enc: "\<forall>e. gc_send C = Some e \<longrightarrow> is_enabled (gs_accept G) e"
    and msgs: "deliverable_stream X E (gc_send C) (gc_max_encoding C) (gs_max_decoding G) (stream_ok (rq_message request))"
    and ends: "\<forall>b. is_end b \<longrightarrow> b = []" and rt: "route iter R p = Some (as_service X handler)"
    and handler: "\<forall>r. hq_path r = p \<longrightarrow> handler r = Some (server_streaming X G svc r)"
    and svc: "\<forall>req. stream_yields X (rq_message req) (stream_items (rq_message request)) (Inr ()) \<longrightarrow>
      answerable X G (negotiated C G) (gc_max_decoding C) n (svc req)"
  shows "\<exists>req. stream_yields X (rq_message req) (stream_items (rq_message request)) (Inr ()) \<and>
    same_metadata X (rq_metadata request) (rq_metadata req) \<and>
    stream_result X G (negotiated C G) (timed_result X timeout delay (svc req))
      (client_streaming_call X U C E D (reaching X carry n (served X is_end iter R timeout peer_certs delay)) request path)"
proof -
  obtain q req w where q: "prepare_request X U C (request_map (body_new eb_is_end_stream)
        (request_map (\<lambda>s. new_client E (stream_ok s) (gc_send C) (gc_max_encoding C)) request)) path = Inr q"
    and raw: "hq_path (carried_request X carry n q) = p" "hq_body (carried_request X carry n q) = as_raw w"
      "map_request_streaming X G (delivered X carry n peer_certs is_end q) = Inr req"
      "from_accept_encoding_header X (hq_headers (delivered X carry n peer_certs is_end q)) (gs_send G) = negotiated C G"
    and req: "stream_yields X (rq_message req) (stream_items (rq_message request)) (Inr ())"
      "same_metadata X (rq_metadata request) (rq_metadata req)"
    using streaming_reaches [OF laws net codecs(1) uri enc msgs, of peer_certs is_end] by blast
  have h: "handler (delivered X carry n peer_certs is_end q) = Some (map_response X G (svc req) (negotiated C G))"
    using handler raw by (simp add: server_streaming_def delivered_def)
  have "answerable X G (negotiated C G) (gc_max_decoding C) n (timed_result X timeout delay (svc req))"
    using svc req(1) late_answerable(2) by blast
  from stream_result_arrives [OF laws net(1) codecs(2) this] req show ?thesis
    unfolding service_response [where handler = handler, OF ends rt q raw(1,2) h] by (intro exI [of _ req]) simp
qed

subsection \<open>The property\<close>

text \<open>
  C3: What the caller of a unary method gets from a whole server. When the server's deadline passes, it
  is \<open>DeadlineExceeded\<close>, whatever the rest would have answered; when the path names another service
  than the registered one, \<open>Unimplemented\<close>; when the interceptor refuses, its status; and otherwise
  what the method answers to the caller's message with the metadata and extensions the interceptor
  returned. The interceptor sees the caller's metadata and the certificates of the connection. All
  this holds over any network that keeps the order of the bytes and in any iteration order of the
  route table, for an interceptor that leaves the reserved headers alone.
\<close>

theorem unary_call_through_stack:
  fixes X :: "('h, 'x) ext" and G :: "('h, 'm, 'n) grpc_server"
  assumes laws: "header_laws X" "value_laws X" "percent_laws X" "base64_laws X" "compressor_laws X"
    and net: "network_laws carry" "1 < n"
    and codecs: "codec_laws E (gs_decoder G)" "codec_laws (gs_encoder G) D"
    and uri: "client_uri X U C path = Inr (''/'' @ other @ ''/'' @ m)"
    and names: "CHR ''/'' \<notin> set name" "CHR ''/'' \<notin> set other"
    and enc: "\<forall>e. gc_send C = Some e \<longrightarrow> is_enabled (gs_accept G) e"
    and msg: "deliverable X E (gc_send C) (gc_max_encoding C) (gs_max_decoding G) (rq_message request)"
    and env: "\<forall>b. is_end b \<longrightarrow> b = []" "\<forall>xs. mset (iter xs) = mset xs"
    and keeps: "\<forall>q i. intercept q = Inr i \<longrightarrow>
      (\<forall>k \<in> set GRPC_RESERVED_HEADERS. hm_get_all X (rq_metadata i) k = hm_get_all X (rq_metadata q) k)"
    and refuses: "\<forall>q st. intercept q = Inl st \<longrightarrow> st_code st \<noteq> Ok \<and> utf8_valid (st_message st)"
    and svc: "\<forall>req. rq_message req = rq_message request \<longrightarrow> answerable_once X G (negotiated C G) (gc_max_decoding C) (svc req)"
  shows "\<exists>q r. same_metadata X (rq_metadata request) (rq_metadata q) \<and>
    rq_extensions q = (case peer_certs of Some certs \<Rightarrow> xt_insert_certs X (xt_empty X) certs | None \<Rightarrow> xt_empty X) \<and>
    client_unary X U C E D (reaching X carry n (served X is_end iter
        (add_service router_new name (intercepted_call X intercept (as_service X (server_unary X G svc))))
        timeout peer_certs delay)) request path = Some r \<and>
    once_result X (stack_result X timeout delay (other = name) intercept svc q (rq_message request)) r"
proof -
  let ?router = "add_service router_new name (intercepted_call X intercept (as_service X (server_unary X G svc)))"
  let ?tr = "reaching X carry n (served X is_end iter ?router timeout peer_certs delay)"
  obtain r w p where r: "prepare_request X U C (request_map (body_new eb_is_end_stream)
        (request_map (\<lambda>s. new_client E (stream_ok s) (gc_send C) (gc_max_encoding C)) (request_map (\<lambda>m. [Ready m]) request))) path = Inr r"
    and raw: "hq_path (carried_request X carry n r) = ''/'' @ other @ ''/'' @ m"
      "hq_extensions (carried_request X carry n r) = xt_empty X" "hq_body (carried_request X carry n r) = as_raw w"
      "data_only w" "body_data w = grpc_frame (gc_send C \<noteq> None) p"
      "payload_ok X (gs_decoder G) (gc_send C) (gs_max_decoding G) (gc_send C \<noteq> None) p (rq_message request)"
      "from_encoding_header X (hq_headers (carried_request X carry n r)) (gs_accept G) = Inr (gc_send C)"
      "from_accept_encoding_header X (hq_headers (carried_request X carry n r)) (gs_send G) = negotiated C G"
      "same_metadata X (rq_metadata request) (hq_headers (carried_request X carry n r))"
    using unary_request_carried [OF laws net codecs(1) uri enc msg] by blast
  let ?raw = "carried_request X carry n r"
  define q where "q = request_from_parts (hq_headers ?raw) () (hq_extensions (hyper_request X peer_certs is_end ?raw))"
  let ?res = "stack_result X timeout delay (other = name) intercept svc q (rq_message request)"
  have q: "same_metadata X (rq_metadata request) (rq_metadata q)"
    "rq_extensions q = (case peer_certs of Some certs \<Rightarrow> xt_insert_certs X (xt_empty X) certs | None \<Rightarrow> xt_empty X)"
    using raw(2,9) by (simp_all add: q_def request_from_parts_def hyper_request_def split: option.split)
  have "served X is_end iter ?router timeout peer_certs delay ?raw = Some (map_response X G (once_response ?res) (negotiated C G))"
    by (rule served_result [OF laws(1) env [rule_format] names keeps raw(1,3-8) q_def])
  then have call: "client_streaming_call X U C E D ?tr (request_map (\<lambda>m. [Ready m]) request) path
      = create_response X C D (carried_response X carry n (map_response X G (once_response ?res) (negotiated C G)))"
    by (simp add: client_streaming_call_def r reaching_def)
  have "answerable_once X G (negotiated C G) (gc_max_decoding C) ?res"
    by (rule stack_result_answerable [OF refuses svc])
  from once_result_arrives [OF laws net codecs(2) this call] q show ?thesis unfolding client_unary_def by blast
qed

text \<open>An interceptor that lets a call through when its metadata has a token.\<close>

definition token_gate :: "(alist, bytes list option, unit) request \<Rightarrow> alist status + (alist, bytes list option, unit) request" where
  "token_gate q = (if hm_get_all ref_ext (rq_metadata q) ''token'' \<noteq> [] then Inr q
     else Inl (status_new ref_ext Unauthenticated ''no token''))"

theorem unary_call_through_stack_witness:
  "\<exists>st. client_unary ref_ext plain_uri gzip_client raw_encoder raw_decoder
      (reaching ref_ext byte_wise 4 (served ref_ext (\<lambda>b. b = []) rev
        (add_service router_new ''s.S'' (intercepted_call ref_ext token_gate
          (as_service ref_ext (server_unary ref_ext gzip_server (\<lambda>r. Inr (response_new ref_ext (rev (rq_message r))))))))
        (Some 10) None 3)) (request_new ref_ext [7, 8]) ''/s.S/m'' = Some (Inl st) \<and> st_code st = Unauthenticated"
proof -
  note cfg = gzip_setup(1,7-11)
  let ?svc = "\<lambda>r. Inr (response_new ref_ext (rev (rq_message r)))
    :: alist status + (alist, bytes list option, bytes) response"
  have uri: "client_uri ref_ext plain_uri gzip_client ''/s.S/m'' = Inr (''/'' @ ''s.S'' @ ''/'' @ ''m'')"
    using gzip_setup(2) by simp
  have names: "CHR ''/'' \<notin> set ''s.S''" by simp
  have msg: "deliverable ref_ext raw_encoder (gc_send gzip_client) (gc_max_encoding gzip_client) (gs_max_decoding gzip_server)
      (rq_message (request_new ref_ext [7, 8]))"
    unfolding cfg by (rule gzip_deliverable) (simp_all add: request_new_def)
  have gate: "\<forall>q i. token_gate q = Inr i \<longrightarrow>
      (\<forall>k \<in> set GRPC_RESERVED_HEADERS. hm_get_all ref_ext (rq_metadata i) k = hm_get_all ref_ext (rq_metadata q) k)"
    "\<forall>q st. token_gate q = Inl st \<longrightarrow> st_code st \<noteq> Ok \<and> utf8_valid (st_message st)"
    by (auto simp: token_gate_def status_new_def utf8_valid_def split: if_splits)
  have svc: "\<forall>req. rq_message req = rq_message (request_new ref_ext [7, 8]) \<longrightarrow>
      answerable_once ref_ext gzip_server (negotiated gzip_client gzip_server) (gc_max_decoding gzip_client) (?svc req)"
    unfolding gzip_setup answerable_once_def by (simp add: gzip_deliverable request_new_def response_new_def)
  have ends: "\<forall>b. b = [] \<longrightarrow> b = []" and perm: "\<forall>xs. mset (rev xs) = mset xs" by simp_all
  let ?rq = "request_new ref_ext [7, 8] :: (alist, bytes list option, bytes) request"
  obtain q r where q: "same_metadata ref_ext (rq_metadata ?rq) (rq_metadata q)"
    and r: "client_unary ref_ext plain_uri gzip_client raw_encoder raw_decoder
      (reaching ref_ext byte_wise 4 (served ref_ext (\<lambda>b. b = []) rev
        (add_service router_new ''s.S'' (intercepted_call ref_ext token_gate (as_service ref_ext (server_unary ref_ext gzip_server ?svc))))
        (Some 10) None 3)) ?rq ''/s.S/m'' = Some r"
    "once_result ref_ext (stack_result ref_ext (Some 10) 3 (''s.S'' = ''s.S'') token_gate ?svc q (rq_message ?rq)) r"
    using unary_call_through_stack [OF ref_header_laws ref_value_laws ref_percent_laws ref_base64_laws ref_compressor_laws
        byte_wise_network _ gzip_setup(3,4) uri names names gzip_setup(5) msg ends perm gate svc,
        where n = 4 and peer_certs = None and timeout = "Some 10" and delay = 3] by auto
  have "''token'' \<notin> set GRPC_RESERVED_HEADERS" by (simp add: GRPC_RESERVED_HEADERS_def)
  with q have "hm_get_all ref_ext (rq_metadata q) ''token'' = hm_get_all ref_ext (rq_metadata ?rq) ''token''"
    unfolding same_metadata_def by blast
  also have "\<dots> = []" by (simp add: request_new_def metadata_new_def ref_ops al_get_all_def)
  finally have "stack_result ref_ext (Some 10) 3 (''s.S'' = ''s.S'') token_gate ?svc q (rq_message ?rq)
      = Inl (status_new ref_ext Unauthenticated ''no token'')"
    by (simp add: stack_result_def token_gate_def)
  with r(2) obtain st where "r = Inl st" "same_status (status_new ref_ext Unauthenticated ''no token'') st"
    unfolding once_result_def by auto
  with r(1) show ?thesis by (auto simp: same_status_def status_new_def)
qed

end
