(* ===== verification/Channel_Rpc.thy ===== *)
theory Channel_Rpc
  imports Stack Channel
begin

section \<open>A unary call over a channel\<close>

text \<open>
  The composition of \<open>Stack\<close> with \<open>Channel\<close>: the client's call, the channel an endpoint connected
  or a balanced channel picked, hyper's client, the network, and the whole server. hyper's client
  is a parameter, with what it documents: a request goes to the authority of its own URI, over a
  connection that is made for that authority; a URI without one is an error, and so is a connection
  that cannot be made. The properties say what the caller has in every case, and that it is the
  client's origin that decides which server a request reaches, whatever addresses the channels were
  made with.
\<close>

subsection \<open>The hosts of a network\<close>

text \<open>
  The authority and the path of a URI, the error for a URI without authority, the failures of
  connecting to a host with a client's settings, how long a request and its answer are on their way, and how a direction's
  bytes are carried.
\<close>

record ('h, 'a, 'k) hosts_net =
  hn_authority :: "string \<Rightarrow> 'a option"
  hn_path :: "string \<Rightarrow> string"
  hn_relative :: "'h err"
  hn_connect :: "'k channel_inner \<Rightarrow> 'a \<Rightarrow> 'h err option"
  hn_latency :: "'a \<Rightarrow> nat"
  hn_carry :: "'h body \<Rightarrow> 'h body"

text \<open>A host serves as \<open>Stack\<close>'s server does, at a time.\<close>

definition served_at ::
  "('h, 'x) ext \<Rightarrow> (('h, 'h err) raw_body \<Rightarrow> bool)
     \<Rightarrow> ((string \<times> ('h, 'x, ('h, 'h err) raw_body body_kind body_kind, ('h, 'n) encode_body body_kind) service) list
         \<Rightarrow> (string \<times> ('h, 'x, ('h, 'h err) raw_body body_kind body_kind, ('h, 'n) encode_body body_kind) service) list)
     \<Rightarrow> ('h, 'x, ('h, 'h err) raw_body body_kind body_kind, ('h, 'n) encode_body body_kind) service router
     \<Rightarrow> nat option \<Rightarrow> bytes list option \<Rightarrow> nat \<Rightarrow> ('h, 'x) raw_request \<Rightarrow> ('h, 'x, 'n) grpc_http_response future" where
  "served_at X is_end iter router timeout peer_certs delay req =
     hyper_call X timeout peer_certs (\<lambda>req. DoneAt delay (router_call X iter (body_is_end_stream is_end) router req)) is_end req"

text \<open>What hyper's client does with a request; it is told nothing of the channel's own address.\<close>

definition hyper_client ::
  "('h, 'x) ext \<Rightarrow> ('h, 'a, 'k) hosts_net \<Rightarrow> nat \<Rightarrow> ('a \<Rightarrow> ('h, 'x) raw_request \<Rightarrow> ('h, 'x, 'n) grpc_http_response future)
     \<Rightarrow> 'k channel_inner \<Rightarrow> ('h, 'x, ('h, 'm) encode_body body_kind) http_request \<Rightarrow> ('h err + ('h, 'x) raw_response) future" where
  "hyper_client X N n hosts inner req =
     (case hn_authority N (hq_path req) of
        None \<Rightarrow> DoneAt 0 (Inl (hn_relative N))
      | Some a \<Rightarrow>
          (case hn_connect N inner a of
             Some e \<Rightarrow> DoneAt (hn_latency N a) (Inl e)
           | None \<Rightarrow>
               (case hosts a ((carried_request X (hn_carry N) n req)\<lparr>hq_path := hn_path N (hq_path req)\<rparr>) of
                  DoneAt t resp \<Rightarrow> DoneAt (hn_latency N a + t) (Inr (carried_response X (hn_carry N) n resp))
                | Never \<Rightarrow> Never)))"

text \<open>A client awaits the channel's future; the response's body is wrapped, and read through the wrapper.\<close>

definition awaited ::
  "('h, 'x) ext \<Rightarrow> ('h err + ('h, 'x, ('h, 'h err) raw_body body_kind) http_response) future
     \<Rightarrow> 'h err + ('h, 'x) raw_response" where
  "awaited X fut =
     (case fut of
        DoneAt t r \<Rightarrow> map_sum id (\<lambda>resp. \<lparr>hp_status = hp_status resp, hp_version = hp_version resp, hp_headers = hp_headers resp,
            hp_extensions = hp_extensions resp,
            hp_body = (case hp_body resp of KEmpty \<Rightarrow> [] | KWrap b \<Rightarrow> as_raw (map_err_body X b))\<rparr>) r
      | Never \<Rightarrow> Inl (EStatus (status_new X Unavailable [])))"

definition over_channel ::
  "('h, 'x) ext \<Rightarrow> ('k channel_inner \<Rightarrow> ('h, 'x, ('h, 'm) encode_body body_kind) http_request \<Rightarrow> ('h err + ('h, 'x) raw_response) future)
     \<Rightarrow> (('h, 'h err) raw_body \<Rightarrow> bool) \<Rightarrow> ('k, 'u) channel \<Rightarrow> ('h, 'x, 'm) transport" where
  "over_channel X request is_end ch req = awaited X (channel_call X request is_end ch req)"

definition over_balanced ::
  "('h, 'x) ext \<Rightarrow> ('k channel_inner \<Rightarrow> ('h, 'x, ('h, 'm) encode_body body_kind) http_request \<Rightarrow> ('h err + ('h, 'x) raw_response) future)
     \<Rightarrow> (('h, 'h err) raw_body \<Rightarrow> bool) \<Rightarrow> ('k, 'u) channel balanced_channel \<Rightarrow> ('h, 'x, 'm) transport" where
  "over_balanced X request is_end b req = awaited X (snd (balanced_call (channel_call X request is_end) b req))"

text \<open>
  The result of a call to \<open>uri\<close> on a channel with the deadline \<open>limit\<close>, when the server answers with
  \<open>res\<close> after \<open>t\<close>.
\<close>

definition late_for :: "('h, 'x) ext \<Rightarrow> nat option \<Rightarrow> nat \<Rightarrow> 'h status + 'r \<Rightarrow> 'h status + 'r" where
  "late_for X limit t res =
     (if \<exists>d. limit = Some d \<and> d < t then Inl (status_new X DeadlineExceeded ''channel request timed out'') else res)"

definition host_result ::
  "('h, 'x) ext \<Rightarrow> ('h, 'a, 'k) hosts_net \<Rightarrow> 'k channel_inner \<Rightarrow> nat option \<Rightarrow> string \<Rightarrow> nat \<Rightarrow> 'h status + 'r \<Rightarrow> 'h status + 'r" where
  "host_result X N inner limit uri t res =
     (case hn_authority N uri of
        None \<Rightarrow> Inl (from_error X (hn_relative N))
      | Some a \<Rightarrow>
          (case hn_connect N inner a of
             Some e \<Rightarrow> late_for X limit (hn_latency N a) (Inl (from_error X e))
           | None \<Rightarrow> late_for X limit (hn_latency N a + t) res))"

subsection \<open>Lemmas\<close>

lemma served_at_eq:
  "served X is_end iter router timeout peer_certs delay req = Some resp \<Longrightarrow>
   served_at X is_end iter router timeout peer_certs delay req = DoneAt (answer_time timeout delay) resp"
  by (auto simp: served_def served_at_def hyper_call_def tokio_timeout_def future_map_def Let_def answer_time_def
      split: option.splits if_splits)

text \<open>What the caller awaits, from what hyper's client answers and when.\<close>

lemma over_channel_eq:
  assumes "request (ch_inner ch) req = DoneAt t r" "\<And>b. is_end b \<Longrightarrow> b = []"
    and "\<And>resp. r = Inr resp \<Longrightarrow> \<exists>w. hp_body resp = as_raw w"
  shows "over_channel X request is_end ch req =
    (if \<exists>d. ch_timeout ch = Some d \<and> d < t
     then Inl (EStatus (status_new X DeadlineExceeded ''channel request timed out'')) else r)"
proof -
  have read: "(case body_new is_end (as_raw w) of KEmpty \<Rightarrow> [] | KWrap b \<Rightarrow> as_raw (map_err_body X b)) = as_raw w" for w
    using assms(2) [of "as_raw w"] by (cases "is_end (as_raw w)") (simp_all add: body_new_def body_empty_def map_err_as_raw)
  have "awaited X (DoneAt t' (map_sum id (channel_response is_end) r)) = r" for t'
    using assms(3) by (cases r) (auto simp: awaited_def channel_response_def read)
  then show ?thesis
    using assms(1)
    by (auto simp: over_channel_def channel_call_def tokio_timeout_def future_map_def Let_def awaited_def channel_response_def
        split: option.splits sum.splits)
qed

text \<open>All channels of a balanced channel are alike but for the address, which no call looks at.\<close>

lemma channel_call_address:
  "ch_inner ch' = ch_inner ch \<Longrightarrow> ch_timeout ch' = ch_timeout ch \<Longrightarrow>
   channel_call X request is_end ch' = channel_call X request is_end ch"
  by (simp add: channel_call_def fun_eq_iff)

lemma connect_all_channels:
  "connect_all (\<lambda>uri. connect_with_h2_config uri config) uris = Inr cs \<Longrightarrow>
   cs = map (\<lambda>uri. \<lparr>ch_inner = ChannelHttp (apply_h2_config [Http2Only True] config), ch_uri = uri, ch_timeout = None\<rparr>) uris"
  by (induction uris arbitrary: cs) (auto simp: connect_with_h2_config_def split: sum.splits)

lemma balanced_is_one_channel:
  fixes uris :: "'u list"
  assumes "from_uris_with_h2_config uris config = Inr b0" "bc_channels b = bc_channels b0"
    and "connect_with_h2_config uri config = Inr ch"
  shows "over_balanced X request is_end b = over_channel X request is_end ch"
proof -
  let ?ch = "\<lambda>uri. \<lparr>ch_inner = ChannelHttp (apply_h2_config [Http2Only True] config), ch_uri = uri, ch_timeout = None\<rparr>"
  have cs: "bc_channels b = map ?ch uris" and ne: "uris \<noteq> []"
    using assms(1,2) connect_all_channels [of config uris]
    by (auto simp: from_uris_with_h2_config_def split: if_splits sum.splits)
  have idx: "fst (balanced_index b) < length uris" using ne cs by (simp add: balanced_index_def)
  have "channel_call X request is_end (?ch v) = channel_call X request is_end ch" for v :: 'u
    using assms(3) by (intro channel_call_address) (auto simp: connect_with_h2_config_def)
  then show ?thesis
    using idx by (cases "balanced_index b") (simp add: over_balanced_def over_channel_def balanced_call_def cs fun_eq_iff)
qed

text \<open>hyper's client on a request the client prepared, and what the caller has of it.\<close>

lemma over_channel_call:
  assumes prep: "prepare_request X U C (request_map (body_new eb_is_end_stream)
        (request_map (\<lambda>s. new_client E (stream_ok s) (gc_send C) (gc_max_encoding C)) request)) path = Inr r"
    and ends: "\<And>b. is_end b \<Longrightarrow> b = []" and host: "hn_authority N (hq_path r) = Some a" "hn_connect N (ch_inner ch) a = None"
    and served: "hosts a ((carried_request X (hn_carry N) n r)\<lparr>hq_path := hn_path N (hq_path r)\<rparr>) = DoneAt t resp"
  shows "client_streaming_call X U C E D (over_channel X (hyper_client X N n hosts) is_end ch) request path
    = (if \<exists>d. ch_timeout ch = Some d \<and> d < hn_latency N a + t
       then Inl (status_new X DeadlineExceeded ''channel request timed out'')
       else create_response X C D (carried_response X (hn_carry N) n resp))"
proof -
  have "hyper_client X N n hosts (ch_inner ch) r = DoneAt (hn_latency N a + t) (Inr (carried_response X (hn_carry N) n resp))"
    by (simp add: hyper_client_def host served)
  then have "over_channel X (hyper_client X N n hosts) is_end ch r =
    (if \<exists>d. ch_timeout ch = Some d \<and> d < hn_latency N a + t
     then Inl (EStatus (status_new X DeadlineExceeded ''channel request timed out''))
     else Inr (carried_response X (hn_carry N) n resp))"
    by (rule over_channel_eq [OF _ ends]) (auto simp: carried_response_def)
  then show ?thesis by (auto simp: client_streaming_call_def prep from_error_def)
qed

lemma over_channel_fails:
  assumes prep: "prepare_request X U C (request_map (body_new eb_is_end_stream)
        (request_map (\<lambda>s. new_client E (stream_ok s) (gc_send C) (gc_max_encoding C)) request)) path = Inr r"
    and ends: "\<And>b. is_end b \<Longrightarrow> b = []"
    and host: "\<And>a. hn_authority N (hq_path r) = Some a \<Longrightarrow> hn_connect N (ch_inner ch) a \<noteq> None"
  shows "\<exists>st. client_streaming_call X U C E D (over_channel X (hyper_client X N n hosts) is_end ch) request path = Inl st \<and>
    (\<forall>t res. host_result X N (ch_inner ch) (ch_timeout ch) (hq_path r) t res = Inl st)"
proof (cases "hn_authority N (hq_path r)")
  case None
  then have "hyper_client X N n hosts (ch_inner ch) r = DoneAt 0 (Inl (hn_relative N))" by (simp add: hyper_client_def)
  then have "over_channel X (hyper_client X N n hosts) is_end ch r = Inl (hn_relative N)"
    by (subst over_channel_eq [OF _ ends]) auto
  with None show ?thesis by (simp add: client_streaming_call_def prep host_result_def)
next
  case (Some a)
  then obtain e where e: "hn_connect N (ch_inner ch) a = Some e" using host by blast
  then have "hyper_client X N n hosts (ch_inner ch) r = DoneAt (hn_latency N a) (Inl e)" by (simp add: hyper_client_def Some)
  then have "over_channel X (hyper_client X N n hosts) is_end ch r =
    (if \<exists>d. ch_timeout ch = Some d \<and> d < hn_latency N a
     then Inl (EStatus (status_new X DeadlineExceeded ''channel request timed out'')) else Inl e)"
    by (rule over_channel_eq [OF _ ends]) auto
  with Some e show ?thesis
    by (auto simp: client_streaming_call_def prep host_result_def late_for_def from_error_def)
qed

text \<open>The channel an endpoint connects has the endpoint's timeout.\<close>

lemma endpoint_channel: "endpoint_connect X T ep = DoneAt t0 (Inr ch) \<Longrightarrow> ch_timeout ch = ep_timeout ep \<and> ch_uri ch = ep_uri ep"
  using connect_timeout_without_effect [where X = X and T = T and ep = ep] by auto

text \<open>The server's side: what a host answers to the request the client prepared, and when.\<close>

lemma unary_at_host:
  fixes X :: "('h, 'x) ext" and G :: "('h, 'm, 'n) grpc_server"
  assumes laws: "header_laws X" "value_laws X" "percent_laws X" "base64_laws X" "compressor_laws X"
    and net: "network_laws carry" "1 < n"
    and codec: "codec_laws E (gs_decoder G)"
    and uri: "client_uri X U C path = Inr uri" "to_path uri = ''/'' @ other @ ''/'' @ m"
    and names: "CHR ''/'' \<notin> set name" "CHR ''/'' \<notin> set other"
    and enc: "\<forall>e. gc_send C = Some e \<longrightarrow> is_enabled (gs_accept G) e"
    and msg: "deliverable X E (gc_send C) (gc_max_encoding C) (gs_max_decoding G) (rq_message request)"
    and env: "\<forall>b. is_end b \<longrightarrow> b = []" "\<forall>xs. mset (iter xs) = mset xs"
    and keeps: "\<forall>q i. intercept q = Inr i \<longrightarrow>
      (\<forall>k \<in> set GRPC_RESERVED_HEADERS. hm_get_all X (rq_metadata i) k = hm_get_all X (rq_metadata q) k)"
  shows "\<exists>r q. prepare_request X U C (request_map (body_new eb_is_end_stream)
        (request_map (\<lambda>s. new_client E (stream_ok s) (gc_send C) (gc_max_encoding C)) (request_map (\<lambda>m. [Ready m]) request))) path = Inr r \<and>
    hq_path r = uri \<and> same_metadata X (rq_metadata request) (rq_metadata q) \<and>
    served_at X is_end iter (add_service router_new name (intercepted_call X intercept (as_service X (server_unary X G svc))))
        timeout peer_certs delay ((carried_request X carry n r)\<lparr>hq_path := to_path (hq_path r)\<rparr>)
      = DoneAt (answer_time timeout delay) (map_response X G (once_response
          (stack_result X timeout delay (other = name) intercept svc q (rq_message request))) (negotiated C G))"
proof -
  obtain r w p where r: "prepare_request X U C (request_map (body_new eb_is_end_stream)
        (request_map (\<lambda>s. new_client E (stream_ok s) (gc_send C) (gc_max_encoding C)) (request_map (\<lambda>m. [Ready m]) request))) path = Inr r"
    and raw: "hq_path (carried_request X carry n r) = uri" "hq_body (carried_request X carry n r) = as_raw w"
      "data_only w" "body_data w = grpc_frame (gc_send C \<noteq> None) p"
      "payload_ok X (gs_decoder G) (gc_send C) (gs_max_decoding G) (gc_send C \<noteq> None) p (rq_message request)"
      "from_encoding_header X (hq_headers (carried_request X carry n r)) (gs_accept G) = Inr (gc_send C)"
      "from_accept_encoding_header X (hq_headers (carried_request X carry n r)) (gs_send G) = negotiated C G"
      "same_metadata X (rq_metadata request) (hq_headers (carried_request X carry n r))"
    using unary_request_carried [OF laws net codec uri(1) enc msg] by blast
  let ?raw = "(carried_request X carry n r)\<lparr>hq_path := to_path (hq_path r)\<rparr>"
  have path: "hq_path r = uri" using raw(1) by (simp add: carried_request_def)
  have arr: "hq_path ?raw = ''/'' @ other @ ''/'' @ m" "hq_body ?raw = as_raw w"
    "from_encoding_header X (hq_headers ?raw) (gs_accept G) = Inr (gc_send C)"
    "from_accept_encoding_header X (hq_headers ?raw) (gs_send G) = negotiated C G"
    using raw(2,6,7) uri(2) path by simp_all
  define q where "q = request_from_parts (hq_headers ?raw) () (hq_extensions (hyper_request X peer_certs is_end ?raw))"
  have q: "same_metadata X (rq_metadata request) (rq_metadata q)" using raw(8) by (simp add: q_def request_from_parts_def)
  from served_at_eq [OF served_result [OF laws(1) env [rule_format] names keeps arr(1,2) raw(3-5) arr(3,4) q_def]] r path q
  show ?thesis by blast
qed

text \<open>The whole call.\<close>

lemma unary_over_channel:
  fixes X :: "('h, 'x) ext" and G :: "('h, 'm, 'n) grpc_server"
  assumes laws: "header_laws X" "value_laws X" "percent_laws X" "base64_laws X" "compressor_laws X"
    and net: "network_laws (hn_carry N)" "1 < n"
    and codecs: "codec_laws E (gs_decoder G)" "codec_laws (gs_encoder G) D"
    and uri: "client_uri X U C path = Inr uri" "hn_path N uri = ''/'' @ other @ ''/'' @ m"
    and names: "CHR ''/'' \<notin> set name" "CHR ''/'' \<notin> set other"
    and enc: "\<forall>e. gc_send C = Some e \<longrightarrow> is_enabled (gs_accept G) e"
    and msg: "deliverable X E (gc_send C) (gc_max_encoding C) (gs_max_decoding G) (rq_message request)"
    and env: "\<forall>b. is_end b \<longrightarrow> b = []" "\<forall>xs. mset (iter xs) = mset xs"
    and keeps: "\<forall>q i. intercept q = Inr i \<longrightarrow>
      (\<forall>k \<in> set GRPC_RESERVED_HEADERS. hm_get_all X (rq_metadata i) k = hm_get_all X (rq_metadata q) k)"
    and refuses: "\<forall>q st. intercept q = Inl st \<longrightarrow> st_code st \<noteq> Ok \<and> utf8_valid (st_message st)"
    and svc: "\<forall>req. rq_message req = rq_message request \<longrightarrow> answerable_once X G (negotiated C G) (gc_max_decoding C) (svc req)"
    and host: "\<forall>a. hn_authority N uri = Some a \<longrightarrow> hosts a = served_at X is_end iter
      (add_service router_new name (intercepted_call X intercept (as_service X (server_unary X G svc)))) timeout peer_certs delay"
  shows "\<exists>q r. same_metadata X (rq_metadata request) (rq_metadata q) \<and>
    client_unary X U C E D (over_channel X (hyper_client X N n hosts) is_end ch) request path = Some r \<and>
    once_result X (host_result X N (ch_inner ch) (ch_timeout ch) uri (answer_time timeout delay)
      (stack_result X timeout delay (other = name) intercept svc q (rq_message request))) r"
proof -
  let ?tr = "over_channel X (hyper_client X N n hosts) is_end ch"
  obtain r q where r: "prepare_request X U C (request_map (body_new eb_is_end_stream)
        (request_map (\<lambda>s. new_client E (stream_ok s) (gc_send C) (gc_max_encoding C)) (request_map (\<lambda>m. [Ready m]) request))) path = Inr r"
      "hq_path r = uri"
    and q: "same_metadata X (rq_metadata request) (rq_metadata q)"
    and at: "served_at X is_end iter (add_service router_new name (intercepted_call X intercept (as_service X (server_unary X G svc))))
        timeout peer_certs delay ((carried_request X (hn_carry N) n r)\<lparr>hq_path := hn_path N (hq_path r)\<rparr>)
      = DoneAt (answer_time timeout delay) (map_response X G (once_response
          (stack_result X timeout delay (other = name) intercept svc q (rq_message request))) (negotiated C G))"
    using unary_at_host [where to_path = "hn_path N" and svc = svc, OF laws net codecs(1) uri names enc msg env keeps] by blast
  let ?res = "stack_result X timeout delay (other = name) intercept svc q (rq_message request)"
  have ans: "answerable_once X G (negotiated C G) (gc_max_decoding C) ?res"
    by (rule stack_result_answerable [OF refuses svc])
  show ?thesis
  proof (cases "\<exists>a. hn_authority N uri = Some a \<and> hn_connect N (ch_inner ch) a = None")
    case False
    then obtain st where st: "client_streaming_call X U C E D ?tr (request_map (\<lambda>m. [Ready m]) request) path = Inl st"
      "host_result X N (ch_inner ch) (ch_timeout ch) uri (answer_time timeout delay) ?res = Inl st"
      using over_channel_fails [where hosts = hosts and ch = ch and N = N, OF r(1) env(1) [rule_format]] r(2) by metis
    then show ?thesis
      using q by (intro exI [of _ q] exI [of _ "Inl st"]) (simp add: client_unary_def client_client_streaming_def once_result_def same_status_def)
  next
    case True
    then obtain a where a: "hn_authority N (hq_path r) = Some a" "hn_connect N (ch_inner ch) a = None" unfolding r(2) by blast
    have "hosts a ((carried_request X (hn_carry N) n r)\<lparr>hq_path := hn_path N (hq_path r)\<rparr>)
        = DoneAt (answer_time timeout delay) (map_response X G (once_response ?res) (negotiated C G))"
      using host a(1) at r(2) by simp
    note call = over_channel_call [where ch = ch and hosts = hosts and D = D and is_end = is_end, OF r(1) env(1) [rule_format] a this]
    have host_res: "host_result X N (ch_inner ch) (ch_timeout ch) uri (answer_time timeout delay) ?res
        = late_for X (ch_timeout ch) (hn_latency N a + answer_time timeout delay) ?res"
      using a r(2) by (simp add: host_result_def)
    have "\<exists>r'. client_unary X U C E D ?tr request path = Some r' \<and>
      once_result X (late_for X (ch_timeout ch) (hn_latency N a + answer_time timeout delay) ?res) r'"
    proof (cases "\<exists>d. ch_timeout ch = Some d \<and> d < hn_latency N a + answer_time timeout delay")
      case True
      then show ?thesis
        using call by (auto simp: client_unary_def client_client_streaming_def late_for_def once_result_def same_status_def)
    next
      case False
      from once_result_arrives [OF laws net codecs(2) ans call [unfolded if_not_P [OF False]]] show ?thesis
        unfolding client_unary_def late_for_def if_not_P [OF False] .
    qed
    then show ?thesis unfolding host_res [symmetric] using q by blast
  qed
qed

text \<open>A network of hosts with names of one letter, of which only one ever answers, to a client with that origin.\<close>

abbreviation origin_a :: "unit uri_ops" where
  "origin_a \<equiv> \<lparr>uo_parse = Inr, uo_path = (\<lambda>p. p), uo_from_parts = (\<lambda>_ p. Inr (''http://a'' @ p))\<rparr>"

definition letter_hosts :: "(alist, char, unit) hosts_net" where
  "letter_hosts = \<lparr>hn_authority = (\<lambda>u. if take 7 u = ''http://'' then Some (u ! 7) else None), hn_path = drop 8,
     hn_relative = EOther ''client requires absolute-form URIs'' None, hn_connect = (\<lambda>_ _. None), hn_latency = (\<lambda>_. 2),
     hn_carry = byte_wise\<rparr>"

abbreviation reverser :: "(alist, bytes list option, bytes) request \<Rightarrow> alist status + (alist, bytes list option, bytes) response" where
  "reverser r \<equiv> Inr (response_new ref_ext (rev (rq_message r)))"

definition only_a :: "char \<Rightarrow> (alist, bytes list option) raw_request \<Rightarrow> (alist, bytes list option, bytes) grpc_http_response future" where
  "only_a c = (if c = CHR ''a'' then served_at ref_ext (\<lambda>b. b = []) rev (add_service router_new ''s.S''
      (intercepted_call ref_ext Inr (as_service ref_ext (server_unary ref_ext gzip_server reverser)))) (Some 9) None 3
    else (\<lambda>_. Never))"

definition http_endpoint :: "string endpoint" where
  "http_endpoint = endpoint_new (\<lambda>_. Some ''http'') ''http://b''"

abbreviation no_tls :: "(alist, unit, unit, unit) tls_ops" where
  "no_tls \<equiv> \<lparr>to_native_certs = [], to_pem_certs = (\<lambda>_. Inr []), to_empty = (), to_add = (\<lambda>_ _. Inr ()), to_config = (\<lambda>_. ())\<rparr>"

lemma letter_setup:
  fixes rq :: "(alist, bytes list option, bytes) request"
  defines "rq \<equiv> request_new ref_ext [7, 8]"
  shows "network_laws (hn_carry letter_hosts)" "client_uri ref_ext origin_a gzip_client ''/s.S/m'' = Inr ''http://a/s.S/m''"
    "hn_path letter_hosts ''http://a/s.S/m'' = ''/'' @ ''s.S'' @ ''/'' @ ''m''"
    "deliverable ref_ext raw_encoder (gc_send gzip_client) (gc_max_encoding gzip_client) (gs_max_decoding gzip_server) (rq_message rq)"
    "\<forall>req. rq_message req = rq_message rq \<longrightarrow>
      answerable_once ref_ext gzip_server (negotiated gzip_client gzip_server) (gc_max_decoding gzip_client) (reverser req)"
    "\<forall>a. hn_authority letter_hosts ''http://a/s.S/m'' = Some a \<longrightarrow> only_a a = served_at ref_ext (\<lambda>b. b = []) rev (add_service router_new ''s.S''
      (intercepted_call ref_ext Inr (as_service ref_ext (server_unary ref_ext gzip_server reverser)))) (Some 9) None 3"
    "host_result ref_ext letter_hosts inner None ''http://a/s.S/m'' t res = res"
    "2 + t > d \<Longrightarrow> host_result ref_ext letter_hosts inner (Some d) ''http://a/s.S/m'' t res
      = Inl (status_new ref_ext DeadlineExceeded ''channel request timed out'')"
proof -
  show "deliverable ref_ext raw_encoder (gc_send gzip_client) (gc_max_encoding gzip_client) (gs_max_decoding gzip_server) (rq_message rq)"
    unfolding gzip_setup rq_def by (rule gzip_deliverable) (simp_all add: request_new_def)
  show "\<forall>req. rq_message req = rq_message rq \<longrightarrow>
      answerable_once ref_ext gzip_server (negotiated gzip_client gzip_server) (gc_max_decoding gzip_client) (reverser req)"
    unfolding gzip_setup answerable_once_def rq_def by (simp add: gzip_deliverable request_new_def response_new_def)
qed (simp_all add: letter_hosts_def byte_wise_network client_uri_def only_a_def host_result_def late_for_def
      client_accept_compressed_def client_send_compressed_def plain_client_def client_with_origin_def)

subsection \<open>Properties\<close>

text \<open>
  C5: What the caller of a unary method gets over the channel of an endpoint, from any host of a network:
  the failure of hyper's client when the URI has no authority or its host cannot be connected to;
  \<open>DeadlineExceeded\<close> when the host's answer, or its refusal, takes longer than the endpoint's timeout; and
  otherwise what the host's server answers: its own deadline, an unknown service, the interceptor's
  refusal, or the method's result. The endpoint's connect timeout does not occur.
\<close>

theorem unary_call_over_endpoint:
  fixes X :: "('h, 'x) ext" and G :: "('h, 'm, 'n) grpc_server"
  assumes laws: "header_laws X" "value_laws X" "percent_laws X" "base64_laws X" "compressor_laws X"
    and net: "network_laws (hn_carry N)" "1 < n"
    and codecs: "codec_laws E (gs_decoder G)" "codec_laws (gs_encoder G) D"
    and uri: "client_uri X U C path = Inr uri" "hn_path N uri = ''/'' @ other @ ''/'' @ m"
    and names: "CHR ''/'' \<notin> set name" "CHR ''/'' \<notin> set other"
    and enc: "\<forall>e. gc_send C = Some e \<longrightarrow> is_enabled (gs_accept G) e"
    and msg: "deliverable X E (gc_send C) (gc_max_encoding C) (gs_max_decoding G) (rq_message request)"
    and env: "\<forall>b. is_end b \<longrightarrow> b = []" "\<forall>xs. mset (iter xs) = mset xs"
    and keeps: "\<forall>q i. intercept q = Inr i \<longrightarrow>
      (\<forall>k \<in> set GRPC_RESERVED_HEADERS. hm_get_all X (rq_metadata i) k = hm_get_all X (rq_metadata q) k)"
    and refuses: "\<forall>q st. intercept q = Inl st \<longrightarrow> st_code st \<noteq> Ok \<and> utf8_valid (st_message st)"
    and svc: "\<forall>req. rq_message req = rq_message request \<longrightarrow> answerable_once X G (negotiated C G) (gc_max_decoding C) (svc req)"
    and host: "\<forall>a. hn_authority N uri = Some a \<longrightarrow> hosts a = served_at X is_end iter
      (add_service router_new name (intercepted_call X intercept (as_service X (server_unary X G svc)))) timeout peer_certs delay"
    and connected: "endpoint_connect X T ep = DoneAt t0 (Inr ch)"
  shows "\<exists>q r. same_metadata X (rq_metadata request) (rq_metadata q) \<and>
    client_unary X U C E D (over_channel X (hyper_client X N n hosts) is_end ch) request path = Some r \<and>
    once_result X (host_result X N (ch_inner ch) (ep_timeout ep) uri (answer_time timeout delay)
      (stack_result X timeout delay (other = name) intercept svc q (rq_message request))) r"
proof -
  have "ch_timeout ch = ep_timeout ep" using endpoint_channel [OF connected] by simp
  with unary_over_channel [OF laws net codecs uri names enc msg env keeps refuses svc host, of ch] show ?thesis by simp
qed

theorem unary_call_over_endpoint_witness:
  "\<exists>ep ch st. endpoint_timeout http_endpoint 4 = Some ep \<and> endpoint_connect ref_ext no_tls ep = DoneAt 0 (Inr ch) \<and>
    client_unary ref_ext origin_a gzip_client raw_encoder raw_decoder
      (over_channel ref_ext (hyper_client ref_ext letter_hosts 4 only_a) (\<lambda>b. b = []) ch) (request_new ref_ext [7, 8]) ''/s.S/m''
      = Some (Inl st) \<and> st_code st = DeadlineExceeded"
proof -
  let ?rq = "request_new ref_ext [7, 8] :: (alist, bytes list option, bytes) request"
  let ?gate = "Inr :: (alist, bytes list option, unit) request \<Rightarrow> alist status + (alist, bytes list option, unit) request"
  have gate: "\<forall>q i. ?gate q = Inr i \<longrightarrow>
      (\<forall>k \<in> set GRPC_RESERVED_HEADERS. hm_get_all ref_ext (rq_metadata i) k = hm_get_all ref_ext (rq_metadata q) k)"
    "\<forall>q st. ?gate q = Inl st \<longrightarrow> st_code st \<noteq> Ok \<and> utf8_valid (st_message st)" by simp_all
  have env: "CHR ''/'' \<notin> set ''s.S''" "\<forall>b. b = [] \<longrightarrow> b = []" "\<forall>xs. mset (rev xs) = mset xs" by simp_all
  obtain ep ch where ep: "endpoint_timeout http_endpoint 4 = Some ep" "ep_timeout ep = Some 4"
    and ch: "endpoint_connect ref_ext no_tls ep = DoneAt 0 (Inr ch)"
    by (simp add: endpoint_timeout_def http_endpoint_def endpoint_new_def uri_is_https_def endpoint_connect_def connect_fut_def
        connect_with_h2_config_def future_map_def Let_def)
  obtain r where r: "client_unary ref_ext origin_a gzip_client raw_encoder raw_decoder
      (over_channel ref_ext (hyper_client ref_ext letter_hosts 4 only_a) (\<lambda>b. b = []) ch) ?rq ''/s.S/m'' = Some r"
    "once_result ref_ext (Inl (status_new ref_ext DeadlineExceeded ''channel request timed out'')
      :: alist status + (alist, bytes list option, bytes) response) r"
    using unary_call_over_endpoint [OF ref_header_laws ref_value_laws ref_percent_laws ref_base64_laws ref_compressor_laws
        letter_setup(1) _ gzip_setup(3,4) letter_setup(2,3) env(1,1) gzip_setup(5) letter_setup(4) env(2,3) gate letter_setup(5,6) ch,
        of 4, unfolded ep(2)] by (auto simp: letter_setup(8) answer_time_def)
  then show ?thesis using ep(1) ch by (auto simp: once_result_def same_status_def status_new_def)
qed

text \<open>
  C4: A balanced channel does not balance: a call reaches the host that the client's own origin names,
  whichever of its channels the balancer picks and whatever addresses it was made with. The call's
  result is the one over a single channel with the same settings, to any address at all, and the
  addresses do not occur in it: what the server at the origin's authority answers, or hyper's
  failure when the client has no origin.
\<close>

theorem balanced_calls_reach_origin:
  fixes X :: "('h, 'x) ext" and G :: "('h, 'm, 'n) grpc_server" and other_uri :: 'u
  assumes laws: "header_laws X" "value_laws X" "percent_laws X" "base64_laws X" "compressor_laws X"
    and net: "network_laws (hn_carry N)" "1 < n"
    and codecs: "codec_laws E (gs_decoder G)" "codec_laws (gs_encoder G) D"
    and uri: "client_uri X U C path = Inr uri" "hn_path N uri = ''/'' @ other @ ''/'' @ m"
    and names: "CHR ''/'' \<notin> set name" "CHR ''/'' \<notin> set other"
    and enc: "\<forall>e. gc_send C = Some e \<longrightarrow> is_enabled (gs_accept G) e"
    and msg: "deliverable X E (gc_send C) (gc_max_encoding C) (gs_max_decoding G) (rq_message request)"
    and env: "\<forall>b. is_end b \<longrightarrow> b = []" "\<forall>xs. mset (iter xs) = mset xs"
    and keeps: "\<forall>q i. intercept q = Inr i \<longrightarrow>
      (\<forall>k \<in> set GRPC_RESERVED_HEADERS. hm_get_all X (rq_metadata i) k = hm_get_all X (rq_metadata q) k)"
    and refuses: "\<forall>q st. intercept q = Inl st \<longrightarrow> st_code st \<noteq> Ok \<and> utf8_valid (st_message st)"
    and svc: "\<forall>req. rq_message req = rq_message request \<longrightarrow> answerable_once X G (negotiated C G) (gc_max_decoding C) (svc req)"
    and host: "\<forall>a. hn_authority N uri = Some a \<longrightarrow> hosts a = served_at X is_end iter
      (add_service router_new name (intercepted_call X intercept (as_service X (server_unary X G svc)))) timeout peer_certs delay"
    and balanced: "from_uris_with_h2_config uris config = Inr b0" "bc_channels b = bc_channels b0"
    and single: "connect_with_h2_config other_uri config = Inr ch"
  shows "(over_balanced X (hyper_client X N n hosts) is_end b :: ('h, 'x, 'm) transport)
      = over_channel X (hyper_client X N n hosts) is_end ch \<and>
    (\<exists>q r. same_metadata X (rq_metadata request) (rq_metadata q) \<and>
      client_unary X U C E D (over_balanced X (hyper_client X N n hosts) is_end b) request path = Some r \<and>
      once_result X (host_result X N (ChannelHttp (apply_h2_config [Http2Only True] config)) None uri (answer_time timeout delay)
        (stack_result X timeout delay (other = name) intercept svc q (rq_message request))) r)"
proof -
  have one: "(over_balanced X (hyper_client X N n hosts) is_end b :: ('h, 'x, 'm) transport)
      = over_channel X (hyper_client X N n hosts) is_end ch"
    by (rule balanced_is_one_channel [OF balanced single])
  have "ch_inner ch = ChannelHttp (apply_h2_config [Http2Only True] config)" "ch_timeout ch = None"
    using single by (auto simp: connect_with_h2_config_def)
  with unary_over_channel [OF laws net codecs uri names enc msg env keeps refuses svc host, of ch] one show ?thesis by simp
qed

theorem balanced_calls_reach_origin_witness:
  "\<exists>b0 resp. (from_uris_with_h2_config [''http://b'', ''http://c''] http2_config_default
      :: alist err + (unit, string) channel balanced_channel) = Inr b0 \<and>
    client_unary ref_ext origin_a gzip_client raw_encoder raw_decoder
      (over_balanced ref_ext (hyper_client ref_ext letter_hosts 4 only_a) (\<lambda>b. b = []) (b0\<lparr>bc_next := 5\<rparr>))
      (request_new ref_ext [7, 8]) ''/s.S/m'' = Some (Inr resp) \<and> rs_message resp = [8, 7]"
proof -
  let ?rq = "request_new ref_ext [7, 8] :: (alist, bytes list option, bytes) request"
  let ?gate = "Inr :: (alist, bytes list option, unit) request \<Rightarrow> alist status + (alist, bytes list option, unit) request"
  have gate: "\<forall>q i. ?gate q = Inr i \<longrightarrow>
      (\<forall>k \<in> set GRPC_RESERVED_HEADERS. hm_get_all ref_ext (rq_metadata i) k = hm_get_all ref_ext (rq_metadata q) k)"
    "\<forall>q st. ?gate q = Inl st \<longrightarrow> st_code st \<noteq> Ok \<and> utf8_valid (st_message st)" by simp_all
  have env: "CHR ''/'' \<notin> set ''s.S''" "\<forall>b. b = [] \<longrightarrow> b = []" "\<forall>xs. mset (rev xs) = mset xs" by simp_all
  obtain b0 where b0: "(from_uris_with_h2_config [''http://b'', ''http://c''] http2_config_default
      :: alist err + (unit, string) channel balanced_channel) = Inr b0"
    by (simp add: from_uris_with_h2_config_def connect_with_h2_config_def)
  obtain ch where ch: "(connect_with_h2_config ''http://d'' http2_config_default :: alist err + (unit, string) channel) = Inr ch"
    by (simp add: connect_with_h2_config_def)
  obtain q r where r: "client_unary ref_ext origin_a gzip_client raw_encoder raw_decoder
      (over_balanced ref_ext (hyper_client ref_ext letter_hosts 4 only_a) (\<lambda>b. b = []) (b0\<lparr>bc_next := 5\<rparr>)) ?rq ''/s.S/m'' = Some r"
    "once_result ref_ext (stack_result ref_ext (Some 9) 3 (''s.S'' = ''s.S'') ?gate reverser q (rq_message ?rq)) r"
    using balanced_calls_reach_origin [OF ref_header_laws ref_value_laws ref_percent_laws ref_base64_laws ref_compressor_laws
        letter_setup(1) _ gzip_setup(3,4) letter_setup(2,3) env(1,1) gzip_setup(5) letter_setup(4) env(2,3) gate letter_setup(5,6) b0 _ ch,
        of 4 "b0\<lparr>bc_next := 5\<rparr>"] by (auto simp: letter_setup(7))
  then obtain resp where "r = Inr resp" "rs_message resp = [8, 7]"
    by (auto simp: once_result_def stack_result_def response_new_def request_new_def)
  with b0 r(1) show ?thesis by auto
qed

end
