(* ===== verification/H3_Rpc.thy ===== *)
theory H3_Rpc
  imports Stack H3
begin

section \<open>A unary call over HTTP/3\<close>

text \<open>
  The composition of \<open>Stack\<close> with the adapters of \<open>H3\<close> in place of hyper's: the channel's deadline
  and the head it rewrites, the task that sends the request's body, the server's received body, its
  deadline, router, interceptor and handler, the loop that sends the response, and the client's
  received body. Between them is a QUIC connection, which delivers the bytes of a stream in order,
  in chunks of its own and with pauses of its own. The two directions are networks in the sense
  of \<open>Rpc\<close>.
\<close>

subsection \<open>The connection\<close>

text \<open>
  What is given from outside: the URI functions that h3 needs, the failures of opening a stream on
  the connection, of sending the request's head, of sending its data and of receiving the response's
  head, how a direction's chunks are delivered, and how often the trailers are not there yet.
\<close>

record 'h quic =
  qn_has_scheme :: "string \<Rightarrow> bool"
  qn_with_authority :: "string \<Rightarrow> 'h err + string"
  qn_path :: "string \<Rightarrow> string"
  qn_open :: "'h err option"
  qn_send_head :: "'h err option"
  qn_recv_head :: "'h err option"
  qn_fails :: "nat \<Rightarrow> bool"
  qn_up :: "bytes list \<Rightarrow> h3_data_ev list"
  qn_down :: "bytes list \<Rightarrow> h3_data_ev list"
  qn_wait :: nat

definition delivers :: "(bytes list \<Rightarrow> h3_data_ev list) \<Rightarrow> bool" where
  "delivers d \<longleftrightarrow> (\<forall>ds. no_data_error (d ds) \<and> chunks_data (d ds) = concat ds)"

definition quic_works :: "'h quic \<Rightarrow> bool" where
  "quic_works Q \<longleftrightarrow> qn_open Q = None \<and> qn_send_head Q = None \<and> qn_recv_head Q = None \<and>
     qn_fails Q = (\<lambda>_. False) \<and> delivers (qn_up Q) \<and> delivers (qn_down Q)"

definition sent_chunks :: "('h, 'p) send_op list \<Rightarrow> bytes list" where
  "sent_chunks ops = concat (map (\<lambda>op. case op of SendData d \<Rightarrow> [d] | _ \<Rightarrow> []) ops)"

definition sent_trailers :: "('h, 'p) send_op list \<Rightarrow> 'h list" where
  "sent_trailers ops = concat (map (\<lambda>op. case op of SendTrailers t \<Rightarrow> [t] | _ \<Rightarrow> []) ops)"

definition received :: "(bytes list \<Rightarrow> h3_data_ev list) \<Rightarrow> nat \<Rightarrow> ('h, 'p) send_op list \<Rightarrow> 'h h3_recv_body" where
  "received d wait ops =
     h3_recv_body_new (d (sent_chunks ops)) (replicate wait TrailersPending @ map TrailersGot (sent_trailers ops))"

text \<open>Reading a received body to its end.\<close>

definition read_whole ::
  "('h h3_recv_body \<Rightarrow> 'h h3_recv_body \<times> ('h status + 'h frame) option poll) \<Rightarrow> 'h h3_recv_body \<Rightarrow> 'h body" where
  "read_whole poll s = polled poll (Suc (length (hr_data s) + length (hr_trailers s))) s"

text \<open>What polling the body of a response or request \<open>n\<close> times yields.\<close>

definition polled_body :: "('h, 'x) ext \<Rightarrow> nat \<Rightarrow> ('h, 'm) encode_body body_kind \<Rightarrow> 'h body" where
  "polled_body X n k = (case k of KEmpty \<Rightarrow> [] | KWrap b \<Rightarrow> polled (encode_poll_frame X) n b)"

subsection \<open>The exchange\<close>

definition h3_arriving_request ::
  "('h, 'x) ext \<Rightarrow> 'h quic \<Rightarrow> nat \<Rightarrow> ('h, 'x, ('h, 'm) encode_body body_kind) http_request
     \<Rightarrow> ('h, 'x, 'h h3_recv_body) http_request" where
  "h3_arriving_request X Q n parts =
     \<lparr>hq_method = hq_method parts, hq_path = qn_path Q (hq_path parts), hq_version = hq_version parts,
      hq_headers = hq_headers parts, hq_extensions = xt_empty X,
      hq_body = received (qn_up Q) (qn_wait Q)
        (send_h3_request_body (qn_fails Q) (polled_body X n (hq_body parts)) :: ('h, unit) send_op list)\<rparr>"

definition h3_arriving_response ::
  "('h, 'x) ext \<Rightarrow> 'h quic \<Rightarrow> nat \<Rightarrow> ('h, 'x, 'n) grpc_http_response \<Rightarrow> ('h, 'x) raw_response" where
  "h3_arriving_response X Q n resp =
     \<lparr>hp_status = hp_status resp, hp_version = hp_version resp, hp_headers = hp_headers resp,
      hp_extensions = xt_empty X,
      hp_body = as_raw (read_whole (h3_client_poll_frame X)
        (received (qn_down Q) (qn_wait Q) (send_h3_response X () (polled_body X n (hp_body resp)))))\<rparr>"

text \<open>\<^verbatim>\<open>send_h3_request\<close> against the server behind the connection.\<close>

definition h3_exchange ::
  "('h, 'x) ext \<Rightarrow> 'h quic \<Rightarrow> nat \<Rightarrow> (('h, 'x, 'h h3_recv_body) http_request \<Rightarrow> ('h, 'x, 'n) grpc_http_response future)
     \<Rightarrow> ('h, 'x, ('h, 'm) encode_body body_kind) http_request \<Rightarrow> ('h err + ('h, 'x) raw_response) future" where
  "h3_exchange X Q n server req =
     (case qn_open Q of
        Some e \<Rightarrow> DoneAt 0 (Inl e)
      | None \<Rightarrow>
          (case h3_request_parts X (qn_has_scheme Q) (qn_with_authority Q) req of
             Inl e \<Rightarrow> DoneAt 0 (Inl e)
           | Inr parts \<Rightarrow>
               (case qn_send_head Q of
                  Some e \<Rightarrow> DoneAt 0 (Inl e)
                | None \<Rightarrow>
                    future_map (\<lambda>resp. case qn_recv_head Q of
                        Some e \<Rightarrow> Inl e
                      | None \<Rightarrow> Inr (h3_arriving_response X Q n resp)) (server (h3_arriving_request X Q n parts)))))"

text \<open>The transport of a client whose channel has the deadline \<open>channel_timeout\<close>.\<close>

definition over_h3 ::
  "('h, 'x) ext \<Rightarrow> 'h quic \<Rightarrow> nat \<Rightarrow> nat option
     \<Rightarrow> (('h, 'x, 'h h3_recv_body) http_request \<Rightarrow> ('h, 'x, 'n) grpc_http_response future) \<Rightarrow> ('h, 'x, 'm) transport" where
  "over_h3 X Q n channel_timeout server req =
     (case h3_channel_call X channel_timeout (h3_exchange X Q n server) req of
        DoneAt t r \<Rightarrow> r
      | Never \<Rightarrow> Inl (EStatus (status_new X Unavailable [])))"

text \<open>The server: its deadline around the router, which takes \<open>delay\<close>. A handler reads the received body.\<close>

definition h3_unwrapped :: "('h, 'x) ext \<Rightarrow> 'h h3_recv_body body_kind body_kind \<Rightarrow> ('h, 'h err) raw_body" where
  "h3_unwrapped X k = (case k of KWrap (KWrap b) \<Rightarrow> as_raw (read_whole (h3_server_poll_frame X) b) | _ \<Rightarrow> [])"

definition h3_served ::
  "('h, 'x) ext \<Rightarrow> ((string \<times> ('h, 'x, 'h h3_recv_body body_kind body_kind, ('h, 'n) encode_body body_kind) service) list
         \<Rightarrow> (string \<times> ('h, 'x, 'h h3_recv_body body_kind body_kind, ('h, 'n) encode_body body_kind) service) list)
     \<Rightarrow> ('h, 'x, 'h h3_recv_body body_kind body_kind, ('h, 'n) encode_body body_kind) service router
     \<Rightarrow> nat option \<Rightarrow> nat \<Rightarrow> ('h, 'x, 'h h3_recv_body) http_request \<Rightarrow> ('h, 'x, 'n) grpc_http_response future" where
  "h3_served X iter router timeout delay =
     h3_serve_request X timeout (\<lambda>req. DoneAt delay (router_call X iter (body_is_end_stream (\<lambda>_. False)) router req))"

subsection \<open>Both directions are networks\<close>

lemma sent_simps [simp]:
  "sent_chunks [] = []" "sent_chunks (SendData d # ops) = d # sent_chunks ops"
  "sent_chunks (SendTrailers t # ops) = sent_chunks ops" "sent_chunks (SendFinish # ops) = sent_chunks ops"
  "sent_chunks (SendResponse p # ops) = sent_chunks ops" "sent_chunks (map SendData ds @ ops) = ds @ sent_chunks ops"
  "sent_trailers [] = []" "sent_trailers (SendData d # ops) = sent_trailers ops"
  "sent_trailers (SendTrailers t # ops) = t # sent_trailers ops" "sent_trailers (SendFinish # ops) = sent_trailers ops"
  "sent_trailers (SendResponse p # ops) = sent_trailers ops" "sent_trailers (map SendData ds @ ops) = sent_trailers ops"
  "sent_chunks (map SendTrailers ts @ ops) = sent_chunks ops" "sent_trailers (map SendTrailers ts @ ops) = ts @ sent_trailers ops"
  by (induction ds, simp_all add: sent_chunks_def sent_trailers_def) (induction ts, simp_all)+

lemma trailers_outcome_waits: "trailers_outcome X msg (replicate k TrailersPending @ ts) = trailers_outcome X msg ts"
  by (induction k) simp_all

lemma read_received:
  assumes "delivers d" "length (sent_trailers ops) \<le> 1"
  shows "\<exists>evs. data_only evs \<and> body_data evs = concat (sent_chunks ops) \<and>
    read_whole (h3_poll_frame dm tm X) (received d k ops) = evs @ map (\<lambda>t. BFrame (FTrailers t)) (sent_trailers ops)"
proof -
  let ?s = "received d k ops"
  have s: "hr_data ?s = d (sent_chunks ops)" "hr_trailers ?s = replicate k TrailersPending @ map TrailersGot (sent_trailers ops)"
    "\<not> hr_data_done ?s" "\<not> hr_trailers_done ?s" by (simp_all add: received_def h3_recv_body_new_def)
  have d: "no_data_error (d (sent_chunks ops))" "chunks_data (d (sent_chunks ops)) = concat (sent_chunks ops)"
    using assms(1) by (simp_all add: delivers_def)
  have t: "trailers_outcome X tm (hr_trailers ?s) = map (\<lambda>t. BFrame (FTrailers t)) (sent_trailers ops)"
    using assms(2) unfolding s(2) trailers_outcome_waits by (cases "sent_trailers ops") simp_all
  show ?thesis
    using polled_h3_body [of ?s "Suc (length (hr_data ?s) + length (hr_trailers ?s))" dm tm X] d
    unfolding t by (simp add: s read_whole_def)
qed

lemma request_frames_data:
  "data_only evs \<Longrightarrow> \<exists>ds. concat ds = body_data evs \<and> (\<forall>i tail. request_frames (\<lambda>_. False) i (evs @ tail)
     = (map SendData ds :: ('h, 'p) send_op list) @ request_frames (\<lambda>_. False) (i + length ds) tail)"
proof (induction evs rule: data_only.induct)
  case 1
  show ?case by (rule exI [of _ "[]"]) simp
next
  case (3 d evs)
  then obtain ds where "concat ds = body_data evs" "\<forall>i tail. request_frames (\<lambda>_. False) i (evs @ tail)
     = (map SendData ds :: ('h, 'p) send_op list) @ request_frames (\<lambda>_. False) (i + length ds) tail" by auto
  then show ?case by (intro exI [of _ "d # ds"]) simp
qed auto

text \<open>What a body's events become on the other side, upwards and downwards.\<close>

definition h3_up :: "('h, 'x) ext \<Rightarrow> 'h quic \<Rightarrow> 'h body \<Rightarrow> 'h body" where
  "h3_up X Q evs = read_whole (h3_server_poll_frame X)
     (received (qn_up Q) (qn_wait Q) (send_h3_request_body (\<lambda>_. False) evs :: ('h, unit) send_op list))"

definition h3_down :: "('h, 'x) ext \<Rightarrow> 'h quic \<Rightarrow> 'h body \<Rightarrow> 'h body" where
  "h3_down X Q evs = read_whole (h3_client_poll_frame X)
     (received (qn_down Q) (qn_wait Q) (send_h3_response X () evs))"

lemma poll_frame_messages:
  "h3_server_poll_frame X = h3_poll_frame ''h3 recv error: '' ''h3 trailers error: '' X"
  "h3_client_poll_frame X = h3_poll_frame ''h3 client recv error: '' ''h3 client trailers error: '' X"
  by (simp_all add: fun_eq_iff h3_server_poll_frame_def h3_client_poll_frame_def)

lemma network_lawsI:
  assumes "\<And>d ts. data_only d \<Longrightarrow> length ts \<le> 1 \<Longrightarrow> \<exists>d'. data_only d' \<and> body_data d' = body_data d \<and>
    carry (d @ map (\<lambda>t. BFrame (FTrailers t)) ts) = d' @ map (\<lambda>t. BFrame (FTrailers t)) ts"
  shows "network_laws carry"
  unfolding network_laws_def
proof (intro conjI allI impI)
  fix d :: "'a body" and t :: 'a
  assume d: "data_only d"
  show "data_only (carry d)" "body_data (carry d) = body_data d" using assms [OF d, of "[]"] by auto
  show "\<exists>d'. data_only d' \<and> body_data d' = body_data d \<and> carry (d @ [BFrame (FTrailers t)]) = d' @ [BFrame (FTrailers t)]"
    using assms [OF d, of "[t]"] by simp
qed

lemma h3_up_network: "delivers (qn_up Q) \<Longrightarrow> network_laws (h3_up X Q)"
proof (rule network_lawsI)
  fix d :: "'a body" and ts :: "'a list"
  assume laws: "delivers (qn_up Q)" and d: "data_only d" and ts: "length ts \<le> 1"
  let ?tail = "map (\<lambda>t. BFrame (FTrailers t)) ts :: 'a body"
  obtain ds where ds: "concat ds = body_data d" "\<forall>i tail. request_frames (\<lambda>_. False) i (d @ tail)
     = (map SendData ds :: ('a, unit) send_op list) @ request_frames (\<lambda>_. False) (i + length ds) tail"
    using request_frames_data [OF d] by blast
  have tail: "request_frames (\<lambda>_. False) i ?tail = map SendTrailers ts" for i using ts by (cases ts) simp_all
  let ?ops = "send_h3_request_body (\<lambda>_. False) (d @ ?tail) :: ('a, unit) send_op list"
  have "request_frames (\<lambda>_. False) 0 (d @ ?tail) = (map SendData ds :: ('a, unit) send_op list) @ map SendTrailers ts"
    unfolding ds(2) [rule_format] tail by (rule refl)
  then have "sent_chunks ?ops = ds" "sent_trailers ?ops = ts" by (simp_all add: send_h3_request_body_def)
  with read_received [OF laws, of ?ops "''h3 recv error: ''" "''h3 trailers error: ''" X "qn_wait Q"] ts
  show "\<exists>d'. data_only d' \<and> body_data d' = body_data d \<and> h3_up X Q (d @ ?tail) = d' @ ?tail"
    unfolding h3_up_def poll_frame_messages ds(1) [symmetric] by metis
qed

lemma h3_down_network: "delivers (qn_down Q) \<Longrightarrow> network_laws (h3_down X Q)"
proof (rule network_lawsI)
  fix d :: "'a body" and ts :: "'a list"
  assume laws: "delivers (qn_down Q)" and d: "data_only d" and ts: "length ts \<le> 1"
  let ?tail = "map (\<lambda>t. BFrame (FTrailers t)) ts :: 'a body"
  obtain ds where ds: "concat ds = body_data d" "\<forall>tail t0. response_frames X (d @ tail) t0 =
     (case response_frames X tail t0 of (ops, t) \<Rightarrow> ((map SendData ds :: ('a, unit) send_op list) @ ops, t))"
    using response_frames_data [OF d] by blast
  let ?ops = "send_h3_response X () (d @ ?tail)"
  have tail: "response_frames X ?tail None = ([], case ts of [] \<Rightarrow> None | t # _ \<Rightarrow> Some t)" using ts by (cases ts) simp_all
  have "response_frames X (d @ ?tail) None = ((map SendData ds :: ('a, unit) send_op list), case ts of [] \<Rightarrow> None | t # _ \<Rightarrow> Some t)"
    unfolding ds(2) [rule_format] tail by simp
  then have "sent_chunks ?ops = ds" "sent_trailers ?ops = ts"
    using ts by (simp_all add: send_h3_response_def) (cases ts; simp)+
  with read_received [OF laws, of ?ops "''h3 client recv error: ''" "''h3 client trailers error: ''" X "qn_wait Q"] ts
  show "\<exists>d'. data_only d' \<and> body_data d' = body_data d \<and> h3_down X Q (d @ ?tail) = d' @ ?tail"
    unfolding h3_down_def poll_frame_messages ds(1) [symmetric] by metis
qed

subsection \<open>What arrives\<close>

lemma request_frames_polled:
  "request_frames fails i (polled (encode_poll_frame X) n b) = request_frames fails i (body_events X n b)"
  by (induction n arbitrary: b i) (auto split: prod.splits poll.splits option.splits sum.splits frame.splits)

text \<open>The request on the server, against what the network of \<open>Rpc\<close> makes of it.\<close>

lemma h3_request_arrives:
  assumes "header_laws X" "quic_works Q" "hq_path r = uri" "\<not> qn_has_scheme Q uri" "qn_with_authority Q uri = Inr full" "qn_path Q full = uri"
  shows "\<exists>parts. h3_request_parts X (qn_has_scheme Q) (qn_with_authority Q) r = Inr parts \<and>
    (let a = h3_service_request (h3_arriving_request X Q n parts); c = carried_request X (h3_up X Q) n r
     in hq_path a = uri \<and> hq_extensions a = hq_extensions c \<and>
        h3_unwrapped X (body_new (body_is_end_stream (\<lambda>_. False)) (hq_body a)) = hq_body c \<and>
        (\<forall>k. k \<noteq> ''te'' \<longrightarrow> hm_get_all X (hq_headers a) k = hm_get_all X (hq_headers c) k))"
proof -
  have works: "qn_fails Q = (\<lambda>_. False)" using assms(2) by (simp add: quic_works_def)
  let ?parts = "r\<lparr>hq_version := Http3, hq_headers := hm_remove X (hq_headers r) ''te'', hq_path := full\<rparr>"
  have p: "h3_request_parts X (qn_has_scheme Q) (qn_with_authority Q) r = Inr ?parts"
    using assms by (simp add: h3_request_parts_def)
  have "send_h3_request_body (\<lambda>_. False) (polled_body X n (hq_body r)) =
      (send_h3_request_body (\<lambda>_. False) (sent_body X n (hq_body r)) :: ('a, unit) send_op list)"
    by (simp add: send_h3_request_body_def polled_body_def sent_body_def request_frames_polled split: body_kind.split)
  then show ?thesis
    using p assms
    by (simp add: h3_service_request_def h3_arriving_request_def carried_request_def h3_unwrapped_def body_new_def
        body_is_end_stream_def h3_up_def header_lawsD [OF assms(1)] works)
qed

text \<open>The response at the client, for a body that yields nothing after a failure.\<close>

lemma h3_response_arrives:
  assumes "value_laws X" "percent_laws X" "base64_laws X"
    and "hp_body resp = KEmpty \<or> (\<exists>E src cenc mx. hp_body resp = KWrap (new_server E src cenc mx) \<and>
      all_encode X E cenc mx src \<and> error_last src)"
  shows "h3_arriving_response X Q n resp = carried_response X (h3_down X Q) n resp"
proof -
  have "polled_body X n (hp_body resp) = sent_body X n (hp_body resp)"
    using assms(4) polled_new_server [OF assms(1-3)] by (auto simp: polled_body_def sent_body_def)
  then show ?thesis by (simp add: h3_arriving_response_def carried_response_def h3_down_def)
qed

lemma once_answer_arrives:
  assumes "value_laws X" "percent_laws X" "base64_laws X" "answerable_once X G acc mxr res"
  shows "h3_arriving_response X Q n (map_response X G (once_response res) acc)
    = carried_response X (h3_down X Q) n (map_response X G (once_response res) acc)"
proof (rule h3_response_arrives [OF assms(1-3)])
  show "hp_body (map_response X G (once_response res) acc) = KEmpty \<or>
     (\<exists>E src cenc mx. hp_body (map_response X G (once_response res) acc) = KWrap (new_server E src cenc mx) \<and>
      all_encode X E cenc mx src \<and> error_last src)"
  proof (cases res)
    case (Inl st)
    then show ?thesis by (simp add: answered_status status_into_http_def Let_def http_response_new_def body_empty_def split: prod.splits sum.splits)
  next
    case (Inr resp)
    have "all_encode X (gs_encoder G) acc (gs_max_encoding G) [SrcItem (rs_message resp)]"
      using assms(4) Inr by (auto simp: answerable_once_def deliverable_def)
    then show ?thesis
      by (intro disjI2 exI [of _ "gs_encoder G"] exI [of _ "[SrcItem (rs_message resp)]"] exI [of _ acc] exI [of _ "gs_max_encoding G"])
        (simp add: Inr once_response_def map_response_body response_map_def)
  qed
qed

lemma same_but_te:
  assumes "header_laws X" "\<forall>k. k \<noteq> ''te'' \<longrightarrow> hm_get_all X h' k = hm_get_all X h k"
  shows "from_encoding_header X h' e = from_encoding_header X h e"
    and "from_accept_encoding_header X h' e = from_accept_encoding_header X h e"
    and "same_metadata X md h \<Longrightarrow> same_metadata X md h'"
proof -
  have "hm_get X h' ENCODING_HEADER = hm_get X h ENCODING_HEADER"
    "hm_get X h' ACCEPT_ENCODING_HEADER = hm_get X h ACCEPT_ENCODING_HEADER"
    using assms(2) by (simp_all add: hm_get_eq [OF assms(1)] ENCODING_HEADER_def ACCEPT_ENCODING_HEADER_def)
  then show "from_encoding_header X h' e = from_encoding_header X h e"
    "from_accept_encoding_header X h' e = from_accept_encoding_header X h e"
    by (simp_all add: from_encoding_header_def from_accept_encoding_header_def)
  assume md: "same_metadata X md h"
  have te: "''te'' \<in> set GRPC_RESERVED_HEADERS" by (simp add: GRPC_RESERVED_HEADERS_def)
  show "same_metadata X md h'"
    unfolding same_metadata_def
  proof
    fix k
    show "k \<in> set GRPC_RESERVED_HEADERS \<or> hm_get_all X h' k = hm_get_all X md k"
      using md te assms(2) unfolding same_metadata_def by (cases "k = ''te''") (blast, metis)
  qed
qed

subsection \<open>The property\<close>

text \<open>What the caller has when the server answers after \<open>answer_time\<close>.\<close>

definition h3_stack_result ::
  "('h, 'x) ext \<Rightarrow> nat option \<Rightarrow> nat option \<Rightarrow> nat \<Rightarrow> 'h status + 'r \<Rightarrow> 'h status + 'r" where
  "h3_stack_result X channel_timeout timeout delay res =
     (if \<exists>d. channel_timeout = Some d \<and> d < answer_time timeout delay
      then Inl (status_new X DeadlineExceeded ''h3 channel request timed out'') else res)"

lemma h3_served_eq:
  "h3_served X iter router timeout delay req = DoneAt (answer_time timeout delay)
     (if \<exists>d. timeout = Some d \<and> d < delay
      then status_into_http X body_empty (status_new X DeadlineExceeded ''request timed out'')
      else router_call X iter (body_is_end_stream (\<lambda>_. False)) router (h3_service_request req))"
  by (auto simp: h3_served_def h3_serve_request_def h3_service_request_def tokio_timeout_def future_map_def Let_def
      answer_time_def split: option.splits)

lemma over_h3_eq:
  assumes "quic_works Q" "h3_request_parts X (qn_has_scheme Q) (qn_with_authority Q) req = Inr parts"
    and "server (h3_arriving_request X Q n parts) = DoneAt t resp"
  shows "over_h3 X Q n channel_timeout server req =
    (if \<exists>d. channel_timeout = Some d \<and> d < t
     then Inl (EStatus (status_new X DeadlineExceeded ''h3 channel request timed out''))
     else Inr (h3_arriving_response X Q n resp))"
  using assms by (auto simp: quic_works_def over_h3_def h3_channel_call_def h3_exchange_def tokio_timeout_def future_map_def Let_def split: option.splits)

text \<open>The client's side, whoever serves.\<close>

lemma over_h3_call:
  assumes "quic_works Q"
    and "prepare_request X U C (request_map (body_new eb_is_end_stream)
        (request_map (\<lambda>s. new_client E (stream_ok s) (gc_send C) (gc_max_encoding C)) request)) path = Inr r"
    and "h3_request_parts X (qn_has_scheme Q) (qn_with_authority Q) r = Inr parts"
    and "server (h3_arriving_request X Q n parts) = DoneAt t resp"
  shows "client_streaming_call X U C E D (over_h3 X Q n channel_timeout server) request path
    = (if \<exists>d. channel_timeout = Some d \<and> d < t
       then Inl (status_new X DeadlineExceeded ''h3 channel request timed out'')
       else create_response X C D (h3_arriving_response X Q n resp))"
  by (cases "\<exists>d. channel_timeout = Some d \<and> d < t")
     (auto simp: client_streaming_call_def assms(2) over_h3_eq [where server = server, OF assms(1,3,4)] from_error_def)

text \<open>The server's side: from the request the client prepared to what the server answers, and when.\<close>

lemma h3_served_result:
  fixes X :: "('h, 'x) ext" and G :: "('h, 'm, 'n) grpc_server" and r :: "('h, 'x, ('h, 'm) encode_body body_kind) http_request"
    and Q :: "'h quic" and n :: nat
  defines "c \<equiv> carried_request X (h3_up X Q) n r"
  assumes laws: "header_laws X" and quic: "quic_works Q"
    and uri: "\<not> qn_has_scheme Q (hq_path c)" "qn_with_authority Q (hq_path c) = Inr full" "qn_path Q full = hq_path c"
    and iter: "\<And>xs. mset (iter xs) = mset xs" and names: "CHR ''/'' \<notin> set name" "CHR ''/'' \<notin> set other"
    and keeps: "\<forall>q i. intercept q = Inr i \<longrightarrow>
      (\<forall>k \<in> set GRPC_RESERVED_HEADERS. hm_get_all X (rq_metadata i) k = hm_get_all X (rq_metadata q) k)"
    and raw: "hq_path c = ''/'' @ other @ ''/'' @ m" "hq_extensions c = xt_empty X" "hq_body c = as_raw w"
      "data_only w" "body_data w = grpc_frame b p" "payload_ok X (gs_decoder G) enc (gs_max_decoding G) b p msg"
      "from_encoding_header X (hq_headers c) (gs_accept G) = Inr enc"
      "from_accept_encoding_header X (hq_headers c) (gs_send G) = acc" "same_metadata X md (hq_headers c)"
  shows "\<exists>parts q. h3_request_parts X (qn_has_scheme Q) (qn_with_authority Q) r = Inr parts \<and>
    same_metadata X md (rq_metadata q) \<and> rq_extensions q = xt_empty X \<and>
    h3_served X iter (add_service router_new name (intercepted_call X intercept (service_of (h3_unwrapped X) (server_unary X G svc))))
        timeout delay (h3_arriving_request X Q n parts)
      = DoneAt (answer_time timeout delay)
          (map_response X G (once_response (stack_result X timeout delay (other = name) intercept svc q msg)) acc)"
proof -
  let ?router = "add_service router_new name (intercepted_call X intercept (service_of (h3_unwrapped X) (server_unary X G svc)))"
  have path: "hq_path r = hq_path c" by (simp add: c_def carried_request_def)
  obtain parts where parts: "h3_request_parts X (qn_has_scheme Q) (qn_with_authority Q) r = Inr parts"
    and arr: "hq_path (h3_service_request (h3_arriving_request X Q n parts)) = ''/'' @ other @ ''/'' @ m"
      "hq_extensions (h3_service_request (h3_arriving_request X Q n parts)) = xt_empty X"
      "h3_unwrapped X (body_new (body_is_end_stream (\<lambda>_. False)) (hq_body (h3_service_request (h3_arriving_request X Q n parts)))) = as_raw w"
      "\<forall>k. k \<noteq> ''te'' \<longrightarrow> hm_get_all X (hq_headers (h3_service_request (h3_arriving_request X Q n parts))) k = hm_get_all X (hq_headers c) k"
    using h3_request_arrives [OF laws(1) quic path uri, of n] raw(1-3) by (auto simp: Let_def c_def)
  let ?a = "h3_service_request (h3_arriving_request X Q n parts)"
  note te = same_but_te [OF laws(1) arr(4)]
  define q where "q = request_from_parts (hq_headers ?a) () (hq_extensions ?a)"
  have q: "same_metadata X md (rq_metadata q)" "rq_extensions q = xt_empty X"
    using te(3) [OF raw(9)] arr(2) by (simp_all add: q_def request_from_parts_def)
  have routed: "router_call X iter (body_is_end_stream (\<lambda>_. False)) ?router ?a
      = map_response X G (once_response (stack_result X None 0 (other = name) intercept svc q msg)) acc"
    unfolding q_def
    by (rule routed_result [where hr = ?a and read = "h3_unwrapped X" and is_end = "body_is_end_stream (\<lambda>_. False)",
          OF laws(1) iter names keeps arr(1,3) raw(4-6)])
      (simp_all only: te(1,2) raw(7,8))
  have "h3_served X iter ?router timeout delay (h3_arriving_request X Q n parts)
      = DoneAt (answer_time timeout delay) (map_response X G (once_response (stack_result X timeout delay (other = name) intercept svc q msg)) acc)"
    unfolding h3_served_eq routed by (subst (2) stack_result_late) (auto simp: answered_status [where G = G and acc = acc])
  with parts q show ?thesis by blast
qed

text \<open>
  C8: A unary call over HTTP/3 through the whole server, like over HTTP/2. When the server's answer
  comes after the channel's deadline, the caller has \<open>DeadlineExceeded\<close>; otherwise what
  \<open>stack_result\<close> says: the server's own deadline, an unknown service, the interceptor's refusal, or
  the method's answer to the caller's message and metadata. It holds however the connection cuts the
  bytes of both streams and pauses them, and no extension crosses it.
\<close>

theorem unary_call_over_h3:
  fixes X :: "('h, 'x) ext" and G :: "('h, 'm, 'n) grpc_server"
  assumes laws: "header_laws X" "value_laws X" "percent_laws X" "base64_laws X" "compressor_laws X"
    and quic: "quic_works Q" "1 < n"
    and codecs: "codec_laws E (gs_decoder G)" "codec_laws (gs_encoder G) D"
    and uri: "client_uri X U C path = Inr (''/'' @ other @ ''/'' @ m)"
      "\<not> qn_has_scheme Q (''/'' @ other @ ''/'' @ m)" "qn_with_authority Q (''/'' @ other @ ''/'' @ m) = Inr full"
      "qn_path Q full = ''/'' @ other @ ''/'' @ m"
    and names: "CHR ''/'' \<notin> set name" "CHR ''/'' \<notin> set other"
    and enc: "\<forall>e. gc_send C = Some e \<longrightarrow> is_enabled (gs_accept G) e"
    and msg: "deliverable X E (gc_send C) (gc_max_encoding C) (gs_max_decoding G) (rq_message request)"
    and env: "\<forall>xs. mset (iter xs) = mset xs"
    and keeps: "\<forall>q i. intercept q = Inr i \<longrightarrow>
      (\<forall>k \<in> set GRPC_RESERVED_HEADERS. hm_get_all X (rq_metadata i) k = hm_get_all X (rq_metadata q) k)"
    and refuses: "\<forall>q st. intercept q = Inl st \<longrightarrow> st_code st \<noteq> Ok \<and> utf8_valid (st_message st)"
    and svc: "\<forall>req. rq_message req = rq_message request \<longrightarrow> answerable_once X G (negotiated C G) (gc_max_decoding C) (svc req)"
  shows "\<exists>q r. same_metadata X (rq_metadata request) (rq_metadata q) \<and> rq_extensions q = xt_empty X \<and>
    client_unary X U C E D (over_h3 X Q n channel_timeout (h3_served X iter
        (add_service router_new name (intercepted_call X intercept (service_of (h3_unwrapped X) (server_unary X G svc))))
        timeout delay)) request path = Some r \<and>
    once_result X (h3_stack_result X channel_timeout timeout delay
      (stack_result X timeout delay (other = name) intercept svc q (rq_message request))) r"
proof -
  let ?router = "add_service router_new name (intercepted_call X intercept (service_of (h3_unwrapped X) (server_unary X G svc)))"
  let ?server = "h3_served X iter ?router timeout delay"
  have "delivers (qn_up Q)" "delivers (qn_down Q)" using quic(1) by (simp_all add: quic_works_def)
  note up = h3_up_network [OF this(1), of X] and down = h3_down_network [OF this(2), of X]
  obtain r w p where r: "prepare_request X U C (request_map (body_new eb_is_end_stream)
        (request_map (\<lambda>s. new_client E (stream_ok s) (gc_send C) (gc_max_encoding C)) (request_map (\<lambda>m. [Ready m]) request))) path = Inr r"
    and raw: "hq_path (carried_request X (h3_up X Q) n r) = ''/'' @ other @ ''/'' @ m"
      "hq_extensions (carried_request X (h3_up X Q) n r) = xt_empty X" "hq_body (carried_request X (h3_up X Q) n r) = as_raw w"
      "data_only w" "body_data w = grpc_frame (gc_send C \<noteq> None) p"
      "payload_ok X (gs_decoder G) (gc_send C) (gs_max_decoding G) (gc_send C \<noteq> None) p (rq_message request)"
      "from_encoding_header X (hq_headers (carried_request X (h3_up X Q) n r)) (gs_accept G) = Inr (gc_send C)"
      "from_accept_encoding_header X (hq_headers (carried_request X (h3_up X Q) n r)) (gs_send G) = negotiated C G"
      "same_metadata X (rq_metadata request) (hq_headers (carried_request X (h3_up X Q) n r))"
    using unary_request_carried [OF laws up quic(2) codecs(1) uri(1) enc msg] by blast
  obtain parts q where parts: "h3_request_parts X (qn_has_scheme Q) (qn_with_authority Q) r = Inr parts"
    and q: "same_metadata X (rq_metadata request) (rq_metadata q)" "rq_extensions q = xt_empty X"
    and served: "?server (h3_arriving_request X Q n parts) = DoneAt (answer_time timeout delay)
      (map_response X G (once_response (stack_result X timeout delay (other = name) intercept svc q (rq_message request))) (negotiated C G))"
    using h3_served_result [OF laws(1) quic(1) uri(2-4) [folded raw(1)] env [rule_format] names keeps raw] by blast
  let ?res = "stack_result X timeout delay (other = name) intercept svc q (rq_message request)"
  have ans: "answerable_once X G (negotiated C G) (gc_max_decoding C) ?res"
    by (rule stack_result_answerable [OF refuses svc])
  have call: "client_streaming_call X U C E D (over_h3 X Q n channel_timeout ?server) (request_map (\<lambda>m. [Ready m]) request) path
    = (if \<exists>d. channel_timeout = Some d \<and> d < answer_time timeout delay
       then Inl (status_new X DeadlineExceeded ''h3 channel request timed out'')
       else create_response X C D (carried_response X (h3_down X Q) n (map_response X G (once_response ?res) (negotiated C G))))"
    unfolding over_h3_call [where server = ?server, OF quic(1) r parts served] once_answer_arrives [OF laws(2-4) ans] by (rule refl)
  show ?thesis
  proof (cases "\<exists>d. channel_timeout = Some d \<and> d < answer_time timeout delay")
    case True
    then have "client_unary X U C E D (over_h3 X Q n channel_timeout ?server) request path
        = Some (Inl (status_new X DeadlineExceeded ''h3 channel request timed out''))"
      using call by (simp add: client_unary_def client_client_streaming_def)
    with True q show ?thesis by (auto simp: h3_stack_result_def once_result_def same_status_def)
  next
    case False
    from once_result_arrives [OF laws down quic(2) codecs(2) ans call [unfolded if_not_P [OF False]]] q show ?thesis
      unfolding client_unary_def h3_stack_result_def if_not_P [OF False] by blast
  qed
qed

text \<open>A connection that delivers each byte on its own, after a pause.\<close>

definition drip :: "bytes list \<Rightarrow> h3_data_ev list" where
  "drip ds = concat (map (\<lambda>b. [DataPending, DataChunk [b]]) (concat ds))"

lemma drip_delivers: "delivers drip"
proof -
  have "no_data_error (concat (map (\<lambda>b. [DataPending, DataChunk [b]]) d)) \<and>
      chunks_data (concat (map (\<lambda>b. [DataPending, DataChunk [b]]) d)) = d" for d by (induction d) simp_all
  then show ?thesis by (simp add: delivers_def drip_def)
qed

definition plain_quic :: "alist quic" where
  "plain_quic = \<lparr>qn_has_scheme = (\<lambda>u. take 8 u = ''https://''), qn_with_authority = (\<lambda>p. Inr (''https://h:1'' @ p)),
     qn_path = drop 11, qn_open = None, qn_send_head = None, qn_recv_head = None, qn_fails = (\<lambda>_. False), qn_up = drip, qn_down = drip, qn_wait = 2\<rparr>"

lemma plain_quic_fields [simp]:
  "qn_has_scheme plain_quic = (\<lambda>u. take 8 u = ''https://'')" "qn_with_authority plain_quic p = Inr (''https://h:1'' @ p)"
  "qn_path plain_quic = drop 11" "quic_works plain_quic"
  by (simp_all add: plain_quic_def quic_works_def drip_delivers)

theorem unary_call_over_h3_witness:
  "(\<exists>resp. client_unary ref_ext plain_uri gzip_client raw_encoder raw_decoder
      (over_h3 ref_ext plain_quic 4 (Some 5) (h3_served ref_ext rev
        (add_service router_new ''s.S'' (intercepted_call ref_ext Inr
          (service_of (h3_unwrapped ref_ext) (server_unary ref_ext gzip_server (\<lambda>r. Inr (response_new ref_ext (rev (rq_message r))))))))
        (Some 9) 3)) (request_new ref_ext [7, 8]) ''/s.S/m'' = Some (Inr resp) \<and> rs_message resp = [8, 7])"
proof -
  note cfg = gzip_setup(1,7-11)
  let ?svc = "\<lambda>r. Inr (response_new ref_ext (rev (rq_message r)))
    :: alist status + (alist, bytes list option, bytes) response"
  let ?rq = "request_new ref_ext [7, 8] :: (alist, bytes list option, bytes) request"
  have uri: "client_uri ref_ext plain_uri gzip_client ''/s.S/m'' = Inr (''/'' @ ''s.S'' @ ''/'' @ ''m'')"
    using gzip_setup(2) by simp
  have names: "CHR ''/'' \<notin> set ''s.S''" by simp
  have msg: "deliverable ref_ext raw_encoder (gc_send gzip_client) (gc_max_encoding gzip_client) (gs_max_decoding gzip_server) (rq_message ?rq)"
    unfolding cfg by (rule gzip_deliverable) (simp_all add: request_new_def)
  have svc: "\<forall>req. rq_message req = rq_message ?rq \<longrightarrow>
      answerable_once ref_ext gzip_server (negotiated gzip_client gzip_server) (gc_max_decoding gzip_client) (?svc req)"
    unfolding gzip_setup answerable_once_def by (simp add: gzip_deliverable request_new_def response_new_def)
  let ?gate = "Inr :: (alist, bytes list option, unit) request \<Rightarrow> alist status + (alist, bytes list option, unit) request"
  have gate: "\<forall>q i. ?gate q = Inr i \<longrightarrow>
      (\<forall>k \<in> set GRPC_RESERVED_HEADERS. hm_get_all ref_ext (rq_metadata i) k = hm_get_all ref_ext (rq_metadata q) k)"
    "\<forall>q st. ?gate q = Inl st \<longrightarrow> st_code st \<noteq> Ok \<and> utf8_valid (st_message st)" by simp_all
  have perm: "\<forall>xs. mset (rev xs) = mset xs" by simp
  have addr: "\<not> qn_has_scheme plain_quic (''/'' @ ''s.S'' @ ''/'' @ ''m'')"
    "qn_with_authority plain_quic (''/'' @ ''s.S'' @ ''/'' @ ''m'') = Inr ''https://h:1/s.S/m''"
    "qn_path plain_quic ''https://h:1/s.S/m'' = ''/'' @ ''s.S'' @ ''/'' @ ''m''" by simp_all
  obtain q r where
    r: "client_unary ref_ext plain_uri gzip_client raw_encoder raw_decoder
      (over_h3 ref_ext plain_quic 4 (Some 5) (h3_served ref_ext rev
        (add_service router_new ''s.S'' (intercepted_call ref_ext ?gate (service_of (h3_unwrapped ref_ext) (server_unary ref_ext gzip_server ?svc))))
        (Some 9) 3)) ?rq ''/s.S/m'' = Some r"
    "once_result ref_ext (h3_stack_result ref_ext (Some 5) (Some 9) 3
      (stack_result ref_ext (Some 9) 3 (''s.S'' = ''s.S'') ?gate ?svc q (rq_message ?rq))) r"
    using unary_call_over_h3 [OF ref_header_laws ref_value_laws ref_percent_laws ref_base64_laws ref_compressor_laws
        plain_quic_fields(4) _ gzip_setup(3,4) uri addr names names gzip_setup(5) msg perm gate svc,
        where n = 4 and channel_timeout = "Some 5" and timeout = "Some 9" and delay = 3] by auto
  have res: "h3_stack_result ref_ext (Some 5) (Some 9) 3
      (stack_result ref_ext (Some 9) 3 (''s.S'' = ''s.S'') ?gate ?svc q (rq_message ?rq)) = Inr (response_new ref_ext [8, 7])"
    by (simp add: h3_stack_result_def stack_result_def answer_time_def request_new_def)
  from r(2) obtain resp where "r = Inr resp" "rs_message resp = [8, 7]"
    unfolding res once_result_def by (auto simp: response_new_def)
  with r(1) show ?thesis by auto
qed

subsection \<open>Streams in both directions\<close>

text \<open>A handler directly behind the adapter, which reads the received body.\<close>

definition h3_read :: "('h, 'x) ext \<Rightarrow> 'h h3_recv_body body_kind \<Rightarrow> ('h, 'h err) raw_body" where
  "h3_read X k = (case k of KWrap b \<Rightarrow> as_raw (read_whole (h3_server_poll_frame X) b) | KEmpty \<Rightarrow> [])"

definition h3_handled ::
  "('h, 'x) ext \<Rightarrow> (('h, 'x) raw_request \<Rightarrow> ('h, 'x, 'n) grpc_http_response option) \<Rightarrow> nat option \<Rightarrow> nat
     \<Rightarrow> ('h, 'x, 'h h3_recv_body) http_request \<Rightarrow> ('h, 'x, 'n) grpc_http_response future" where
  "h3_handled X handler timeout delay = h3_serve_request X timeout (\<lambda>req. DoneAt delay (service_of (h3_read X) handler req))"

lemma h3_handled_eq:
  "h3_handled X handler timeout delay req = DoneAt (answer_time timeout delay)
     (if \<exists>d. timeout = Some d \<and> d < delay
      then status_into_http X body_empty (status_new X DeadlineExceeded ''request timed out'')
      else service_of (h3_read X) handler (h3_service_request req))"
  by (auto simp: h3_handled_def h3_serve_request_def h3_service_request_def tokio_timeout_def future_map_def Let_def
      answer_time_def split: option.splits)

lemma h3_read_once: "h3_unwrapped X (body_new (body_is_end_stream (\<lambda>_. False)) k) = h3_read X k"
  by (simp add: h3_unwrapped_def h3_read_def body_new_def body_is_end_stream_def body_empty_def split: body_kind.split)

lemma stream_answer_arrives:
  assumes "value_laws X" "percent_laws X" "base64_laws X" "answerable X G acc mxr n res"
    and "\<forall>resp. res = Inr resp \<longrightarrow> error_last (rs_message resp)"
  shows "h3_arriving_response X Q n (map_response X G res acc) = carried_response X (h3_down X Q) n (map_response X G res acc)"
proof (rule h3_response_arrives [OF assms(1-3)])
  show "hp_body (map_response X G res acc) = KEmpty \<or>
     (\<exists>E src cenc mx. hp_body (map_response X G res acc) = KWrap (new_server E src cenc mx) \<and>
      all_encode X E cenc mx src \<and> error_last src)"
  proof (cases res)
    case (Inl st)
    then show ?thesis
      by (simp add: map_response_def status_into_http_def Let_def http_response_new_def body_empty_def split: prod.splits sum.splits)
  next
    case (Inr resp)
    then have "all_encode X (gs_encoder G) acc (gs_max_encoding G) (rs_message resp)"
      using assms(4) by (simp add: answerable_def deliverable_stream_def)
    then show ?thesis
      using assms(5) Inr
      by (intro disjI2 exI [of _ "gs_encoder G"] exI [of _ "rs_message resp"] exI [of _ acc] exI [of _ "gs_max_encoding G"])
        (simp add: map_response_body)
  qed
qed

text \<open>The server's side of a streaming call, from the request the client prepared.\<close>

lemma h3_streaming_served:
  fixes X :: "('h, 'x) ext" and Q :: "'h quic" and n :: nat and r :: "('h, 'x, ('h, 'm) encode_body body_kind) http_request"
  defines "c \<equiv> carried_request X (h3_up X Q) n r"
  assumes laws: "header_laws X" and quic: "quic_works Q"
    and uri: "hq_path r = uri" "\<not> qn_has_scheme Q uri" "qn_with_authority Q uri = Inr full" "qn_path Q full = uri"
    and req: "map_request_streaming X G c = Inr req" "from_accept_encoding_header X (hq_headers c) (gs_send G) = acc"
  shows "\<exists>parts h. h3_request_parts X (qn_has_scheme Q) (qn_with_authority Q) r = Inr parts \<and>
    (\<forall>md. same_metadata X md (rq_metadata req) \<longrightarrow> same_metadata X md h) \<and>
    h3_handled X (\<lambda>r. Some (server_streaming X G svc r)) timeout delay (h3_arriving_request X Q n parts)
      = DoneAt (answer_time timeout delay) (map_response X G (timed_result X timeout delay (svc (req\<lparr>rq_metadata := h\<rparr>))) acc)"
proof -
  obtain parts where parts: "h3_request_parts X (qn_has_scheme Q) (qn_with_authority Q) r = Inr parts"
    and arr: "hq_extensions (h3_service_request (h3_arriving_request X Q n parts)) = hq_extensions c"
      "h3_read X (hq_body (h3_service_request (h3_arriving_request X Q n parts))) = hq_body c"
      "\<forall>k. k \<noteq> ''te'' \<longrightarrow> hm_get_all X (hq_headers (h3_service_request (h3_arriving_request X Q n parts))) k
         = hm_get_all X (hq_headers c) k"
    using h3_request_arrives [OF laws quic uri, of n] by (auto simp: Let_def h3_read_once c_def)
  let ?a = "h3_service_request (h3_arriving_request X Q n parts)"
  let ?raw = "\<lparr>hq_method = hq_method ?a, hq_path = hq_path ?a, hq_version = hq_version ?a, hq_headers = hq_headers ?a,
      hq_extensions = hq_extensions ?a, hq_body = hq_body c\<rparr>"
  let ?req = "req\<lparr>rq_metadata := hq_headers ?a\<rparr>"
  note te = same_but_te [OF laws arr(3)]
  have md: "rq_metadata req = hq_headers c" and "map_request_streaming X G ?raw = Inr ?req"
    using req(1) arr(1) te(1)
    by (auto simp: map_request_streaming_def request_from_http_parts_def split: sum.splits)
  then have "service_of (h3_read X) (\<lambda>r. Some (server_streaming X G svc r)) ?a = map_response X G (svc ?req) acc"
    using req(2) te(2) by (simp add: service_of_def arr(2) server_streaming_def)
  then have "h3_handled X (\<lambda>r. Some (server_streaming X G svc r)) timeout delay (h3_arriving_request X Q n parts)
      = DoneAt (answer_time timeout delay) (map_response X G (timed_result X timeout delay (svc ?req)) acc)"
    unfolding h3_handled_eq by (auto simp: timed_result_def map_response_def)
  then show ?thesis using parts te(3) md by (intro exI [of _ parts] exI [of _ "hq_headers ?a"]) simp
qed

text \<open>
  C9: A bidirectional call over HTTP/3 carries both streams whole, however the connection cuts and
  pauses them: the method's request stream yields exactly the caller's messages, and the caller has
  the method's stream with its final status, or its failure, or \<open>DeadlineExceeded\<close> when the server's or
  the channel's deadline passed before the method answered. The method's stream must end at its first
  error, since over HTTP/3 what follows one is sent too.
\<close>

theorem bidi_call_over_h3:
  fixes X :: "('h, 'x) ext" and G :: "('h, 'm, 'n) grpc_server"
  assumes laws: "header_laws X" "value_laws X" "percent_laws X" "base64_laws X" "compressor_laws X"
    and quic: "quic_works Q" "length (rq_message request) < n"
    and codecs: "codec_laws E (gs_decoder G)" "codec_laws (gs_encoder G) D"
    and uri: "client_uri X U C path = Inr uri" "\<not> qn_has_scheme Q uri" "qn_with_authority Q uri = Inr full" "qn_path Q full = uri"
    and enc: "\<forall>e. gc_send C = Some e \<longrightarrow> is_enabled (gs_accept G) e"
    and msgs: "deliverable_stream X E (gc_send C) (gc_max_encoding C) (gs_max_decoding G) (stream_ok (rq_message request))"
    and svc: "\<forall>req. stream_yields X (rq_message req) (stream_items (rq_message request)) (Inr ()) \<longrightarrow>
      answerable X G (negotiated C G) (gc_max_decoding C) n (svc req) \<and>
      (\<forall>resp. svc req = Inr resp \<longrightarrow> error_last (rs_message resp))"
  shows "\<exists>req. stream_yields X (rq_message req) (stream_items (rq_message request)) (Inr ()) \<and>
    rq_extensions req = xt_empty X \<and> same_metadata X (rq_metadata request) (rq_metadata req) \<and>
    stream_result X G (negotiated C G)
      (h3_stack_result X channel_timeout timeout delay (timed_result X timeout delay (svc req)))
      (client_streaming_call X U C E D (over_h3 X Q n channel_timeout
        (h3_handled X (\<lambda>r. Some (server_streaming X G svc r)) timeout delay)) request path)"
proof -
  let ?server = "h3_handled X (\<lambda>r. Some (server_streaming X G svc r)) timeout delay"
  have "delivers (qn_up Q)" "delivers (qn_down Q)" using quic(1) by (simp_all add: quic_works_def)
  note up = h3_up_network [OF this(1), of X] and down = h3_down_network [OF this(2), of X]
  obtain r req0 where r: "prepare_request X U C (request_map (body_new eb_is_end_stream)
        (request_map (\<lambda>s. new_client E (stream_ok s) (gc_send C) (gc_max_encoding C)) request)) path = Inr r"
    and req0: "map_request_streaming X G (carried_request X (h3_up X Q) n r) = Inr req0"
    "from_accept_encoding_header X (hq_headers (carried_request X (h3_up X Q) n r)) (gs_send G) = negotiated C G"
    "stream_yields X (rq_message req0) (stream_items (rq_message request)) (Inr ())"
    "rq_extensions req0 = xt_empty X" "same_metadata X (rq_metadata request) (rq_metadata req0)"
    using streaming_request_arrives [OF laws up quic(2) codecs(1) uri(1) enc msgs] by blast
  have path: "hq_path r = uri" using request_prepared [OF laws(1,2) uri(1) enc, of E request] r by auto
  obtain parts h where parts: "h3_request_parts X (qn_has_scheme Q) (qn_with_authority Q) r = Inr parts"
    and h: "\<forall>md. same_metadata X md (rq_metadata req0) \<longrightarrow> same_metadata X md h"
    and served: "?server (h3_arriving_request X Q n parts) = DoneAt (answer_time timeout delay)
      (map_response X G (timed_result X timeout delay (svc (req0\<lparr>rq_metadata := h\<rparr>))) (negotiated C G))"
    using h3_streaming_served [OF laws(1) quic(1) path uri(2-4) req0(1,2)] by blast
  let ?req = "req0\<lparr>rq_metadata := h\<rparr>"
  have req: "stream_yields X (rq_message ?req) (stream_items (rq_message request)) (Inr ())" "rq_extensions ?req = xt_empty X"
    "same_metadata X (rq_metadata request) (rq_metadata ?req)"
    using req0(3-5) h by simp_all
  let ?res = "timed_result X timeout delay (svc ?req)"
  have "answerable X G (negotiated C G) (gc_max_decoding C) n (svc ?req)" "\<forall>resp. svc ?req = Inr resp \<longrightarrow> error_last (rs_message resp)"
    using svc req(1) by blast+
  then have ans: "answerable X G (negotiated C G) (gc_max_decoding C) n ?res" "\<forall>resp. ?res = Inr resp \<longrightarrow> error_last (rs_message resp)"
    by (simp_all add: timed_result_def answerable_def utf8_valid_def)
  have call: "client_streaming_call X U C E D (over_h3 X Q n channel_timeout ?server) request path
    = (if \<exists>d. channel_timeout = Some d \<and> d < answer_time timeout delay
       then Inl (status_new X DeadlineExceeded ''h3 channel request timed out'')
       else create_response X C D (carried_response X (h3_down X Q) n (map_response X G ?res (negotiated C G))))"
    unfolding over_h3_call [where server = ?server, OF quic(1) r parts served] stream_answer_arrives [OF laws(2-4) ans] by (rule refl)
  have "stream_result X G (negotiated C G) ?res
      (create_response X C D (carried_response X (h3_down X Q) n (map_response X G ?res (negotiated C G))))"
    by (rule stream_result_arrives [OF laws down codecs(2) ans(1)])
  then have "stream_result X G (negotiated C G) (h3_stack_result X channel_timeout timeout delay ?res)
      (client_streaming_call X U C E D (over_h3 X Q n channel_timeout ?server) request path)"
    unfolding call h3_stack_result_def
    by (cases "\<exists>d. channel_timeout = Some d \<and> d < answer_time timeout delay")
       (simp_all only: if_True if_False, simp add: stream_result_def same_status_def)
  with req show ?thesis by blast
qed

theorem bidi_call_over_h3_witness:
  "stream_result ref_ext gzip_server (Some Gzip) sample_answer
      (client_streaming_call ref_ext plain_uri gzip_client raw_encoder raw_decoder
        (over_h3 ref_ext plain_quic 4 None (h3_handled ref_ext (\<lambda>r. Some (server_streaming ref_ext gzip_server (\<lambda>_. sample_answer) r)) None 3))
        sample_stream ''/s.S/m'')"
proof -
  note cfg = gzip_setup(1,7-11)
  have msgs: "deliverable_stream ref_ext raw_encoder (gc_send gzip_client) (gc_max_encoding gzip_client)
      (gs_max_decoding gzip_server) (stream_ok (rq_message sample_stream))"
    unfolding cfg by (rule sample_stream_deliverable(1))
  have svc: "answerable ref_ext gzip_server (negotiated gzip_client gzip_server) (gc_max_decoding gzip_client) 4 sample_answer \<and>
      (\<forall>resp. sample_answer = Inr resp \<longrightarrow> error_last (rs_message resp))"
    unfolding cfg using sample_answerable by (simp add: response_new_def)
  have addr: "\<not> qn_has_scheme plain_quic ''/s.S/m''" "qn_with_authority plain_quic ''/s.S/m'' = Inr ''https://h:1/s.S/m''"
    "qn_path plain_quic ''https://h:1/s.S/m'' = ''/s.S/m''" by simp_all
  from bidi_call_over_h3 [OF ref_header_laws ref_value_laws ref_percent_laws ref_base64_laws ref_compressor_laws
      plain_quic_fields(4) sample_stream_deliverable(3) gzip_setup(3,4,2) addr gzip_setup(5) msgs,
      of "\<lambda>_. sample_answer" None None 3] svc
  show ?thesis by (simp add: gzip_setup(1) h3_stack_result_def timed_result_def) blast
qed

end
