(* ===== verification/Web_Rpc.thy ===== *)
theory Web_Rpc
  imports Stack Web
begin

section \<open>A call from a gRPC-Web client\<close>

text \<open>
  The gRPC-Web layer around the router: \<^verbatim>\<open>router.into_layered(GrpcWebLayer::new())\<close>.
  A browser's request (message frames in the encoding of its content type, chunk by chunk) goes
  through the layer, the router, an interceptor and the handler of a unary method, and the response
  back through the layer. The browser is not code of the repository; what it can read is stated with
  the protocol's reader (\<open>web_read\<close>, \<open>read_frames\<close>).
\<close>

subsection \<open>The layered router\<close>

text \<open>The request's body as the handler reads it: one poll for each event, and the end.\<close>

definition web_read_request :: "('h, 'x) ext \<Rightarrow> ('h, 'h err) web_call body_kind \<Rightarrow> ('h, 'h err) raw_body" where
  "web_read_request X k =
     (case k of
        KWrap c \<Rightarrow> as_raw (map_err_body X (polled (web_poll_frame X) (Suc (length (wc_inner c))) c))
      | KEmpty \<Rightarrow> [])"

definition web_router ::
  "('h, 'x) ext \<Rightarrow> ((string \<times> ('h, 'x, ('h, 'h err) web_call body_kind, ('h, 'n) encode_body body_kind) service) list
         \<Rightarrow> (string \<times> ('h, 'x, ('h, 'h err) web_call body_kind, ('h, 'n) encode_body body_kind) service) list)
     \<Rightarrow> ('h, 'x, ('h, 'h err) web_call body_kind, ('h, 'n) encode_body body_kind) service router \<Rightarrow> nat
     \<Rightarrow> ('h, 'x, ('h, 'h err) web_call) http_request \<Rightarrow> 'f + ('h, 'x, 'h body) http_response" where
  "web_router X iter router n req =
     (let resp = router_call X iter (\<lambda>_. False) router req
      in Inr \<lparr>hp_status = hp_status resp, hp_version = hp_version resp, hp_headers = hp_headers resp,
              hp_extensions = hp_extensions resp, hp_body = sent_body X n (hp_body resp)\<rparr>)"

text \<open>What the transport sends of the translated response, polled past its end.\<close>

definition web_sent :: "('h, 'x) ext \<Rightarrow> ('h, 'x, ('h, 'h status) web_call) http_response \<Rightarrow> 'h body" where
  "web_sent X resp = polled (web_poll_frame X) (length (wc_inner (hp_body resp)) + 3) (hp_body resp)"

text \<open>
  What the browser has of a method's result: its status, in the headers; or its one message, as the
  payload the server's encoder makes, with the status \<open>Ok\<close> in the frame of trailers, and its
  metadata.
\<close>

definition web_result ::
  "('h, 'x) ext \<Rightarrow> ('h, 'm, 'n) grpc_server \<Rightarrow> compression_encoding option \<Rightarrow> web_encoding
     \<Rightarrow> 'h status + ('h, 'x, 'n) response \<Rightarrow> ('h, 'x, ('h, 'h status) web_call) http_response \<Rightarrow> bool" where
  "web_result X G acc enc res resp \<longleftrightarrow>
     (case res of
        Inl st \<Rightarrow> (\<exists>st'. from_header_map X (hp_headers resp) = Some st' \<and> same_status st st')
      | Inr ans \<Rightarrow> (\<exists>p bs. payload_of X (gs_encoder G) acc (rs_message ans) = Inr p \<and>
          web_read X enc (web_sent X resp) = Some bs \<and>
          read_frames bs = Some ([(acc \<noteq> None, p)], [(GRPC_STATUS, ''0'')]) \<and>
          (\<forall>k. k \<in> set GRPC_RESERVED_HEADERS \<or> k = ''content-length'' \<or>
             hm_get_all X (hp_headers resp) k = hm_get_all X (rs_metadata ans) k)))"

text \<open>What a method or an interceptor may answer.\<close>

definition encodes_once ::
  "('h, 'x) ext \<Rightarrow> ('h, 'm, 'n) grpc_server \<Rightarrow> compression_encoding option \<Rightarrow> 'h status + ('h, 'x, 'n) response \<Rightarrow> bool" where
  "encodes_once X G acc res \<longleftrightarrow>
     (case res of
        Inl st \<Rightarrow> utf8_valid (st_message st)
      | Inr ans \<Rightarrow> (\<exists>f. frame_of X (gs_encoder G) acc (gs_max_encoding G) (rs_message ans) = Inr f))"

subsection \<open>Lemmas\<close>

lemma data_only_map_err [simp]:
  "data_only evs \<Longrightarrow> data_only (map_err_body X evs)"
  "data_only evs \<Longrightarrow> body_data (map_err_body X evs) = body_data evs"
  by (induction evs rule: data_only.induct) (simp_all add: map_err_body_def)

text \<open>The request's frames reach the handler, whatever chunks they were encoded in.\<close>

lemma web_request_read:
  assumes "base64_laws X" "data_only evs"
  shows "\<exists>w. data_only w \<and> body_data w = body_data evs \<and>
    web_read_request X (body_new (\<lambda>_. False) (web_request (map_data (web_out X enc) evs) enc)) = as_raw w"
proof (intro exI conjI)
  have len: "length (map_data (web_out X enc) evs) = length evs"
    by (induction "web_out X enc" evs rule: map_data.induct) simp_all
  have "polled (web_poll_frame X) (length evs + 1) (web_request (map_data (web_out X enc) evs @ []) enc)
      = evs @ polled (web_poll_frame X) 1 (web_request [] enc)"
    by (rule polled_web_request [OF assms])
  also have "polled (web_poll_frame X) 1 (web_request [] enc :: ('a, 'c) web_call) = []"
    by (simp add: web_body.finished_poll web_finished_def web_request_def)
  finally have p: "polled (web_poll_frame X) (Suc (length evs)) (web_request (map_data (web_out X enc) evs) enc) = evs"
    by simp
  show "web_read_request X (body_new (\<lambda>_. False) (web_request (map_data (web_out X enc) evs) enc)) = as_raw (map_err_body X evs)"
    using p len by (simp add: web_read_request_def body_new_def) (simp add: web_request_def)
qed (use assms in simp_all)

text \<open>The trailers of a successful response have one field.\<close>

lemma ok_trailers_fields:
  assumes "header_laws X" "value_laws X" "percent_laws X" "base64_laws X"
  shows "hm_iter X (fst (add_header X (status_new X Ok []) (hm_empty X))) = [(GRPC_STATUS, ''0'')]"
proof -
  let ?t = "fst (add_header X (status_new X Ok []) (hm_empty X))"
  have all: "hm_get_all X ?t k = (if k = GRPC_STATUS then [''0''] else [])" for k
    unfolding add_header_get_all [OF assms] by (simp add: metadata_new_def header_lawsD [OF assms(1)] status_new_def)
  have one: "map snd (filter (\<lambda>p. fst p = GRPC_STATUS) (hm_iter X ?t)) = [''0'']"
    unfolding hm_iter_values [OF assms(1)] all by simp
  have "\<forall>p \<in> set (hm_iter X ?t). fst p = GRPC_STATUS"
  proof
    fix p assume "p \<in> set (hm_iter X ?t)"
    then have "snd p \<in> set (hm_get_all X ?t (fst p))" using hm_iter_in [OF assms(1), of "fst p" "snd p" ?t] by simp
    then show "fst p = GRPC_STATUS" by (simp add: all split: if_splits)
  qed
  with one show ?thesis by (cases "hm_iter X ?t") auto
qed

lemma from_header_map_same:
  assumes "from_header_map X h = Some st"
    and "\<forall>k \<in> {GRPC_STATUS, GRPC_MESSAGE, GRPC_STATUS_DETAILS}. hm_get X h' k = hm_get X h k"
  shows "\<exists>st'. from_header_map X h' = Some st' \<and> same_status st st'"
  using assms by (auto simp: from_header_map_def same_status_def with_details_and_metadata_def Let_def split: option.splits)

text \<open>The translated response of a handler.\<close>

lemma web_answer:
  fixes X :: "('h, 'x) ext" and G :: "('h, 'm, 'n) grpc_server" and res :: "'h status + ('h, 'x, 'n) response"
  assumes laws: "header_laws X" "value_laws X" "percent_laws X" "base64_laws X" and n: "1 < n"
    and res: "encodes_once X G acc res"
    and resp: "hp_headers resp = hp_headers (map_response X G (once_response res) acc)"
      "hp_body resp = sent_body X n (hp_body (map_response X G (once_response res) acc))"
  shows "web_result X G acc enc res (web_coerce_response X enc resp)"
proof (cases res)
  case (Inl st)
  have u: "utf8_valid (st_message st)" using res by (simp add: encodes_once_def Inl)
  have h: "hp_headers resp = hp_headers (status_into_http X (body_empty :: ('h, 'n) encode_body body_kind) st)"
    using resp(1) by (simp add: Inl answered_status)
  obtain st1 where st1: "from_header_map X (hp_headers resp) = Some st1" "same_status st st1"
    using status_response_read(1) [OF laws u, of "body_empty :: ('h, 'n) encode_body body_kind"] h by (auto simp: same_status_def)
  have "\<forall>k \<in> {GRPC_STATUS, GRPC_MESSAGE, GRPC_STATUS_DETAILS}.
      hm_get X (hp_headers (web_coerce_response X enc resp)) k = hm_get X (hp_headers resp) k"
    by (simp add: hm_get_eq [OF laws(1)] coerced_response [OF laws(1)] status_names)
  from from_header_map_same [OF st1(1) this] st1(2) show ?thesis by (auto simp: web_result_def Inl same_status_def)
next
  case (Inr ans)
  define t where "t = fst (add_header X (status_new X Ok []) (hm_empty X))"
  obtain f where f: "frame_of X (gs_encoder G) acc (gs_max_encoding G) (rs_message ans) = Inr f"
    using res by (auto simp: encodes_once_def Inr)
  obtain p where p: "payload_of X (gs_encoder G) acc (rs_message ans) = Inr p" "length p < 2 ^ 32" "f = grpc_frame (acc \<noteq> None) p"
    using f by (auto simp: frame_of_Inr_iff)
  obtain evs where evs: "data_only evs" "body_data evs = f"
    "body_events X n (new_server (gs_encoder G) [SrcItem (rs_message ans)] acc (gs_max_encoding G)) = evs @ [BFrame (FTrailers t)]"
    using one_message_events [OF laws(2-4) f n, of "new_server (gs_encoder G) [SrcItem (rs_message ans)] acc (gs_max_encoding G)"]
    by (auto simp: body_end_def new_server_def t_def)
  have b: "hp_body resp = evs @ [BFrame (FTrailers t)]"
    using resp(2) evs(3) by (simp add: Inr once_response_def response_map_def map_response_body sent_body_def)
  have fields: "hm_iter X t = [(GRPC_STATUS, ''0'')]" unfolding t_def by (rule ok_trailers_fields [OF laws])
  have line: "list_all line_ok (hm_iter X t)" "length (trailer_block (hm_iter X t)) < 2 ^ 32"
    unfolding fields by (simp_all add: line_ok_def trailer_block_def str_bytes_def GRPC_STATUS_def)
  have fr: "body_data evs = concat (map (\<lambda>(c, p). grpc_frame c p) [(acc \<noteq> None, p)])" "\<forall>(c, p)\<in>set [(acc \<noteq> None, p)]. length p < 2 ^ 32"
    using evs(2) p by simp_all
  have sent: "web_sent X (web_coerce_response X enc resp)
      = polled (web_poll_frame X) (length (evs @ [BFrame (FTrailers t)]) + 3) (web_response (evs @ BFrame (FTrailers t) # []) enc)"
    by (simp add: web_sent_def web_coerce_response_def Let_def b) (simp add: web_response_def)
  obtain bs where "web_read X enc (web_sent X (web_coerce_response X enc resp)) = Some bs"
    "read_frames bs = Some ([(acc \<noteq> None, p)], hm_iter X t)"
    unfolding sent using web_response_read [OF laws(4) evs(1) fr line, of "length (evs @ [BFrame (FTrailers t)]) + 3" "[]" enc] by auto
  moreover have "k \<in> set GRPC_RESERVED_HEADERS \<or> k = ''content-length'' \<or>
      hm_get_all X (hp_headers (web_coerce_response X enc resp)) k = hm_get_all X (rs_metadata ans) k" for k
  proof -
    have "{''content-type'', ENCODING_HEADER} \<subseteq> set GRPC_RESERVED_HEADERS" by (simp add: ENCODING_HEADER_def GRPC_RESERVED_HEADERS_def)
    then show ?thesis
      unfolding coerced_response [OF laws(1)] resp(1)
      by (auto simp: Inr once_response_def map_response_headers [OF laws(1)] response_map_def)
  qed
  ultimately show ?thesis using p(1) fields by (auto simp: web_result_def Inr)
qed

subsection \<open>The property\<close>

text \<open>
  C10: A unary call from a gRPC-Web client, in binary or in text mode, through the layer and the
  router. The interceptor sees the browser's headers (but for those the translation sets) and the
  method the browser's message; the browser has the status of a failure (unknown service, the
  interceptor's, the method's) in the headers, or the method's one message with its metadata
  and, in the frame of trailers, the status \<open>Ok\<close>.
\<close>

theorem web_call_end_to_end:
  fixes X :: "('h, 'x) ext" and G :: "('h, 'm, 'n) grpc_server"
    and req :: "('h, 'x, ('h, 'h err) raw_body) http_request"
  assumes laws: "header_laws X" "value_laws X" "percent_laws X" "base64_laws X" and n: "1 < n"
    and web: "is_grpc_web (content_type_of X req)" "enc = from_content_type (content_type_of X req)"
    and path: "hq_path req = ''/'' @ other @ ''/'' @ m" "CHR ''/'' \<notin> set name" "CHR ''/'' \<notin> set other"
    and body: "hq_body req = map_data (web_out X enc) evs" "data_only evs" "body_data evs = grpc_frame c p"
      "payload_ok X (gs_decoder G) cenc (gs_max_decoding G) c p msg"
    and encodings: "from_encoding_header X (hq_headers req) (gs_accept G) = Inr cenc"
      "from_accept_encoding_header X (hq_headers req) (gs_send G) = acc"
    and iter: "\<forall>xs. mset (iter xs) = mset xs"
    and keeps: "\<forall>q i. intercept q = Inr i \<longrightarrow>
      (\<forall>k \<in> set GRPC_RESERVED_HEADERS. hm_get_all X (rq_metadata i) k = hm_get_all X (rq_metadata q) k)"
    and refuses: "\<forall>q st. intercept q = Inl st \<longrightarrow> utf8_valid (st_message st)"
    and svc: "\<forall>r. rq_message r = msg \<longrightarrow> encodes_once X G acc (svc r)"
  shows "\<exists>q resp. rq_extensions q = hq_extensions req \<and>
    (\<forall>k. k \<in> {''content-type'', ''te'', ''content-length''} \<or> hm_get_all X (rq_metadata q) k = hm_get_all X (hq_headers req) k) \<and>
    web_call_service X (web_router X iter
        (add_service router_new name (intercepted_call X intercept (service_of (web_read_request X) (server_unary X G svc)))) n) req
      = (Inr resp :: 'f + _) \<and>
    hm_get X (hp_headers resp) ''content-type'' = Some (if enc = Binary then ''application/grpc-web'' else ''application/grpc-web-text'') \<and>
    web_result X G acc enc (stack_result X None 0 (other = name) intercept svc q msg) resp"
proof -
  let ?router = "add_service router_new name (intercepted_call X intercept (service_of (web_read_request X) (server_unary X G svc)))"
  let ?hr = "web_coerce_request X enc req"
  define q where "q = request_from_parts (hq_headers ?hr) () (hq_extensions ?hr)"
  let ?res = "stack_result X None 0 (other = name) intercept svc q msg"
  note hd = coerced_request [OF laws(1), of enc req]
  have hr: "hq_path ?hr = ''/'' @ other @ ''/'' @ m" "hq_extensions ?hr = hq_extensions req"
    "hq_body ?hr = web_request (map_data (web_out X enc) evs) enc"
    using path(1) body(1) by (simp_all add: web_coerce_request_def Let_def)
  obtain w where w: "data_only w" "body_data w = grpc_frame c p" "web_read_request X (body_new (\<lambda>_. False) (hq_body ?hr)) = as_raw w"
    using web_request_read [OF laws(4) body(2), of enc] body(3) unfolding hr(3) by auto
  have "hm_get X (hq_headers ?hr) ENCODING_HEADER = hm_get X (hq_headers req) ENCODING_HEADER"
    "hm_get X (hq_headers ?hr) ACCEPT_ENCODING_HEADER = hm_get X (hq_headers req) ACCEPT_ENCODING_HEADER"
    by (simp_all add: hm_get_eq [OF laws(1)] hd ENCODING_HEADER_def ACCEPT_ENCODING_HEADER_def)
  then have e: "from_encoding_header X (hq_headers ?hr) (gs_accept G) = Inr cenc"
    "from_accept_encoding_header X (hq_headers ?hr) (gs_send G) = acc"
    using encodings by (simp_all add: from_encoding_header_def from_accept_encoding_header_def)
  have routed: "router_call X iter (\<lambda>_. False) ?router ?hr = map_response X G (once_response ?res) acc"
    unfolding q_def
    by (rule routed_result [where hr = ?hr and read = "web_read_request X" and is_end = "\<lambda>_. False",
          OF laws(1) iter [rule_format] path(2,3) keeps hr(1) w(3) w(1,2) body(4) e])
  let ?resp = "\<lparr>hp_status = hp_status (map_response X G (once_response ?res) acc),
    hp_version = hp_version (map_response X G (once_response ?res) acc),
    hp_headers = hp_headers (map_response X G (once_response ?res) acc),
    hp_extensions = hp_extensions (map_response X G (once_response ?res) acc),
    hp_body = sent_body X n (hp_body (map_response X G (once_response ?res) acc))\<rparr>"
  have call: "web_call_service X (web_router X iter ?router n) req = (Inr (web_coerce_response X enc ?resp) :: 'f + _)"
    by (simp add: translated_call [OF web] web_router_def routed Let_def)
  have "encodes_once X G acc (Inl st)" if "utf8_valid (st_message st)" for st :: "'h status"
    using that by (simp add: encodes_once_def)
  then have "encodes_once X G acc ?res"
    using refuses svc by (cases "intercept q") (simp_all add: stack_result_def utf8_valid_def)
  then have "web_result X G acc enc ?res (web_coerce_response X enc ?resp)"
    by (rule web_answer [OF laws n]) simp_all
  moreover have "hm_get X (hp_headers (web_coerce_response X enc ?resp)) ''content-type''
      = Some (if enc = Binary then ''application/grpc-web'' else ''application/grpc-web-text'')"
    by (simp add: hm_get_eq [OF laws(1)] coerced_response [OF laws(1)])
  moreover have "rq_extensions q = hq_extensions req"
    "\<forall>k. k \<in> {''content-type'', ''te'', ''content-length''} \<or> hm_get_all X (rq_metadata q) k = hm_get_all X (hq_headers req) k"
    using hr(2) hd by (auto simp: q_def request_from_parts_def)
  ultimately show ?thesis
    using call by (intro exI [of _ q] exI [of _ "web_coerce_response X enc ?resp"] conjI)
qed

text \<open>A text request with one message in two chunks.\<close>

definition text_request :: "(alist, bytes list option, (alist, alist err) raw_body) http_request" where
  "text_request = \<lparr>hq_method = ''POST'', hq_path = ''/s.S/m'', hq_version = Http11,
     hq_headers = [(''content-type'', ''application/grpc-web-text'')], hq_extensions = None,
     hq_body = map_data (web_out ref_ext Base64) [BFrame (FData [0, 0, 0, 0, 2]), BPending, BFrame (FData [7, 8])]\<rparr>"

theorem web_call_end_to_end_witness:
  "\<exists>resp bs. web_call_service ref_ext (web_router ref_ext rev
       (add_service router_new ''s.S'' (intercepted_call ref_ext Inr (service_of (web_read_request ref_ext)
         (server_unary ref_ext raw_server (\<lambda>r. Inr (response_new ref_ext (rev (rq_message r)))))))) 4) text_request
     = (Inr resp :: unit + _) \<and>
   web_read ref_ext Base64 (web_sent ref_ext resp) = Some bs \<and> read_frames bs = Some ([(False, [8, 7])], [(GRPC_STATUS, ''0'')])"
proof -
  let ?evs = "[BFrame (FData [0, 0, 0, 0, 2]), BPending, BFrame (FData [7, 8])] :: (alist, alist err) raw_body"
  let ?svc = "\<lambda>r. Inr (response_new ref_ext (rev (rq_message r))) :: alist status + (alist, bytes list option, bytes) response"
  let ?gate = "Inr :: (alist, bytes list option, unit) request \<Rightarrow> alist status + (alist, bytes list option, unit) request"
  have ct: "content_type_of ref_ext text_request = ''application/grpc-web-text''"
    by (simp add: content_type_of_def ref_eval text_request_def)
  have web: "is_grpc_web (content_type_of ref_ext text_request)" "Base64 = from_content_type (content_type_of ref_ext text_request)"
    unfolding ct by (simp_all add: is_grpc_web_def web_types from_content_type_def starts_with_def)
  have path: "hq_path text_request = ''/'' @ ''s.S'' @ ''/'' @ ''m''" and name: "CHR ''/'' \<notin> set ''s.S''"
    by (simp_all add: text_request_def)
  have body: "hq_body text_request = map_data (web_out ref_ext Base64) ?evs" "data_only ?evs" "body_data ?evs = grpc_frame False [7, 8]"
    by (simp_all add: text_request_def grpc_frame_def u32_be_def)
  have pok: "payload_ok ref_ext (gs_decoder raw_server) None (gs_max_decoding raw_server) False [7, 8] [7, 8]"
    by (simp add: payload_ok_def grpc_server_new_def recv_limit_def DEFAULT_MAX_RECV_MESSAGE_SIZE_def prost_decoder_def
        prost_decode_def raw_decode_def)
  have encs: "from_encoding_header ref_ext (hq_headers text_request) (gs_accept raw_server) = Inr None"
    "from_accept_encoding_header ref_ext (hq_headers text_request) (gs_send raw_server) = None"
    by (simp_all add: text_request_def from_encoding_header_def from_accept_encoding_header_def ref_eval ENCODING_HEADER_def
        ACCEPT_ENCODING_HEADER_def)
  have perm: "\<forall>xs. mset (rev xs) = mset xs" by simp
  have gate: "\<forall>q i. ?gate q = Inr i \<longrightarrow>
      (\<forall>k \<in> set GRPC_RESERVED_HEADERS. hm_get_all ref_ext (rq_metadata i) k = hm_get_all ref_ext (rq_metadata q) k)"
    "\<forall>q st. ?gate q = Inl st \<longrightarrow> utf8_valid (st_message st)" by simp_all
  have svc: "\<forall>r. rq_message r = [7, 8] \<longrightarrow> encodes_once ref_ext raw_server None (?svc r)"
    by (simp add: encodes_once_def response_new_def grpc_server_new_def frame_of_Inr_iff payload_of_def prost_encoder_def
        prost_encode_def raw_encode_def send_limit_def DEFAULT_MAX_SEND_MESSAGE_SIZE_def)
  obtain q resp where r: "web_call_service ref_ext (web_router ref_ext rev
       (add_service router_new ''s.S'' (intercepted_call ref_ext ?gate (service_of (web_read_request ref_ext)
         (server_unary ref_ext raw_server ?svc)))) 4) text_request = (Inr resp :: unit + _)"
    "web_result ref_ext raw_server None Base64 (stack_result ref_ext None 0 (''s.S'' = ''s.S'') ?gate ?svc q [7, 8]) resp"
    using web_call_end_to_end [OF ref_header_laws ref_value_laws ref_percent_laws ref_base64_laws _ web path name name body pok encs
        perm gate svc, where n = 4 and 'f = unit] by auto
  have p: "payload_of ref_ext raw_encoder None [8, 7] = Inr [8, 7]"
    by (simp add: payload_of_def prost_encoder_def prost_encode_def raw_encode_def)
  have "gs_encoder raw_server = raw_encoder" by (simp add: grpc_server_new_def)
  with r(2) p obtain bs where "web_read ref_ext Base64 (web_sent ref_ext resp) = Some bs"
    "read_frames bs = Some ([(False, [8, 7])], [(GRPC_STATUS, ''0'')])"
    by (auto simp: web_result_def stack_result_def response_new_def)
  with r(1) show ?thesis by blast
qed

end
