(* ===== verification/Health_Rpc.thy ===== *)
theory Health_Rpc
  imports Stack Health
begin

section \<open>A health check over the wire\<close>

text \<open>
  The health service behind the server's router, its state built by any history of the operations
  of the application (setting statuses) and of clients (watching and leaving), and a client that
  calls \<^verbatim>\<open>Check\<close>. What the client gets is stated by an abstract view of the
  history: the last status that was set.
\<close>

subsection \<open>Histories\<close>

datatype health_op = OpSet string serving_status | OpWatch string | OpLeave string

definition health_do :: "'w watch_ops \<Rightarrow> health_op \<Rightarrow> 'w health_state \<Rightarrow> 'w health_state" where
  "health_do W op s =
     (case op of
        OpSet service st \<Rightarrow> set_status W service st s
      | OpWatch service \<Rightarrow> watch_call W service s
      | OpLeave service \<Rightarrow> watch_drop W service s)"

definition health_after :: "'w watch_ops \<Rightarrow> health_op list \<Rightarrow> 'w health_state" where
  "health_after W ops = fold (health_do W) ops health_service"

text \<open>The abstract view: the last status set; \<open>Serving\<close> for the server itself, else unknown.\<close>

fun last_set :: "string \<Rightarrow> health_op list \<Rightarrow> serving_status option" where
  "last_set service [] = None"
| "last_set service (OpSet service' st # ops) =
     (case last_set service ops of Some st' \<Rightarrow> Some st' | None \<Rightarrow> if service' = service then Some st else None)"
| "last_set service (op # ops) = last_set service ops"

definition reported :: "string \<Rightarrow> health_op list \<Rightarrow> serving_status" where
  "reported service ops =
     (case last_set service ops of Some st \<Rightarrow> st | None \<Rightarrow> if service = [] then Serving else ServiceUnknown)"

lemma check_after:
  "check_status (fold (health_do W) ops s) service
    = (case last_set service ops of Some st \<Rightarrow> st | None \<Rightarrow> check_status s service)"
proof (induction ops arbitrary: s)
  case (Cons op ops)
  have leave: "check_status (watch_drop W x s) service = check_status s service" for x
    by (simp add: watch_drop_def check_status_def)
  have watch: "check_status (watch_call W x s) service = check_status s service" for x
    by (simp add: watch_call_def watch_subscribe_def check_status_def Let_def split: option.split)
  show ?case
    using Cons.IH [of "health_do W op s"] leave watch
    by (cases op) (simp_all add: health_do_def set_status_fields split: option.split)
qed simp

lemma check_reported:
  fixes W :: "'w watch_ops"
  shows "check_status (health_after W ops) service = reported service ops"
proof -
  have "check_status (health_service :: 'w health_state) x = (if x = [] then Serving else ServiceUnknown)" for x
    by (simp add: check_status_def health_service_def)
  then show ?thesis unfolding health_after_def check_after reported_def by (simp split: option.split)
qed

subsection \<open>The property\<close>

text \<open>
  C11: Whatever statuses were set and whoever watched and left before, a client's \<^verbatim>\<open>Check\<close>
  through the network, the server's deadline and the router returns the last status set for the
  service it names; without one, \<open>Serving\<close> for the empty name and \<open>ServiceUnknown\<close> for any other. When
  the server's deadline passes the client has \<open>DeadlineExceeded\<close>.
\<close>

theorem health_check_over_the_wire:
  fixes X :: "('h, 'x) ext" and ES :: "('h, health_check_response) encoder" and DS :: "('h, health_check_request) decoder"
  assumes laws: "header_laws X" "value_laws X" "percent_laws X" "base64_laws X" "compressor_laws X"
    and net: "network_laws carry" "1 < n"
    and codecs: "codec_laws E DS" "codec_laws ES D"
    and uri: "client_uri X U C path = Inr ''/grpc.health.v1.Health/Check''"
    and enc: "gc_send C = None"
    and msg: "deliverable X E None (gc_max_encoding C) None (rq_message request)"
    and replies: "\<forall>v < 4. deliverable X ES None None (gc_max_decoding C) \<lparr>hc_status = v\<rparr>"
    and env: "\<forall>b. is_end b \<longrightarrow> b = []" "\<forall>xs. mset (iter xs) = mset xs"
  shows "\<exists>r. client_unary X U C E D (reaching X carry n (served X is_end iter
        (add_service router_new ''grpc.health.v1.Health'' (as_service X (health_call X ES DS (health_after W ops) watch)))
        timeout peer_certs delay)) request path = Some r \<and>
    once_result X
      (if \<exists>d. timeout = Some d \<and> d < delay then Inl (status_new X DeadlineExceeded ''request timed out'')
       else Inr (response_new X \<lparr>hc_status = serving_num (reported (hc_service (rq_message request)) ops)\<rparr>)) r"
proof -
  let ?G = "grpc_server_new ES DS" and ?s = "health_after W ops"
  have g: "gs_encoder ?G = ES" "gs_decoder ?G = DS" "gs_max_decoding ?G = None" "gs_max_encoding ?G = None"
    "negotiated C ?G = None"
    by (simp_all add: grpc_server_new_def negotiated_def ENCODINGS_def is_enabled_def enabled_default_def)
  have cd: "codec_laws E (gs_decoder ?G)" "codec_laws (gs_encoder ?G) D" using codecs by (simp_all add: g)
  have uri': "client_uri X U C path = Inr (''/'' @ ''grpc.health.v1.Health'' @ ''/'' @ ''Check'')" using uri by simp
  have name: "CHR ''/'' \<notin> set ''grpc.health.v1.Health''" by simp
  have enc': "\<forall>e. gc_send C = Some e \<longrightarrow> is_enabled (gs_accept ?G) e" using enc by simp
  have msg': "deliverable X E (gc_send C) (gc_max_encoding C) (gs_max_decoding ?G) (rq_message request)"
    using msg by (simp add: enc g)
  have handler: "\<forall>r. hq_path r = ''/'' @ ''grpc.health.v1.Health'' @ ''/'' @ ''Check'' \<longrightarrow>
      health_call X ES DS ?s watch r = server_unary X ?G (check_call X ?s) r" by (simp add: health_call_def)
  have "serving_num st < 4" for st by (cases st) (simp_all add: serving_num_def)
  then have svc: "\<forall>req. rq_message req = rq_message request \<longrightarrow>
      answerable_once X ?G (negotiated C ?G) (gc_max_decoding C) (check_call X ?s req)"
    using replies by (simp add: check_call_def answerable_once_def g response_new_def)
  obtain req r where req: "rq_message req = rq_message request"
    and call: "client_unary X U C E D (reaching X carry n (served X is_end iter
        (add_service router_new ''grpc.health.v1.Health'' (as_service X (health_call X ES DS ?s watch)))
        timeout peer_certs delay)) request path = Some r"
      "once_result X (timed_result X timeout delay (check_call X ?s req)) r"
    using unary_service_call [OF laws net cd uri' enc' msg' env(1) route_only [OF env(2) name] handler svc] by blast
  then show ?thesis
    unfolding timed_result_def check_call_def check_reported req by (intro exI [of _ r] conjI)
qed

text \<open>A codec for the examples: the name's bytes, and the number as one byte.\<close>

abbreviation name_encoder :: "(alist, health_check_request) encoder" where
  "name_encoder \<equiv> prost_encoder ref_ext (\<lambda>m. (str_bytes (hc_service m), Inr ()))"

abbreviation name_decoder :: "(alist, health_check_request) decoder" where
  "name_decoder \<equiv> prost_decoder ref_ext (\<lambda>d. (\<lparr>db_buf = drop (db_len d) (db_buf d), db_len = 0\<rparr>,
     Inr \<lparr>hc_service = bytes_str (take (db_len d) (db_buf d))\<rparr>))"

abbreviation status_encoder :: "(alist, health_check_response) encoder" where
  "status_encoder \<equiv> prost_encoder ref_ext (\<lambda>m. ([of_nat (hc_status m)], if hc_status m < 256 then Inr () else Inl []))"

abbreviation status_decoder :: "(alist, health_check_response) decoder" where
  "status_decoder \<equiv> prost_decoder ref_ext (\<lambda>d. (\<lparr>db_buf = drop (db_len d) (db_buf d), db_len = 0\<rparr>,
     Inr \<lparr>hc_status = unat (hd (db_buf d))\<rparr>))"

lemma example_codecs: "codec_laws name_encoder name_decoder" "codec_laws status_encoder status_decoder"
  by (auto intro!: prost_codec_laws simp: prost_laws_def unat_of_nat split: if_splits)

theorem health_check_over_the_wire_witness:
  "\<exists>resp. client_unary ref_ext plain_uri plain_client name_encoder status_decoder
      (reaching ref_ext byte_wise 4 (served ref_ext (\<lambda>b. b = []) rev
        (add_service router_new ''grpc.health.v1.Health'' (as_service ref_ext (health_call ref_ext status_encoder name_decoder
          (health_after pair_watch [OpSet ''a'' Serving, OpWatch ''a'', OpSet ''a'' NotServing, OpLeave ''a'']) (\<lambda>_. []))))
        (Some 9) None 3)) (request_new ref_ext \<lparr>hc_service = ''a''\<rparr>) ''/grpc.health.v1.Health/Check''
    = Some (Inr resp) \<and> hc_status (rs_message resp) = 2"
proof -
  let ?rq = "request_new ref_ext \<lparr>hc_service = ''a''\<rparr> :: (alist, bytes list option, health_check_request) request"
  have uri: "client_uri ref_ext plain_uri plain_client ''/grpc.health.v1.Health/Check'' = Inr ''/grpc.health.v1.Health/Check''"
    by (simp add: plain_client_def client_with_origin_def client_uri_def plain_uri_def)
  have enc: "gc_send plain_client = None" "gc_max_encoding plain_client = None" "gc_max_decoding plain_client = None"
    by (simp_all add: plain_client_def client_with_origin_def)
  have msg: "deliverable ref_ext name_encoder None (gc_max_encoding plain_client) None (rq_message ?rq)"
    by (simp add: enc deliverable_def frame_of_Inr_iff payload_of_def prost_encoder_def prost_encode_def request_new_def str_bytes_def
        send_limit_def DEFAULT_MAX_SEND_MESSAGE_SIZE_def recv_limit_def DEFAULT_MAX_RECV_MESSAGE_SIZE_def)
  have replies: "\<forall>v < 4. deliverable ref_ext status_encoder None None (gc_max_decoding plain_client) \<lparr>hc_status = v\<rparr>"
    by (simp add: enc deliverable_def frame_of_Inr_iff payload_of_def prost_encoder_def prost_encode_def
        send_limit_def DEFAULT_MAX_SEND_MESSAGE_SIZE_def recv_limit_def DEFAULT_MAX_RECV_MESSAGE_SIZE_def)
  have env: "\<forall>b. b = [] \<longrightarrow> b = []" "\<forall>xs. mset (rev xs) = mset xs" by simp_all
  let ?ops = "[OpSet ''a'' Serving, OpWatch ''a'', OpSet ''a'' NotServing, OpLeave ''a'']"
  obtain r where r: "client_unary ref_ext plain_uri plain_client name_encoder status_decoder
      (reaching ref_ext byte_wise 4 (served ref_ext (\<lambda>b. b = []) rev
        (add_service router_new ''grpc.health.v1.Health'' (as_service ref_ext (health_call ref_ext status_encoder name_decoder
          (health_after pair_watch ?ops) (\<lambda>_. [])))) (Some 9) None 3)) ?rq ''/grpc.health.v1.Health/Check'' = Some r"
    "once_result ref_ext (Inr (response_new ref_ext \<lparr>hc_status = serving_num (reported (hc_service (rq_message ?rq)) ?ops)\<rparr>)) r"
    using health_check_over_the_wire [OF ref_header_laws ref_value_laws ref_percent_laws ref_base64_laws ref_compressor_laws
        byte_wise_network _ example_codecs uri enc(1) msg replies env,
        where n = 4 and timeout = "Some 9" and peer_certs = None and delay = 3 and W = pair_watch and ops = ?ops and watch = "\<lambda>_. []"]
    by auto
  have "serving_num (reported (hc_service (rq_message ?rq)) ?ops) = 2"
    by (simp add: reported_def serving_num_def request_new_def)
  with r(2) obtain resp where "r = Inr resp" "hc_status (rs_message resp) = 2"
    by (auto simp: once_result_def response_new_def)
  with r(1) show ?thesis by blast
qed

end
