(* ===== verification/Formats.thy ===== *)
theory Formats
  imports Buffers
begin

section \<open>Formats for examples\<close>

text \<open>
  Writers with their readers, which leave what follows, and ways to put them together: they make a
  concrete encoding for any record of texts, numbers and lists, on which the laws of a message's
  own encoder hold. The witnesses of the theorems about services run on such encodings.
\<close>

record 'a wire_format =
  wf_write :: "'a \<Rightarrow> bytes"
  wf_read :: "bytes \<Rightarrow> ('a \<times> bytes) option"

definition wire_ok :: "'a wire_format \<Rightarrow> bool" where
  "wire_ok w \<longleftrightarrow> (\<forall>a rest. wf_read w (wf_write w a @ rest) = Some (a, rest))"

definition wire_map :: "('b \<Rightarrow> 'a) \<Rightarrow> ('a \<Rightarrow> 'b) \<Rightarrow> 'a wire_format \<Rightarrow> 'b wire_format" where
  "wire_map f g w = \<lparr>wf_write = wf_write w \<circ> f, wf_read = map_option (apfst g) \<circ> wf_read w\<rparr>"

definition wire_pair :: "'a wire_format \<Rightarrow> 'b wire_format \<Rightarrow> ('a \<times> 'b) wire_format" where
  "wire_pair w v = \<lparr>wf_write = (\<lambda>(a, b). wf_write w a @ wf_write v b),
     wf_read = (\<lambda>bs. case wf_read w bs of None \<Rightarrow> None
       | Some (a, r) \<Rightarrow> (case wf_read v r of None \<Rightarrow> None | Some (b, r') \<Rightarrow> Some ((a, b), r')))\<rparr>"

definition wire_option :: "'a wire_format \<Rightarrow> 'a option wire_format" where
  "wire_option w = \<lparr>wf_write = (\<lambda>x. case x of None \<Rightarrow> [0] | Some a \<Rightarrow> 1 # wf_write w a),
     wf_read = (\<lambda>bs. case bs of [] \<Rightarrow> None | b # r \<Rightarrow>
       if b = 0 then Some (None, r) else map_option (apfst Some) (wf_read w r))\<rparr>"

definition wire_byte :: "u8 wire_format" where
  "wire_byte = \<lparr>wf_write = (\<lambda>b. [b]), wf_read = (\<lambda>bs. case bs of [] \<Rightarrow> None | b # r \<Rightarrow> Some (b, r))\<rparr>"

fun read_count :: "bytes \<Rightarrow> (nat \<times> bytes) option" where
  "read_count [] = None"
| "read_count (b # r) = (if b = 0 then Some (0, r) else map_option (apfst Suc) (read_count r))"

fun read_many :: "'a wire_format \<Rightarrow> nat \<Rightarrow> bytes \<Rightarrow> ('a list \<times> bytes) option" where
  "read_many w 0 bs = Some ([], bs)"
| "read_many w (Suc n) bs = (case wf_read w bs of None \<Rightarrow> None
     | Some (a, r) \<Rightarrow> map_option (apfst (Cons a)) (read_many w n r))"

definition wire_list :: "'a wire_format \<Rightarrow> 'a list wire_format" where
  "wire_list w = \<lparr>wf_write = (\<lambda>xs. replicate (length xs) 1 @ [0] @ concat (map (wf_write w) xs)),
     wf_read = (\<lambda>bs. case read_count bs of None \<Rightarrow> None | Some (n, r) \<Rightarrow> read_many w n r)\<rparr>"

lemma read_count_write: "read_count (replicate n 1 @ 0 # rest) = Some (n, rest)"
  by (induction n) simp_all

lemma read_many_write: "wire_ok w \<Longrightarrow> read_many w (length xs) (concat (map (wf_write w) xs) @ rest) = Some (xs, rest)"
  by (induction xs) (simp_all add: wire_ok_def)

lemma wire_ok_parts:
  "(\<And>b. g (f b) = b) \<Longrightarrow> wire_ok w \<Longrightarrow> wire_ok (wire_map f g w)"
  "wire_ok w \<Longrightarrow> wire_ok v \<Longrightarrow> wire_ok (wire_pair w v)"
  "wire_ok w \<Longrightarrow> wire_ok (wire_option w)"
  "wire_ok w \<Longrightarrow> wire_ok (wire_list w)"
  "wire_ok wire_byte"
  by (auto simp: wire_ok_def wire_map_def wire_pair_def wire_option_def wire_byte_def split: option.split)
     (simp add: wire_list_def read_count_write read_many_write wire_ok_def)

definition wire_text :: "string wire_format" where
  "wire_text = wire_list (wire_map of_char (\<lambda>b. char_of (unat b)) wire_byte)"

definition wire_bool :: "bool wire_format" where
  "wire_bool = wire_map (\<lambda>b. if b then 1 else 0) (\<lambda>b. b \<noteq> 0) wire_byte"

definition wire_word :: "64 word wire_format" where
  "wire_word = wire_map (\<lambda>w. map (bit w) [0..<64]) (\<lambda>bs. horner_sum of_bool 2 bs) (wire_list wire_bool)"

definition wire_unit :: "unit wire_format" where
  "wire_unit = \<lparr>wf_write = (\<lambda>_. []), wf_read = (\<lambda>bs. Some ((), bs))\<rparr>"

lemma wire_ok_scalars: "wire_ok wire_unit" "wire_ok wire_text" "wire_ok wire_bool" "wire_ok wire_word"
proof -
  show "wire_ok wire_unit" by (simp add: wire_ok_def wire_unit_def)
  show "wire_ok wire_text" unfolding wire_text_def by (intro wire_ok_parts) (simp add: char_of_u8)
  show b: "wire_ok wire_bool" unfolding wire_bool_def by (intro wire_ok_parts) simp
  have "horner_sum of_bool 2 (map (bit w) [0..<64]) = w" for w :: "64 word"
    using horner_sum_bit_eq_take_bit [of w 64] by (simp add: take_bit_length_eq [where 'a = 64, simplified])
  then show "wire_ok wire_word" unfolding wire_word_def by (intro wire_ok_parts b)
qed

lemma wire_length:
  "length (wf_write wire_text s) = 2 * length s + 1"
  "length (wf_write (wire_list wire_word) ws) = 130 * length ws + 1"
  "length (wf_write wire_word w) = 129"
  "length (wf_write (wire_pair u v) p) = length (wf_write u (fst p)) + length (wf_write v (snd p))"
  "length (wf_write (wire_map f g u) b) = length (wf_write u (f b))"
proof -
  show w: "length (wf_write wire_word w) = 129" for w
    by (simp add: wire_word_def wire_list_def wire_map_def wire_bool_def wire_byte_def length_concat comp_def sum_list_triv)
  show "length (wf_write (wire_list wire_word) ws) = 130 * length ws + 1"
    by (simp add: wire_list_def length_concat comp_def w sum_list_triv)
qed (simp_all add: wire_text_def wire_list_def wire_map_def wire_byte_def wire_pair_def length_concat comp_def
    sum_list_triv split: prod.split)

text \<open>A message's encoder and decoder as prost has them.\<close>

definition wire_encode :: "'m wire_format \<Rightarrow> 'm \<Rightarrow> bytes \<times> (string + unit)" where
  "wire_encode w m = (wf_write w m, Inr ())"

definition wire_decode :: "'m wire_format \<Rightarrow> decode_buf \<Rightarrow> decode_buf \<times> (string + 'm)" where
  "wire_decode w d =
     (\<lparr>db_buf = drop (db_len d) (db_buf d), db_len = 0\<rparr>,
      case wf_read w (take (db_len d) (db_buf d)) of Some (m, r) \<Rightarrow> Inr m | None \<Rightarrow> Inl ''truncated'')"

lemma wire_prost_laws:
  assumes "wire_ok w"
  shows "prost_laws (wire_encode w) (wire_decode w)"
proof -
  have "wf_read w (wf_write w m) = Some (m, [])" for m using assms by (metis append_Nil2 wire_ok_def)
  then show ?thesis by (simp add: prost_laws_def wire_encode_def wire_decode_def)
qed

lemma wire_codec_laws:
  "wire_ok w \<Longrightarrow> codec_laws (prost_encoder X (wire_encode w)) (prost_decoder X (wire_decode w))"
  by (rule prost_codec_laws [OF wire_prost_laws])

end
