(* ===== verification/Loops.thy ===== *)
theory Loops
  imports Grpc_Client Streaming_Rpc Formats
begin

section \<open>Loops over a received stream\<close>

subsection \<open>Before a call\<close>

text \<open>
  What a client of a service does before a call: it names the method among the request's extensions
  (\<^verbatim>\<open>grpc-core/src/extensions.rs\<close>) and waits until the transport is ready.
  \<open>ready\<close> is what the transport answers when asked; a channel always is.
\<close>

record grpc_method =
  gm_service :: string
  gm_method :: string

definition method_request ::
  "('h, 'x) ext \<Rightarrow> (grpc_method \<Rightarrow> 'x \<Rightarrow> 'x) \<Rightarrow> string \<Rightarrow> string \<Rightarrow> 'm \<Rightarrow> ('h, 'x, 'm) request" where
  "method_request X put_method service_name method_name m =
     (let req = request_new X m
      in req\<lparr>rq_extensions := put_method \<lparr>gm_service = service_name, gm_method = method_name\<rparr> (rq_extensions req)\<rparr>)"

definition client_ready :: "('h, 'x) ext \<Rightarrow> 'h err + unit \<Rightarrow> 'h status + unit" where
  "client_ready X ready =
     (case ready of
        Inl e \<Rightarrow> Inl (status_new X Unknown (''Service was not ready: '' @ err_text X e))
      | Inr _ \<Rightarrow> Inr ())"

lemma method_request_message [simp]: "rq_message (method_request X put_method service_name method_name m) = m"
  by (simp add: method_request_def Let_def request_new_def)

text \<open>A server with the codec alone.\<close>

lemma plain_server:
  "gs_encoder (grpc_server_new ES DS) = ES" "gs_decoder (grpc_server_new ES DS) = DS"
  "gs_max_decoding (grpc_server_new ES DS) = None" "gs_max_encoding (grpc_server_new ES DS) = None"
  "negotiated C (grpc_server_new ES DS) = None"
  by (simp_all add: grpc_server_new_def negotiated_def ENCODINGS_def is_enabled_def enabled_default_def)

subsection \<open>Reading to the end\<close>

text \<open>
  The loop every consumer of a stream is written as: ask for the next message until there is none or
  an error comes. A consumer that answers each message as it comes, or adds it to what it has, is a
  function of what the loop reads.
\<close>

text \<open>The messages before the end, and the end or the error; \<open>None\<close>: the loop does not stop.\<close>

partial_function (option) read_all ::
  "('h, 'x) ext \<Rightarrow> ('h, 'm) decoder \<Rightarrow> 'h streaming_inner \<Rightarrow> ('m list \<times> ('h status + unit)) option" where
  "read_all X D s =
     (case message X D s of
        (s', Inl e) \<Rightarrow> Some ([], Inl e)
      | (s', Inr None) \<Rightarrow> Some ([], Inr ())
      | (s', Inr (Some m)) \<Rightarrow> Option.bind (read_all X D s') (\<lambda>(ms, e). Some (m # ms, e)))"

lemma read_all_collect: "collect X D n s = (ms, Some e) \<Longrightarrow> read_all X D s = Some (ms, e)"
proof (induction n arbitrary: s ms)
  case (Suc n)
  obtain s1 r where m: "message X D s = (s1, r)" by fastforce
  show ?case
  proof (cases "\<exists>q. r = Inr (Some q)")
    case True
    then obtain q ms1 where "r = Inr (Some q)" "collect X D n s1 = (ms1, Some e)" "ms = q # ms1"
      using Suc.prems m by (auto split: prod.splits)
    then show ?thesis using Suc.IH m by (simp add: read_all.simps [of X D s])
  next
    case False
    then show ?thesis using Suc.prems m by (auto simp: read_all.simps [of X D s] split: sum.splits option.splits)
  qed
qed simp

definition stream_read :: "('h, 'x) ext \<Rightarrow> ('h, 'm) streaming \<Rightarrow> ('m list \<times> ('h status + unit)) option" where
  "stream_read X strm = read_all X (sg_decoder strm) (sg_inner strm)"

lemma stream_read_yields: "stream_yields X strm ms e \<Longrightarrow> stream_read X strm = Some (ms, e)"
  unfolding stream_yields_def stream_read_def by (rule read_all_collect)

text \<open>
  A client that keeps the messages of a response stream: all of them, or the error, after which those
  it has are dropped.
\<close>

definition stream_to_list :: "('h, 'x) ext \<Rightarrow> ('h, 'm) streaming \<Rightarrow> ('h status + 'm list) option" where
  "stream_to_list X strm =
     (case stream_read X strm of
        Some (ms, Inr _) \<Rightarrow> Some (Inr ms)
      | Some (ms, Inl e) \<Rightarrow> Some (Inl e)
      | None \<Rightarrow> None)"

text \<open>A stream of messages only, as \<open>answerable\<close> wants it.\<close>

lemma src_items_map [simp]: "src_items (map SrcItem ms) = ms"
  by (induction ms) simp_all

lemma items_encode:
  assumes "\<forall>m\<in>set ms. deliverable X E cenc mxs mxr m"
  shows "deliverable_stream X E cenc mxs mxr (map SrcItem ms)" "snd (src_frames X E cenc mxs (map SrcItem ms)) = None"
proof -
  have "all_encode X E cenc mxs (map SrcItem ms) \<and> snd (src_frames X E cenc mxs (map SrcItem ms)) = None"
    using assms by (induction ms) (auto simp: deliverable_def split: sum.splits prod.splits)
  moreover have "\<forall>m\<in>set ms. \<forall>p. payload_of X E cenc m = Inr p \<longrightarrow> length p \<le> recv_limit mxr"
    using assms by (fastforce simp: deliverable_def)
  ultimately show "deliverable_stream X E cenc mxs mxr (map SrcItem ms)" "snd (src_frames X E cenc mxs (map SrcItem ms)) = None"
    by (simp_all add: deliverable_stream_def)
qed

lemma stream_items_length: "length (stream_items ps) \<le> length ps"
  by (induction ps) (auto simp: stream_items_def split: poll.split)

lemma items_answerable:
  assumes "\<forall>m\<in>set ms. deliverable X (gs_encoder G) acc (gs_max_encoding G) mxr m" "length ms < n"
  shows "answerable X G acc mxr n (Inr (response_new X (map SrcItem ms)))"
  using items_encode [OF assms(1)] assms(2)
  by (simp add: answerable_def response_new_def final_status_def status_new_def with_details_and_metadata_def)

text \<open>What a client has of a stream the server completed.\<close>

lemma items_complete:
  assumes "stream_result X G acc (Inr (response_new X (map SrcItem ms))) r"
    and "\<forall>m\<in>set ms. deliverable X (gs_encoder G) acc (gs_max_encoding G) mxr m"
  shows "\<exists>resp. r = Inr resp \<and> stream_yields X (rs_message resp) ms (Inr ())"
proof -
  let ?final = "final_status X (gs_encoder G) acc (gs_max_encoding G) (map SrcItem ms)"
  have fin: "st_code ?final = Ok"
    unfolding final_status_def items_encode(2) [OF assms(2)] by (simp add: status_new_def with_details_and_metadata_def)
  obtain resp e where r: "r = Inr resp" "stream_yields X (rs_message resp) ms e"
    "case e of Inr _ \<Rightarrow> st_code ?final = Ok | Inl st \<Rightarrow> st_code ?final \<noteq> Ok \<and> same_status ?final st"
    using assms(1) by (auto simp: stream_result_def Let_def response_new_def)
  moreover have "e = Inr ()" using r(3) fin by (cases e) simp_all
  ultimately show ?thesis by blast
qed

text \<open>A message in one of the formats of the examples.\<close>

lemma wire_deliverable:
  assumes "length (wf_write w m) \<le> recv_limit mxr" "length (wf_write w m) < 2 ^ 22"
  shows "deliverable X (prost_encoder X (wire_encode w)) None None mxr m"
  using assms
  by (simp add: deliverable_def frame_of_Inr_iff payload_of_def prost_encoder_def prost_encode_def wire_encode_def
      eb_put_slice_def send_limit_def DEFAULT_MAX_SEND_MESSAGE_SIZE_def)

text \<open>A stream of requests that is never pending.\<close>

lemma ready_stream [simp]: "stream_items (map Ready ms) = ms" "stream_ok (map Ready ms) = map SrcItem ms"
  by (simp_all add: stream_items_def stream_ok_def comp_def)

lemma complete_list:
  "stream_yields X strm ms (Inr ()) \<Longrightarrow> stream_to_list X strm = Some (Inr ms)"
  by (simp add: stream_to_list_def stream_read_yields)

end
