(* ===== verification/Reflection_Rpc.thy ===== *)
theory Reflection_Rpc
  imports Stack Reflection Loops
begin

section \<open>Reflection over the wire\<close>

text \<open>
  The reflection service behind the server's router, and a client that streams questions to it.
\<close>

text \<open>
  C12: A client that streams questions to the reflection service, through the network, the server's
  deadline and the router, reads exactly one answer to each question, in order, and then the end
  with \<open>Ok\<close>; or \<open>DeadlineExceeded\<close> when the server's deadline passes before it answers.
\<close>

theorem reflection_over_the_wire:
  fixes X :: "('h, 'x) ext" and ES :: "('h, reflection_response) encoder" and DS :: "('h, reflection_request) decoder"
    and timeout :: "nat option" and delay :: nat and peer_certs :: "bytes list option"
  assumes laws: "header_laws X" "value_laws X" "percent_laws X" "base64_laws X" "compressor_laws X"
    and net: "network_laws carry" "length (rq_message request) < n"
    and codecs: "codec_laws E DS" "codec_laws ES D"
    and uri: "client_uri X U C path = Inr ''/grpc.reflection.v1.ServerReflection/ServerReflectionInfo''"
    and enc: "gc_send C = None"
    and msgs: "deliverable_stream X E None (gc_max_encoding C) None (stream_ok (rq_message request))"
    and replies: "\<forall>q\<in>set (stream_items (rq_message request)).
      deliverable X ES None None (gc_max_decoding C) (handle_reflection_request state q)"
    and env: "\<forall>b. is_end b \<longrightarrow> b = []" "\<forall>xs. mset (iter xs) = mset xs"
  defines "call \<equiv> client_streaming_call X U C E D (reaching X carry n (served X is_end iter
        (add_service router_new ''grpc.reflection.v1.ServerReflection'' (as_service X (\<lambda>r. Some (reflection_call X ES DS state r))))
        timeout peer_certs delay)) request path"
  shows "if \<exists>d. timeout = Some d \<and> d < delay
    then \<exists>st. call = Inl st \<and> same_status (status_new X DeadlineExceeded ''request timed out'') st
    else \<exists>resp. call = Inr resp \<and>
      stream_yields X (rs_message resp) (map (handle_reflection_request state) (stream_items (rq_message request))) (Inr ())"
proof -
  let ?G = "grpc_server_new ES DS"
  let ?handler = "\<lambda>r. Some (reflection_call X ES DS state r)"
  define answers where "answers = map (handle_reflection_request state) (stream_items (rq_message request))"
  let ?ok = "Inr (response_new X (map SrcItem answers)) :: 'h status + ('h, 'x, ('h, reflection_response) src_ev list) response"
  have g: "gs_encoder ?G = ES" "gs_decoder ?G = DS" "gs_max_decoding ?G = None" "gs_max_encoding ?G = None"
    "negotiated C ?G = None"
    by (simp_all add: grpc_server_new_def negotiated_def ENCODINGS_def is_enabled_def enabled_default_def)
  have cd: "codec_laws E (gs_decoder ?G)" "codec_laws (gs_encoder ?G) D" using codecs by (simp_all add: g)
  have uri': "client_uri X U C path = Inr (''/'' @ ''grpc.reflection.v1.ServerReflection'' @ ''/'' @ ''ServerReflectionInfo'')"
    using uri by simp
  have name: "CHR ''/'' \<notin> set ''grpc.reflection.v1.ServerReflection''" by simp
  have enc': "\<forall>e. gc_send C = Some e \<longrightarrow> is_enabled (gs_accept ?G) e" using enc by simp
  have msgs': "deliverable_stream X E (gc_send C) (gc_max_encoding C) (gs_max_decoding ?G) (stream_ok (rq_message request))"
    using msgs by (simp add: enc g)
  have handler: "\<forall>r. hq_path r = ''/'' @ ''grpc.reflection.v1.ServerReflection'' @ ''/'' @ ''ServerReflectionInfo'' \<longrightarrow>
      ?handler r = Some (server_streaming X ?G (reflection_info X state) r)" by (simp add: reflection_call_def)
  have info: "reflection_info X state req = ?ok"
    if "stream_yields X (rq_message req) (stream_items (rq_message request)) (Inr ())" for req
    using reflection_stream_ends_ok [OF that [unfolded stream_yields_def], of state] by (simp add: comp_def answers_def)
  have d: "\<forall>m\<in>set answers. deliverable X ES None None (gc_max_decoding C) m" using replies by (simp add: answers_def)
  have len: "length answers < n" using le_less_trans [OF stream_items_length net(2)] by (simp add: answers_def)
  have ans: "answerable X ?G (negotiated C ?G) (gc_max_decoding C) n ?ok"
    unfolding g by (rule items_answerable) (simp_all add: g d len)
  have svc: "\<forall>req. stream_yields X (rq_message req) (stream_items (rq_message request)) (Inr ()) \<longrightarrow>
      answerable X ?G (negotiated C ?G) (gc_max_decoding C) n (reflection_info X state req)"
    using ans info by simp
  obtain req where req: "stream_yields X (rq_message req) (stream_items (rq_message request)) (Inr ())"
    "stream_result X ?G (negotiated C ?G) (timed_result X timeout delay (reflection_info X state req)) call"
    using bidi_service_call [OF laws net cd uri' enc' msgs' env(1) route_only [OF env(2) name] handler svc] unfolding call_def by blast
  show ?thesis
  proof (cases "\<exists>d. timeout = Some d \<and> d < delay")
    case True
    with req(2) show ?thesis unfolding timed_result_def if_P [OF True] by (simp add: stream_result_def)
  next
    case False
    have "stream_result X ?G None ?ok call"
      using req(2) unfolding timed_result_def if_not_P [OF False] info [OF req(1)] g .
    from items_complete [OF this] d show ?thesis unfolding if_not_P [OF False] g answers_def by blast
  qed
qed

text \<open>A codec of one message, for the example.\<close>

definition one_encoder :: "'m \<Rightarrow> (alist, 'm) encoder" where
  "one_encoder m0 = prost_encoder ref_ext (\<lambda>m. ([7], if m = m0 then Inr () else Inl []))"

definition one_decoder :: "'m \<Rightarrow> (alist, 'm) decoder" where
  "one_decoder m0 = prost_decoder ref_ext (\<lambda>d. (\<lparr>db_buf = drop (db_len d) (db_buf d), db_len = 0\<rparr>, Inr m0))"

lemma one_codec: "codec_laws (one_encoder m0) (one_decoder m0)"
  unfolding one_encoder_def one_decoder_def
  by (rule prost_codec_laws) (auto simp: prost_laws_def split: if_splits)

lemma one_frame: "payload_of ref_ext (one_encoder m0) None m0 = Inr [7]"
  "\<exists>f. frame_of ref_ext (one_encoder m0) None None m0 = Inr f"
  by (simp_all add: frame_of_Inr_iff one_encoder_def payload_of_def prost_encoder_def prost_encode_def
      send_limit_def DEFAULT_MAX_SEND_MESSAGE_SIZE_def)

lemma one_deliverable: "deliverable ref_ext (one_encoder m0) None None None m0"
  using one_frame [of m0] by (auto simp: deliverable_def recv_limit_def DEFAULT_MAX_RECV_MESSAGE_SIZE_def)

abbreviation list_question :: reflection_request where
  "list_question \<equiv> \<lparr>rr_host = [], rr_message_request = Some (ListServices [])\<rparr>"

theorem reflection_over_the_wire_witness:
  "\<exists>resp answer. client_streaming_call ref_ext plain_uri plain_client (one_encoder list_question)
      (one_decoder (handle_reflection_request (reflection_build reflection_builder) list_question))
      (reaching ref_ext byte_wise 4 (served ref_ext (\<lambda>b. b = []) rev
        (add_service router_new ''grpc.reflection.v1.ServerReflection'' (as_service ref_ext (\<lambda>r. Some (reflection_call ref_ext
          (one_encoder (handle_reflection_request (reflection_build reflection_builder) list_question)) (one_decoder list_question)
          (reflection_build reflection_builder) r)))) None None 3))
      (request_new ref_ext [Pending, Ready list_question]) ''/grpc.reflection.v1.ServerReflection/ServerReflectionInfo'' = Inr resp \<and>
    stream_yields ref_ext (rs_message resp) [answer] (Inr ()) \<and>
    rf_message_response answer = Some (ListServicesResponse [REFLECTION_NAME])"
proof -
  let ?state = "reflection_build reflection_builder"
  let ?a = "handle_reflection_request ?state list_question"
  let ?rq = "request_new ref_ext [Pending, Ready list_question] :: (alist, bytes list option, reflection_request poll list) request"
  let ?path = "''/grpc.reflection.v1.ServerReflection/ServerReflectionInfo''"
  have uri: "client_uri ref_ext plain_uri plain_client ?path = Inr ?path"
    by (simp add: plain_client_def client_with_origin_def client_uri_def plain_uri_def)
  have enc: "gc_send plain_client = None" "gc_max_encoding plain_client = None" "gc_max_decoding plain_client = None"
    by (simp_all add: plain_client_def client_with_origin_def)
  obtain f where f: "frame_of ref_ext (one_encoder list_question) None None list_question = Inr f"
    by (rule exE [OF one_frame(2)])
  have rq: "rq_message ?rq = [Pending, Ready list_question]" "stream_items [Pending, Ready list_question] = [list_question]"
    by (simp_all add: request_new_def stream_items_def)
  have msgs: "deliverable_stream ref_ext (one_encoder list_question) None (gc_max_encoding plain_client) None (stream_ok (rq_message ?rq))"
  proof -
    have ev: "stream_ok [Pending, Ready list_question] = ([SrcPending, SrcItem list_question] :: (alist, reflection_request) src_ev list)"
      by (simp add: stream_ok_def)
    have "all_encode ref_ext (one_encoder list_question) None None [SrcPending, SrcItem list_question]"
      by (simp only: all_encode.simps f sum.case)
    then show ?thesis
      unfolding rq(1) enc ev deliverable_stream_def
      by (simp only: src_items.simps) (auto simp: one_frame(1) recv_limit_def DEFAULT_MAX_RECV_MESSAGE_SIZE_def)
  qed
  have replies: "\<forall>q\<in>set (stream_items (rq_message ?rq)).
      deliverable ref_ext (one_encoder ?a) None None (gc_max_decoding plain_client) (handle_reflection_request ?state q)"
    unfolding rq enc by (simp add: one_deliverable)
  have env: "\<forall>b. b = [] \<longrightarrow> b = []" "\<forall>xs. mset (rev xs) = mset xs" by simp_all
  have len: "length (rq_message ?rq) < 4" by (simp add: rq)
  obtain resp where "client_streaming_call ref_ext plain_uri plain_client (one_encoder list_question) (one_decoder ?a)
      (reaching ref_ext byte_wise 4 (served ref_ext (\<lambda>b. b = []) rev
        (add_service router_new ''grpc.reflection.v1.ServerReflection'' (as_service ref_ext (\<lambda>r. Some (reflection_call ref_ext
          (one_encoder ?a) (one_decoder list_question) ?state r)))) None None 3)) ?rq ?path = Inr resp"
    "stream_yields ref_ext (rs_message resp) [?a] (Inr ())"
    using reflection_over_the_wire [OF ref_header_laws ref_value_laws ref_percent_laws ref_base64_laws ref_compressor_laws
        byte_wise_network len one_codec one_codec uri enc(1) msgs replies env, of None 3 None] unfolding rq by auto
  moreover have "rf_message_response ?a = Some (ListServicesResponse [REFLECTION_NAME])"
    by (simp add: handle_reflection_request_def reflection_build_def reflection_builder_def)
  ultimately show ?thesis by blast
qed

end
