(* ===== verification/Boxed.thy ===== *)
theory Boxed
  imports Grpc_Client Grpc_Server
begin

section \<open>Codecs at a larger type\<close>

text \<open>
  A service whose methods answer with different types has one type of response: a body does not keep
  the type of its messages. Here such a service uses the sum of its message types, and the codec of
  one type at that sum. The lemmas show that the codec still undoes itself, and that a client that
  reads with the codec of the type itself gets what a client at the sum gets.
\<close>

subsection \<open>Definitions\<close>

text \<open>The last case is never reached: a method encodes its own type.\<close>

definition boxed_encoder :: "('h, 'x) ext \<Rightarrow> ('n \<Rightarrow> 'a option) \<Rightarrow> ('h, 'a) encoder \<Rightarrow> ('h, 'n) encoder" where
  "boxed_encoder X sel E =
     \<lparr>ec_encode = (\<lambda>m. case sel m of Some a \<Rightarrow> ec_encode E a | None \<Rightarrow> ([], Inl (status_new X Internal []))),
      ec_settings = ec_settings E\<rparr>"

definition boxed_decoder :: "('a \<Rightarrow> 'n) \<Rightarrow> ('h, 'a) decoder \<Rightarrow> ('h, 'n) decoder" where
  "boxed_decoder wrap D =
     \<lparr>dc_decode = (\<lambda>buf. apsnd (map_sum id (map_option wrap)) (dc_decode D buf)), dc_settings = dc_settings D\<rparr>"

definition boxed :: "('a \<Rightarrow> 'n) \<Rightarrow> 's \<times> ('h status + ('h, 'x, 'a) response) \<Rightarrow> 's \<times> ('h status + ('h, 'x, 'n) response)" where
  "boxed wrap = apsnd (map_sum id (response_map wrap))"

subsection \<open>Lemmas\<close>

lemma boxed_codec_laws:
  assumes "codec_laws E D" "\<And>m a. sel m = Some a \<Longrightarrow> wrap a = m"
  shows "codec_laws (boxed_encoder X sel E) (boxed_decoder wrap D)"
  unfolding codec_laws_def
proof (intro allI impI)
  fix m p rest
  assume "ec_encode (boxed_encoder X sel E) m = (p, Inr ())"
  then obtain a where a: "sel m = Some a" "ec_encode E a = (p, Inr ())"
    by (auto simp: boxed_encoder_def split: option.splits)
  then show "dc_decode (boxed_decoder wrap D) \<lparr>db_buf = p @ rest, db_len = length p\<rparr> = (\<lparr>db_buf = rest, db_len = 0\<rparr>, Inr (Some m))"
    using assms(1) assms(2) [OF a(1)] by (simp add: codec_laws_def boxed_decoder_def)
qed

text \<open>The stages of a response's reader, one by one.\<close>

abbreviation boxed_poll :: "('a \<Rightarrow> 'n) \<Rightarrow> ('e + 'a) option poll \<Rightarrow> ('e + 'n) option poll" where
  "boxed_poll wrap \<equiv> map_poll (map_option (map_sum id wrap))"

abbreviation boxed_item :: "('a \<Rightarrow> 'n) \<Rightarrow> 's \<times> ('e + 'a option) \<Rightarrow> 's \<times> ('e + 'n option)" where
  "boxed_item wrap \<equiv> apsnd (map_sum id (map_option wrap))"

lemma boxed_chunk: "decode_chunk X (boxed_decoder wrap D) s = boxed_item wrap (decode_chunk X D s)"
  by (auto simp: decode_chunk_def boxed_decoder_def Let_def split: prod.split sum.split option.split window.split)

lemma boxed_pass:
  "poll_pass X (boxed_decoder wrap D) s
    = apsnd (map_option (boxed_poll wrap)) (poll_pass X D s)"
  by (auto simp: poll_pass_def boxed_chunk option.map_comp comp_def
      split: read_state.split prod.split sum.split option.split poll.split)

lemma boxed_next:
  "poll_next X (boxed_decoder wrap D) s = apsnd (boxed_poll wrap) (poll_next X D s)"
proof (induction X D s rule: poll_next.induct)
  case (1 X D s)
  obtain s1 r1 where p: "poll_pass X D s = (s1, r1)" by fastforce
  show ?case
  proof (cases r1)
    case None
    with "1.IH" [OF p [symmetric] None] show ?thesis
      by (simp add: poll_next.simps [of X _ s] boxed_pass p)
  next
    case (Some r)
    then show ?thesis by (simp add: poll_next.simps [of X _ s] boxed_pass p id_def)
  qed
qed

lemma boxed_message: "message X (boxed_decoder wrap D) s = boxed_item wrap (message X D s)"
proof (induction X D s rule: message.induct)
  case (1 X D s)
  obtain s1 r1 where p: "poll_next X D s = (s1, r1)" by fastforce
  show ?case
  proof (cases r1)
    case Pending
    with "1.IH" [OF p [symmetric]] show ?thesis
      by (simp add: message.simps [of X _ s] boxed_next p)
  next
    case (Ready r)
    then show ?thesis by (auto simp: message.simps [of X _ s] boxed_next p split: option.split sum.split)
  qed
qed

lemma boxed_drain:
  fixes X :: "('h, 'x) ext" and D :: "('h, 'a) decoder" and wrap :: "'a \<Rightarrow> 'n"
  shows "drain X (boxed_decoder wrap D) s = drain X D s"
proof -
  have a: "drain X (boxed_decoder wrap D) s = Some r" if "drain X D s = Some r" for r
  proof (rule drain.raw_induct [of "\<lambda>X D s r. drain X (boxed_decoder wrap D) s = Some r", OF _ that])
    fix f and X :: "('h, 'x) ext" and D :: "('h, 'a) decoder" and s and r :: "'h streaming_inner \<times> ('h status + unit)"
    assume "\<And>X D s r. f X D s = Some r \<Longrightarrow> drain X (boxed_decoder wrap D) s = Some r"
      "(case message X D s of (s', Inl e) \<Rightarrow> Some (s', Inl e) | (s', Inr None) \<Rightarrow> Some (s', Inr ())
        | (s', Inr (Some x)) \<Rightarrow> f X D s') = Some r"
    then show "drain X (boxed_decoder wrap D) s = Some r"
      by (subst drain.simps) (auto simp: boxed_message split: prod.splits sum.splits option.splits)
  qed
  have b: "\<forall>D. D' = boxed_decoder wrap D \<longrightarrow> drain X D s = Some r" if "drain X D' s = Some r" for r D'
  proof (rule drain.raw_induct [of "\<lambda>X D' s r. \<forall>D. D' = boxed_decoder wrap D \<longrightarrow> drain X D s = Some r", OF _ that])
    fix f and X :: "('h, 'x) ext" and D' :: "('h, 'n) decoder" and s and r :: "'h streaming_inner \<times> ('h status + unit)"
    assume IH: "\<And>X D' s r. f X D' s = Some r \<Longrightarrow> \<forall>D. D' = boxed_decoder wrap D \<longrightarrow> drain X D s = Some r"
      and f: "(case message X D' s of (s', Inl e) \<Rightarrow> Some (s', Inl e) | (s', Inr None) \<Rightarrow> Some (s', Inr ())
        | (s', Inr (Some x)) \<Rightarrow> f X D' s') = Some r"
    have "f X (boxed_decoder wrap D) s = Some r \<Longrightarrow> drain X D s = Some r" for X :: "('h, 'x) ext" and D s r using IH by blast
    with f show "\<forall>D. D' = boxed_decoder wrap D \<longrightarrow> drain X D s = Some r"
      by (cases r) (auto simp: boxed_message drain.simps [of X _ s] split: prod.splits sum.splits option.splits)
  qed
  show ?thesis using a b by (cases "drain X D s"; cases "drain X (boxed_decoder wrap D) s") auto
qed

lemma boxed_trailers: "streaming_trailers X (boxed_decoder wrap D) s = streaming_trailers X D s"
  by (simp add: streaming_trailers_def boxed_drain split: option.split)

text \<open>A unary call through either decoder.\<close>

lemma boxed_create_response:
  "create_response X C (boxed_decoder wrap D) resp
    = map_sum id (response_map (\<lambda>s. \<lparr>sg_decoder = boxed_decoder wrap (sg_decoder s), sg_inner = sg_inner s\<rparr>)) (create_response X C D resp)"
  by (auto simp: create_response_def response_from_http_parts_def response_map_def new_empty_def new_response_def
      streaming_new_def split: sum.split option.split)

lemma boxed_client_unary:
  "client_unary X U C E (boxed_decoder wrap D) transport request path
    = map_option (map_sum id (response_map wrap)) (client_unary X U C E D transport request path)"
proof -
  let ?rq = "request_map (\<lambda>m. [Ready m]) request"
  have call: "client_streaming_call X U C E (boxed_decoder wrap D) transport ?rq path
      = map_sum id (response_map (\<lambda>s. \<lparr>sg_decoder = boxed_decoder wrap (sg_decoder s), sg_inner = sg_inner s\<rparr>))
          (client_streaming_call X U C E D transport ?rq path)"
    by (auto simp: client_streaming_call_def Let_def boxed_create_response split: sum.split)
  show ?thesis
    unfolding client_unary_def client_client_streaming_def call
    by (auto simp: response_map_def boxed_message boxed_trailers response_from_parts_def Let_def
        split: sum.split option.split prod.split)
qed

end
