(* ===== verification/Todo.thy ===== *)
theory Todo
  imports FlatBuffers Router Boxed Formats
begin

section \<open>The todo servers\<close>

text \<open>
  \<^verbatim>\<open>benchmarks/bin/flatbuffers_todo_server.rs\<close>: a service with state, written by hand on
  the framework: its messages over FlatBuffers, the four methods over a shared map, and the dispatch
  on the path. \<^verbatim>\<open>prost_todo_server.rs\<close>: the same methods over the messages of a
  generated server. The code flatc generates from \<^verbatim>\<open>benchmarks/fbs/todo.fbs\<close> is a
  parameter: for each table, what writing its fields and finishing the buffer makes, and what reading
  a buffer gives. The lemmas show that every message comes back from its bytes, what each method does
  to the map, and that the two servers do the same.
\<close>

subsection \<open>The messages\<close>

record todo =
  td_id :: "string option"
  td_title :: "string option"
  td_description :: "string option"
  td_completed :: bool
  td_created_at :: "64 word"

record create_todo_request =
  cq_title :: "string option"
  cq_description :: "string option"

record create_todo_response = cp_todo :: "todo option"

record get_todo_request = gq_id :: "string option"

record get_todo_response = gp_todo :: "todo option"

datatype list_todos_request = ListTodosRequestT

record list_todos_response = lp_todos :: "todo list"

record delete_todo_request = dq_id :: "string option"

datatype delete_todo_response = DeleteTodoResponseT

text \<open>The values the types have by default.\<close>

definition todo_default :: todo where
  "todo_default = \<lparr>td_id = None, td_title = None, td_description = None, td_completed = False, td_created_at = 0\<rparr>"

definition create_todo_request_default :: create_todo_request where
  "create_todo_request_default = \<lparr>cq_title = None, cq_description = None\<rparr>"

definition create_todo_response_default :: create_todo_response where
  "create_todo_response_default = \<lparr>cp_todo = None\<rparr>"

definition get_todo_request_default :: get_todo_request where
  "get_todo_request_default = \<lparr>gq_id = None\<rparr>"

definition get_todo_response_default :: get_todo_response where
  "get_todo_response_default = \<lparr>gp_todo = None\<rparr>"

definition list_todos_response_default :: list_todos_response where
  "list_todos_response_default = \<lparr>lp_todos = []\<rparr>"

definition delete_todo_request_default :: delete_todo_request where
  "delete_todo_request_default = \<lparr>dq_id = None\<rparr>"

subsection \<open>The tables\<close>

text \<open>
  The fields given to the generated \<^verbatim>\<open>create\<close> functions: a string or a nested table by
  its offset in the builder, a missing one is \<open>None\<close>.
\<close>

record todo_args =
  ta_id :: "string option"
  ta_title :: "string option"
  ta_description :: "string option"
  ta_completed :: bool
  ta_created_at :: "64 word"

record 'a fb_table =
  ft_finish :: "'a \<Rightarrow> bytes"
  ft_root :: "bytes \<Rightarrow> string + 'a"

record todo_tables =
  tt_todo :: "todo_args fb_table"
  tt_create_request :: "(string option \<times> string option) fb_table"
  tt_create_response :: "todo_args option fb_table"
  tt_get_request :: "string option fb_table"
  tt_get_response :: "todo_args option fb_table"
  tt_list_request :: "unit fb_table"
  tt_list_response :: "todo_args list option fb_table"
  tt_delete_request :: "string option fb_table"
  tt_delete_response :: "unit fb_table"

text \<open>What flatc's code and its runtime promise: a finished buffer reads as what was written.\<close>

definition table_laws :: "'a fb_table \<Rightarrow> bool" where
  "table_laws t \<longleftrightarrow> (\<forall>a. ft_root t (ft_finish t a) = Inr a)"

definition todo_tables_laws :: "todo_tables \<Rightarrow> bool" where
  "todo_tables_laws F \<longleftrightarrow> table_laws (tt_todo F) \<and> table_laws (tt_create_request F) \<and>
     table_laws (tt_create_response F) \<and> table_laws (tt_get_request F) \<and> table_laws (tt_get_response F) \<and>
     table_laws (tt_list_request F) \<and> table_laws (tt_list_response F) \<and> table_laws (tt_delete_request F) \<and>
     table_laws (tt_delete_response F)"

subsection \<open>Encoding and decoding\<close>

definition todo_args_of :: "todo \<Rightarrow> todo_args" where
  "todo_args_of t =
     \<lparr>ta_id = td_id t, ta_title = td_title t, ta_description = td_description t,
      ta_completed = td_completed t, ta_created_at = td_created_at t\<rparr>"

definition todo_of_args :: "todo_args \<Rightarrow> todo" where
  "todo_of_args a =
     \<lparr>td_id = ta_id a, td_title = ta_title a, td_description = ta_description a,
      td_completed = ta_completed a, td_created_at = ta_created_at a\<rparr>"

text \<open>\<^verbatim>\<open>flatbuffers::root\<close> with the error named by its type.\<close>

definition fb_read :: "'a fb_table \<Rightarrow> string \<Rightarrow> bytes \<Rightarrow> string + 'a" where
  "fb_read t type_name data =
     (case ft_root t data of Inl e \<Rightarrow> Inl (''invalid '' @ type_name @ '': '' @ e) | Inr a \<Rightarrow> Inr a)"

definition encode_todo :: "todo_tables \<Rightarrow> todo \<Rightarrow> bytes" where
  "encode_todo F t = ft_finish (tt_todo F) (todo_args_of t)"

definition decode_todo :: "todo_tables \<Rightarrow> bytes \<Rightarrow> string + todo" where
  "decode_todo F data = map_sum id todo_of_args (fb_read (tt_todo F) ''Todo'' data)"

definition encode_create_request :: "todo_tables \<Rightarrow> create_todo_request \<Rightarrow> bytes" where
  "encode_create_request F r = ft_finish (tt_create_request F) (cq_title r, cq_description r)"

definition decode_create_request :: "todo_tables \<Rightarrow> bytes \<Rightarrow> string + create_todo_request" where
  "decode_create_request F data =
     map_sum id (\<lambda>(title, description). \<lparr>cq_title = title, cq_description = description\<rparr>)
       (fb_read (tt_create_request F) ''CreateTodoRequest'' data)"

definition encode_create_response :: "todo_tables \<Rightarrow> create_todo_response \<Rightarrow> bytes" where
  "encode_create_response F r = ft_finish (tt_create_response F) (map_option todo_args_of (cp_todo r))"

definition decode_create_response :: "todo_tables \<Rightarrow> bytes \<Rightarrow> string + create_todo_response" where
  "decode_create_response F data =
     map_sum id (\<lambda>t. \<lparr>cp_todo = map_option todo_of_args t\<rparr>) (fb_read (tt_create_response F) ''CreateTodoResponse'' data)"

definition encode_get_request :: "todo_tables \<Rightarrow> get_todo_request \<Rightarrow> bytes" where
  "encode_get_request F r = ft_finish (tt_get_request F) (gq_id r)"

definition decode_get_request :: "todo_tables \<Rightarrow> bytes \<Rightarrow> string + get_todo_request" where
  "decode_get_request F data =
     map_sum id (\<lambda>i. \<lparr>gq_id = i\<rparr>) (fb_read (tt_get_request F) ''GetTodoRequest'' data)"

definition encode_get_response :: "todo_tables \<Rightarrow> get_todo_response \<Rightarrow> bytes" where
  "encode_get_response F r = ft_finish (tt_get_response F) (map_option todo_args_of (gp_todo r))"

definition decode_get_response :: "todo_tables \<Rightarrow> bytes \<Rightarrow> string + get_todo_response" where
  "decode_get_response F data =
     map_sum id (\<lambda>t. \<lparr>gp_todo = map_option todo_of_args t\<rparr>) (fb_read (tt_get_response F) ''GetTodoResponse'' data)"

text \<open>The two types without fields ignore the bytes they are read from.\<close>

definition encode_list_request :: "todo_tables \<Rightarrow> list_todos_request \<Rightarrow> bytes" where
  "encode_list_request F r = ft_finish (tt_list_request F) ()"

definition decode_list_request :: "bytes \<Rightarrow> string + list_todos_request" where
  "decode_list_request data = Inr ListTodosRequestT"

definition encode_list_response :: "todo_tables \<Rightarrow> list_todos_response \<Rightarrow> bytes" where
  "encode_list_response F r = ft_finish (tt_list_response F) (Some (map todo_args_of (lp_todos r)))"

definition decode_list_response :: "todo_tables \<Rightarrow> bytes \<Rightarrow> string + list_todos_response" where
  "decode_list_response F data =
     map_sum id (\<lambda>ts. \<lparr>lp_todos = (case ts of Some v \<Rightarrow> map todo_of_args v | None \<Rightarrow> [])\<rparr>)
       (fb_read (tt_list_response F) ''ListTodosResponse'' data)"

definition encode_delete_request :: "todo_tables \<Rightarrow> delete_todo_request \<Rightarrow> bytes" where
  "encode_delete_request F r = ft_finish (tt_delete_request F) (dq_id r)"

definition decode_delete_request :: "todo_tables \<Rightarrow> bytes \<Rightarrow> string + delete_todo_request" where
  "decode_delete_request F data =
     map_sum id (\<lambda>i. \<lparr>dq_id = i\<rparr>) (fb_read (tt_delete_request F) ''DeleteTodoRequest'' data)"

definition encode_delete_response :: "todo_tables \<Rightarrow> delete_todo_response \<Rightarrow> bytes" where
  "encode_delete_response F r = ft_finish (tt_delete_response F) ()"

definition decode_delete_response :: "bytes \<Rightarrow> string + delete_todo_response" where
  "decode_delete_response data = Inr DeleteTodoResponseT"

subsection \<open>The service\<close>

text \<open>
  The map from identifiers to todos, as entries with distinct keys; \<open>iter\<close> is the order it iterates
  in. The state is behind a lock each method holds while it uses it, so a method is one step. The
  identifier is a fresh UUID and the time the seconds since the epoch, both parameters.
\<close>

type_synonym todos = "(string \<times> todo) list"

definition create_todo ::
  "('h, 'x) ext \<Rightarrow> string \<Rightarrow> 64 word \<Rightarrow> todos \<Rightarrow> ('h, 'x, create_todo_request) request
     \<Rightarrow> todos \<times> ('h status + ('h, 'x, create_todo_response) response)" where
  "create_todo X uuid created_at todos request =
     (let req = rq_message request;
          todo = \<lparr>td_id = Some uuid, td_title = cq_title req, td_description = cq_description req,
                  td_completed = False, td_created_at = created_at\<rparr>
      in (AList.update uuid todo todos, Inr (response_new X \<lparr>cp_todo = Some todo\<rparr>)))"

definition get_todo ::
  "('h, 'x) ext \<Rightarrow> todos \<Rightarrow> ('h, 'x, get_todo_request) request
     \<Rightarrow> todos \<times> ('h status + ('h, 'x, get_todo_response) response)" where
  "get_todo X todos request =
     (todos,
      case map_of todos (case gq_id (rq_message request) of Some i \<Rightarrow> i | None \<Rightarrow> []) of
        Some todo \<Rightarrow> Inr (response_new X \<lparr>gp_todo = Some todo\<rparr>)
      | None \<Rightarrow> Inl (status_new X NotFound ''Todo not found''))"

definition list_todos ::
  "('h, 'x) ext \<Rightarrow> (todos \<Rightarrow> todos) \<Rightarrow> todos \<Rightarrow> ('h, 'x, list_todos_request) request
     \<Rightarrow> todos \<times> ('h status + ('h, 'x, list_todos_response) response)" where
  "list_todos X iter todos request = (todos, Inr (response_new X \<lparr>lp_todos = map snd (iter todos)\<rparr>))"

definition delete_todo ::
  "('h, 'x) ext \<Rightarrow> todos \<Rightarrow> ('h, 'x, delete_todo_request) request
     \<Rightarrow> todos \<times> ('h status + ('h, 'x, delete_todo_response) response)" where
  "delete_todo X todos request =
     (let i = (case dq_id (rq_message request) of Some i \<Rightarrow> i | None \<Rightarrow> []) in
      if map_of todos i \<noteq> None then (AList.delete i todos, Inr (response_new X DeleteTodoResponseT))
      else (todos, Inl (status_new X NotFound ''Todo not found'')))"

subsection \<open>The dispatch\<close>

text \<open>The response types of the four methods as one.\<close>

datatype todo_reply =
  CreateReply create_todo_response
| GetReply get_todo_response
| ListReply list_todos_response
| DeleteReply delete_todo_response

fun created :: "todo_reply \<Rightarrow> create_todo_response option" where
  "created (CreateReply r) = Some r" | "created r = None"

fun got :: "todo_reply \<Rightarrow> get_todo_response option" where
  "got (GetReply r) = Some r" | "got r = None"

fun listed :: "todo_reply \<Rightarrow> list_todos_response option" where
  "listed (ListReply r) = Some r" | "listed r = None"

fun deleted :: "todo_reply \<Rightarrow> delete_todo_response option" where
  "deleted (DeleteReply r) = Some r" | "deleted r = None"

definition create_codec :: "('h, 'x) ext \<Rightarrow> todo_tables \<Rightarrow> ('h, create_todo_request, todo_reply) grpc_server" where
  "create_codec X F = grpc_server_new (boxed_encoder X created (flatbuffers_encoder (encode_create_response F)))
     (flatbuffers_decoder X (decode_create_request F))"

definition get_codec :: "('h, 'x) ext \<Rightarrow> todo_tables \<Rightarrow> ('h, get_todo_request, todo_reply) grpc_server" where
  "get_codec X F = grpc_server_new (boxed_encoder X got (flatbuffers_encoder (encode_get_response F)))
     (flatbuffers_decoder X (decode_get_request F))"

definition list_codec :: "('h, 'x) ext \<Rightarrow> todo_tables \<Rightarrow> ('h, list_todos_request, todo_reply) grpc_server" where
  "list_codec X F = grpc_server_new (boxed_encoder X listed (flatbuffers_encoder (encode_list_response F)))
     (flatbuffers_decoder X decode_list_request)"

definition delete_codec :: "('h, 'x) ext \<Rightarrow> todo_tables \<Rightarrow> ('h, delete_todo_request, todo_reply) grpc_server" where
  "delete_codec X F = grpc_server_new (boxed_encoder X deleted (flatbuffers_encoder (encode_delete_response F)))
     (flatbuffers_decoder X (decode_delete_request F))"

text \<open>
  \<^verbatim>\<open>Grpc::unary\<close> with a method that has a state: the state changes when the method is
  called, which it is when the request decodes.
\<close>

definition stateful_unary ::
  "('h, 'x) ext \<Rightarrow> ('h, 'm, 'n) grpc_server \<Rightarrow> ('s \<Rightarrow> ('h, 'x, 'm) request \<Rightarrow> 's \<times> ('h status + ('h, 'x, 'n) response))
     \<Rightarrow> 's \<Rightarrow> ('h, 'x) raw_request \<Rightarrow> 's \<times> ('h, 'x, 'n) grpc_http_response option" where
  "stateful_unary X G method s req =
     (case map_request_unary X G req of Some (Inr request) \<Rightarrow> fst (method s request) | _ \<Rightarrow> s,
      server_unary X G (\<lambda>request. snd (method s request)) req)"

text \<open>\<^verbatim>\<open>TodoServiceServer::call\<close>.\<close>

definition TODO_NAME :: string where "TODO_NAME = ''todo.TodoService''"

definition todo_call ::
  "('h, 'x) ext \<Rightarrow> todo_tables \<Rightarrow> (todos \<Rightarrow> todos) \<Rightarrow> string \<Rightarrow> 64 word \<Rightarrow> todos \<Rightarrow> ('h, 'x) raw_request
     \<Rightarrow> todos \<times> ('h, 'x, todo_reply) grpc_http_response option" where
  "todo_call X F iter uuid now todos req =
     (if hq_path req = ''/todo.TodoService/CreateTodo'' then
        stateful_unary X (create_codec X F) (\<lambda>s r. boxed CreateReply (create_todo X uuid now s r)) todos req
      else if hq_path req = ''/todo.TodoService/GetTodo'' then
        stateful_unary X (get_codec X F) (\<lambda>s r. boxed GetReply (get_todo X s r)) todos req
      else if hq_path req = ''/todo.TodoService/ListTodos'' then
        stateful_unary X (list_codec X F) (\<lambda>s r. boxed ListReply (list_todos X iter s r)) todos req
      else if hq_path req = ''/todo.TodoService/DeleteTodo'' then
        stateful_unary X (delete_codec X F) (\<lambda>s r. boxed DeleteReply (delete_todo X s r)) todos req
      else (todos, Some (status_into_http X body_empty (status_new X Unimplemented ''method not found''))))"

subsection \<open>The server over prost's messages\<close>

text \<open>Its strings are never missing; the dispatch is generated.\<close>

record prost_todo =
  pt_id :: string
  pt_title :: string
  pt_description :: string
  pt_completed :: bool
  pt_created_at :: "64 word"

definition prost_create_todo ::
  "('h, 'x) ext \<Rightarrow> string \<Rightarrow> 64 word \<Rightarrow> (string \<times> prost_todo) list \<Rightarrow> ('h, 'x, string \<times> string) request
     \<Rightarrow> (string \<times> prost_todo) list \<times> ('h status + ('h, 'x, prost_todo option) response)" where
  "prost_create_todo X uuid created_at todos request =
     (let (title, description) = rq_message request;
          todo = \<lparr>pt_id = uuid, pt_title = title, pt_description = description, pt_completed = False,
                  pt_created_at = created_at\<rparr>
      in (AList.update uuid todo todos, Inr (response_new X (Some todo))))"

definition prost_get_todo ::
  "('h, 'x) ext \<Rightarrow> (string \<times> prost_todo) list \<Rightarrow> ('h, 'x, string) request
     \<Rightarrow> (string \<times> prost_todo) list \<times> ('h status + ('h, 'x, prost_todo option) response)" where
  "prost_get_todo X todos request =
     (todos,
      case map_of todos (rq_message request) of
        Some todo \<Rightarrow> Inr (response_new X (Some todo))
      | None \<Rightarrow> Inl (status_new X NotFound ''Todo not found''))"

definition prost_list_todos ::
  "('h, 'x) ext \<Rightarrow> ((string \<times> prost_todo) list \<Rightarrow> (string \<times> prost_todo) list) \<Rightarrow> (string \<times> prost_todo) list
     \<Rightarrow> ('h, 'x, unit) request \<Rightarrow> (string \<times> prost_todo) list \<times> ('h status + ('h, 'x, prost_todo list) response)" where
  "prost_list_todos X iter todos request = (todos, Inr (response_new X (map snd (iter todos))))"

definition prost_delete_todo ::
  "('h, 'x) ext \<Rightarrow> (string \<times> prost_todo) list \<Rightarrow> ('h, 'x, string) request
     \<Rightarrow> (string \<times> prost_todo) list \<times> ('h status + ('h, 'x, unit) response)" where
  "prost_delete_todo X todos request =
     (if map_of todos (rq_message request) \<noteq> None
      then (AList.delete (rq_message request) todos, Inr (response_new X ()))
      else (todos, Inl (status_new X NotFound ''Todo not found'')))"

subsection \<open>Lemmas\<close>

lemma fb_read_finish: "table_laws t \<Longrightarrow> fb_read t n (ft_finish t a) = Inr a"
  by (simp add: fb_read_def table_laws_def)

lemma todo_of_args_of [simp]: "todo_of_args (todo_args_of t) = t" "todo_of_args \<circ> todo_args_of = id"
  by (simp_all add: todo_of_args_def todo_args_of_def fun_eq_iff)

lemma map_args [simp]:
  "map_option todo_of_args (map_option todo_args_of x) = x" "map todo_of_args (map todo_args_of xs) = xs"
  by (simp_all add: option.map_comp option.map_id)

text \<open>Every message comes back from its bytes.\<close>

lemma todo_message_roundtrips:
  assumes "todo_tables_laws F"
  shows "decode_create_request F (encode_create_request F m1) = Inr m1"
    and "decode_create_response F (encode_create_response F m2) = Inr m2"
    and "decode_get_request F (encode_get_request F m3) = Inr m3"
    and "decode_get_response F (encode_get_response F m4) = Inr m4"
    and "decode_list_request (encode_list_request F m5) = Inr m5"
    and "decode_list_response F (encode_list_response F m6) = Inr m6"
    and "decode_delete_request F (encode_delete_request F m7) = Inr m7"
    and "decode_delete_response (encode_delete_response F m8) = Inr m8"
    and "decode_todo F (encode_todo F m9) = Inr m9"
proof -
  have l: "table_laws (tt_create_request F)" "table_laws (tt_create_response F)" "table_laws (tt_get_request F)"
    "table_laws (tt_get_response F)" "table_laws (tt_list_response F)" "table_laws (tt_delete_request F)" "table_laws (tt_todo F)"
    using assms by (simp_all add: todo_tables_laws_def)
  note rt = l [THEN fb_read_finish]
  show "decode_create_request F (encode_create_request F m1) = Inr m1"
    by (simp add: decode_create_request_def encode_create_request_def rt(1))
  show "decode_create_response F (encode_create_response F m2) = Inr m2"
    by (simp add: decode_create_response_def encode_create_response_def rt(2))
  show "decode_get_request F (encode_get_request F m3) = Inr m3"
    by (simp add: decode_get_request_def encode_get_request_def rt(3))
  show "decode_get_response F (encode_get_response F m4) = Inr m4"
    by (simp add: decode_get_response_def encode_get_response_def rt(4))
  show "decode_list_request (encode_list_request F m5) = Inr m5"
    by (cases m5) (simp add: decode_list_request_def)
  show "decode_list_response F (encode_list_response F m6) = Inr m6"
    by (simp add: decode_list_response_def encode_list_response_def rt(5) del: map_map)
  show "decode_delete_request F (encode_delete_request F m7) = Inr m7"
    by (simp add: decode_delete_request_def encode_delete_request_def rt(6))
  show "decode_delete_response (encode_delete_response F m8) = Inr m8"
    by (cases m8) (simp add: decode_delete_response_def)
  show "decode_todo F (encode_todo F m9) = Inr m9"
    by (simp add: decode_todo_def encode_todo_def rt(7))
qed

text \<open>The client's side of the four codecs, and that each undoes the other's messages.\<close>

lemma todo_codec_laws:
  assumes "todo_tables_laws F"
  shows "codec_laws (flatbuffers_encoder (encode_create_request F)) (gs_decoder (create_codec X F))"
    and "codec_laws (gs_encoder (create_codec X F)) (boxed_decoder CreateReply (flatbuffers_decoder X (decode_create_response F)))"
    and "codec_laws (flatbuffers_encoder (encode_get_request F)) (gs_decoder (get_codec X F))"
    and "codec_laws (gs_encoder (get_codec X F)) (boxed_decoder GetReply (flatbuffers_decoder X (decode_get_response F)))"
    and "codec_laws (flatbuffers_encoder (encode_list_request F)) (gs_decoder (list_codec X F))"
    and "codec_laws (gs_encoder (list_codec X F)) (boxed_decoder ListReply (flatbuffers_decoder X (decode_list_response F)))"
    and "codec_laws (flatbuffers_encoder (encode_delete_request F)) (gs_decoder (delete_codec X F))"
    and "codec_laws (gs_encoder (delete_codec X F)) (boxed_decoder DeleteReply (flatbuffers_decoder X decode_delete_response))"
proof -
  note rt = todo_message_roundtrips [OF assms]
  have fb: "codec_laws (flatbuffers_encoder e) (flatbuffers_decoder X d)" if "\<And>m. d (e m) = Inr m"
    for e :: "'m \<Rightarrow> bytes" and d by (rule flatbuffers_codec_laws) (simp add: that)
  show "codec_laws (flatbuffers_encoder (encode_create_request F)) (gs_decoder (create_codec X F))"
    "codec_laws (flatbuffers_encoder (encode_get_request F)) (gs_decoder (get_codec X F))"
    "codec_laws (flatbuffers_encoder (encode_list_request F)) (gs_decoder (list_codec X F))"
    "codec_laws (flatbuffers_encoder (encode_delete_request F)) (gs_decoder (delete_codec X F))"
    by (simp_all add: create_codec_def get_codec_def list_codec_def delete_codec_def grpc_server_new_def fb rt)
  have sel: "created m = Some a1 \<Longrightarrow> CreateReply a1 = m" "got m = Some a2 \<Longrightarrow> GetReply a2 = m"
    "listed m = Some a3 \<Longrightarrow> ListReply a3 = m" "deleted m = Some a4 \<Longrightarrow> DeleteReply a4 = m" for m a1 a2 a3 a4
    by (cases m; simp)+
  show "codec_laws (gs_encoder (create_codec X F)) (boxed_decoder CreateReply (flatbuffers_decoder X (decode_create_response F)))"
    "codec_laws (gs_encoder (get_codec X F)) (boxed_decoder GetReply (flatbuffers_decoder X (decode_get_response F)))"
    "codec_laws (gs_encoder (list_codec X F)) (boxed_decoder ListReply (flatbuffers_decoder X (decode_list_response F)))"
    "codec_laws (gs_encoder (delete_codec X F)) (boxed_decoder DeleteReply (flatbuffers_decoder X decode_delete_response))"
    by (simp_all add: create_codec_def get_codec_def list_codec_def delete_codec_def grpc_server_new_def boxed_codec_laws fb rt sel)
qed

subsection \<open>What the service keeps\<close>

text \<open>
  The calls of the service, with the identifier and the time each is given, and the todos that are
  there after a history of calls, the newest first.
\<close>

datatype todo_query =
  CreateQuery create_todo_request
| GetQuery get_todo_request
| ListQuery list_todos_request
| DeleteQuery delete_todo_request

type_synonym todo_event = "string \<times> 64 word \<times> todo_query"

definition made :: "string \<Rightarrow> 64 word \<Rightarrow> create_todo_request \<Rightarrow> todo" where
  "made uuid now r = \<lparr>td_id = Some uuid, td_title = cq_title r, td_description = cq_description r,
     td_completed = False, td_created_at = now\<rparr>"

definition key_of :: "string option \<Rightarrow> string" where
  "key_of i = (case i of Some i \<Rightarrow> i | None \<Rightarrow> [])"

fun live :: "todo_event list \<Rightarrow> string \<Rightarrow> todo option" where
  "live [] i = None"
| "live ((uuid, now, CreateQuery r) # h) i = (if i = uuid then Some (made uuid now r) else live h i)"
| "live ((uuid, now, DeleteQuery r) # h) i = (if i = key_of (dq_id r) then None else live h i)"
| "live ((uuid, now, GetQuery r) # h) i = live h i"
| "live ((uuid, now, ListQuery r) # h) i = live h i"

text \<open>What a call is answered after a history.\<close>

definition not_found :: "'h status + todo_reply \<Rightarrow> bool" where
  "not_found res \<longleftrightarrow> (\<exists>st. res = Inl st \<and> st_code st = NotFound \<and> st_message st = ''Todo not found'' \<and> st_details st = [])"

definition todo_answer :: "todo_event list \<Rightarrow> todo_event \<Rightarrow> 'h status + todo_reply \<Rightarrow> bool" where
  "todo_answer h ev res \<longleftrightarrow>
     (case ev of (uuid, now, q) \<Rightarrow> case q of
        CreateQuery r \<Rightarrow> res = Inr (CreateReply \<lparr>cp_todo = Some (made uuid now r)\<rparr>)
      | GetQuery r \<Rightarrow>
          (case live h (key_of (gq_id r)) of
             Some t \<Rightarrow> res = Inr (GetReply \<lparr>gp_todo = Some t\<rparr>) | None \<Rightarrow> not_found res)
      | ListQuery r \<Rightarrow>
          (\<exists>ids. distinct ids \<and> set ids = dom (live h) \<and> res = Inr (ListReply \<lparr>lp_todos = map (the \<circ> live h) ids\<rparr>))
      | DeleteQuery r \<Rightarrow>
          if live h (key_of (dq_id r)) \<noteq> None then res = Inr (DeleteReply DeleteTodoResponseT) else not_found res)"

definition keeps_history :: "todos \<Rightarrow> todo_event list \<Rightarrow> bool" where
  "keeps_history s h \<longleftrightarrow> distinct (map fst s) \<and> map_of s = live h"

lemma fst_boxed: "fst (boxed wrap p) = fst p" by (simp add: boxed_def)

lemma history_create:
  assumes "keeps_history s h"
  shows "keeps_history (fst (create_todo X uuid now s req)) ((uuid, now, CreateQuery (rq_message req)) # h)"
    and "todo_answer h (uuid, now, CreateQuery (rq_message req)) (map_sum id rs_message (snd (boxed CreateReply (create_todo X uuid now s req))))"
  using assms
  by (auto simp: keeps_history_def create_todo_def todo_answer_def made_def distinct_update update_conv Let_def boxed_def
      response_map_def response_new_def)

lemma history_get:
  assumes "keeps_history s h"
  shows "keeps_history (fst (get_todo X s req)) ((uuid, now, GetQuery (rq_message req)) # h)"
    and "todo_answer h (uuid, now, GetQuery (rq_message req)) (map_sum id rs_message (snd (boxed GetReply (get_todo X s req))))"
  using assms
  by (auto simp: keeps_history_def get_todo_def todo_answer_def key_of_def boxed_def not_found_def status_new_def
      with_details_and_metadata_def response_map_def response_new_def fun_eq_iff split: option.split)

lemma history_list:
  assumes "keeps_history s h" "\<And>xs. mset (iter xs) = mset xs"
  shows "keeps_history (fst (list_todos X iter s req)) ((uuid, now, ListQuery (rq_message req)) # h)"
    and "todo_answer h (uuid, now, ListQuery (rq_message req)) (map_sum id rs_message (snd (boxed ListReply (list_todos X iter s req))))"
proof -
  show "keeps_history (fst (list_todos X iter s req)) ((uuid, now, ListQuery (rq_message req)) # h)"
    using assms(1) by (simp add: keeps_history_def list_todos_def fun_eq_iff)
  let ?ids = "map fst (iter s)"
  have m: "mset ?ids = mset (map fst s)" using assms(2) by simp
  have d: "distinct ?ids" using assms(1) m by (metis keeps_history_def mset_eq_imp_distinct_iff)
  have set: "set (iter s) = set s" using assms(2) by (metis set_mset_mset)
  have "set ?ids = dom (live h)" using assms(1) set dom_map_of_conv_image_fst [of s] by (simp add: keeps_history_def)
  moreover have "snd e = the (live h (fst e))" if "e \<in> set (iter s)" for e
    using assms(1) that set by (cases e) (auto simp: keeps_history_def dest!: map_of_is_SomeI)
  then have "map snd (iter s) = map (the \<circ> live h) ?ids" by simp
  ultimately show "todo_answer h (uuid, now, ListQuery (rq_message req)) (map_sum id rs_message (snd (boxed ListReply (list_todos X iter s req))))"
    using d by (auto simp: todo_answer_def list_todos_def boxed_def response_map_def response_new_def intro!: exI [of _ ?ids])
qed

lemma history_delete:
  assumes "keeps_history s h"
  shows "keeps_history (fst (delete_todo X s req)) ((uuid, now, DeleteQuery (rq_message req)) # h)"
    and "todo_answer h (uuid, now, DeleteQuery (rq_message req)) (map_sum id rs_message (snd (boxed DeleteReply (delete_todo X s req))))"
  using assms
  by (auto simp: keeps_history_def delete_todo_def todo_answer_def key_of_def Let_def boxed_def not_found_def status_new_def
      with_details_and_metadata_def response_map_def response_new_def fun_eq_iff delete_conv distinct_delete)

subsection \<open>The two servers agree\<close>

text \<open>
  A call of the server over prost's messages, seen as the call of the other server whose strings are
  all there.
\<close>

definition fb_todo :: "prost_todo \<Rightarrow> todo" where
  "fb_todo t = \<lparr>td_id = Some (pt_id t), td_title = Some (pt_title t), td_description = Some (pt_description t),
     td_completed = pt_completed t, td_created_at = pt_created_at t\<rparr>"

definition fb_todos :: "(string \<times> prost_todo) list \<Rightarrow> todos" where
  "fb_todos = map (apsnd fb_todo)"

lemma fb_todos_simps:
  "map_of (fb_todos s) k = map_option fb_todo (map_of s k)"
  "AList.update k (fb_todo t) (fb_todos s) = fb_todos (AList.update k t s)"
  "AList.delete k (fb_todos s) = fb_todos (AList.delete k s)"
  unfolding fb_todos_def by (induction s) (auto simp: AList.delete_eq)

lemma prost_methods_agree:
  assumes "fb_iter (fb_todos s) = fb_todos (iter s)"
  shows "create_todo X uuid now (fb_todos s) (request_map (\<lambda>(t, d). \<lparr>cq_title = Some t, cq_description = Some d\<rparr>) rc)
      = map_prod fb_todos (map_sum id (response_map (\<lambda>t. \<lparr>cp_todo = map_option fb_todo t\<rparr>))) (prost_create_todo X uuid now s rc)"
    and "get_todo X (fb_todos s) (request_map (\<lambda>i. \<lparr>gq_id = Some i\<rparr>) rg)
      = map_prod fb_todos (map_sum id (response_map (\<lambda>t. \<lparr>gp_todo = map_option fb_todo t\<rparr>))) (prost_get_todo X s rg)"
    and "list_todos X fb_iter (fb_todos s) (request_map (\<lambda>_. ListTodosRequestT) rl)
      = map_prod fb_todos (map_sum id (response_map (\<lambda>ts. \<lparr>lp_todos = map fb_todo ts\<rparr>))) (prost_list_todos X iter s rl)"
    and "delete_todo X (fb_todos s) (request_map (\<lambda>i. \<lparr>dq_id = Some i\<rparr>) rd)
      = map_prod fb_todos (map_sum id (response_map (\<lambda>_. DeleteTodoResponseT))) (prost_delete_todo X s rd)"
proof -
  note simps = Let_def request_map_def response_map_def response_new_def
  show "create_todo X uuid now (fb_todos s) (request_map (\<lambda>(t, d). \<lparr>cq_title = Some t, cq_description = Some d\<rparr>) rc)
      = map_prod fb_todos (map_sum id (response_map (\<lambda>t. \<lparr>cp_todo = map_option fb_todo t\<rparr>))) (prost_create_todo X uuid now s rc)"
    by (cases "rq_message rc")
       (simp add: create_todo_def prost_create_todo_def simps fb_todos_simps(2) [symmetric] fb_todo_def)
  show "get_todo X (fb_todos s) (request_map (\<lambda>i. \<lparr>gq_id = Some i\<rparr>) rg)
      = map_prod fb_todos (map_sum id (response_map (\<lambda>t. \<lparr>gp_todo = map_option fb_todo t\<rparr>))) (prost_get_todo X s rg)"
    by (simp add: get_todo_def prost_get_todo_def simps fb_todos_simps split: option.split)
  show "list_todos X fb_iter (fb_todos s) (request_map (\<lambda>_. ListTodosRequestT) rl)
      = map_prod fb_todos (map_sum id (response_map (\<lambda>ts. \<lparr>lp_todos = map fb_todo ts\<rparr>))) (prost_list_todos X iter s rl)"
    using assms by (simp add: list_todos_def prost_list_todos_def simps) (simp add: fb_todos_def)
  show "delete_todo X (fb_todos s) (request_map (\<lambda>i. \<lparr>dq_id = Some i\<rparr>) rd)
      = map_prod fb_todos (map_sum id (response_map (\<lambda>_. DeleteTodoResponseT))) (prost_delete_todo X s rd)"
    by (simp add: delete_todo_def prost_delete_todo_def simps fb_todos_simps)
qed

subsection \<open>Tables for the examples\<close>

definition plain_table :: "'a wire_format \<Rightarrow> 'a fb_table" where
  "plain_table w = \<lparr>ft_finish = wf_write w, ft_root = (\<lambda>bs. case wf_read w bs of Some (a, r) \<Rightarrow> Inr a | None \<Rightarrow> Inl ''truncated'')\<rparr>"

lemma plain_table_laws: "wire_ok w \<Longrightarrow> table_laws (plain_table w)"
  unfolding table_laws_def plain_table_def wire_ok_def by (metis append_Nil2 fb_table.select_convs option.simps(5) split_conv)

definition wire_args :: "todo_args wire_format" where
  "wire_args = wire_map
     (\<lambda>a. (ta_id a, ta_title a, ta_description a, ta_completed a, ta_created_at a))
     (\<lambda>(i, t, d, c, n). \<lparr>ta_id = i, ta_title = t, ta_description = d, ta_completed = c, ta_created_at = n\<rparr>)
     (wire_pair (wire_option wire_text) (wire_pair (wire_option wire_text) (wire_pair (wire_option wire_text)
       (wire_pair wire_bool wire_word))))"

definition plain_tables :: todo_tables where
  "plain_tables =
     \<lparr>tt_todo = plain_table wire_args,
      tt_create_request = plain_table (wire_pair (wire_option wire_text) (wire_option wire_text)),
      tt_create_response = plain_table (wire_option wire_args),
      tt_get_request = plain_table (wire_option wire_text),
      tt_get_response = plain_table (wire_option wire_args),
      tt_list_request = plain_table wire_unit,
      tt_list_response = plain_table (wire_option (wire_list wire_args)),
      tt_delete_request = plain_table (wire_option wire_text),
      tt_delete_response = plain_table wire_unit\<rparr>"

lemma plain_tables_laws: "todo_tables_laws plain_tables"
proof -
  have "wire_ok wire_args" unfolding wire_args_def by (intro wire_ok_parts wire_ok_scalars) simp
  then show ?thesis
    by (simp add: todo_tables_laws_def plain_tables_def plain_table_laws wire_ok_parts wire_ok_scalars)
qed

end
