(* ===== verification/Todo_Rpc.thy ===== *)
theory Todo_Rpc
  imports Stack Todo Loops
begin

section \<open>The todo service over the wire\<close>

text \<open>
  The hand-written server of \<^verbatim>\<open>benchmarks/bin/flatbuffers_todo_server.rs\<close> and the
  client of \<^verbatim>\<open>benchmarks/bin/todo_load_test.rs\<close>, with the whole library between
  them: FlatBuffers codec, client, network, server, router and dispatch. A sequence of calls changes
  the state of the service; the property states every answer by the history of the calls alone.
\<close>

subsection \<open>A service with a state behind the server\<close>

text \<open>
  A call of such a service: what the client gets, and the state the handler leaves, which runs on the
  request that reaches it. The server has no deadline, so the handler always runs to its end.
\<close>

definition stateful_call ::
  "('h, 'x) ext \<Rightarrow> 'o uri_ops \<Rightarrow> 'o grpc_client \<Rightarrow> ('h, 'm) encoder \<Rightarrow> ('h, 'n) decoder
     \<Rightarrow> ('h body \<Rightarrow> 'h body) \<Rightarrow> nat \<Rightarrow> (('h, 'h err) raw_body \<Rightarrow> bool)
     \<Rightarrow> ((string \<times> ('h, 'x, ('h, 'h err) raw_body body_kind body_kind, ('h, 'r) encode_body body_kind) service) list
         \<Rightarrow> (string \<times> ('h, 'x, ('h, 'h err) raw_body body_kind body_kind, ('h, 'r) encode_body body_kind) service) list)
     \<Rightarrow> string \<Rightarrow> nat \<Rightarrow> ('s \<Rightarrow> ('h, 'x) raw_request \<Rightarrow> 's \<times> ('h, 'x, 'r) grpc_http_response option)
     \<Rightarrow> 's \<Rightarrow> ('h, 'x, 'm) request \<Rightarrow> string \<Rightarrow> 's \<times> ('h status + ('h, 'x, 'n) response) option" where
  "stateful_call X U C E D carry n is_end iter name delay handler s request path =
     (case prepare_request X U C (request_map (body_new eb_is_end_stream)
         (request_map (\<lambda>s. new_client E (stream_ok s) (gc_send C) (gc_max_encoding C)) (request_map (\<lambda>m. [Ready m]) request))) path of
        Inr r \<Rightarrow> fst (handler s (delivered X carry n None is_end r))
      | Inl _ \<Rightarrow> s,
      client_unary X U C E D (reaching X carry n (served X is_end iter
         (add_service router_new name (as_service X (\<lambda>r. snd (handler s r)))) None None delay)) request path)"

lemma stateful_service_call:
  fixes X :: "('h, 'x) ext" and G :: "('h, 'm, 'n) grpc_server"
  assumes laws: "header_laws X" "value_laws X" "percent_laws X" "base64_laws X" "compressor_laws X"
    and net: "network_laws carry" "1 < n"
    and codecs: "codec_laws E (gs_decoder G)" "codec_laws (gs_encoder G) D"
    and uri: "client_uri X U C path = Inr (''/'' @ name @ ''/'' @ m)" and name: "CHR ''/'' \<notin> set name"
    and enc: "\<forall>e. gc_send C = Some e \<longrightarrow> is_enabled (gs_accept G) e"
    and msg: "deliverable X E (gc_send C) (gc_max_encoding C) (gs_max_decoding G) (rq_message request)"
    and env: "\<forall>b. is_end b \<longrightarrow> b = []" "\<forall>xs. mset (iter xs) = mset xs"
    and handler: "\<And>r. hq_path r = ''/'' @ name @ ''/'' @ m \<Longrightarrow> handler s r = stateful_unary X G meth s r"
    and svc: "\<forall>req. rq_message req = rq_message request \<longrightarrow>
      answerable_once X G (negotiated C G) (gc_max_decoding C) (snd (meth s req))"
  shows "\<exists>req r. rq_message req = rq_message request \<and>
    stateful_call X U C E D carry n is_end iter name delay handler s request path = (fst (meth s req), Some r) \<and>
    once_result X (snd (meth s req)) r"
proof -
  have h: "\<forall>r. hq_path r = ''/'' @ name @ ''/'' @ m \<longrightarrow>
      snd (handler s r) = server_unary X G (\<lambda>req. snd (meth s req)) r" using handler by (simp add: stateful_unary_def)
  obtain req r q where "rq_message req = rq_message request"
    and q: "prepare_request X U C (request_map (body_new eb_is_end_stream)
        (request_map (\<lambda>s. new_client E (stream_ok s) (gc_send C) (gc_max_encoding C)) (request_map (\<lambda>m. [Ready m]) request))) path = Inr q"
      "hq_path (delivered X carry n None is_end q) = ''/'' @ name @ ''/'' @ m"
      "map_request_unary X G (delivered X carry n None is_end q) = Some (Inr req)"
    and r: "client_unary X U C E D (reaching X carry n (served X is_end iter
        (add_service router_new name (as_service X (\<lambda>r. snd (handler s r)))) None None delay)) request path = Some r"
      "once_result X (timed_result X None delay (snd (meth s req))) r"
    using unary_service_call [where handler = "\<lambda>r. snd (handler s r)" and svc = "\<lambda>req. snd (meth s req)" and timeout = None
        and peer_certs = None and delay = delay, OF laws net codecs uri enc msg env(1) route_only [OF env(2) name] h svc] by blast
  moreover have "fst (handler s (delivered X carry n None is_end q)) = fst (meth s req)"
    using handler [OF q(2)] q(3) by (simp add: stateful_unary_def)
  ultimately show ?thesis
    by (intro exI [of _ req] exI [of _ r]) (simp add: stateful_call_def timed_result_def)
qed

subsection \<open>The client\<close>

text \<open>
  The four methods of \<^verbatim>\<open>FlatBuffersTodoClient\<close>: the request with the name of the
  method among its extensions, the wait for the transport, the call.
\<close>

definition fbs_create_todo ::
  "('h, 'x) ext \<Rightarrow> todo_tables \<Rightarrow> 'o uri_ops \<Rightarrow> 'o grpc_client \<Rightarrow> (grpc_method \<Rightarrow> 'x \<Rightarrow> 'x) \<Rightarrow> 'h err + unit
     \<Rightarrow> ('h, 'x, create_todo_request) transport \<Rightarrow> string \<Rightarrow> string \<Rightarrow> ('h status + string) option" where
  "fbs_create_todo X F U C put_method ready transport title description =
     (let request = \<lparr>cq_title = Some title, cq_description = Some description\<rparr>;
          req = method_request X put_method ''todo.TodoService'' ''CreateTodo'' request
      in case client_ready X ready of
           Inl st \<Rightarrow> Some (Inl st)
         | Inr _ \<Rightarrow>
             map_option (map_sum id (\<lambda>response.
                 case cp_todo (rs_message response) of
                   Some t \<Rightarrow> (case td_id t of Some i \<Rightarrow> i | None \<Rightarrow> [])
                 | None \<Rightarrow> []))
               (client_unary X U C (flatbuffers_encoder (encode_create_request F))
                 (flatbuffers_decoder X (decode_create_response F)) transport req ''/todo.TodoService/CreateTodo''))"

definition fbs_get_todo ::
  "('h, 'x) ext \<Rightarrow> todo_tables \<Rightarrow> 'o uri_ops \<Rightarrow> 'o grpc_client \<Rightarrow> (grpc_method \<Rightarrow> 'x \<Rightarrow> 'x) \<Rightarrow> 'h err + unit
     \<Rightarrow> ('h, 'x, get_todo_request) transport \<Rightarrow> string \<Rightarrow> ('h status + unit) option" where
  "fbs_get_todo X F U C put_method ready transport i =
     (let req = method_request X put_method ''todo.TodoService'' ''GetTodo'' \<lparr>gq_id = Some i\<rparr>
      in case client_ready X ready of
           Inl st \<Rightarrow> Some (Inl st)
         | Inr _ \<Rightarrow> map_option (map_sum id (\<lambda>_. ()))
             (client_unary X U C (flatbuffers_encoder (encode_get_request F))
               (flatbuffers_decoder X (decode_get_response F)) transport req ''/todo.TodoService/GetTodo''))"

definition fbs_list_todos ::
  "('h, 'x) ext \<Rightarrow> todo_tables \<Rightarrow> 'o uri_ops \<Rightarrow> 'o grpc_client \<Rightarrow> (grpc_method \<Rightarrow> 'x \<Rightarrow> 'x) \<Rightarrow> 'h err + unit
     \<Rightarrow> ('h, 'x, list_todos_request) transport \<Rightarrow> ('h status + unit) option" where
  "fbs_list_todos X F U C put_method ready transport =
     (let req = method_request X put_method ''todo.TodoService'' ''ListTodos'' ListTodosRequestT
      in case client_ready X ready of
           Inl st \<Rightarrow> Some (Inl st)
         | Inr _ \<Rightarrow> map_option (map_sum id (\<lambda>_. ()))
             (client_unary X U C (flatbuffers_encoder (encode_list_request F))
               (flatbuffers_decoder X (decode_list_response F)) transport req ''/todo.TodoService/ListTodos''))"

definition fbs_delete_todo ::
  "('h, 'x) ext \<Rightarrow> todo_tables \<Rightarrow> 'o uri_ops \<Rightarrow> 'o grpc_client \<Rightarrow> (grpc_method \<Rightarrow> 'x \<Rightarrow> 'x) \<Rightarrow> 'h err + unit
     \<Rightarrow> ('h, 'x, delete_todo_request) transport \<Rightarrow> string \<Rightarrow> ('h status + unit) option" where
  "fbs_delete_todo X F U C put_method ready transport i =
     (let req = method_request X put_method ''todo.TodoService'' ''DeleteTodo'' \<lparr>dq_id = Some i\<rparr>
      in case client_ready X ready of
           Inl st \<Rightarrow> Some (Inl st)
         | Inr _ \<Rightarrow> map_option (map_sum id (\<lambda>_. ()))
             (client_unary X U C (flatbuffers_encoder (encode_delete_request F))
               (flatbuffers_decoder X decode_delete_response) transport req ''/todo.TodoService/DeleteTodo''))"

subsection \<open>Sequences of calls\<close>

text \<open>
  One call with a request of either method, as the client makes it, and its whole reply; \<open>setting\<close> is
  everything around the service that stays the same.
\<close>

record ('h, 'x, 'o) setting =
  sn_ext :: "('h, 'x) ext"
  sn_tables :: todo_tables
  sn_uri :: "'o uri_ops"
  sn_client :: "'o grpc_client"
  sn_put_method :: "grpc_method \<Rightarrow> 'x \<Rightarrow> 'x"
  sn_carry :: "'h body \<Rightarrow> 'h body"
  sn_polls :: nat
  sn_is_end :: "('h, 'h err) raw_body \<Rightarrow> bool"
  sn_routes :: "(string \<times> ('h, 'x, ('h, 'h err) raw_body body_kind body_kind, ('h, todo_reply) encode_body body_kind) service) list
     \<Rightarrow> (string \<times> ('h, 'x, ('h, 'h err) raw_body body_kind body_kind, ('h, todo_reply) encode_body body_kind) service) list"
  sn_iter :: "todos \<Rightarrow> todos"
  sn_delay :: nat

definition todo_unary ::
  "('h, 'x, 'o) setting \<Rightarrow> string \<Rightarrow> 64 word \<Rightarrow> ('h, 'm) encoder \<Rightarrow> ('a \<Rightarrow> todo_reply) \<Rightarrow> ('h, 'a) decoder
     \<Rightarrow> string \<Rightarrow> todos \<Rightarrow> 'm \<Rightarrow> todos \<times> ('h status + ('h, 'x, todo_reply) response) option" where
  "todo_unary S uuid now E wrap D method_name s m =
     stateful_call (sn_ext S) (sn_uri S) (sn_client S) E (boxed_decoder wrap D) (sn_carry S) (sn_polls S) (sn_is_end S)
       (sn_routes S) TODO_NAME (sn_delay S) (todo_call (sn_ext S) (sn_tables S) (sn_iter S) uuid now) s
       (method_request (sn_ext S) (sn_put_method S) ''todo.TodoService'' method_name m) (''/todo.TodoService/'' @ method_name)"

definition todo_exchange ::
  "('h, 'x, 'o) setting \<Rightarrow> todos \<Rightarrow> todo_event \<Rightarrow> todos \<times> ('h status + ('h, 'x, todo_reply) response) option" where
  "todo_exchange S s ev =
     (let X = sn_ext S; F = sn_tables S in case ev of (uuid, now, q) \<Rightarrow> case q of
        CreateQuery r \<Rightarrow> todo_unary S uuid now (flatbuffers_encoder (encode_create_request F)) CreateReply
          (flatbuffers_decoder X (decode_create_response F)) ''CreateTodo'' s r
      | GetQuery r \<Rightarrow> todo_unary S uuid now (flatbuffers_encoder (encode_get_request F)) GetReply
          (flatbuffers_decoder X (decode_get_response F)) ''GetTodo'' s r
      | ListQuery r \<Rightarrow> todo_unary S uuid now (flatbuffers_encoder (encode_list_request F)) ListReply
          (flatbuffers_decoder X (decode_list_response F)) ''ListTodos'' s r
      | DeleteQuery r \<Rightarrow> todo_unary S uuid now (flatbuffers_encoder (encode_delete_request F)) DeleteReply
          (flatbuffers_decoder X decode_delete_response) ''DeleteTodo'' s r)"

fun todo_run ::
  "('h, 'x, 'o) setting \<Rightarrow> todos \<Rightarrow> todo_event list \<Rightarrow> ('h status + ('h, 'x, todo_reply) response) option list" where
  "todo_run S s [] = []"
| "todo_run S s (ev # evs) = (case todo_exchange S s ev of (s', r) \<Rightarrow> r # todo_run S s' evs)"

subsection \<open>What the property relies on\<close>

definition setting_laws :: "('h, 'x, 'o) setting \<Rightarrow> bool" where
  "setting_laws S \<longleftrightarrow>
     header_laws (sn_ext S) \<and> value_laws (sn_ext S) \<and> percent_laws (sn_ext S) \<and> base64_laws (sn_ext S) \<and>
     compressor_laws (sn_ext S) \<and> todo_tables_laws (sn_tables S) \<and> network_laws (sn_carry S) \<and> 1 < sn_polls S \<and>
     (\<forall>b. sn_is_end S b \<longrightarrow> b = []) \<and> (\<forall>xs. mset (sn_routes S xs) = mset xs) \<and> (\<forall>xs. mset (sn_iter S xs) = mset xs) \<and>
     gc_send (sn_client S) = None \<and>
     (\<forall>m \<in> {''CreateTodo'', ''GetTodo'', ''ListTodos'', ''DeleteTodo''}.
        client_uri (sn_ext S) (sn_uri S) (sn_client S) (''/todo.TodoService/'' @ m) = Inr (''/todo.TodoService/'' @ m))"

text \<open>Every request and every reply it may get is within the limits of size.\<close>

definition query_fits :: "('h, 'x, 'o) setting \<Rightarrow> todo_query \<Rightarrow> bool" where
  "query_fits S q \<longleftrightarrow>
     (let fits = \<lambda>data. length data \<le> send_limit (gc_max_encoding (sn_client S)) \<and> length data < 2 ^ 32 \<and>
            length data \<le> DEFAULT_MAX_RECV_MESSAGE_SIZE;
          F = sn_tables S
      in case q of
           CreateQuery r \<Rightarrow> fits (encode_create_request F r)
         | GetQuery r \<Rightarrow> fits (encode_get_request F r)
         | ListQuery r \<Rightarrow> fits (encode_list_request F r)
         | DeleteQuery r \<Rightarrow> fits (encode_delete_request F r))"

definition reply_bytes :: "todo_tables \<Rightarrow> todo_reply \<Rightarrow> bytes" where
  "reply_bytes F m =
     (case m of
        CreateReply r \<Rightarrow> encode_create_response F r
      | GetReply r \<Rightarrow> encode_get_response F r
      | ListReply r \<Rightarrow> encode_list_response F r
      | DeleteReply r \<Rightarrow> encode_delete_response F r)"

definition reply_fits :: "('h, 'x, 'o) setting \<Rightarrow> todo_reply \<Rightarrow> bool" where
  "reply_fits S m \<longleftrightarrow>
     (let data = reply_bytes (sn_tables S) m
      in length data \<le> send_limit None \<and> length data < 2 ^ 32 \<and> length data \<le> recv_limit (gc_max_decoding (sn_client S)))"

subsection \<open>Lemmas\<close>

text \<open>An answer that is right stays right on its way: a status keeps its code, text and details.\<close>

lemma answer_carried:
  fixes res :: "'h status + ('h, 'x, todo_reply) response"
  assumes "once_result X res r" "todo_answer h ev (map_sum id rs_message res)"
  shows "todo_answer h ev (map_sum id rs_message r)"
proof (cases res)
  case (Inl st)
  then obtain st' where "r = Inl st'" "same_status st st'" using assms(1) by (auto simp: once_result_def)
  then have "not_found (Inl st) \<Longrightarrow> not_found (map_sum id rs_message r)" by (auto simp: not_found_def same_status_def)
  then show ?thesis using assms(2)
    by (auto simp: todo_answer_def Inl split: prod.splits todo_query.splits option.splits if_splits)
next
  case (Inr resp)
  then have "map_sum id rs_message r = map_sum id rs_message res" using assms(1) by (auto simp: once_result_def)
  then show ?thesis using assms(2) by simp
qed

lemma answer_status:
  assumes "todo_answer h ev (Inl st)"
  shows "st_code st \<noteq> Ok \<and> utf8_valid (st_message st)"
  using assms
  by (auto simp: todo_answer_def not_found_def utf8_valid_def split: prod.splits todo_query.splits option.splits if_splits)

lemma todo_unary_answers:
  fixes S :: "('h, 'x, 'o) setting" and G :: "('h, 'm, todo_reply) grpc_server"
  assumes S: "setting_laws S"
    and codecs: "codec_laws E (gs_decoder G)" "codec_laws (gs_encoder G) (boxed_decoder wrap D)"
    and G: "G = grpc_server_new ES DS"
    and name: "method_name \<in> {''CreateTodo'', ''GetTodo'', ''ListTodos'', ''DeleteTodo''}"
    and handler: "\<And>r. hq_path r = ''/todo.TodoService/'' @ method_name \<Longrightarrow>
      todo_call (sn_ext S) (sn_tables S) (sn_iter S) uuid now s r = stateful_unary (sn_ext S) G meth s r"
    and msg: "deliverable (sn_ext S) E None (gc_max_encoding (sn_client S)) None m"
    and history: "\<And>req. rq_message req = m \<Longrightarrow> keeps_history (fst (meth s req)) (ev # h) \<and>
      todo_answer h ev (map_sum id rs_message (snd (meth s req)))"
    and replies: "\<And>m. todo_answer h ev (Inr m :: 'h status + todo_reply) \<Longrightarrow>
      deliverable (sn_ext S) ES None None (gc_max_decoding (sn_client S)) m"
  shows "\<exists>s' r. todo_unary S uuid now E wrap D method_name s m = (s', Some r) \<and> keeps_history s' (ev # h) \<and>
    todo_answer h ev (map_sum id rs_message r)"
proof -
  let ?X = "sn_ext S" and ?C = "sn_client S"
  let ?rq = "method_request ?X (sn_put_method S) ''todo.TodoService'' method_name m"
  have laws: "header_laws ?X" "value_laws ?X" "percent_laws ?X" "base64_laws ?X" "compressor_laws ?X"
    and net: "network_laws (sn_carry S)" "1 < sn_polls S" and send: "gc_send ?C = None"
    and env: "\<forall>b. sn_is_end S b \<longrightarrow> b = []" "\<forall>xs. mset (sn_routes S xs) = mset xs"
    and uri: "client_uri ?X (sn_uri S) ?C (''/todo.TodoService/'' @ method_name) = Inr (''/'' @ TODO_NAME @ ''/'' @ method_name)"
    using S name by (auto simp: setting_laws_def TODO_NAME_def)
  have slash: "CHR ''/'' \<notin> set TODO_NAME" by (simp add: TODO_NAME_def)
  have enc: "\<forall>e. gc_send ?C = Some e \<longrightarrow> is_enabled (gs_accept G) e" by (simp add: send)
  have g: "gs_encoder G = ES" "gs_max_decoding G = None" "gs_max_encoding G = None" "negotiated ?C G = None"
    by (simp_all add: G grpc_server_new_def negotiated_def ENCODINGS_def is_enabled_def enabled_default_def)
  have rq: "rq_message ?rq = m" by (simp add: method_request_def Let_def request_new_def)
  have msg': "deliverable ?X E (gc_send ?C) (gc_max_encoding ?C) (gs_max_decoding G) (rq_message ?rq)"
    using msg by (simp add: send g rq)
  have handler': "todo_call ?X (sn_tables S) (sn_iter S) uuid now s r = stateful_unary ?X G meth s r"
    if "hq_path r = ''/'' @ TODO_NAME @ ''/'' @ method_name" for r using handler that by (simp add: TODO_NAME_def)
  have svc: "\<forall>req. rq_message req = rq_message ?rq \<longrightarrow> answerable_once ?X G (negotiated ?C G) (gc_max_decoding ?C) (snd (meth s req))"
  proof (intro allI impI)
    fix req :: "('h, 'x, 'm) request" assume "rq_message req = rq_message ?rq"
    then have "todo_answer h ev (map_sum id rs_message (snd (meth s req)))" using history rq by simp
    then show "answerable_once ?X G (negotiated ?C G) (gc_max_decoding ?C) (snd (meth s req))"
      using answer_status replies by (cases "snd (meth s req)") (simp_all add: answerable_once_def g)
  qed
  obtain req r where "rq_message req = rq_message ?rq"
    and "todo_unary S uuid now E wrap D method_name s m = (fst (meth s req), Some r)" "once_result ?X (snd (meth s req)) r"
    using stateful_service_call [where handler = "todo_call ?X (sn_tables S) (sn_iter S) uuid now" and meth = meth
        and delay = "sn_delay S", OF laws net codecs uri slash enc msg' env handler' svc]
    unfolding todo_unary_def by blast
  then show ?thesis using history [of req] rq answer_carried by (metis (no_types))
qed

lemma fits_deliverable:
  assumes "length (e a) \<le> send_limit mxs" "length (e a) < 2 ^ 32" "length (e a) \<le> recv_limit mxr"
  shows "deliverable X (flatbuffers_encoder e) None mxs mxr a"
    and "sel m = Some a \<Longrightarrow> deliverable X (boxed_encoder X sel (flatbuffers_encoder e)) None mxs mxr m"
  using assms
  by (simp_all add: deliverable_def frame_of_Inr_iff payload_of_def boxed_encoder_def flatbuffers_encoder_def
      flatbuffers_encode_def eb_put_slice_def)

lemma todo_unary_fits:
  fixes S :: "('h, 'x, 'o) setting" and G :: "('h, 'm, todo_reply) grpc_server"
  assumes S: "setting_laws S"
    and codecs: "codec_laws (flatbuffers_encoder e) (gs_decoder G)" "codec_laws (gs_encoder G) (boxed_decoder wrap D)"
    and G: "G = grpc_server_new (boxed_encoder (sn_ext S) sel (flatbuffers_encoder es)) DS"
    and name: "method_name \<in> {''CreateTodo'', ''GetTodo'', ''ListTodos'', ''DeleteTodo''}"
    and handler: "\<And>r. hq_path r = ''/todo.TodoService/'' @ method_name \<Longrightarrow>
      todo_call (sn_ext S) (sn_tables S) (sn_iter S) uuid now s r = stateful_unary (sn_ext S) G meth s r"
    and msg: "length (e m) \<le> send_limit (gc_max_encoding (sn_client S))" "length (e m) < 2 ^ 32"
      "length (e m) \<le> DEFAULT_MAX_RECV_MESSAGE_SIZE"
    and history: "\<And>req. rq_message req = m \<Longrightarrow> keeps_history (fst (meth s req)) (ev # h) \<and>
      todo_answer h ev (map_sum id rs_message (snd (meth s req)))"
    and sel: "\<And>m. todo_answer h ev (Inr m :: 'h status + todo_reply) \<Longrightarrow> \<exists>a. sel m = Some a \<and> reply_bytes (sn_tables S) m = es a"
    and fits: "\<And>m. todo_answer h ev (Inr m :: 'h status + todo_reply) \<Longrightarrow> reply_fits S m"
  shows "\<exists>s' r. todo_unary S uuid now (flatbuffers_encoder e) wrap D method_name s m = (s', Some r) \<and>
    keeps_history s' (ev # h) \<and> todo_answer h ev (map_sum id rs_message r)"
proof (rule todo_unary_answers [OF S codecs G name handler _ history])
  show "deliverable (sn_ext S) (flatbuffers_encoder e) None (gc_max_encoding (sn_client S)) None m"
    using msg by (intro fits_deliverable) (simp_all add: recv_limit_def)
next
  fix m assume a: "todo_answer h ev (Inr m :: 'h status + todo_reply)"
  then obtain a where "sel m = Some a" "reply_bytes (sn_tables S) m = es a" using sel by blast
  with fits [OF a] show "deliverable (sn_ext S) (boxed_encoder (sn_ext S) sel (flatbuffers_encoder es)) None None
      (gc_max_decoding (sn_client S)) m"
    by (intro fits_deliverable) (simp_all add: reply_fits_def Let_def)
qed

text \<open>An answer to a query is a reply of its method, with that method's encoding.\<close>

lemma reply_selected:
  "todo_answer h (uuid, now, CreateQuery rc) (Inr m) \<Longrightarrow> \<exists>a. created m = Some a \<and> reply_bytes F m = encode_create_response F a"
  "todo_answer h (uuid, now, GetQuery rg) (Inr m) \<Longrightarrow> \<exists>a. got m = Some a \<and> reply_bytes F m = encode_get_response F a"
  "todo_answer h (uuid, now, ListQuery rl) (Inr m) \<Longrightarrow> \<exists>a. listed m = Some a \<and> reply_bytes F m = encode_list_response F a"
  "todo_answer h (uuid, now, DeleteQuery rd) (Inr m) \<Longrightarrow> \<exists>a. deleted m = Some a \<and> reply_bytes F m = encode_delete_response F a"
  by (auto simp: todo_answer_def not_found_def reply_bytes_def split: option.splits if_splits)

lemma history_replies:
  assumes "keeps_history s h" "\<And>xs. mset (iter xs) = mset xs"
  shows "rq_message req1 = rc \<Longrightarrow> keeps_history (fst (boxed CreateReply (create_todo X uuid now s req1))) ((uuid, now, CreateQuery rc) # h) \<and>
      todo_answer h (uuid, now, CreateQuery rc) (map_sum id rs_message (snd (boxed CreateReply (create_todo X uuid now s req1))))"
    "rq_message req2 = rg \<Longrightarrow> keeps_history (fst (boxed GetReply (get_todo X s req2))) ((uuid, now, GetQuery rg) # h) \<and>
      todo_answer h (uuid, now, GetQuery rg) (map_sum id rs_message (snd (boxed GetReply (get_todo X s req2))))"
    "rq_message req3 = rl \<Longrightarrow> keeps_history (fst (boxed ListReply (list_todos X iter s req3))) ((uuid, now, ListQuery rl) # h) \<and>
      todo_answer h (uuid, now, ListQuery rl) (map_sum id rs_message (snd (boxed ListReply (list_todos X iter s req3))))"
    "rq_message req4 = rd \<Longrightarrow> keeps_history (fst (boxed DeleteReply (delete_todo X s req4))) ((uuid, now, DeleteQuery rd) # h) \<and>
      todo_answer h (uuid, now, DeleteQuery rd) (map_sum id rs_message (snd (boxed DeleteReply (delete_todo X s req4))))"
  using history_create [OF assms(1)] history_get [OF assms(1)] history_list [OF assms] history_delete [OF assms(1)]
  by (auto simp: fst_boxed)

lemma exchange_answers:
  fixes S :: "('h, 'x, 'o) setting"
  assumes S: "setting_laws S" and h: "keeps_history s h" and q: "query_fits S q"
    and fits: "\<And>m. todo_answer h (uuid, now, q) (Inr m :: 'h status + todo_reply) \<Longrightarrow> reply_fits S m"
  shows "\<exists>s' r. todo_exchange S s (uuid, now, q) = (s', Some r) \<and> keeps_history s' ((uuid, now, q) # h) \<and>
    todo_answer h (uuid, now, q) (map_sum id rs_message r)"
proof -
  let ?X = "sn_ext S" and ?F = "sn_tables S"
  have F: "todo_tables_laws ?F" and iter: "\<And>xs. mset (sn_iter S xs) = mset xs" using S by (simp_all add: setting_laws_def)
  note codecs = todo_codec_laws [OF F, of ?X]
  note step = history_replies [OF h iter, where X = ?X]
  show ?thesis
  proof (cases q)
    case (CreateQuery r)
    show ?thesis
      unfolding todo_exchange_def CreateQuery Let_def prod.case todo_query.case
      by (rule todo_unary_fits [where meth = "\<lambda>s r. boxed CreateReply (create_todo ?X uuid now s r)" and e = "encode_create_request ?F"
            and es = "encode_create_response ?F", OF S codecs(1,2) create_codec_def _ _ _ _ _ step(1) reply_selected(1)])
         (use q fits in \<open>simp_all add: CreateQuery query_fits_def Let_def todo_call_def\<close>)
  next
    case (GetQuery r)
    show ?thesis
      unfolding todo_exchange_def GetQuery Let_def prod.case todo_query.case
      by (rule todo_unary_fits [where meth = "\<lambda>s r. boxed GetReply (get_todo ?X s r)" and e = "encode_get_request ?F"
            and es = "encode_get_response ?F", OF S codecs(3,4) get_codec_def _ _ _ _ _ step(2) reply_selected(2)])
         (use q fits in \<open>simp_all add: GetQuery query_fits_def Let_def todo_call_def\<close>)
  next
    case (ListQuery r)
    show ?thesis
      unfolding todo_exchange_def ListQuery Let_def prod.case todo_query.case
      by (rule todo_unary_fits [where meth = "\<lambda>s r. boxed ListReply (list_todos ?X (sn_iter S) s r)" and e = "encode_list_request ?F"
            and es = "encode_list_response ?F", OF S codecs(5,6) list_codec_def _ _ _ _ _ step(3) reply_selected(3)])
         (use q fits in \<open>simp_all add: ListQuery query_fits_def Let_def todo_call_def\<close>)
  next
    case (DeleteQuery r)
    show ?thesis
      unfolding todo_exchange_def DeleteQuery Let_def prod.case todo_query.case
      by (rule todo_unary_fits [where meth = "\<lambda>s r. boxed DeleteReply (delete_todo ?X s r)" and e = "encode_delete_request ?F"
            and es = "encode_delete_response ?F", OF S codecs(7,8) delete_codec_def _ _ _ _ _ step(4) reply_selected(4)])
         (use q fits in \<open>simp_all add: DeleteQuery query_fits_def Let_def todo_call_def\<close>)
  qed
qed

lemma todo_run_answers:
  fixes S :: "('h, 'x, 'o) setting"
  assumes "setting_laws S" "keeps_history s h"
    and "\<forall>i < length evs. query_fits S (snd (snd (evs ! i))) \<and>
      (\<forall>m. todo_answer (rev (take i evs) @ h) (evs ! i) (Inr m :: 'h status + todo_reply) \<longrightarrow> reply_fits S m)"
  shows "length (todo_run S s evs) = length evs \<and>
    (\<forall>i < length evs. \<exists>r. todo_run S s evs ! i = Some r \<and> todo_answer (rev (take i evs) @ h) (evs ! i) (map_sum id rs_message r))"
  using assms(2,3)
proof (induction evs arbitrary: s h)
  case (Cons ev evs)
  obtain uuid now q where ev: "ev = (uuid, now, q)" by (cases ev)
  have fits: "query_fits S (snd (snd ((ev # evs) ! i))) \<and>
      (\<forall>m. todo_answer (rev (take i (ev # evs)) @ h) ((ev # evs) ! i) (Inr m :: 'h status + todo_reply) \<longrightarrow> reply_fits S m)"
    if "i < Suc (length evs)" for i using Cons.prems(2) that by simp
  have q: "query_fits S q"
    "\<And>m. todo_answer h (uuid, now, q) (Inr m :: 'h status + todo_reply) \<Longrightarrow> reply_fits S m"
    using fits [of 0] by (simp_all add: ev)
  obtain s' r where step: "todo_exchange S s ev = (s', Some r)" "keeps_history s' (ev # h)"
    "todo_answer h ev (map_sum id rs_message r)"
    using exchange_answers [OF assms(1) Cons.prems(1) q] unfolding ev by blast
  have "\<forall>i < length evs. query_fits S (snd (snd (evs ! i))) \<and>
      (\<forall>m. todo_answer (rev (take i evs) @ ev # h) (evs ! i) (Inr m :: 'h status + todo_reply) \<longrightarrow> reply_fits S m)"
    using fits [of "Suc i" for i] by simp
  from Cons.IH [OF step(2) this] step(1,3) show ?case by (simp add: All_less_Suc2 id_def)
qed simp

text \<open>What the client's own methods return of it.\<close>

definition todo_transport ::
  "('h, 'x, 'o) setting \<Rightarrow> string \<Rightarrow> 64 word \<Rightarrow> todos \<Rightarrow> ('h, 'x, 'm) transport" where
  "todo_transport S uuid now s =
     reaching (sn_ext S) (sn_carry S) (sn_polls S) (served (sn_ext S) (sn_is_end S) (sn_routes S)
       (add_service router_new TODO_NAME (as_service (sn_ext S)
         (\<lambda>r. snd (todo_call (sn_ext S) (sn_tables S) (sn_iter S) uuid now s r)))) None None (sn_delay S))"

lemma exchange_client:
  assumes "snd (todo_unary S uuid now E wrap D method_name s m) = Some r"
  shows "\<exists>r'. client_unary (sn_ext S) (sn_uri S) (sn_client S) E D (todo_transport S uuid now s)
      (method_request (sn_ext S) (sn_put_method S) ''todo.TodoService'' method_name m) (''/todo.TodoService/'' @ method_name) = Some r' \<and>
    r = map_sum id (response_map wrap) r'"
  using assms by (auto simp: todo_unary_def stateful_call_def todo_transport_def boxed_client_unary)

lemma map_sum_eq:
  "map_sum f g x = Inr b \<longleftrightarrow> (\<exists>z. x = Inr z \<and> g z = b)" "map_sum f g x = Inl a \<longleftrightarrow> (\<exists>z. x = Inl z \<and> f z = a)"
  "Inr b = map_sum f g x \<longleftrightarrow> (\<exists>z. x = Inr z \<and> g z = b)" "Inl a = map_sum f g x \<longleftrightarrow> (\<exists>z. x = Inl z \<and> f z = a)"
  by (cases x; auto)+

definition event_fits :: "('h, 'x, 'o) setting \<Rightarrow> todo_event list \<Rightarrow> todo_event \<Rightarrow> bool" where
  "event_fits S h ev \<longleftrightarrow> query_fits S (snd (snd ev)) \<and>
     (\<forall>m. todo_answer h ev (Inr m :: 'h status + todo_reply) \<longrightarrow> reply_fits S m)"

lemma exchange_returns:
  fixes S :: "('h, 'x, 'o) setting"
  assumes "setting_laws S" "keeps_history s h" "event_fits S h (uuid, now, q)"
  shows "\<exists>r. snd (todo_exchange S s (uuid, now, q)) = Some r \<and> todo_answer h (uuid, now, q) (map_sum id rs_message r)"
proof -
  have "query_fits S q" "\<And>m. todo_answer h (uuid, now, q) (Inr m :: 'h status + todo_reply) \<Longrightarrow> reply_fits S m"
    using assms(3) by (simp_all add: event_fits_def)
  from exchange_answers [OF assms(1,2) this] show ?thesis by force
qed

lemmas client_returns_simps = todo_exchange_def Let_def client_ready_def todo_answer_def not_found_def key_of_def
  response_map_def map_sum_eq

definition found_or_not :: "todo_event list \<Rightarrow> string \<Rightarrow> 'h status + unit \<Rightarrow> bool" where
  "found_or_not h i r \<longleftrightarrow>
     (if live h i \<noteq> None then r = Inr () else \<exists>st. r = Inl st \<and> st_code st = NotFound \<and> st_message st = ''Todo not found'')"

lemma todo_client_returns:
  fixes S :: "('h, 'x, 'o) setting"
  assumes S: "setting_laws S" and h: "keeps_history s h"
  shows "event_fits S h (uuid, now, CreateQuery \<lparr>cq_title = Some title, cq_description = Some description\<rparr>) \<Longrightarrow>
    fbs_create_todo (sn_ext S) (sn_tables S) (sn_uri S) (sn_client S) (sn_put_method S) (Inr ())
      (todo_transport S uuid now s) title description = Some (Inr uuid)"
    and "event_fits S h (uuid, now, GetQuery \<lparr>gq_id = Some i\<rparr>) \<Longrightarrow>
    \<exists>r. fbs_get_todo (sn_ext S) (sn_tables S) (sn_uri S) (sn_client S) (sn_put_method S) (Inr ())
      (todo_transport S uuid now s) i = Some r \<and> found_or_not h i r"
    and "event_fits S h (uuid, now, ListQuery ListTodosRequestT) \<Longrightarrow>
    fbs_list_todos (sn_ext S) (sn_tables S) (sn_uri S) (sn_client S) (sn_put_method S) (Inr ())
      (todo_transport S uuid now s) = Some (Inr ())"
    and "event_fits S h (uuid, now, DeleteQuery \<lparr>dq_id = Some i\<rparr>) \<Longrightarrow>
    \<exists>r. fbs_delete_todo (sn_ext S) (sn_tables S) (sn_uri S) (sn_client S) (sn_put_method S) (Inr ())
      (todo_transport S uuid now s) i = Some r \<and> found_or_not h i r"
proof -
  note ex = exchange_returns [OF S h]
  show "fbs_create_todo (sn_ext S) (sn_tables S) (sn_uri S) (sn_client S) (sn_put_method S) (Inr ())
      (todo_transport S uuid now s) title description = Some (Inr uuid)"
    if fits: "event_fits S h (uuid, now, CreateQuery \<lparr>cq_title = Some title, cq_description = Some description\<rparr>)"
    using ex [OF fits] by (auto simp: fbs_create_todo_def client_returns_simps made_def dest!: exchange_client split: sum.splits)
  show "\<exists>r. fbs_get_todo (sn_ext S) (sn_tables S) (sn_uri S) (sn_client S) (sn_put_method S) (Inr ())
      (todo_transport S uuid now s) i = Some r \<and> found_or_not h i r"
    if fits: "event_fits S h (uuid, now, GetQuery \<lparr>gq_id = Some i\<rparr>)"
    using ex [OF fits]
    by (auto simp: fbs_get_todo_def client_returns_simps found_or_not_def dest!: exchange_client split: sum.splits option.splits)
  show "fbs_list_todos (sn_ext S) (sn_tables S) (sn_uri S) (sn_client S) (sn_put_method S) (Inr ())
      (todo_transport S uuid now s) = Some (Inr ())"
    if fits: "event_fits S h (uuid, now, ListQuery ListTodosRequestT)"
    using ex [OF fits] by (auto simp: fbs_list_todos_def client_returns_simps dest!: exchange_client split: sum.splits)
  show "\<exists>r. fbs_delete_todo (sn_ext S) (sn_tables S) (sn_uri S) (sn_client S) (sn_put_method S) (Inr ())
      (todo_transport S uuid now s) i = Some r \<and> found_or_not h i r"
    if fits: "event_fits S h (uuid, now, DeleteQuery \<lparr>dq_id = Some i\<rparr>)"
    using ex [OF fits]
    by (auto simp: fbs_delete_todo_def client_returns_simps found_or_not_def dest!: exchange_client split: sum.splits if_splits)
qed

subsection \<open>The property\<close>

text \<open>
  C13: Any sequence of calls of the todo client, through FlatBuffers, the network, the server, the router and the
  hand-written dispatch to the shared map and back: every call is answered, and by what the calls
  before it did. A created todo is returned with its identifier, time and texts; getting an
  identifier returns the todo last created with it, unless one deleted it since, and then
  \<open>NotFound\<close>; the list has each todo that is there exactly once; deleting succeeds exactly when there
  is one. The messages have to be within the limits of size.
\<close>

theorem todo_service_over_the_wire:
  fixes S :: "('h, 'x, 'o) setting"
  assumes "setting_laws S"
    and "\<forall>i < length evs. query_fits S (snd (snd (evs ! i))) \<and>
      (\<forall>m. todo_answer (rev (take i evs)) (evs ! i) (Inr m :: 'h status + todo_reply) \<longrightarrow> reply_fits S m)"
  shows "length (todo_run S [] evs) = length evs \<and>
    (\<forall>i < length evs. \<exists>r. todo_run S [] evs ! i = Some r \<and> todo_answer (rev (take i evs)) (evs ! i) (map_sum id rs_message r))"
proof -
  have "keeps_history [] []" by (simp add: keeps_history_def fun_eq_iff)
  from todo_run_answers [OF assms(1) this, of evs] assms(2) show ?thesis by simp
qed

definition example_setting :: "(alist, bytes list option, unit) setting" where
  "example_setting =
     \<lparr>sn_ext = ref_ext, sn_tables = plain_tables, sn_uri = plain_uri, sn_client = plain_client,
      sn_put_method = (\<lambda>_ x. x), sn_carry = byte_wise, sn_polls = 4, sn_is_end = (\<lambda>b. b = []), sn_routes = rev,
      sn_iter = rev, sn_delay = 3\<rparr>"

lemma example_setting_laws: "setting_laws example_setting"
proof -
  have uri: "client_uri ref_ext plain_uri plain_client p = Inr p" for p
    by (simp add: plain_client_def client_with_origin_def client_uri_def plain_uri_def)
  have enc: "gc_send plain_client = None" by (simp add: plain_client_def client_with_origin_def)
  show ?thesis
    by (simp add: setting_laws_def example_setting_def ref_header_laws ref_value_laws ref_percent_laws ref_base64_laws
        ref_compressor_laws plain_tables_laws byte_wise_network uri enc)
qed

lemma example_limits:
  "gc_send plain_client = None" "gc_max_encoding plain_client = None" "gc_max_decoding plain_client = None"
  by (simp_all add: plain_client_def client_with_origin_def)

lemmas example_sizes = query_fits_def reply_fits_def example_setting_def Let_def reply_bytes_def
  encode_create_request_def encode_get_request_def encode_list_request_def encode_delete_request_def
  encode_create_response_def encode_get_response_def encode_list_response_def encode_delete_response_def
  plain_tables_def plain_table_def wire_args_def wire_pair_def wire_option_def wire_map_def wire_list_def
  wire_text_def wire_bool_def wire_word_def wire_byte_def wire_unit_def todo_args_of_def made_def
  send_limit_def DEFAULT_MAX_SEND_MESSAGE_SIZE_def recv_limit_def DEFAULT_MAX_RECV_MESSAGE_SIZE_def
  example_limits length_concat comp_def sum_list_triv

theorem todo_service_over_the_wire_witness:
  "\<exists>r1 r2. todo_run example_setting []
      [(''u'', 7, CreateQuery \<lparr>cq_title = Some ''t'', cq_description = None\<rparr>),
       (''v'', 8, GetQuery \<lparr>gq_id = Some ''u''\<rparr>),
       (''w'', 9, DeleteQuery \<lparr>dq_id = Some ''u''\<rparr>),
       (''x'', 10, GetQuery \<lparr>gq_id = Some ''u''\<rparr>)] ! 1 = Some (Inr r1) \<and>
    rs_message r1 = GetReply \<lparr>gp_todo = Some (made ''u'' 7 \<lparr>cq_title = Some ''t'', cq_description = None\<rparr>)\<rparr> \<and>
    todo_run example_setting []
      [(''u'', 7, CreateQuery \<lparr>cq_title = Some ''t'', cq_description = None\<rparr>),
       (''v'', 8, GetQuery \<lparr>gq_id = Some ''u''\<rparr>),
       (''w'', 9, DeleteQuery \<lparr>dq_id = Some ''u''\<rparr>),
       (''x'', 10, GetQuery \<lparr>gq_id = Some ''u''\<rparr>)] ! 3 = Some (Inl r2) \<and> st_code r2 = NotFound"
proof -
  let ?evs = "[(''u'', 7, CreateQuery \<lparr>cq_title = Some ''t'', cq_description = None\<rparr>), (''v'', 8, GetQuery \<lparr>gq_id = Some ''u''\<rparr>),
      (''w'', 9, DeleteQuery \<lparr>dq_id = Some ''u''\<rparr>), (''x'', 10, GetQuery \<lparr>gq_id = Some ''u''\<rparr>)] :: todo_event list"
  have "\<forall>i < length ?evs. query_fits example_setting (snd (snd (?evs ! i))) \<and>
      (\<forall>m. todo_answer (rev (take i ?evs)) (?evs ! i) (Inr m :: alist status + todo_reply) \<longrightarrow> reply_fits example_setting m)"
    by (simp add: All_less_Suc2 todo_answer_def not_found_def key_of_def example_sizes)
  from todo_service_over_the_wire [OF example_setting_laws this]
  have run: "\<exists>r. todo_run example_setting [] ?evs ! i = Some r \<and>
      todo_answer (rev (take i ?evs)) (?evs ! i) (map_sum id rs_message r)" if "i < 4" for i
    using that by simp
  obtain ra where ra: "todo_run example_setting [] ?evs ! 1 = Some ra"
    "todo_answer (rev (take 1 ?evs)) (?evs ! 1) (map_sum id rs_message ra)" using run [of 1] by auto
  obtain rb where rb: "todo_run example_setting [] ?evs ! 3 = Some rb"
    "todo_answer (rev (take 3 ?evs)) (?evs ! 3) (map_sum id rs_message rb)" using run [of 3] by auto
  have "\<exists>r1. ra = Inr r1 \<and> rs_message r1 = GetReply \<lparr>gp_todo = Some (made ''u'' 7 \<lparr>cq_title = Some ''t'', cq_description = None\<rparr>)\<rparr>"
    using ra(2) by (cases ra) (simp_all add: todo_answer_def key_of_def)
  moreover have "\<exists>r2. rb = Inl r2 \<and> st_code r2 = NotFound"
    using rb(2) by (cases rb) (simp_all add: todo_answer_def key_of_def not_found_def numeral_3_eq_3)
  ultimately show ?thesis using ra(1) rb(1) by auto
qed

end
