(* ===== verification/Todo_Prost.thy ===== *)
theory Todo_Prost
  imports Todo_Rpc
begin

section \<open>The todo service over prost's messages, and that both services agree\<close>

text \<open>
  \<^verbatim>\<open>benchmarks/bin/prost_todo_server.rs\<close> behind the server generated from its schema, and
  \<^verbatim>\<open>ProstTodoClient\<close> of \<^verbatim>\<open>benchmarks/bin/todo_load_test.rs\<close>, with the whole library
  between them. The generated dispatch and prost's encodings are parameters. The property compares
  it with the FlatBuffers service of \<open>Todo_Rpc\<close>: two clients that make the same calls get the same
  answers, which are those of a map of todos.
\<close>

subsection \<open>The server\<close>

text \<open>The encodings of a method, on both sides, and those of the four methods.\<close>

record ('h, 'q, 'p) method_codec =
  mc_request_encoder :: "('h, 'q) encoder"
  mc_request_decoder :: "('h, 'q) decoder"
  mc_response_encoder :: "('h, 'p) encoder"
  mc_response_decoder :: "('h, 'p) decoder"

definition method_codec_laws :: "('h, 'q, 'p) method_codec \<Rightarrow> bool" where
  "method_codec_laws M \<longleftrightarrow> codec_laws (mc_request_encoder M) (mc_request_decoder M) \<and>
     codec_laws (mc_response_encoder M) (mc_response_decoder M)"

record 'h prost_codecs =
  pc_create :: "('h, string \<times> string, prost_todo option) method_codec"
  pc_get :: "('h, string, prost_todo option) method_codec"
  pc_list :: "('h, unit, prost_todo list) method_codec"
  pc_delete :: "('h, string, unit) method_codec"

text \<open>The response types of the four methods as one.\<close>

datatype prost_reply =
  PCreated "prost_todo option"
| PGot "prost_todo option"
| PListed "prost_todo list"
| PDeleted unit

fun p_created :: "prost_reply \<Rightarrow> prost_todo option option" where
  "p_created (PCreated t) = Some t" | "p_created r = None"

fun p_got :: "prost_reply \<Rightarrow> prost_todo option option" where
  "p_got (PGot t) = Some t" | "p_got r = None"

fun p_listed :: "prost_reply \<Rightarrow> prost_todo list option" where
  "p_listed (PListed ts) = Some ts" | "p_listed r = None"

fun p_deleted :: "prost_reply \<Rightarrow> unit option" where
  "p_deleted (PDeleted u) = Some u" | "p_deleted r = None"

definition prost_method ::
  "('h, 'x) ext \<Rightarrow> ('h, 'q, 'p) method_codec \<Rightarrow> ('n \<Rightarrow> 'p option) \<Rightarrow> ('p \<Rightarrow> 'n)
     \<Rightarrow> ('s \<Rightarrow> ('h, 'x, 'q) request \<Rightarrow> 's \<times> ('h status + ('h, 'x, 'p) response))
     \<Rightarrow> 's \<Rightarrow> ('h, 'x) raw_request \<Rightarrow> 's \<times> ('h, 'x, 'n) grpc_http_response option" where
  "prost_method X M sel wrap meth s req =
     stateful_unary X (grpc_server_new (boxed_encoder X sel (mc_response_encoder M)) (mc_request_decoder M))
       (\<lambda>s r. boxed wrap (meth s r)) s req"

text \<open>The todos, by identifier; \<open>handler\<close> is the generated server's call, and this is what it does.\<close>

type_synonym prost_todos = "(string \<times> prost_todo) list"

definition prost_dispatch ::
  "('h, 'x) ext \<Rightarrow> 'h prost_codecs \<Rightarrow> (prost_todos \<Rightarrow> prost_todos)
     \<Rightarrow> (string \<Rightarrow> 64 word \<Rightarrow> prost_todos \<Rightarrow> ('h, 'x) raw_request \<Rightarrow> prost_todos \<times> ('h, 'x, prost_reply) grpc_http_response option)
     \<Rightarrow> bool" where
  "prost_dispatch X P iter handler \<longleftrightarrow> (\<forall>uuid now s r.
     (hq_path r = ''/todo.TodoService/CreateTodo'' \<longrightarrow>
        handler uuid now s r = prost_method X (pc_create P) p_created PCreated (prost_create_todo X uuid now) s r) \<and>
     (hq_path r = ''/todo.TodoService/GetTodo'' \<longrightarrow>
        handler uuid now s r = prost_method X (pc_get P) p_got PGot (prost_get_todo X) s r) \<and>
     (hq_path r = ''/todo.TodoService/ListTodos'' \<longrightarrow>
        handler uuid now s r = prost_method X (pc_list P) p_listed PListed (prost_list_todos X iter) s r) \<and>
     (hq_path r = ''/todo.TodoService/DeleteTodo'' \<longrightarrow>
        handler uuid now s r = prost_method X (pc_delete P) p_deleted PDeleted (prost_delete_todo X) s r))"

subsection \<open>The client\<close>

text \<open>The four methods of \<^verbatim>\<open>ProstTodoClient\<close>.\<close>

definition ptc_create_todo ::
  "('h, 'x) ext \<Rightarrow> 'h prost_codecs \<Rightarrow> 'o uri_ops \<Rightarrow> 'o grpc_client \<Rightarrow> (grpc_method \<Rightarrow> 'x \<Rightarrow> 'x) \<Rightarrow> 'h err + unit
     \<Rightarrow> ('h, 'x, string \<times> string) transport \<Rightarrow> string \<Rightarrow> string \<Rightarrow> ('h status + string) option" where
  "ptc_create_todo X P U C put_method ready transport title description =
     (let req = method_request X put_method ''todo.TodoService'' ''CreateTodo'' (title, description)
      in case client_ready X ready of
           Inl st \<Rightarrow> Some (Inl st)
         | Inr _ \<Rightarrow>
             map_option (map_sum id (\<lambda>response. case rs_message response of Some t \<Rightarrow> pt_id t | None \<Rightarrow> []))
               (client_unary X U C (mc_request_encoder (pc_create P)) (mc_response_decoder (pc_create P)) transport req
                 ''/todo.TodoService/CreateTodo''))"

definition ptc_get_todo ::
  "('h, 'x) ext \<Rightarrow> 'h prost_codecs \<Rightarrow> 'o uri_ops \<Rightarrow> 'o grpc_client \<Rightarrow> (grpc_method \<Rightarrow> 'x \<Rightarrow> 'x) \<Rightarrow> 'h err + unit
     \<Rightarrow> ('h, 'x, string) transport \<Rightarrow> string \<Rightarrow> ('h status + unit) option" where
  "ptc_get_todo X P U C put_method ready transport i =
     (let req = method_request X put_method ''todo.TodoService'' ''GetTodo'' i
      in case client_ready X ready of
           Inl st \<Rightarrow> Some (Inl st)
         | Inr _ \<Rightarrow> map_option (map_sum id (\<lambda>_. ()))
             (client_unary X U C (mc_request_encoder (pc_get P)) (mc_response_decoder (pc_get P)) transport req
               ''/todo.TodoService/GetTodo''))"

definition ptc_list_todos ::
  "('h, 'x) ext \<Rightarrow> 'h prost_codecs \<Rightarrow> 'o uri_ops \<Rightarrow> 'o grpc_client \<Rightarrow> (grpc_method \<Rightarrow> 'x \<Rightarrow> 'x) \<Rightarrow> 'h err + unit
     \<Rightarrow> ('h, 'x, unit) transport \<Rightarrow> ('h status + unit) option" where
  "ptc_list_todos X P U C put_method ready transport =
     (let req = method_request X put_method ''todo.TodoService'' ''ListTodos'' ()
      in case client_ready X ready of
           Inl st \<Rightarrow> Some (Inl st)
         | Inr _ \<Rightarrow> map_option (map_sum id (\<lambda>_. ()))
             (client_unary X U C (mc_request_encoder (pc_list P)) (mc_response_decoder (pc_list P)) transport req
               ''/todo.TodoService/ListTodos''))"

definition ptc_delete_todo ::
  "('h, 'x) ext \<Rightarrow> 'h prost_codecs \<Rightarrow> 'o uri_ops \<Rightarrow> 'o grpc_client \<Rightarrow> (grpc_method \<Rightarrow> 'x \<Rightarrow> 'x) \<Rightarrow> 'h err + unit
     \<Rightarrow> ('h, 'x, string) transport \<Rightarrow> string \<Rightarrow> ('h status + unit) option" where
  "ptc_delete_todo X P U C put_method ready transport i =
     (let req = method_request X put_method ''todo.TodoService'' ''DeleteTodo'' i
      in case client_ready X ready of
           Inl st \<Rightarrow> Some (Inl st)
         | Inr _ \<Rightarrow> map_option (map_sum id (\<lambda>_. ()))
             (client_unary X U C (mc_request_encoder (pc_delete P)) (mc_response_decoder (pc_delete P)) transport req
               ''/todo.TodoService/DeleteTodo''))"

subsection \<open>Sequences of calls of either client\<close>

datatype todo_command = CreateCommand string string | GetCommand string | ListCommand | DeleteCommand string

type_synonym command_event = "string \<times> 64 word \<times> todo_command"

datatype client_answer = Identifier string | Acknowledged

definition as_event :: "command_event \<Rightarrow> todo_event" where
  "as_event ev = (case ev of (uuid, now, c) \<Rightarrow> (uuid, now, case c of
     CreateCommand t d \<Rightarrow> CreateQuery \<lparr>cq_title = Some t, cq_description = Some d\<rparr>
   | GetCommand i \<Rightarrow> GetQuery \<lparr>gq_id = Some i\<rparr>
   | ListCommand \<Rightarrow> ListQuery ListTodosRequestT
   | DeleteCommand i \<Rightarrow> DeleteQuery \<lparr>dq_id = Some i\<rparr>))"

text \<open>\<open>step\<close> is one call: the server's todos behind it, and what the client's method returns.\<close>

fun client_run :: "('s \<Rightarrow> command_event \<Rightarrow> 's \<times> 'r) \<Rightarrow> 's \<Rightarrow> command_event list \<Rightarrow> 'r list" where
  "client_run step s [] = []"
| "client_run step s (ev # evs) = (case step s ev of (s', r) \<Rightarrow> r # client_run step s' evs)"

definition fbs_step :: "('h, 'x, 'o) setting \<Rightarrow> todos \<Rightarrow> command_event \<Rightarrow> todos \<times> ('h status + client_answer) option" where
  "fbs_step S s ev =
     (let X = sn_ext S; F = sn_tables S; U = sn_uri S; C = sn_client S; put = sn_put_method S
      in (fst (todo_exchange S s (as_event ev)),
        case ev of (uuid, now, c) \<Rightarrow> case c of
          CreateCommand t d \<Rightarrow> map_option (map_sum id Identifier) (fbs_create_todo X F U C put (Inr ()) (todo_transport S uuid now s) t d)
        | GetCommand i \<Rightarrow> map_option (map_sum id (\<lambda>_. Acknowledged)) (fbs_get_todo X F U C put (Inr ()) (todo_transport S uuid now s) i)
        | ListCommand \<Rightarrow> map_option (map_sum id (\<lambda>_. Acknowledged)) (fbs_list_todos X F U C put (Inr ()) (todo_transport S uuid now s))
        | DeleteCommand i \<Rightarrow> map_option (map_sum id (\<lambda>_. Acknowledged)) (fbs_delete_todo X F U C put (Inr ()) (todo_transport S uuid now s) i)))"

record ('h, 'x, 'o) prost_setting =
  ps_ext :: "('h, 'x) ext"
  ps_codecs :: "'h prost_codecs"
  ps_uri :: "'o uri_ops"
  ps_client :: "'o grpc_client"
  ps_put_method :: "grpc_method \<Rightarrow> 'x \<Rightarrow> 'x"
  ps_carry :: "'h body \<Rightarrow> 'h body"
  ps_polls :: nat
  ps_is_end :: "('h, 'h err) raw_body \<Rightarrow> bool"
  ps_routes :: "(string \<times> ('h, 'x, ('h, 'h err) raw_body body_kind body_kind, ('h, prost_reply) encode_body body_kind) service) list
     \<Rightarrow> (string \<times> ('h, 'x, ('h, 'h err) raw_body body_kind body_kind, ('h, prost_reply) encode_body body_kind) service) list"
  ps_iter :: "prost_todos \<Rightarrow> prost_todos"
  ps_handler :: "string \<Rightarrow> 64 word \<Rightarrow> prost_todos \<Rightarrow> ('h, 'x) raw_request \<Rightarrow> prost_todos \<times> ('h, 'x, prost_reply) grpc_http_response option"
  ps_delay :: nat

definition prost_transport :: "('h, 'x, 'o) prost_setting \<Rightarrow> string \<Rightarrow> 64 word \<Rightarrow> prost_todos \<Rightarrow> ('h, 'x, 'm) transport" where
  "prost_transport P uuid now s =
     reaching (ps_ext P) (ps_carry P) (ps_polls P) (served (ps_ext P) (ps_is_end P) (ps_routes P)
       (add_service router_new TODO_NAME (as_service (ps_ext P) (\<lambda>r. snd (ps_handler P uuid now s r)))) None None (ps_delay P))"

text \<open>A call as \<open>stateful_call\<close> has it: the todos behind it, and the response.\<close>

definition prost_exchange ::
  "('h, 'x, 'o) prost_setting \<Rightarrow> string \<Rightarrow> 64 word \<Rightarrow> ('h, 'q, 'p) method_codec \<Rightarrow> string \<Rightarrow> prost_todos \<Rightarrow> 'q
     \<Rightarrow> prost_todos \<times> ('h status + ('h, 'x, 'p) response) option" where
  "prost_exchange P uuid now M method_name s m =
     stateful_call (ps_ext P) (ps_uri P) (ps_client P) (mc_request_encoder M) (mc_response_decoder M) (ps_carry P) (ps_polls P)
       (ps_is_end P) (ps_routes P) TODO_NAME (ps_delay P) (ps_handler P uuid now) s
       (method_request (ps_ext P) (ps_put_method P) ''todo.TodoService'' method_name m) (''/todo.TodoService/'' @ method_name)"

definition prost_step :: "('h, 'x, 'o) prost_setting \<Rightarrow> prost_todos \<Rightarrow> command_event \<Rightarrow> prost_todos \<times> ('h status + client_answer) option" where
  "prost_step P s ev =
     (let X = ps_ext P; K = ps_codecs P; U = ps_uri P; C = ps_client P; put = ps_put_method P
      in case ev of (uuid, now, c) \<Rightarrow> case c of
          CreateCommand t d \<Rightarrow> (fst (prost_exchange P uuid now (pc_create K) ''CreateTodo'' s (t, d)),
            map_option (map_sum id Identifier) (ptc_create_todo X K U C put (Inr ()) (prost_transport P uuid now s) t d))
        | GetCommand i \<Rightarrow> (fst (prost_exchange P uuid now (pc_get K) ''GetTodo'' s i),
            map_option (map_sum id (\<lambda>_. Acknowledged)) (ptc_get_todo X K U C put (Inr ()) (prost_transport P uuid now s) i))
        | ListCommand \<Rightarrow> (fst (prost_exchange P uuid now (pc_list K) ''ListTodos'' s ()),
            map_option (map_sum id (\<lambda>_. Acknowledged)) (ptc_list_todos X K U C put (Inr ()) (prost_transport P uuid now s)))
        | DeleteCommand i \<Rightarrow> (fst (prost_exchange P uuid now (pc_delete K) ''DeleteTodo'' s i),
            map_option (map_sum id (\<lambda>_. Acknowledged)) (ptc_delete_todo X K U C put (Inr ()) (prost_transport P uuid now s) i)))"

subsection \<open>What the property relies on\<close>

definition prost_setting_laws :: "('h, 'x, 'o) prost_setting \<Rightarrow> bool" where
  "prost_setting_laws P \<longleftrightarrow>
     header_laws (ps_ext P) \<and> value_laws (ps_ext P) \<and> percent_laws (ps_ext P) \<and> base64_laws (ps_ext P) \<and>
     compressor_laws (ps_ext P) \<and> method_codec_laws (pc_create (ps_codecs P)) \<and> method_codec_laws (pc_get (ps_codecs P)) \<and>
     method_codec_laws (pc_list (ps_codecs P)) \<and> method_codec_laws (pc_delete (ps_codecs P)) \<and>
     network_laws (ps_carry P) \<and> 1 < ps_polls P \<and> (\<forall>b. ps_is_end P b \<longrightarrow> b = []) \<and>
     (\<forall>xs. mset (ps_routes P xs) = mset xs) \<and> (\<forall>xs. mset (ps_iter P xs) = mset xs) \<and>
     prost_dispatch (ps_ext P) (ps_codecs P) (ps_iter P) (ps_handler P) \<and> gc_send (ps_client P) = None \<and>
     (\<forall>m \<in> {''CreateTodo'', ''GetTodo'', ''ListTodos'', ''DeleteTodo''}.
        client_uri (ps_ext P) (ps_uri P) (ps_client P) (''/todo.TodoService/'' @ m) = Inr (''/todo.TodoService/'' @ m))"

text \<open>A reply as one of the other service, and that a call and its possible replies are within the limits of size.\<close>

definition as_fb :: "prost_reply \<Rightarrow> todo_reply" where
  "as_fb m = (case m of
     PCreated t \<Rightarrow> CreateReply \<lparr>cp_todo = map_option fb_todo t\<rparr>
   | PGot t \<Rightarrow> GetReply \<lparr>gp_todo = map_option fb_todo t\<rparr>
   | PListed ts \<Rightarrow> ListReply \<lparr>lp_todos = map fb_todo ts\<rparr>
   | PDeleted _ \<Rightarrow> DeleteReply DeleteTodoResponseT)"

definition prost_fits :: "('h, 'x, 'o) prost_setting \<Rightarrow> todo_event list \<Rightarrow> command_event \<Rightarrow> bool" where
  "prost_fits P h ev \<longleftrightarrow>
     (let X = ps_ext P; K = ps_codecs P; mxs = gc_max_encoding (ps_client P); mxr = gc_max_decoding (ps_client P)
      in (case snd (snd ev) of
            CreateCommand t d \<Rightarrow> deliverable X (mc_request_encoder (pc_create K)) None mxs None (t, d)
          | GetCommand i \<Rightarrow> deliverable X (mc_request_encoder (pc_get K)) None mxs None i
          | ListCommand \<Rightarrow> deliverable X (mc_request_encoder (pc_list K)) None mxs None ()
          | DeleteCommand i \<Rightarrow> deliverable X (mc_request_encoder (pc_delete K)) None mxs None i) \<and>
         (\<forall>m. todo_answer h (as_event ev) (Inr (as_fb m) :: 'h status + todo_reply) \<longrightarrow> (case m of
            PCreated t \<Rightarrow> deliverable X (mc_response_encoder (pc_create K)) None None mxr t
          | PGot t \<Rightarrow> deliverable X (mc_response_encoder (pc_get K)) None None mxr t
          | PListed ts \<Rightarrow> deliverable X (mc_response_encoder (pc_list K)) None None mxr ts
          | PDeleted u \<Rightarrow> deliverable X (mc_response_encoder (pc_delete K)) None None mxr u)))"

text \<open>What either client's method returns after a history, and when two answers are the same.\<close>

definition command_answer :: "todo_event list \<Rightarrow> command_event \<Rightarrow> 'h status + client_answer \<Rightarrow> bool" where
  "command_answer h ev r \<longleftrightarrow>
     (case ev of (uuid, now, c) \<Rightarrow>
        let found = (\<lambda>i. if live h i \<noteq> None then r = Inr Acknowledged
              else \<exists>st. r = Inl st \<and> st_code st = NotFound \<and> st_message st = ''Todo not found'')
        in case c of
             CreateCommand t d \<Rightarrow> r = Inr (Identifier uuid)
           | GetCommand i \<Rightarrow> found i
           | ListCommand \<Rightarrow> r = Inr Acknowledged
           | DeleteCommand i \<Rightarrow> found i)"

definition same_answer :: "'h status + 'a \<Rightarrow> 'k status + 'a \<Rightarrow> bool" where
  "same_answer r r' \<longleftrightarrow>
     (case (r, r') of
        (Inr a, Inr b) \<Rightarrow> a = b
      | (Inl st, Inl st') \<Rightarrow> st_code st = st_code st' \<and> st_message st = st_message st'
      | _ \<Rightarrow> False)"

subsection \<open>Lemmas\<close>

lemma boxed_deliverable:
  assumes "sel (wrap a) = Some a"
  shows "deliverable X (boxed_encoder X sel E) cenc mxs mxr (wrap a) = deliverable X E cenc mxs mxr a"
proof -
  have "ec_encode (boxed_encoder X sel E) (wrap a) = ec_encode E a" "ec_settings (boxed_encoder X sel E) = ec_settings E"
    using assms by (simp_all add: boxed_encoder_def)
  then show ?thesis by (simp add: deliverable_def frame_of_def payload_of_def encode_item_def)
qed

lemma once_result_boxed:
  assumes "once_result X (map_sum id (response_map wrap) res) (map_sum id (response_map wrap) r)" "inj wrap"
  shows "once_result X res r"
  using assms by (cases res; cases r) (auto simp: once_result_def response_map_def dest: injD)

lemma prost_exchange_answers:
  fixes P :: "('h, 'x, 'o) prost_setting" and M :: "('h, 'q, 'p) method_codec"
  assumes P: "prost_setting_laws P" and M: "method_codec_laws M"
    and sel: "\<And>m a. sel m = Some a \<Longrightarrow> wrap a = m" "\<And>a. sel (wrap a) = Some a"
    and name: "method_name \<in> {''CreateTodo'', ''GetTodo'', ''ListTodos'', ''DeleteTodo''}"
    and handler: "\<And>r. hq_path r = ''/todo.TodoService/'' @ method_name \<Longrightarrow>
      ps_handler P uuid now s r = prost_method (ps_ext P) M sel wrap meth s r"
    and msg: "deliverable (ps_ext P) (mc_request_encoder M) None (gc_max_encoding (ps_client P)) None m"
    and ok: "\<And>req. rq_message req = m \<Longrightarrow> (case snd (meth s req) of
        Inl st \<Rightarrow> st_code st \<noteq> Ok \<and> utf8_valid (st_message st)
      | Inr resp \<Rightarrow> deliverable (ps_ext P) (mc_response_encoder M) None None (gc_max_decoding (ps_client P)) (rs_message resp))"
  shows "\<exists>req r. rq_message req = m \<and> prost_exchange P uuid now M method_name s m = (fst (meth s req), Some r) \<and>
    once_result (ps_ext P) (snd (meth s req)) r"
proof -
  let ?X = "ps_ext P" and ?C = "ps_client P"
  let ?G = "grpc_server_new (boxed_encoder ?X sel (mc_response_encoder M)) (mc_request_decoder M)"
  let ?rq = "method_request ?X (ps_put_method P) ''todo.TodoService'' method_name m"
  let ?meth = "\<lambda>s r. boxed wrap (meth s r)"
  have laws: "header_laws ?X" "value_laws ?X" "percent_laws ?X" "base64_laws ?X" "compressor_laws ?X"
    and net: "network_laws (ps_carry P)" "1 < ps_polls P" and send: "gc_send ?C = None"
    and env: "\<forall>b. ps_is_end P b \<longrightarrow> b = []" "\<forall>xs. mset (ps_routes P xs) = mset xs"
    and uri: "client_uri ?X (ps_uri P) ?C (''/todo.TodoService/'' @ method_name) = Inr (''/'' @ TODO_NAME @ ''/'' @ method_name)"
    using P name by (auto simp: prost_setting_laws_def TODO_NAME_def)
  have codecs: "codec_laws (mc_request_encoder M) (gs_decoder ?G)"
    "codec_laws (gs_encoder ?G) (boxed_decoder wrap (mc_response_decoder M))"
    using M sel(1) by (simp_all add: method_codec_laws_def plain_server boxed_codec_laws)
  have slash: "CHR ''/'' \<notin> set TODO_NAME" by (simp add: TODO_NAME_def)
  have enc: "\<forall>e. gc_send ?C = Some e \<longrightarrow> is_enabled (gs_accept ?G) e" by (simp add: send)
  have msg': "deliverable ?X (mc_request_encoder M) (gc_send ?C) (gc_max_encoding ?C) (gs_max_decoding ?G) (rq_message ?rq)"
    using msg by (simp add: send plain_server)
  have handler': "ps_handler P uuid now s r = stateful_unary ?X ?G ?meth s r" if "hq_path r = ''/'' @ TODO_NAME @ ''/'' @ method_name" for r
    using handler that by (simp add: TODO_NAME_def prost_method_def)
  have svc: "\<forall>req. rq_message req = rq_message ?rq \<longrightarrow> answerable_once ?X ?G (negotiated ?C ?G) (gc_max_decoding ?C) (snd (?meth s req))"
    using ok by (force simp: plain_server boxed_def answerable_once_def response_map_def boxed_deliverable sel(2) split: sum.splits)
  obtain req r where req: "rq_message req = m"
    and r: "stateful_call ?X (ps_uri P) ?C (mc_request_encoder M) (boxed_decoder wrap (mc_response_decoder M)) (ps_carry P) (ps_polls P)
       (ps_is_end P) (ps_routes P) TODO_NAME (ps_delay P) (ps_handler P uuid now) s ?rq (''/todo.TodoService/'' @ method_name)
      = (fst (meth s req), Some r)" "once_result ?X (snd (?meth s req)) r"
    using stateful_service_call [where handler = "ps_handler P uuid now" and meth = ?meth and delay = "ps_delay P",
        OF laws net codecs uri slash enc msg' env handler' svc] by (auto simp: fst_boxed)
  from r(1) obtain r' where "prost_exchange P uuid now M method_name s m = (fst (meth s req), Some r')" "r = map_sum id (response_map wrap) r'"
    by (auto simp: stateful_call_def prost_exchange_def boxed_client_unary)
  moreover have "inj wrap" by (metis injI option.inject sel(2))
  ultimately show ?thesis using req r(2) once_result_boxed [of ?X wrap "snd (meth s req)"] by (auto simp: boxed_def)
qed

text \<open>What a method does to the todos, and answers, in terms of the other service.\<close>

lemma prost_history:
  fixes s :: prost_todos
  assumes h: "keeps_history (fb_todos s) h" and iter: "\<And>xs. mset (iter xs) = mset xs"
  shows "rq_message rc = (t, d) \<Longrightarrow>
      keeps_history (fb_todos (fst (prost_create_todo X uuid now s rc))) (as_event (uuid, now, CreateCommand t d) # h) \<and>
      todo_answer h (as_event (uuid, now, CreateCommand t d)) (map_sum id (\<lambda>r. as_fb (PCreated (rs_message r))) (snd (prost_create_todo X uuid now s rc)))"
    and "rq_message rg = i \<Longrightarrow>
      keeps_history (fb_todos (fst (prost_get_todo X s rg))) (as_event (uuid, now, GetCommand i) # h) \<and>
      todo_answer h (as_event (uuid, now, GetCommand i)) (map_sum id (\<lambda>r. as_fb (PGot (rs_message r))) (snd (prost_get_todo X s rg)))"
    and "keeps_history (fb_todos (fst (prost_list_todos X iter s rl))) (as_event (uuid, now, ListCommand) # h) \<and>
      todo_answer h (as_event (uuid, now, ListCommand)) (map_sum id (\<lambda>r. as_fb (PListed (rs_message r))) (snd (prost_list_todos X iter s rl)))"
    and "rq_message rd = i \<Longrightarrow>
      keeps_history (fb_todos (fst (prost_delete_todo X s rd))) (as_event (uuid, now, DeleteCommand i) # h) \<and>
      todo_answer h (as_event (uuid, now, DeleteCommand i)) (map_sum id (\<lambda>r. as_fb (PDeleted (rs_message r))) (snd (prost_delete_todo X s rd)))"
proof -
  define fb_iter where "fb_iter xs = (if xs = fb_todos s then fb_todos (iter s) else xs)" for xs
  have "mset (fb_todos (iter s)) = mset (fb_todos s)" by (simp add: fb_todos_def iter)
  then have fi: "\<And>xs. mset (fb_iter xs) = mset xs" by (simp add: fb_iter_def)
  have agree: "fb_iter (fb_todos s) = fb_todos (iter s)" by (simp add: fb_iter_def)
  note methods = prost_methods_agree [where X = X and s = s and iter = iter and fb_iter = fb_iter, OF agree]
  note replies = history_replies [OF h fi, where X = X and uuid = uuid and now = now]
  note simps = as_event_def as_fb_def boxed_def request_map_def response_map_def sum.map_comp comp_def id_def
  show "rq_message rc = (t, d) \<Longrightarrow>
      keeps_history (fb_todos (fst (prost_create_todo X uuid now s rc))) (as_event (uuid, now, CreateCommand t d) # h) \<and>
      todo_answer h (as_event (uuid, now, CreateCommand t d)) (map_sum id (\<lambda>r. as_fb (PCreated (rs_message r))) (snd (prost_create_todo X uuid now s rc)))"
    using replies(1) [OF refl, of "request_map (\<lambda>(t, d). \<lparr>cq_title = Some t, cq_description = Some d\<rparr>) rc"]
    unfolding methods(1) by (simp add: simps)
  show "rq_message rg = i \<Longrightarrow>
      keeps_history (fb_todos (fst (prost_get_todo X s rg))) (as_event (uuid, now, GetCommand i) # h) \<and>
      todo_answer h (as_event (uuid, now, GetCommand i)) (map_sum id (\<lambda>r. as_fb (PGot (rs_message r))) (snd (prost_get_todo X s rg)))"
    using replies(2) [OF refl, of "request_map (\<lambda>i. \<lparr>gq_id = Some i\<rparr>) rg"] unfolding methods(2) by (simp add: simps)
  show "keeps_history (fb_todos (fst (prost_list_todos X iter s rl))) (as_event (uuid, now, ListCommand) # h) \<and>
      todo_answer h (as_event (uuid, now, ListCommand)) (map_sum id (\<lambda>r. as_fb (PListed (rs_message r))) (snd (prost_list_todos X iter s rl)))"
    using replies(3) [OF refl, of "request_map (\<lambda>_. ListTodosRequestT) rl"] unfolding methods(3) by (simp add: simps)
  show "rq_message rd = i \<Longrightarrow>
      keeps_history (fb_todos (fst (prost_delete_todo X s rd))) (as_event (uuid, now, DeleteCommand i) # h) \<and>
      todo_answer h (as_event (uuid, now, DeleteCommand i)) (map_sum id (\<lambda>r. as_fb (PDeleted (rs_message r))) (snd (prost_delete_todo X s rd)))"
    using replies(4) [OF refl, of "request_map (\<lambda>i. \<lparr>dq_id = Some i\<rparr>) rd"] unfolding methods(4) by (simp add: simps)
qed

text \<open>One call of either client, in a state with a history.\<close>

lemma fbs_step_answers:
  fixes S :: "('h, 'x, 'o) setting"
  assumes S: "setting_laws S" and h: "keeps_history s h" and fits: "event_fits S h (as_event ev)"
  shows "\<exists>s' r. fbs_step S s ev = (s', Some r) \<and> keeps_history s' (as_event ev # h) \<and> command_answer h ev r"
proof -
  obtain uuid now c where ev: "ev = (uuid, now, c)" by (cases ev)
  obtain q where q: "as_event ev = (uuid, now, q)" by (simp add: as_event_def ev)
  have "query_fits S q" "\<And>m. todo_answer h (uuid, now, q) (Inr m :: 'h status + todo_reply) \<Longrightarrow> reply_fits S m"
    using fits by (simp_all add: event_fits_def q)
  then have keeps: "keeps_history (fst (todo_exchange S s (as_event ev))) (as_event ev # h)"
    using exchange_answers [OF S h] unfolding q by force
  note returns = todo_client_returns [OF S h, where uuid = uuid and now = now]
  have "\<exists>r. snd (fbs_step S s ev) = Some r \<and> command_answer h ev r"
    using fits returns
    by (cases c) (fastforce simp: fbs_step_def ev as_event_def command_answer_def found_or_not_def Let_def split: if_splits)+
  then show ?thesis using keeps by (cases "fbs_step S s ev") (auto simp: fbs_step_def Let_def)
qed

text \<open>The statuses of the methods can be sent, and their replies fit.\<close>

lemma prost_reply_ok:
  fixes res :: "'h status + ('h, 'x, 'p) response"
  assumes "todo_answer h (as_event ev) (map_sum id (\<lambda>r. as_fb (wrap (rs_message r))) res)"
    and "\<And>a. todo_answer h (as_event ev) (Inr (as_fb (wrap a)) :: 'h status + todo_reply) \<Longrightarrow> Q a"
  shows "case res of Inl st \<Rightarrow> st_code st \<noteq> Ok \<and> utf8_valid (st_message st) | Inr resp \<Rightarrow> Q (rs_message resp)"
  using assms answer_status [of h "as_event ev"] by (cases res) auto

lemma prost_client_call:
  fixes P :: "('h, 'x, 'o) prost_setting"
  assumes "prost_exchange P uuid now M method_name s m = (s', Some r)"
  shows "client_unary (ps_ext P) (ps_uri P) (ps_client P) (mc_request_encoder M) (mc_response_decoder M) (prost_transport P uuid now s)
      (method_request (ps_ext P) (ps_put_method P) ''todo.TodoService'' method_name m) (''/todo.TodoService/'' @ method_name) = Some r"
  using assms by (simp add: prost_exchange_def stateful_call_def prost_transport_def)

lemma prost_method_answers:
  fixes P :: "('h, 'x, 'o) prost_setting" and M :: "('h, 'q, 'p) method_codec"
  assumes P: "prost_setting_laws P" and M: "method_codec_laws M"
    and sel: "\<And>m a. sel m = Some a \<Longrightarrow> wrap a = m" "\<And>a. sel (wrap a) = Some a"
    and name: "method_name \<in> {''CreateTodo'', ''GetTodo'', ''ListTodos'', ''DeleteTodo''}"
    and handler: "\<And>r. hq_path r = ''/todo.TodoService/'' @ method_name \<Longrightarrow>
      ps_handler P uuid now s r = prost_method (ps_ext P) M sel wrap meth s r"
    and msg: "deliverable (ps_ext P) (mc_request_encoder M) None (gc_max_encoding (ps_client P)) None m"
    and hist: "\<And>req. rq_message req = m \<Longrightarrow> keeps_history (fb_todos (fst (meth s req))) (as_event ev # h) \<and>
      todo_answer h (as_event ev) (map_sum id (\<lambda>r. as_fb (wrap (rs_message r))) (snd (meth s req)))"
    and fits: "\<And>a. todo_answer h (as_event ev) (Inr (as_fb (wrap a)) :: 'h status + todo_reply) \<Longrightarrow>
      deliverable (ps_ext P) (mc_response_encoder M) None None (gc_max_decoding (ps_client P)) a"
  shows "\<exists>s' r. prost_exchange P uuid now M method_name s m = (s', Some r) \<and> keeps_history (fb_todos s') (as_event ev # h) \<and>
    todo_answer h (as_event ev) (map_sum id (\<lambda>r. as_fb (wrap (rs_message r))) r)"
proof -
  have ok: "case snd (meth s req) of Inl st \<Rightarrow> st_code st \<noteq> Ok \<and> utf8_valid (st_message st)
      | Inr resp \<Rightarrow> deliverable (ps_ext P) (mc_response_encoder M) None None (gc_max_decoding (ps_client P)) (rs_message resp)"
    if "rq_message req = m" for req :: "('h, 'x, 'q) request"
    by (rule prost_reply_ok [where wrap = wrap, OF conjunct2 [OF hist [OF that]] fits])
  obtain req r where req: "rq_message req = m"
    and r: "prost_exchange P uuid now M method_name s m = (fst (meth s req), Some r)" "once_result (ps_ext P) (snd (meth s req)) r"
    using prost_exchange_answers [where meth = meth and wrap = wrap and sel = sel, OF P M sel name handler msg ok] by blast
  let ?f = "map_sum id (response_map (\<lambda>a. as_fb (wrap a)))"
  have "once_result (ps_ext P) (?f (snd (meth s req))) (?f r)"
    using r(2) by (cases "snd (meth s req)"; cases r) (auto simp: once_result_def response_map_def)
  moreover have same: "map_sum id rs_message (?f x) = map_sum id (\<lambda>r. as_fb (wrap (rs_message r))) x" for x :: "'h status + ('h, 'x, 'p) response"
    by (cases x) (simp_all add: response_map_def)
  ultimately have "todo_answer h (as_event ev) (map_sum id (\<lambda>r. as_fb (wrap (rs_message r))) r)"
    using answer_carried [of "ps_ext P" "?f (snd (meth s req))" "?f r" h "as_event ev"] hist [OF req] unfolding same by blast
  with hist [OF req] r(1) show ?thesis by blast
qed

text \<open>What the client makes of a right answer.\<close>

lemma prost_answers_read:
  "todo_answer h (as_event (uuid, now, CreateCommand t d)) (map_sum id (\<lambda>r. as_fb (PCreated (rs_message r))) r1) \<Longrightarrow>
    command_answer h (uuid, now, CreateCommand t d)
      (map_sum id (\<lambda>resp. Identifier (case rs_message resp of Some t \<Rightarrow> pt_id t | None \<Rightarrow> [])) r1)"
  "todo_answer h (as_event (uuid, now, GetCommand i)) (map_sum id (\<lambda>r. as_fb (PGot (rs_message r))) r2) \<Longrightarrow>
    command_answer h (uuid, now, GetCommand i) (map_sum id (\<lambda>_. Acknowledged) r2)"
  "todo_answer h (as_event (uuid, now, ListCommand)) (map_sum id (\<lambda>r. as_fb (PListed (rs_message r))) r3) \<Longrightarrow>
    command_answer h (uuid, now, ListCommand) (map_sum id (\<lambda>_. Acknowledged) r3)"
  "todo_answer h (as_event (uuid, now, DeleteCommand i)) (map_sum id (\<lambda>r. as_fb (PDeleted (rs_message r))) r4) \<Longrightarrow>
    command_answer h (uuid, now, DeleteCommand i) (map_sum id (\<lambda>_. Acknowledged) r4)"
  by (cases r1; cases r2; cases r3; cases r4; auto simp: todo_answer_def as_event_def as_fb_def command_answer_def not_found_def
      key_of_def made_def fb_todo_def split: option.splits if_splits)+

lemma prost_exchanges:
  fixes P :: "('h, 'x, 'o) prost_setting"
  assumes P: "prost_setting_laws P" and h: "keeps_history (fb_todos s) h"
  shows "prost_fits P h (uuid, now, CreateCommand t d) \<Longrightarrow>
      \<exists>s' r. prost_exchange P uuid now (pc_create (ps_codecs P)) ''CreateTodo'' s (t, d) = (s', Some r) \<and>
      keeps_history (fb_todos s') (as_event (uuid, now, CreateCommand t d) # h) \<and>
      todo_answer h (as_event (uuid, now, CreateCommand t d)) (map_sum id (\<lambda>r. as_fb (PCreated (rs_message r))) r)"
    and "prost_fits P h (uuid, now, GetCommand i) \<Longrightarrow>
      \<exists>s' r. prost_exchange P uuid now (pc_get (ps_codecs P)) ''GetTodo'' s i = (s', Some r) \<and>
      keeps_history (fb_todos s') (as_event (uuid, now, GetCommand i) # h) \<and>
      todo_answer h (as_event (uuid, now, GetCommand i)) (map_sum id (\<lambda>r. as_fb (PGot (rs_message r))) r)"
    and "prost_fits P h (uuid, now, ListCommand) \<Longrightarrow>
      \<exists>s' r. prost_exchange P uuid now (pc_list (ps_codecs P)) ''ListTodos'' s () = (s', Some r) \<and>
      keeps_history (fb_todos s') (as_event (uuid, now, ListCommand) # h) \<and>
      todo_answer h (as_event (uuid, now, ListCommand)) (map_sum id (\<lambda>r. as_fb (PListed (rs_message r))) r)"
    and "prost_fits P h (uuid, now, DeleteCommand i) \<Longrightarrow>
      \<exists>s' r. prost_exchange P uuid now (pc_delete (ps_codecs P)) ''DeleteTodo'' s i = (s', Some r) \<and>
      keeps_history (fb_todos s') (as_event (uuid, now, DeleteCommand i) # h) \<and>
      todo_answer h (as_event (uuid, now, DeleteCommand i)) (map_sum id (\<lambda>r. as_fb (PDeleted (rs_message r))) r)"
proof -
  let ?X = "ps_ext P" and ?K = "ps_codecs P"
  have laws: "method_codec_laws (pc_create ?K)" "method_codec_laws (pc_get ?K)" "method_codec_laws (pc_list ?K)"
      "method_codec_laws (pc_delete ?K)" and iter: "\<And>xs. mset (ps_iter P xs) = mset xs"
    and dispatch: "prost_dispatch ?X ?K (ps_iter P) (ps_handler P)"
    using P by (simp_all add: prost_setting_laws_def)
  have sel: "p_created m = Some a1 \<Longrightarrow> PCreated a1 = m" "p_got m = Some a1 \<Longrightarrow> PGot a1 = m"
    "p_listed m = Some a3 \<Longrightarrow> PListed a3 = m" "p_deleted m = Some a4 \<Longrightarrow> PDeleted a4 = m" for m a1 a3 a4
    by (cases m; simp)+
  note hist = prost_history [OF h iter, where X = ?X]
  note given = prost_fits_def Let_def dispatch [unfolded prost_dispatch_def]
  show "\<exists>s' r. prost_exchange P uuid now (pc_create ?K) ''CreateTodo'' s (t, d) = (s', Some r) \<and>
      keeps_history (fb_todos s') (as_event (uuid, now, CreateCommand t d) # h) \<and>
      todo_answer h (as_event (uuid, now, CreateCommand t d)) (map_sum id (\<lambda>r. as_fb (PCreated (rs_message r))) r)"
    if fits: "prost_fits P h (uuid, now, CreateCommand t d)"
    by (rule prost_method_answers [where sel = p_created and wrap = PCreated and meth = "prost_create_todo ?X uuid now",
          OF P laws(1) sel(1) _ _ _ _ hist(1)]) (use fits in \<open>auto simp: given\<close>)
  show "\<exists>s' r. prost_exchange P uuid now (pc_get ?K) ''GetTodo'' s i = (s', Some r) \<and>
      keeps_history (fb_todos s') (as_event (uuid, now, GetCommand i) # h) \<and>
      todo_answer h (as_event (uuid, now, GetCommand i)) (map_sum id (\<lambda>r. as_fb (PGot (rs_message r))) r)"
    if fits: "prost_fits P h (uuid, now, GetCommand i)"
    by (rule prost_method_answers [where sel = p_got and wrap = PGot and meth = "prost_get_todo ?X",
          OF P laws(2) sel(2) _ _ _ _ hist(2)]) (use fits in \<open>auto simp: given\<close>)
  show "\<exists>s' r. prost_exchange P uuid now (pc_list ?K) ''ListTodos'' s () = (s', Some r) \<and>
      keeps_history (fb_todos s') (as_event (uuid, now, ListCommand) # h) \<and>
      todo_answer h (as_event (uuid, now, ListCommand)) (map_sum id (\<lambda>r. as_fb (PListed (rs_message r))) r)"
    if fits: "prost_fits P h (uuid, now, ListCommand)"
    by (rule prost_method_answers [where sel = p_listed and wrap = PListed and meth = "prost_list_todos ?X (ps_iter P)",
          OF P laws(3) sel(3) _ _ _ _ hist(3)]) (use fits in \<open>auto simp: given\<close>)
  show "\<exists>s' r. prost_exchange P uuid now (pc_delete ?K) ''DeleteTodo'' s i = (s', Some r) \<and>
      keeps_history (fb_todos s') (as_event (uuid, now, DeleteCommand i) # h) \<and>
      todo_answer h (as_event (uuid, now, DeleteCommand i)) (map_sum id (\<lambda>r. as_fb (PDeleted (rs_message r))) r)"
    if fits: "prost_fits P h (uuid, now, DeleteCommand i)"
    by (rule prost_method_answers [where sel = p_deleted and wrap = PDeleted and meth = "prost_delete_todo ?X",
          OF P laws(4) sel(4) _ _ _ _ hist(4)]) (use fits in \<open>auto simp: given\<close>)
qed

lemma prost_step_answers:
  fixes P :: "('h, 'x, 'o) prost_setting"
  assumes P: "prost_setting_laws P" and h: "keeps_history (fb_todos s) h" and fits: "prost_fits P h ev"
  shows "\<exists>s' r. prost_step P s ev = (s', Some r) \<and> keeps_history (fb_todos s') (as_event ev # h) \<and> command_answer h ev r"
proof -
  obtain uuid now c where ev: "ev = (uuid, now, c)" by (cases ev)
  note simps = ev prost_step_def Let_def client_ready_def option.map_comp sum.map_comp comp_def id_def
  show ?thesis
  proof (cases c)
    case (CreateCommand t d)
    from prost_exchanges(1) [OF P h fits [unfolded ev CreateCommand]] show ?thesis
      using prost_client_call prost_answers_read(1) by (fastforce simp: CreateCommand simps ptc_create_todo_def)
  next
    case (GetCommand i)
    from prost_exchanges(2) [OF P h fits [unfolded ev GetCommand]] show ?thesis
      using prost_client_call prost_answers_read(2) by (fastforce simp: GetCommand simps ptc_get_todo_def)
  next
    case ListCommand
    from prost_exchanges(3) [OF P h fits [unfolded ev ListCommand]] show ?thesis
      using prost_client_call prost_answers_read(3) by (fastforce simp: ListCommand simps ptc_list_todos_def)
  next
    case (DeleteCommand i)
    from prost_exchanges(4) [OF P h fits [unfolded ev DeleteCommand]] show ?thesis
      using prost_client_call prost_answers_read(4) by (fastforce simp: DeleteCommand simps ptc_delete_todo_def)
  qed
qed

text \<open>A run whose every call keeps an invariant and answers as the history says.\<close>

lemma client_run_answers:
  assumes step: "\<And>s h ev. keep s h \<Longrightarrow> fits h ev \<Longrightarrow>
      \<exists>s' r. step s ev = (s', Some r) \<and> keep s' (as_event ev # h) \<and> answer h ev r"
    and "keep s h" "\<forall>i < length evs. fits (rev (map as_event (take i evs)) @ h) (evs ! i)"
  shows "length (client_run step s evs) = length evs \<and>
    (\<forall>i < length evs. \<exists>r. client_run step s evs ! i = Some r \<and> answer (rev (map as_event (take i evs)) @ h) (evs ! i) r)"
  using assms(2,3)
proof (induction evs arbitrary: s h)
  case (Cons ev evs)
  have fits: "fits (rev (map as_event (take i (ev # evs))) @ h) ((ev # evs) ! i)" if "i < Suc (length evs)" for i
    using Cons.prems(2) that by simp
  obtain s' r where s': "step s ev = (s', Some r)" "keep s' (as_event ev # h)" "answer h ev r"
    using step [OF Cons.prems(1), of ev] fits [of 0] by fastforce
  have "\<forall>i < length evs. fits (rev (map as_event (take i evs)) @ as_event ev # h) (evs ! i)"
    using fits [of "Suc i" for i] by simp
  from Cons.IH [OF s'(2) this] s'(1,3) show ?case by (simp add: All_less_Suc2)
qed simp

subsection \<open>The property\<close>

text \<open>
  C14: The two todo services are one to their clients. Any sequence of calls, made by the FlatBuffers
  client to the hand-written server and by the prost client to the generated one, through codec,
  network, server, router and dispatch, with the same identifiers and times given, is answered alike
  by both, call by call: with the same identifier, success, or status. The answers are those of a map
  of todos: creating returns the new identifier, getting and deleting succeed exactly for a todo that
  is there, listing always. The messages have to be within the limits of size.
\<close>

theorem todo_clients_agree:
  fixes S :: "('h, 'x, 'o) setting" and P :: "('k, 'y, 'p) prost_setting"
  assumes "setting_laws S" "prost_setting_laws P"
    and "\<forall>i < length evs. event_fits S (rev (map as_event (take i evs))) (as_event (evs ! i)) \<and>
      prost_fits P (rev (map as_event (take i evs))) (evs ! i)"
  shows "length (client_run (fbs_step S) [] evs) = length evs \<and> length (client_run (prost_step P) [] evs) = length evs \<and>
    (\<forall>i < length evs. \<exists>r r'. client_run (fbs_step S) [] evs ! i = Some r \<and> client_run (prost_step P) [] evs ! i = Some r' \<and>
      same_answer r r' \<and> command_answer (rev (map as_event (take i evs))) (evs ! i) r)"
proof -
  have start: "keeps_history [] []" "keeps_history (fb_todos []) []"
    by (simp_all add: keeps_history_def fb_todos_def fun_eq_iff)
  have fbs: "length (client_run (fbs_step S) [] evs) = length evs \<and> (\<forall>i < length evs. \<exists>r.
      client_run (fbs_step S) [] evs ! i = Some r \<and> command_answer (rev (map as_event (take i evs)) @ []) (evs ! i) r)"
    by (rule client_run_answers [where keep = keeps_history and fits = "\<lambda>h ev. event_fits S h (as_event ev)"])
       (use fbs_step_answers [OF assms(1)] start(1) assms(3) in auto)
  have prost: "length (client_run (prost_step P) [] evs) = length evs \<and> (\<forall>i < length evs. \<exists>r.
      client_run (prost_step P) [] evs ! i = Some r \<and> command_answer (rev (map as_event (take i evs)) @ []) (evs ! i) r)"
    by (rule client_run_answers [where keep = "\<lambda>s. keeps_history (fb_todos s)" and fits = "prost_fits P"])
       (use prost_step_answers [OF assms(2)] start(2) assms(3) in auto)
  have "same_answer r r'" if "command_answer h ev r" "command_answer h ev r'"
    for h ev and r :: "'h status + client_answer" and r' :: "'k status + client_answer"
    using that by (auto simp: command_answer_def same_answer_def Let_def split: prod.splits todo_command.splits if_splits)
  with fbs prost show ?thesis by (metis append_Nil2)
qed

subsection \<open>An example\<close>

definition wire_todo :: "prost_todo wire_format" where
  "wire_todo = wire_map (\<lambda>t. (pt_id t, pt_title t, pt_description t, pt_completed t, pt_created_at t))
     (\<lambda>(i, t, d, c, n). \<lparr>pt_id = i, pt_title = t, pt_description = d, pt_completed = c, pt_created_at = n\<rparr>)
     (wire_pair wire_text (wire_pair wire_text (wire_pair wire_text (wire_pair wire_bool wire_word))))"

definition wire_method :: "'q wire_format \<Rightarrow> 'p wire_format \<Rightarrow> (alist, 'q, 'p) method_codec" where
  "wire_method q p =
     \<lparr>mc_request_encoder = prost_encoder ref_ext (wire_encode q), mc_request_decoder = prost_decoder ref_ext (wire_decode q),
      mc_response_encoder = prost_encoder ref_ext (wire_encode p), mc_response_decoder = prost_decoder ref_ext (wire_decode p)\<rparr>"

definition wire_codecs :: "alist prost_codecs" where
  "wire_codecs =
     \<lparr>pc_create = wire_method (wire_pair wire_text wire_text) (wire_option wire_todo),
      pc_get = wire_method wire_text (wire_option wire_todo),
      pc_list = wire_method wire_unit (wire_list wire_todo),
      pc_delete = wire_method wire_text wire_unit\<rparr>"

definition wire_handler ::
  "string \<Rightarrow> 64 word \<Rightarrow> prost_todos \<Rightarrow> (alist, bytes list option) raw_request
     \<Rightarrow> prost_todos \<times> (alist, bytes list option, prost_reply) grpc_http_response option" where
  "wire_handler uuid now s r =
     (if hq_path r = ''/todo.TodoService/CreateTodo''
      then prost_method ref_ext (pc_create wire_codecs) p_created PCreated (prost_create_todo ref_ext uuid now) s r
      else if hq_path r = ''/todo.TodoService/GetTodo''
      then prost_method ref_ext (pc_get wire_codecs) p_got PGot (prost_get_todo ref_ext) s r
      else if hq_path r = ''/todo.TodoService/ListTodos''
      then prost_method ref_ext (pc_list wire_codecs) p_listed PListed (prost_list_todos ref_ext rev) s r
      else prost_method ref_ext (pc_delete wire_codecs) p_deleted PDeleted (prost_delete_todo ref_ext) s r)"

definition wire_setting :: "(alist, bytes list option, unit) prost_setting" where
  "wire_setting =
     \<lparr>ps_ext = ref_ext, ps_codecs = wire_codecs, ps_uri = plain_uri, ps_client = plain_client, ps_put_method = (\<lambda>_ x. x),
      ps_carry = byte_wise, ps_polls = 4, ps_is_end = (\<lambda>b. b = []), ps_routes = rev, ps_iter = rev, ps_handler = wire_handler,
      ps_delay = 3\<rparr>"

lemma wire_method_laws: "wire_ok q \<Longrightarrow> wire_ok p \<Longrightarrow> method_codec_laws (wire_method q p)"
  by (simp add: method_codec_laws_def wire_method_def wire_codec_laws)

lemma wire_setting_laws: "prost_setting_laws wire_setting"
proof -
  have uri: "client_uri ref_ext plain_uri plain_client p = Inr p" for p
    by (simp add: plain_client_def client_with_origin_def client_uri_def plain_uri_def)
  have todo: "wire_ok wire_todo" unfolding wire_todo_def by (intro wire_ok_parts wire_ok_scalars) simp
  have "method_codec_laws (pc_create wire_codecs)" "method_codec_laws (pc_get wire_codecs)"
    "method_codec_laws (pc_list wire_codecs)" "method_codec_laws (pc_delete wire_codecs)"
    unfolding wire_codecs_def prost_codecs.select_convs by (intro wire_method_laws wire_ok_parts wire_ok_scalars todo)+
  then show ?thesis
    by (simp add: prost_setting_laws_def wire_setting_def ref_header_laws ref_value_laws ref_percent_laws ref_base64_laws
        ref_compressor_laws byte_wise_network uri example_limits prost_dispatch_def wire_handler_def)
qed

lemma wire_sizes:
  "deliverable ref_ext (mc_request_encoder (wire_method q p)) None None None a
    \<longleftrightarrow> deliverable ref_ext (prost_encoder ref_ext (wire_encode q)) None None None a"
  "deliverable ref_ext (mc_response_encoder (wire_method q p)) None None None b
    \<longleftrightarrow> deliverable ref_ext (prost_encoder ref_ext (wire_encode p)) None None None b"
  by (simp_all add: wire_method_def)

theorem todo_clients_agree_witness:
  "\<exists>st st'. client_run (fbs_step example_setting) []
      [(''u'', 7, CreateCommand ''t'' ''d''), (''v'', 8, GetCommand ''u''), (''w'', 9, DeleteCommand ''u''), (''x'', 10, GetCommand ''u'')] ! 3
      = Some (Inl st) \<and>
    client_run (prost_step wire_setting) []
      [(''u'', 7, CreateCommand ''t'' ''d''), (''v'', 8, GetCommand ''u''), (''w'', 9, DeleteCommand ''u''), (''x'', 10, GetCommand ''u'')] ! 3
      = Some (Inl st') \<and> st_code st = NotFound \<and> st_code st' = NotFound"
proof -
  let ?evs = "[(''u'', 7, CreateCommand ''t'' ''d''), (''v'', 8, GetCommand ''u''), (''w'', 9, DeleteCommand ''u''), (''x'', 10, GetCommand ''u'')]
    :: command_event list"
  have made: "fb_todo t = made ''u'' 7 \<lparr>cq_title = Some ''t'', cq_description = Some ''d''\<rparr> \<longleftrightarrow>
      t = \<lparr>pt_id = ''u'', pt_title = ''t'', pt_description = ''d'', pt_completed = False, pt_created_at = 7\<rparr>" for t
    by (cases t) (simp add: fb_todo_def made_def)
  have small: "deliverable ref_ext (prost_encoder ref_ext (wire_encode w)) None None None m" if "length (wf_write w m) < 4194304"
    for w :: "'m wire_format" and m
    by (rule wire_deliverable) (use that in \<open>simp_all add: recv_limit_def DEFAULT_MAX_RECV_MESSAGE_SIZE_def\<close>)
  have flag: "length (wf_write wire_bool b) = 1" for b by (simp add: wire_bool_def wire_map_def wire_byte_def)
  have fbs: "\<forall>i < length ?evs. event_fits example_setting (rev (map as_event (take i ?evs))) (as_event (?evs ! i))"
    by (simp add: All_less_Suc2 as_event_def event_fits_def todo_answer_def not_found_def key_of_def example_sizes)
  have prost: "\<forall>i < length ?evs. prost_fits wire_setting (rev (map as_event (take i ?evs))) (?evs ! i)"
    by (auto simp: All_less_Suc2 as_event_def prost_fits_def todo_answer_def not_found_def key_of_def as_fb_def wire_setting_def
        wire_codecs_def wire_sizes example_limits made wire_length wire_todo_def wire_option_def wire_unit_def flag
        intro!: small split: prost_reply.splits)
  from fbs prost have "\<forall>i < length ?evs. event_fits example_setting (rev (map as_event (take i ?evs))) (as_event (?evs ! i)) \<and>
      prost_fits wire_setting (rev (map as_event (take i ?evs))) (?evs ! i)" by blast
  note agree = todo_clients_agree [OF example_setting_laws wire_setting_laws this]
  have "3 < length ?evs" by simp
  with agree obtain r r' where r: "client_run (fbs_step example_setting) [] ?evs ! 3 = Some r" "client_run (prost_step wire_setting) [] ?evs ! 3 = Some r'"
    "same_answer r r'" "command_answer (rev (map as_event (take 3 ?evs))) (?evs ! 3) r" by blast
  have "live (rev (map as_event (take 3 ?evs))) ''u'' = None" by (simp add: as_event_def key_of_def numeral_3_eq_3)
  with r(4) obtain st where "r = Inl st" "st_code st = NotFound" by (auto simp: command_answer_def Let_def)
  with r(1-3) show ?thesis by (cases r') (auto simp: same_answer_def)
qed

end
