(* ===== verification/Load.thy ===== *)
theory Load
  imports Prelude "HOL-Library.Multiset" "HOL-Library.Word"
begin

section \<open>The load tests\<close>

text \<open>
  The runs of \<^verbatim>\<open>benchmarks/bin/streaming_load_test.rs\<close> and
  \<^verbatim>\<open>benchmarks/bin/todo_load_test.rs\<close>: workers on their own connections call until
  the time is up and send what they measured over a bounded channel, and the main task collects it.
  A state is the workers, the channel and the main task's variables; every interleaving is a path of a
  step relation. The properties say that the first program always gets its result, the same in every
  order, and that the second never ends its collecting.
\<close>

subsection \<open>Results\<close>

text \<open>
  Calls made, calls that succeeded, and how long each took. The rate and the position of a percentile
  are computed with floating point numbers and stay parameters.
\<close>

type_synonym worker_result = "64 word \<times> 64 word \<times> 64 word list"

record 'f load_test_result =
  lt_total_requests :: "64 word"
  lt_success_requests :: "64 word"
  lt_qps :: 'f
  lt_p50_ns :: "64 word"
  lt_p95_ns :: "64 word"
  lt_p99_ns :: "64 word"

definition percentile :: "(nat \<Rightarrow> nat) \<Rightarrow> 64 word list \<Rightarrow> 64 word" where
  "percentile rank xs = (if xs = [] then 0 else xs ! min (rank (length xs)) (length xs - 1))"

definition compute_result ::
  "(64 word \<Rightarrow> 'f) \<Rightarrow> (nat \<Rightarrow> nat \<Rightarrow> nat) \<Rightarrow> 64 word \<Rightarrow> 64 word \<Rightarrow> 64 word list \<Rightarrow> 'f load_test_result" where
  "compute_result rate rank total_requests success_requests latencies =
     (let latencies = sort latencies
      in \<lparr>lt_total_requests = total_requests, lt_success_requests = success_requests, lt_qps = rate total_requests,
          lt_p50_ns = percentile (rank 50) latencies, lt_p95_ns = percentile (rank 95) latencies,
          lt_p99_ns = percentile (rank 99) latencies\<rparr>)"

text \<open>A worker's loop: whether each call it made in its time succeeded, and how long it took.\<close>

definition worker_loop :: "(bool \<times> 64 word) list \<Rightarrow> worker_result" where
  "worker_loop calls =
     fold (\<lambda>(is_ok, latency) (local_total, local_success, local_latencies).
         (local_total + 1, if is_ok then local_success + 1 else local_success, local_latencies @ [latency]))
       calls (0, 0, [])"

lemma worker_loop_counts:
  "worker_loop calls = (of_nat (length calls), of_nat (length (filter fst calls)), map snd calls)"
proof -
  have "fold (\<lambda>(is_ok, latency) (local_total, local_success, local_latencies).
         (local_total + 1, if is_ok then local_success + 1 else local_success, local_latencies @ [latency])) calls (a, b, ls)
      = (a + of_nat (length calls), b + of_nat (length (filter fst calls)), ls @ map snd calls)"
    for a b :: "64 word" and ls
    by (induction calls arbitrary: a b ls) auto
  from this [of 0 0 "[]"] show ?thesis unfolding worker_loop_def by simp
qed

text \<open>A percentile is one of the latencies.\<close>

lemma percentile_in: "xs \<noteq> [] \<Longrightarrow> percentile rank xs \<in> set xs"
  unfolding percentile_def by (auto intro!: nth_mem simp: min_less_iff_disj)

lemma compute_result_mset:
  "mset ls = mset ls' \<Longrightarrow> compute_result rate rank t s ls = compute_result rate rank t s ls'"
proof -
  assume "mset ls = mset ls'"
  then have "sort ls = sort ls'" by (intro properties_for_sort) simp_all
  then show ?thesis by (simp add: compute_result_def Let_def)
qed

subsection \<open>The state\<close>

text \<open>A worker that has sent its result is \<open>Reported\<close>; the receiver's end of the channel is the main task's.\<close>

datatype load_task = Connecting | AtBarrier | Calling | Reported worker_result | Panicked

datatype load_phase = Collecting | Joining | Returned

record load_run =
  lo_tasks :: "load_task list"
  lo_queue :: "worker_result list"
  lo_tx :: bool
  lo_received :: nat
  lo_total :: "64 word"
  lo_success :: "64 word"
  lo_latencies :: "64 word list"
  lo_phase :: load_phase

text \<open>A channel must have room for one message at least; \<open>None\<close> is the panic of making one without.\<close>

definition load_start :: "nat \<Rightarrow> load_run option" where
  "load_start concurrency =
     (if concurrency * 2 = 0 then None
      else Some \<lparr>lo_tasks = replicate concurrency Connecting, lo_queue = [], lo_tx = True, lo_received = 0,
        lo_total = 0, lo_success = 0, lo_latencies = [], lo_phase = Collecting\<rparr>)"

definition has_sender :: "load_task \<Rightarrow> bool" where
  "has_sender t = (case t of Reported _ \<Rightarrow> False | Panicked \<Rightarrow> False | _ \<Rightarrow> True)"

text \<open>The receiver learns that the channel is closed when it is empty and no sender is left.\<close>

definition channel_closed :: "load_run \<Rightarrow> bool" where
  "channel_closed s \<longleftrightarrow> lo_queue s = [] \<and> \<not> lo_tx s \<and> \<not> (\<exists>t\<in>set (lo_tasks s). has_sender t)"

definition set_task :: "load_run \<Rightarrow> nat \<Rightarrow> load_task \<Rightarrow> load_run" where
  "set_task s i t = s\<lparr>lo_tasks := (lo_tasks s)[i := t]\<rparr>"

definition report :: "load_run \<Rightarrow> nat \<Rightarrow> worker_result \<Rightarrow> load_run" where
  "report s i r = (set_task s i (Reported r))\<lparr>lo_queue := lo_queue s @ [r]\<rparr>"

definition collect_one :: "load_run \<Rightarrow> worker_result \<Rightarrow> worker_result list \<Rightarrow> load_run" where
  "collect_one s r rest =
     (case r of (local_total, local_success, worker_latencies) \<Rightarrow>
        s\<lparr>lo_queue := rest, lo_received := lo_received s + 1, lo_total := lo_total s + local_total,
          lo_success := lo_success s + local_success, lo_latencies := lo_latencies s @ worker_latencies\<rparr>)"

text \<open>The room in the channel is twice the number of workers.\<close>

definition at_task :: "load_run \<Rightarrow> nat \<Rightarrow> load_task \<Rightarrow> bool" where
  "at_task s i t \<longleftrightarrow> i < length (lo_tasks s) \<and> lo_tasks s ! i = t"

definition tasks_ended :: "load_run \<Rightarrow> bool" where
  "tasks_ended s \<longleftrightarrow> \<not> (\<exists>t\<in>set (lo_tasks s). has_sender t)"

subsection \<open>The streaming load test\<close>

text \<open>
  A worker that cannot connect sends an empty result. The main task stops after as many results as
  there are workers, or when the channel is closed, and then waits for the workers.
\<close>

inductive streaming_step :: "nat \<Rightarrow> load_run \<Rightarrow> load_run \<Rightarrow> bool" for concurrency where
  connected: "at_task s i Connecting \<Longrightarrow> streaming_step concurrency s (set_task s i Calling)"
| failed: "at_task s i Connecting \<Longrightarrow> length (lo_queue s) < concurrency * 2 \<Longrightarrow>
    streaming_step concurrency s (report s i (0, 0, []))"
| finished: "at_task s i Calling \<Longrightarrow> length (lo_queue s) < concurrency * 2 \<Longrightarrow>
    streaming_step concurrency s (report s i (worker_loop calls))"
| received: "lo_phase s = Collecting \<Longrightarrow> lo_received s < concurrency \<Longrightarrow> lo_queue s = r # rest \<Longrightarrow>
    streaming_step concurrency s (collect_one s r rest)"
| stopped: "lo_phase s = Collecting \<Longrightarrow> concurrency \<le> lo_received s \<or> channel_closed s \<Longrightarrow>
    streaming_step concurrency s (s\<lparr>lo_phase := Joining\<rparr>)"
| joined: "lo_phase s = Joining \<Longrightarrow> tasks_ended s \<Longrightarrow>
    streaming_step concurrency s (s\<lparr>lo_phase := Returned, lo_tx := False\<rparr>)"

subsection \<open>The todo load test\<close>

text \<open>
  A worker that cannot connect panics; the others wait at a barrier until all have connected. The main
  task collects until the channel is closed. Its own sender, of which the workers have clones, lives as
  long as the function.
\<close>

inductive barrier_step :: "nat \<Rightarrow> load_run \<Rightarrow> load_run \<Rightarrow> bool" for concurrency where
  connected: "at_task s i Connecting \<Longrightarrow> barrier_step concurrency s (set_task s i AtBarrier)"
| panicked: "at_task s i Connecting \<Longrightarrow> barrier_step concurrency s (set_task s i Panicked)"
| released: "lo_tasks s = replicate concurrency AtBarrier \<Longrightarrow> 0 < concurrency \<Longrightarrow>
    barrier_step concurrency s (s\<lparr>lo_tasks := replicate concurrency Calling\<rparr>)"
| finished: "at_task s i Calling \<Longrightarrow> length (lo_queue s) < concurrency * 2 \<Longrightarrow>
    barrier_step concurrency s (report s i (worker_loop calls))"
| received: "lo_phase s = Collecting \<Longrightarrow> lo_queue s = r # rest \<Longrightarrow> barrier_step concurrency s (collect_one s r rest)"
| stopped: "lo_phase s = Collecting \<Longrightarrow> channel_closed s \<Longrightarrow> barrier_step concurrency s (s\<lparr>lo_phase := Joining\<rparr>)"
| joined: "lo_phase s = Joining \<Longrightarrow> tasks_ended s \<Longrightarrow>
    barrier_step concurrency s (s\<lparr>lo_phase := Returned, lo_tx := False\<rparr>)"

inductive_simps barrier_step_simps: "barrier_step n s s'"
inductive_simps streaming_step_simps: "streaming_step n s s'"

subsection \<open>Lemmas\<close>

text \<open>What a worker has reported, seen through a measure of results.\<close>

definition reported_by :: "(worker_result \<Rightarrow> 'a) \<Rightarrow> load_task \<Rightarrow> 'a::comm_monoid_add" where
  "reported_by g t = (case t of Reported r \<Rightarrow> g r | _ \<Rightarrow> 0)"

lemma reported_by_simps [simp]:
  "reported_by g Connecting = 0" "reported_by g AtBarrier = 0" "reported_by g Calling = 0" "reported_by g Panicked = 0"
  "reported_by g (Reported r) = g r"
  by (simp_all add: reported_by_def)

lemma has_sender_simps [simp]:
  "has_sender Connecting" "has_sender AtBarrier" "has_sender Calling" "\<not> has_sender Panicked" "\<not> has_sender (Reported r)"
  by (simp_all add: has_sender_def)

lemma sum_list_update_0:
  fixes f :: "'b \<Rightarrow> 'a::comm_monoid_add"
  shows "i < length ts \<Longrightarrow> f (ts ! i) = 0 \<Longrightarrow> sum_list (map f (ts[i := t])) = sum_list (map f ts) + f t"
proof (induction ts arbitrary: i)
  case (Cons a ts)
  then show ?case by (cases i) (simp_all add: add_ac)
qed simp

text \<open>What is collected and what is in the channel together are what the workers reported.\<close>

definition balanced :: "load_run \<Rightarrow> bool" where
  "balanced s \<longleftrightarrow>
     lo_received s + length (lo_queue s) = sum_list (map (reported_by (\<lambda>_. 1)) (lo_tasks s)) \<and>
     lo_total s + sum_list (map fst (lo_queue s)) = sum_list (map (reported_by fst) (lo_tasks s)) \<and>
     lo_success s + sum_list (map (fst \<circ> snd) (lo_queue s)) = sum_list (map (reported_by (fst \<circ> snd)) (lo_tasks s)) \<and>
     mset (lo_latencies s) + sum_list (map (mset \<circ> snd \<circ> snd) (lo_queue s))
       = sum_list (map (reported_by (mset \<circ> snd \<circ> snd)) (lo_tasks s))"

lemma sum_list_zeros: "sum_list (replicate n (0 :: 'a::comm_monoid_add)) = 0"
  by (induction n) simp_all

lemma balanced_start: "load_start n = Some s \<Longrightarrow> balanced s"
  by (auto simp: load_start_def balanced_def sum_list_zeros split: if_splits)

lemma balanced_moves:
  "balanced s \<Longrightarrow> at_task s i t \<Longrightarrow> t = Connecting \<or> t = Calling \<Longrightarrow> u = AtBarrier \<or> u = Calling \<or> u = Panicked \<Longrightarrow>
    balanced (set_task s i u)"
  "balanced s \<Longrightarrow> at_task s i t \<Longrightarrow> t = Connecting \<or> t = Calling \<Longrightarrow> balanced (report s i r)"
  "balanced s \<Longrightarrow> lo_queue s = r # rest \<Longrightarrow> balanced (collect_one s r rest)"
  "balanced s \<Longrightarrow> balanced (s\<lparr>lo_phase := p\<rparr>)" "balanced s \<Longrightarrow> balanced (s\<lparr>lo_phase := p, lo_tx := b\<rparr>)"
  "balanced s \<Longrightarrow> lo_tasks s = replicate n AtBarrier \<Longrightarrow> balanced (s\<lparr>lo_tasks := replicate n Calling\<rparr>)"
  by (auto simp: balanced_def set_task_def report_def collect_one_def at_task_def sum_list_update_0 map_replicate_const
      sum_list_replicate add_ac split: prod.splits)

text \<open>Every step brings a run nearer to its end.\<close>

definition task_weight :: "load_task \<Rightarrow> nat" where
  "task_weight t = (case t of Connecting \<Rightarrow> 4 | AtBarrier \<Rightarrow> 3 | Calling \<Rightarrow> 2 | _ \<Rightarrow> 0)"

definition phase_weight :: "load_phase \<Rightarrow> nat" where
  "phase_weight p = (case p of Collecting \<Rightarrow> 2 | Joining \<Rightarrow> 1 | Returned \<Rightarrow> 0)"

definition run_weight :: "load_run \<Rightarrow> nat" where
  "run_weight s = sum_list (map task_weight (lo_tasks s)) + length (lo_queue s) + phase_weight (lo_phase s)"

lemma sum_list_update_nat:
  fixes f :: "'b \<Rightarrow> nat"
  shows "i < length ts \<Longrightarrow> sum_list (map f (ts[i := t])) + f (ts ! i) = sum_list (map f ts) + f t"
proof (induction ts arbitrary: i)
  case (Cons a ts)
  then show ?case by (cases i) (simp_all add: add_ac)
qed simp

lemma run_weight_moves:
  "at_task s i t \<Longrightarrow> task_weight u < task_weight t \<Longrightarrow> run_weight (set_task s i u) < run_weight s"
  "at_task s i t \<Longrightarrow> 1 < task_weight t \<Longrightarrow> run_weight (report s i r) < run_weight s"
  "lo_queue s = r # rest \<Longrightarrow> run_weight (collect_one s r rest) < run_weight s"
  using sum_list_update_nat [of i "lo_tasks s" task_weight u] sum_list_update_nat [of i "lo_tasks s" task_weight "Reported r"]
  by (auto simp: run_weight_def set_task_def report_def collect_one_def at_task_def task_weight_def [of "Reported r"]
      split: prod.splits)

lemma steps_end:
  "streaming_step n s s' \<Longrightarrow> run_weight s' < run_weight s" "barrier_step n s s' \<Longrightarrow> run_weight s' < run_weight s"
proof -
  show "streaming_step n s s' \<Longrightarrow> run_weight s' < run_weight s"
    by (induction rule: streaming_step.induct)
       (auto intro: run_weight_moves simp: task_weight_def, auto simp: run_weight_def phase_weight_def)
  show "barrier_step n s s' \<Longrightarrow> run_weight s' < run_weight s"
    by (induction rule: barrier_step.induct)
       (auto intro: run_weight_moves simp: task_weight_def,
        auto simp: run_weight_def phase_weight_def task_weight_def map_replicate_const sum_list_replicate)
qed

lemma wf_by_weight: "(\<And>s s'. R s s' \<Longrightarrow> run_weight s' < run_weight s) \<Longrightarrow> wfP (\<lambda>s' s. R s s')"
  by (rule wfp_subset [OF wfp_if_convertible_to_nat [of "\<lambda>s' s. run_weight s' < run_weight s" run_weight]]) auto

lemma reported_count:
  "sum_list (map (reported_by (\<lambda>_. 1 :: nat)) ts) \<le> length ts"
  "sum_list (map (reported_by (\<lambda>_. 1 :: nat)) ts) = length ts \<Longrightarrow> \<exists>rs. ts = map Reported rs"
proof -
  show le: "sum_list (map (reported_by (\<lambda>_. 1 :: nat)) ts) \<le> length ts" for ts
    by (induction ts) (auto simp: reported_by_def split: load_task.split)
  show "sum_list (map (reported_by (\<lambda>_. 1 :: nat)) ts) = length ts \<Longrightarrow> \<exists>rs. ts = map Reported rs"
  proof (induction ts)
    case (Cons t ts)
    obtain r where t: "t = Reported r" using Cons.prems le [of ts] by (cases t) auto
    then obtain rs where "ts = map Reported rs" using Cons by auto
    with t have "t # ts = map Reported (r # rs)" by simp
    then show ?case by (rule exI)
  qed simp
qed

lemma reported_sum: "sum_list (map (reported_by g) (map Reported rs)) = sum_list (map g rs)"
  by (simp add: comp_def)

definition streaming_inv :: "nat \<Rightarrow> load_run \<Rightarrow> bool" where
  "streaming_inv n s \<longleftrightarrow> 0 < n \<and> length (lo_tasks s) = n \<and> balanced s \<and>
     (\<forall>t\<in>set (lo_tasks s). t \<noteq> AtBarrier \<and> t \<noteq> Panicked) \<and> (lo_phase s \<noteq> Returned \<longrightarrow> lo_tx s) \<and>
     (lo_phase s \<noteq> Collecting \<longrightarrow> n \<le> lo_received s)"

lemma streaming_inv_start: "load_start n = Some s \<Longrightarrow> streaming_inv n s"
  using balanced_start [of n s] by (auto simp: streaming_inv_def load_start_def split: if_splits)

lemma set_update_ok: "(\<forall>x\<in>set xs. P x) \<Longrightarrow> P y \<Longrightarrow> \<forall>x\<in>set (xs[i := y]). P x"
  using set_update_subset_insert by fastforce

lemma move_fields [simp]:
  "lo_tasks (set_task s i t) = (lo_tasks s)[i := t]" "lo_tx (set_task s i t) = lo_tx s"
  "lo_received (set_task s i t) = lo_received s" "lo_phase (set_task s i t) = lo_phase s"
  "lo_tasks (report s i r) = (lo_tasks s)[i := Reported r]" "lo_tx (report s i r) = lo_tx s"
  "lo_received (report s i r) = lo_received s" "lo_phase (report s i r) = lo_phase s"
  "lo_tasks (collect_one s r rest) = lo_tasks s" "lo_tx (collect_one s r rest) = lo_tx s"
  "lo_received (collect_one s r rest) = lo_received s + 1" "lo_phase (collect_one s r rest) = lo_phase s"
  by (simp_all add: set_task_def report_def collect_one_def split: prod.split)

lemma streaming_inv_step:
  assumes "streaming_step n s s'" "streaming_inv n s"
  shows "streaming_inv n s'"
proof -
  have bal: "balanced s" and tasks: "\<forall>t\<in>set (lo_tasks s). t \<noteq> AtBarrier \<and> t \<noteq> Panicked"
    and rest: "0 < n" "length (lo_tasks s) = n" "lo_phase s \<noteq> Returned \<longrightarrow> lo_tx s" "lo_phase s \<noteq> Collecting \<longrightarrow> n \<le> lo_received s"
    using assms(2) by (simp_all add: streaming_inv_def)
  have updated: "\<forall>t\<in>set ((lo_tasks s)[i := u]). t \<noteq> AtBarrier \<and> t \<noteq> Panicked" if "u \<noteq> AtBarrier" "u \<noteq> Panicked" for i u
    by (rule set_update_ok [OF tasks]) (use that in simp)
  from assms(1) show ?thesis
  proof (cases rule: streaming_step.cases)
    case (connected i)
    then show ?thesis
      using balanced_moves(1) [OF bal connected(2), of Calling] updated [of Calling i] rest by (simp add: streaming_inv_def)
  next
    case (failed i)
    then show ?thesis
      using balanced_moves(2) [OF bal failed(2)] updated [of "Reported (0, 0, [])" i] rest by (simp add: streaming_inv_def)
  next
    case (finished i calls)
    then show ?thesis
      using balanced_moves(2) [OF bal finished(2)] updated [of "Reported (worker_loop calls)" i] rest by (simp add: streaming_inv_def)
  next
    case (received r q)
    then show ?thesis
      using balanced_moves(3) [OF bal received(4)] tasks rest by (simp add: streaming_inv_def)
  next
    case stopped
    then show ?thesis
      using balanced_moves(4) [OF bal] tasks rest by (auto simp: streaming_inv_def channel_closed_def)
  next
    case joined
    then show ?thesis
      using balanced_moves(5) [OF bal] tasks rest by (simp add: streaming_inv_def)
  qed
qed

lemma streaming_inv_reachable:
  "(streaming_step n)\<^sup>*\<^sup>* s0 s \<Longrightarrow> load_start n = Some s0 \<Longrightarrow> streaming_inv n s"
  by (induction rule: rtranclp_induct) (auto intro: streaming_inv_start streaming_inv_step)

lemma streaming_progress:
  assumes inv: "streaming_inv n s" and "lo_phase s \<noteq> Returned"
  shows "\<exists>s'. streaming_step n s s'"
proof (cases "\<exists>rs. lo_tasks s = map Reported rs")
  case False
  then obtain t where t: "t \<in> set (lo_tasks s)" "t = Connecting \<or> t = Calling"
    using inv by (metis (no_types, lifting) ex_map_conv load_task.exhaust streaming_inv_def)
  then obtain i where i: "at_task s i t" by (auto simp: at_task_def in_set_conv_nth)
  have "length (lo_queue s) \<le> n"
    using inv reported_count(1) [of "lo_tasks s"] by (simp add: streaming_inv_def balanced_def)
  then have "length (lo_queue s) < n * 2" using inv by (simp add: streaming_inv_def)
  with t i show ?thesis by (auto intro: streaming_step.intros)
next
  case True
  then obtain rs where rs: "lo_tasks s = map Reported rs" by blast
  have le: "lo_received s + length (lo_queue s) = n"
    using inv by (auto simp: streaming_inv_def balanced_def rs reported_sum comp_def sum_list_triv)
  have tasks_end: "tasks_ended s" by (auto simp: tasks_ended_def rs)
  show ?thesis
  proof (cases "lo_phase s")
    case Collecting
    show ?thesis
    proof (cases "lo_queue s")
      case Nil
      then show ?thesis using le streaming_step.stopped [OF Collecting, of n] by auto
    next
      case (Cons r q)
      then show ?thesis using le streaming_step.received [OF Collecting _ Cons, of n] by auto
    qed
  next
    case Joining
    then show ?thesis using tasks_end by (auto intro: streaming_step.intros)
  qed (use assms(2) in simp)
qed

lemma streaming_result:
  assumes inv: "streaming_inv n s" and "lo_phase s = Returned"
  shows "\<exists>rs. lo_tasks s = map Reported rs \<and> length rs = n \<and> lo_total s = sum_list (map fst rs) \<and>
    lo_success s = sum_list (map (fst \<circ> snd) rs) \<and> mset (lo_latencies s) = mset (concat (map (snd \<circ> snd) rs))"
proof -
  have bal: "balanced s" and len: "length (lo_tasks s) = n" "n \<le> lo_received s"
    using inv assms(2) by (simp_all add: streaming_inv_def)
  have "lo_received s + length (lo_queue s) = sum_list (map (reported_by (\<lambda>_. 1)) (lo_tasks s))"
    using bal by (simp add: balanced_def)
  then have "length (lo_queue s) = 0" and all: "sum_list (map (reported_by (\<lambda>_. 1 :: nat)) (lo_tasks s)) = length (lo_tasks s)"
    using len reported_count(1) [of "lo_tasks s"] by linarith+
  then have q: "lo_queue s = []" by simp
  obtain rs where rs: "lo_tasks s = map Reported rs" using reported_count(2) [OF all] by blast
  have "sum_list (map (mset \<circ> snd \<circ> snd) rs) = mset (concat (map (snd \<circ> snd) rs))" for rs :: "worker_result list"
    by (induction rs) simp_all
  with bal len(1) rs q show ?thesis
    by (intro exI [of _ rs]) (simp add: balanced_def comp_def)
qed

text \<open>The run with the barrier.\<close>

definition barrier_inv :: "load_run \<Rightarrow> bool" where
  "barrier_inv s \<longleftrightarrow> lo_phase s = Collecting \<and> lo_tx s \<and> balanced s"

lemma barrier_inv_step:
  assumes "barrier_step n s s'" "barrier_inv s"
  shows "barrier_inv s'"
proof -
  have bal: "balanced s" and rest: "lo_phase s = Collecting" "lo_tx s" using assms(2) by (simp_all add: barrier_inv_def)
  from assms(1) show ?thesis
  proof (cases rule: barrier_step.cases)
    case (connected i)
    then show ?thesis using balanced_moves(1) [OF bal connected(2), of AtBarrier] rest by (simp add: barrier_inv_def)
  next
    case (panicked i)
    then show ?thesis using balanced_moves(1) [OF bal panicked(2), of Panicked] rest by (simp add: barrier_inv_def)
  next
    case released
    then show ?thesis using balanced_moves(6) [OF bal released(2)] rest by (simp add: barrier_inv_def)
  next
    case (finished i calls)
    then show ?thesis using balanced_moves(2) [OF bal finished(2)] rest by (simp add: barrier_inv_def)
  next
    case (received r q)
    then show ?thesis using balanced_moves(3) [OF bal received(3)] rest by (simp add: barrier_inv_def)
  qed (use rest in \<open>simp_all add: channel_closed_def\<close>)
qed

lemma barrier_inv_reachable:
  "(barrier_step n)\<^sup>*\<^sup>* s0 s \<Longrightarrow> load_start n = Some s0 \<Longrightarrow> barrier_inv s"
proof (induction rule: rtranclp_induct)
  case base
  then show ?case using balanced_start [of n s0] by (auto simp: barrier_inv_def load_start_def split: if_splits)
qed (blast intro: barrier_inv_step)

lemma barrier_stuck:
  assumes "barrier_inv s" "lo_tasks s = map Reported rs" "lo_queue s = []"
  shows "\<not> barrier_step n s s'"
proof
  assume "barrier_step n s s'"
  then show False
  proof (cases rule: barrier_step.cases)
    case released
    then show ?thesis using assms(2) by (cases n; cases rs) simp_all
  qed (use assms in \<open>auto simp: barrier_inv_def channel_closed_def at_task_def\<close>)
qed

lemma all_reported_totals:
  assumes "balanced s" "lo_tasks s = map Reported rs" "lo_queue s = []"
  shows "lo_received s = length rs" "lo_total s = sum_list (map fst rs)"
  using assms by (simp_all add: balanced_def comp_def sum_list_triv)

subsection \<open>Properties\<close>

text \<open>
  C38: A run of the streaming load test, however its workers and the main task take turns, comes to an
  end, and is never stuck before: when it ends, every worker has reported, and the result it prints is
  the one computed from the sums of all the workers' calls and from all their latencies in
  the order of the workers.
\<close>

theorem streaming_run_result:
  assumes "load_start concurrency = Some s0" "(streaming_step concurrency)\<^sup>*\<^sup>* s0 s"
  shows "wfP (\<lambda>s' s. streaming_step concurrency s s') \<and>
    (lo_phase s \<noteq> Returned \<longrightarrow> (\<exists>s'. streaming_step concurrency s s')) \<and>
    (lo_phase s = Returned \<longrightarrow> (\<exists>rs. lo_tasks s = map Reported rs \<and> length rs = concurrency \<and>
      compute_result rate rank (lo_total s) (lo_success s) (lo_latencies s)
        = compute_result rate rank (sum_list (map fst rs)) (sum_list (map (fst \<circ> snd) rs)) (concat (map (snd \<circ> snd) rs))))"
proof -
  have inv: "streaming_inv concurrency s" by (rule streaming_inv_reachable [OF assms(2,1)])
  show ?thesis
  proof (intro conjI impI)
    show "wfP (\<lambda>s' s. streaming_step concurrency s s')" by (rule wf_by_weight [OF steps_end(1)])
  next
    assume "lo_phase s \<noteq> Returned"
    then show "\<exists>s'. streaming_step concurrency s s'" by (rule streaming_progress [OF inv])
  next
    assume "lo_phase s = Returned"
    then obtain rs where rs: "lo_tasks s = map Reported rs" "length rs = concurrency" "lo_total s = sum_list (map fst rs)"
      "lo_success s = sum_list (map (fst \<circ> snd) rs)" "mset (lo_latencies s) = mset (concat (map (snd \<circ> snd) rs))"
      using streaming_result [OF inv] by blast
    show "\<exists>rs. lo_tasks s = map Reported rs \<and> length rs = concurrency \<and>
      compute_result rate rank (lo_total s) (lo_success s) (lo_latencies s)
        = compute_result rate rank (sum_list (map fst rs)) (sum_list (map (fst \<circ> snd) rs)) (concat (map (snd \<circ> snd) rs))"
      by (intro exI [of _ rs]) (simp add: rs(1,2,3,4) compute_result_mset [OF rs(5)])
  qed
qed

definition example_run :: "nat \<Rightarrow> load_run" where
  "example_run i =
     (let s0 = the (load_start 2); s1 = report s0 0 (0, 0, []); s2 = set_task s1 1 Calling;
          s3 = report s2 1 (worker_loop [(True, 9), (False, 4)]); s4 = collect_one s3 (0, 0, []) [(2, 1, [9, 4])];
          s5 = collect_one s4 (2, 1, [9, 4]) []; s6 = s5\<lparr>lo_phase := Joining\<rparr>
      in [s0, s1, s2, s3, s4, s5, s6, s6\<lparr>lo_phase := Returned, lo_tx := False\<rparr>] ! i)"

lemma path_reaches: "(\<And>i. i < n \<Longrightarrow> R (f i) (f (Suc i))) \<Longrightarrow> R\<^sup>*\<^sup>* (f 0) (f n)"
  by (induction n) (auto intro: rtranclp.rtrancl_into_rtrancl)

lemma example_run_steps: "i < 7 \<Longrightarrow> streaming_step 2 (example_run i) (example_run (Suc i))"
proof -
  note run = example_run_def Let_def load_start_def set_task_def report_def collect_one_def worker_loop_counts at_task_def
    tasks_ended_def numeral_2_eq_2
  have "streaming_step 2 (example_run 0) (example_run 1)"
    using streaming_step.failed [of "example_run 0" 0 2] by (simp add: run)
  moreover have "streaming_step 2 (example_run 1) (example_run 2)"
    using streaming_step.connected [of "example_run 1" 1 2] by (simp add: run)
  moreover have "streaming_step 2 (example_run 2) (example_run 3)"
    using streaming_step.finished [of "example_run 2" 1 2 "[(True, 9), (False, 4)]"] by (simp add: run)
  moreover have "streaming_step 2 (example_run 3) (example_run 4)"
    using streaming_step.received [of "example_run 3" 2 "(0, 0, [])" "[(2, 1, [9, 4])]"] by (simp add: run)
  moreover have "streaming_step 2 (example_run 4) (example_run 5)"
    using streaming_step.received [of "example_run 4" 2 "(2, 1, [9, 4])" "[]"] by (simp add: run)
  moreover have "streaming_step 2 (example_run 5) (example_run 6)"
    using streaming_step.stopped [of "example_run 5" 2] by (simp add: run)
  moreover have "streaming_step 2 (example_run 6) (example_run 7)"
    using streaming_step.joined [of "example_run 6" 2] by (simp add: run)
  moreover assume "i < 7"
  then have "i = 0 \<or> i = 1 \<or> i = 2 \<or> i = 3 \<or> i = 4 \<or> i = 5 \<or> i = 6" by linarith
  ultimately show ?thesis by (auto simp: numeral_eq_Suc)
qed

theorem streaming_run_result_witness:
  "\<exists>s. (streaming_step 2)\<^sup>*\<^sup>* (the (load_start 2)) s \<and> lo_phase s = Returned \<and>
    compute_result (\<lambda>_. ()) (\<lambda>p n. (n - 1) * p div 100) (lo_total s) (lo_success s) (lo_latencies s)
      = \<lparr>lt_total_requests = 2, lt_success_requests = 1, lt_qps = (), lt_p50_ns = 4, lt_p95_ns = 4, lt_p99_ns = 4\<rparr>"
proof -
  let ?s = "example_run 7"
  have s0: "load_start 2 = Some (example_run 0)" by (simp add: load_start_def example_run_def)
  have reach: "(streaming_step 2)\<^sup>*\<^sup>* (example_run 0) ?s" by (rule path_reaches [where f = example_run]) (rule example_run_steps)
  have end_state: "lo_phase ?s = Returned" "lo_tasks ?s = map Reported [(0, 0, []), (2, 1, [9, 4])]"
    by (simp_all add: example_run_def Let_def load_start_def set_task_def report_def collect_one_def worker_loop_counts numeral_2_eq_2)
  have "compute_result (\<lambda>_. ()) (\<lambda>p n. (n - 1) * p div 100) (lo_total ?s) (lo_success ?s) (lo_latencies ?s)
      = compute_result (\<lambda>_. ()) (\<lambda>p n. (n - 1) * p div 100) 2 1 [9, 4]"
    using streaming_run_result [OF s0 reach, of "\<lambda>_. ()" "\<lambda>p n. (n - 1) * p div 100"] end_state by auto
  with reach end_state(1) s0 show ?thesis
    by (intro exI [of _ ?s]) (simp add: compute_result_def percentile_def)
qed

text \<open>
  C39: The todo load test never has its result. The main task holds a sender of the channel it reads to
  its end, so in every state that can be reached it is still collecting; since no run goes on
  for ever, each one gets stuck there, also when every worker has reported and all the calls are counted,
  and only the timeout around the run ends it.
\<close>

theorem todo_load_test_never_returns:
  assumes "load_start concurrency = Some s0" "(barrier_step concurrency)\<^sup>*\<^sup>* s0 s"
  shows "lo_phase s = Collecting \<and> wfP (\<lambda>s' s. barrier_step concurrency s s') \<and>
    (\<forall>rs. lo_tasks s = map Reported rs \<and> lo_queue s = [] \<longrightarrow>
      lo_received s = length rs \<and> lo_total s = sum_list (map fst rs) \<and> \<not> (\<exists>s'. barrier_step concurrency s s'))"
proof -
  have inv: "barrier_inv s" by (rule barrier_inv_reachable [OF assms(2,1)])
  then have "lo_phase s = Collecting" and bal: "balanced s" by (simp_all add: barrier_inv_def)
  moreover have "wfP (\<lambda>s' s. barrier_step concurrency s s')" by (rule wf_by_weight [OF steps_end(2)])
  ultimately show ?thesis using all_reported_totals [OF bal] barrier_stuck [OF inv] by simp
qed

theorem todo_load_test_never_returns_witness:
  "\<exists>s. (barrier_step 1)\<^sup>*\<^sup>* (the (load_start 1)) s \<and> lo_total s = 2 \<and> lo_received s = 1 \<and> lo_phase s = Collecting \<and>
    \<not> (\<exists>s'. barrier_step 1 s s')"
proof -
  let ?s0 = "the (load_start 1)" and ?r = "worker_loop [(True, 9), (False, 4)]"
  let ?s1 = "set_task ?s0 0 AtBarrier"
  let ?s2 = "?s1\<lparr>lo_tasks := replicate 1 Calling\<rparr>"
  let ?s3 = "report ?s2 0 ?r"
  let ?s4 = "collect_one ?s3 ?r []"
  have s0: "load_start 1 = Some ?s0" by (simp add: load_start_def)
  note run = load_start_def set_task_def report_def collect_one_def at_task_def
  have "barrier_step 1 ?s0 ?s1" by (rule barrier_step.connected) (simp add: run)
  moreover have "barrier_step 1 ?s1 ?s2" by (rule barrier_step.released) (simp_all add: run)
  moreover have "barrier_step 1 ?s2 ?s3" by (rule barrier_step.finished) (simp_all add: run)
  moreover have "barrier_step 1 ?s3 ?s4" by (rule barrier_step.received) (simp_all add: run)
  ultimately have "(barrier_step 1)\<^sup>*\<^sup>* ?s0 ?s4"
    by (intro rtranclp.rtrancl_into_rtrancl [OF rtranclp.rtrancl_into_rtrancl [OF rtranclp.rtrancl_into_rtrancl
          [OF rtranclp.rtrancl_into_rtrancl [OF rtranclp.rtrancl_refl]]]])
  moreover have "lo_tasks ?s4 = map Reported [(2, 1, [9, 4])]" "lo_queue ?s4 = []" by (simp_all add: run worker_loop_counts)
  ultimately obtain s where s: "(barrier_step 1)\<^sup>*\<^sup>* ?s0 s" "lo_tasks s = map Reported [(2, 1, [9, 4])]" "lo_queue s = []" by blast
  note result = todo_load_test_never_returns [OF s0 s(1)]
  from conjunct1 [OF result] mp [OF spec [OF conjunct2 [OF conjunct2 [OF result]]] conjI [OF s(2,3)]] s(1) show ?thesis
    by (intro exI [of _ s]) simp
qed

end
