(* ===== verification/Todo_Load.thy ===== *)
theory Todo_Load
  imports Todo_Rpc Load
begin

section \<open>What the todo load test measures\<close>

text \<open>
  The loop of a worker of \<^verbatim>\<open>benchmarks/bin/todo_load_test.rs\<close> over the client and the
  service of \<open>Todo_Rpc\<close>. Other workers change the todos between its calls, so each call finds some
  state of the server, of any history.
\<close>

subsection \<open>The worker\<close>

text \<open>The client's methods at one moment.\<close>

record 'h todo_client =
  tc_create :: "string \<Rightarrow> string \<Rightarrow> ('h status + string) option"
  tc_get :: "string \<Rightarrow> ('h status + unit) option"
  tc_list :: "('h status + unit) option"
  tc_delete :: "string \<Rightarrow> ('h status + unit) option"

definition todo_worker_op :: "'h todo_client \<Rightarrow> string \<Rightarrow> string \<Rightarrow> 64 word \<Rightarrow> ('h status + bool) option" where
  "todo_worker_op client worker_id nanos local_total =
     (let op = unat local_total mod 10
      in if op \<in> {0, 1} then map_option (\<lambda>_. Inr True) (tc_create client (''todo-'' @ nanos) ''description'')
         else if op \<in> {2, 3, 4, 5} then map_option (map_sum (\<lambda>e. e) (\<lambda>_. False)) (tc_list client)
         else if op \<in> {6, 7, 8} then map_option (map_sum (\<lambda>e. e) (\<lambda>_. False)) (tc_get client (''todo-'' @ worker_id))
         else if op = 9 then map_option (map_sum (\<lambda>e. e) (\<lambda>_. False)) (tc_delete client (''todo-'' @ worker_id))
         else Some (Inr False))"

text \<open>
  One turn of the loop for each call made in time: the client, the clock's nanoseconds as text and the
  latency measured. \<open>None\<close>: a call does not return.
\<close>

fun todo_worker_loop :: "string \<Rightarrow> ('h todo_client \<times> string \<times> 64 word) list \<Rightarrow> worker_result \<Rightarrow> worker_result option" where
  "todo_worker_loop worker_id [] (local_total, local_success, local_latencies) = Some (local_total, local_success, local_latencies)"
| "todo_worker_loop worker_id ((client, nanos, latency) # turns) (local_total, local_success, local_latencies) =
     (case todo_worker_op client worker_id nanos local_total of
        None \<Rightarrow> None
      | Some res \<Rightarrow> todo_worker_loop worker_id turns
          (local_total + 1, (case res of Inr _ \<Rightarrow> local_success + 1 | Inl _ \<Rightarrow> local_success), local_latencies @ [latency]))"

text \<open>The client over the wire, when the server's todos are \<open>s\<close>.\<close>

definition fbs_client :: "('h, 'x, 'o) setting \<Rightarrow> string \<Rightarrow> 64 word \<Rightarrow> todos \<Rightarrow> 'h todo_client" where
  "fbs_client S uuid now s =
     \<lparr>tc_create = fbs_create_todo (sn_ext S) (sn_tables S) (sn_uri S) (sn_client S) (sn_put_method S) (Inr ()) (todo_transport S uuid now s),
      tc_get = fbs_get_todo (sn_ext S) (sn_tables S) (sn_uri S) (sn_client S) (sn_put_method S) (Inr ()) (todo_transport S uuid now s),
      tc_list = fbs_list_todos (sn_ext S) (sn_tables S) (sn_uri S) (sn_client S) (sn_put_method S) (Inr ()) (todo_transport S uuid now s),
      tc_delete = fbs_delete_todo (sn_ext S) (sn_tables S) (sn_uri S) (sn_client S) (sn_put_method S) (Inr ()) (todo_transport S uuid now s)\<rparr>"

record moment =
  mo_history :: "todo_event list"
  mo_todos :: todos
  mo_uuid :: string
  mo_now :: "64 word"
  mo_nanos :: string
  mo_latency :: "64 word"

text \<open>The todos are those of the history, none of which was created under the worker's own name.\<close>

definition moment_ok :: "('h, 'x, 'o) setting \<Rightarrow> string \<Rightarrow> moment \<Rightarrow> bool" where
  "moment_ok S worker_id m \<longleftrightarrow> keeps_history (mo_todos m) (mo_history m) \<and>
     (\<forall>ev\<in>set (mo_history m). fst ev \<noteq> ''todo-'' @ worker_id) \<and>
     (\<forall>q\<in>{CreateQuery \<lparr>cq_title = Some (''todo-'' @ mo_nanos m), cq_description = Some ''description''\<rparr>,
          ListQuery ListTodosRequestT, GetQuery \<lparr>gq_id = Some (''todo-'' @ worker_id)\<rparr>,
          DeleteQuery \<lparr>dq_id = Some (''todo-'' @ worker_id)\<rparr>}. event_fits S (mo_history m) (mo_uuid m, mo_now m, q))"

subsection \<open>Lemmas\<close>

lemma live_unknown: "\<forall>ev\<in>set h. fst ev \<noteq> i \<Longrightarrow> live h i = None"
  by (induction h i rule: live.induct) auto

lemma moment_op:
  fixes S :: "('h, 'x, 'o) setting"
  assumes S: "setting_laws S" and m: "moment_ok S worker_id m"
  shows "\<exists>res. todo_worker_op (fbs_client S (mo_uuid m) (mo_now m) (mo_todos m)) worker_id (mo_nanos m) k = Some res \<and>
    ((\<exists>b. res = Inr b) \<longleftrightarrow> unat k mod 10 < 6)"
proof -
  let ?n = "''todo-'' @ worker_id"
  have h: "keeps_history (mo_todos m) (mo_history m)" using m by (simp add: moment_ok_def)
  have none: "live (mo_history m) ?n = None" using m by (intro live_unknown) (simp add: moment_ok_def)
  note returns = todo_client_returns [OF S h]
  have fits: "event_fits S (mo_history m) (mo_uuid m, mo_now m, CreateQuery \<lparr>cq_title = Some (''todo-'' @ mo_nanos m), cq_description = Some ''description''\<rparr>)"
    "event_fits S (mo_history m) (mo_uuid m, mo_now m, GetQuery \<lparr>gq_id = Some ?n\<rparr>)"
    "event_fits S (mo_history m) (mo_uuid m, mo_now m, ListQuery ListTodosRequestT)"
    "event_fits S (mo_history m) (mo_uuid m, mo_now m, DeleteQuery \<lparr>dq_id = Some ?n\<rparr>)"
    using m by (simp_all add: moment_ok_def)
  have c: "tc_create (fbs_client S (mo_uuid m) (mo_now m) (mo_todos m)) (''todo-'' @ mo_nanos m) ''description'' = Some (Inr (mo_uuid m))"
    "tc_list (fbs_client S (mo_uuid m) (mo_now m) (mo_todos m)) = Some (Inr ())"
    using returns(1) [OF fits(1)] returns(3) [OF fits(3)] by (simp_all add: fbs_client_def)
  have d: "\<exists>st. tc_get (fbs_client S (mo_uuid m) (mo_now m) (mo_todos m)) ?n = Some (Inl st)"
    "\<exists>st. tc_delete (fbs_client S (mo_uuid m) (mo_now m) (mo_todos m)) ?n = Some (Inl st)"
    using returns(2) [OF fits(2)] returns(4) [OF fits(4)] none by (auto simp: fbs_client_def found_or_not_def)
  have cases10: "j = 0 \<or> j = 1 \<or> j = 2 \<or> j = 3 \<or> j = 4 \<or> j = 5 \<or> j = 6 \<or> j = 7 \<or> j = 8 \<or> j = 9" if "j < 10" for j :: nat
    using that by (simp add: less_Suc_eq eval_nat_numeral)
  have "unat k mod 10 < 10" by simp
  from cases10 [OF this] show ?thesis
    by (elim disjE) (use c d in \<open>auto simp: todo_worker_op_def\<close>)
qed

lemma todo_loop_counts:
  fixes S :: "('h, 'x, 'o) setting"
  assumes S: "setting_laws S"
  shows "\<forall>m\<in>set ms. moment_ok S worker_id m \<Longrightarrow> unat t + length ms < 2 ^ 64 \<Longrightarrow>
    todo_worker_loop worker_id (map (\<lambda>m. (fbs_client S (mo_uuid m) (mo_now m) (mo_todos m), mo_nanos m, mo_latency m)) ms) (t, b, ls)
      = Some (t + of_nat (length ms), b + of_nat (length (filter (\<lambda>k. k mod 10 < 6) [unat t..<unat t + length ms])),
          ls @ map mo_latency ms)"
proof (induction ms arbitrary: t b ls)
  case (Cons m ms)
  have t1: "unat (t + 1) = unat t + 1"
  proof -
    have "unat t + unat (1 :: 64 word) < 2 ^ 64" using Cons.prems(2) by simp
    then show ?thesis by (simp add: unat_word_ariths)
  qed
  obtain res where res: "todo_worker_op (fbs_client S (mo_uuid m) (mo_now m) (mo_todos m)) worker_id (mo_nanos m) t = Some res"
    "(\<exists>b. res = Inr b) \<longleftrightarrow> unat t mod 10 < 6"
    using moment_op [OF S, of worker_id m t] Cons.prems(1) by auto
  have "[unat t..<unat t + length (m # ms)] = unat t # [unat (t + 1)..<unat (t + 1) + length ms]"
    by (subst upt_conv_Cons) (simp_all add: t1)
  moreover have "unat (t + 1) + length ms < 2 ^ 64" using Cons.prems(2) by (simp add: t1)
  ultimately show ?case
    using res Cons.IH [of "t + 1"] Cons.prems(1) by (cases res) (simp_all add: add_ac)
qed simp

subsection \<open>The property\<close>

text \<open>
  C40: What a worker of the todo load test measures, over FlatBuffers, the network and the server, in any
  interleaving with the other workers: every call returns, and of each ten calls six succeed. The
  identifier that the worker gets and deletes is made of its own number, while the server's identifiers
  are its own, so these calls always fail, and the ones that succeed are the creates, which count
  whatever comes back, and the lists.
\<close>

theorem todo_worker_success:
  fixes S :: "('h, 'x, 'o) setting"
  assumes "setting_laws S" "\<forall>m\<in>set ms. moment_ok S worker_id m" "length ms < 2 ^ 64"
  shows "todo_worker_loop worker_id (map (\<lambda>m. (fbs_client S (mo_uuid m) (mo_now m) (mo_todos m), mo_nanos m, mo_latency m)) ms) (0, 0, [])
    = Some (of_nat (length ms), of_nat (length (filter (\<lambda>k. k mod 10 < 6) [0..<length ms])), map mo_latency ms)"
  using todo_loop_counts [OF assms(1,2), where t = 0 and b = 0 and ls = "[]"] assms(3) by simp

definition example_moment :: moment where
  "example_moment =
     \<lparr>mo_history = [(''u'', 7, CreateQuery \<lparr>cq_title = Some ''t'', cq_description = None\<rparr>)],
      mo_todos = [(''u'', made ''u'' 7 \<lparr>cq_title = Some ''t'', cq_description = None\<rparr>)],
      mo_uuid = ''v'', mo_now = 8, mo_nanos = ''12'', mo_latency = 5\<rparr>"

theorem todo_worker_success_witness:
  "todo_worker_loop ''3'' (replicate 10 (fbs_client example_setting ''v'' 8 (mo_todos example_moment), ''12'', 5)) (0, 0, [])
    = Some (10, 6, replicate 10 5)"
proof -
  let ?h = "mo_history example_moment" and ?n = "''todo-3''"
  have one: "live ?h = [''u'' \<mapsto> made ''u'' 7 \<lparr>cq_title = Some ''t'', cq_description = None\<rparr>]"
    by (simp add: example_moment_def fun_eq_iff)
  then have "keeps_history (mo_todos example_moment) ?h" by (simp add: keeps_history_def example_moment_def)
  moreover have "event_fits example_setting ?h (''v'', 8, ListQuery ListTodosRequestT)"
  proof -
    have ids: "ids = [''u'']" if "distinct ids" "set ids = {''u''}" for ids :: "string list"
      using that by (cases ids) (auto simp: subset_singleton_iff)
    have d: "dom (live ?h) = {''u''}" by (simp add: one)
    have reply: "m = ListReply \<lparr>lp_todos = [made ''u'' 7 \<lparr>cq_title = Some ''t'', cq_description = None\<rparr>]\<rparr>"
      if answer: "todo_answer ?h (''v'', 8, ListQuery ListTodosRequestT) (Inr m :: alist status + todo_reply)" for m
    proof -
      obtain us where us: "distinct us" "set us = dom (live ?h)" "m = ListReply \<lparr>lp_todos = map (the \<circ> live ?h) us\<rparr>"
        using answer unfolding todo_answer_def by auto
      from us(1,2) have "us = [''u'']" unfolding d by (rule ids)
      with us(3) show ?thesis by (simp add: one)
    qed
    have "query_fits example_setting (ListQuery ListTodosRequestT)"
      "reply_fits example_setting (ListReply \<lparr>lp_todos = [made ''u'' 7 \<lparr>cq_title = Some ''t'', cq_description = None\<rparr>]\<rparr>)"
      by (simp_all add: example_sizes)
    with reply show ?thesis by (auto simp: event_fits_def)
  qed
  moreover have "event_fits example_setting ?h (''v'', 8, CreateQuery \<lparr>cq_title = Some ''todo-12'', cq_description = Some ''description''\<rparr>)"
    by (simp add: event_fits_def todo_answer_def example_sizes)
  moreover have "event_fits example_setting ?h (''v'', 8, GetQuery \<lparr>gq_id = Some ?n\<rparr>)"
    by (simp add: event_fits_def todo_answer_def one key_of_def not_found_def example_sizes)
  moreover have "event_fits example_setting ?h (''v'', 8, DeleteQuery \<lparr>dq_id = Some ?n\<rparr>)"
    by (simp add: event_fits_def todo_answer_def one key_of_def not_found_def example_sizes)
  ultimately have "moment_ok example_setting ''3'' example_moment" by (simp add: moment_ok_def example_moment_def)
  then have "\<forall>m\<in>set (replicate 10 example_moment). moment_ok example_setting ''3'' m" by simp
  moreover have "filter (\<lambda>k. k mod 10 < 6) [0..<10 :: nat] = [0, 1, 2, 3, 4, 5]" by (simp add: upt_rec)
  ultimately show ?thesis
    using todo_worker_success [OF example_setting_laws, of "replicate 10 example_moment" "''3''"]
    by (simp add: example_moment_def)
qed

end
