(* ===== verification/Calls.thy ===== *)
theory Calls
  imports Stack Loops
begin

section \<open>Calls that succeed\<close>

text \<open>
  The four kinds of calls of \<open>Stack\<close> for a client that does not compress, a server with the codec
  alone and no deadline, and a method that answers: the caller has the method's answer. The theories of
  the services that come with the library rest on these lemmas.
\<close>

lemma plain_unary_call:
  fixes X :: "('h, 'x) ext"
  assumes laws: "header_laws X" "value_laws X" "percent_laws X" "base64_laws X" "compressor_laws X"
    and net: "network_laws carry" "1 < n" and codecs: "codec_laws E DS" "codec_laws ES D"
    and uri: "client_uri X U C path = Inr p" and enc: "gc_send C = None"
    and msg: "deliverable X E None (gc_max_encoding C) None (rq_message request)"
    and ends: "\<forall>b. is_end b \<longrightarrow> b = []" and rt: "route iter R p = Some (as_service X handler)"
    and handler: "\<forall>r. hq_path r = p \<longrightarrow> handler r = server_unary X (grpc_server_new ES DS) svc r"
    and svc: "\<forall>req. rq_message req = rq_message request \<longrightarrow> svc req = Inr (response_new X a)"
    and reply: "deliverable X ES None None (gc_max_decoding C) a"
  shows "\<exists>resp. client_unary X U C E D (reaching X carry n (served X is_end iter R None peer_certs delay)) request path
    = Some (Inr resp) \<and> rs_message resp = a"
proof -
  let ?G = "grpc_server_new ES DS"
  have "\<exists>req r q. rq_message req = rq_message request \<and> same_metadata X (rq_metadata request) (rq_metadata req) \<and>
      prepare_request X U C (request_map (body_new eb_is_end_stream)
        (request_map (\<lambda>s. new_client E (stream_ok s) (gc_send C) (gc_max_encoding C)) (request_map (\<lambda>m. [Ready m]) request))) path = Inr q \<and>
      hq_path (delivered X carry n peer_certs is_end q) = p \<and>
      map_request_unary X ?G (delivered X carry n peer_certs is_end q) = Some (Inr req) \<and>
      client_unary X U C E D (reaching X carry n (served X is_end iter R None peer_certs delay)) request path = Some r \<and>
      once_result X (timed_result X None delay (svc req)) r"
    using laws net codecs uri enc msg ends rt handler svc reply
    by (intro unary_service_call) (simp_all add: plain_server answerable_once_def response_new_def)
  then show ?thesis using svc by (auto simp: timed_result_def once_result_def response_new_def)
qed

lemma plain_lister_call:
  fixes X :: "('h, 'x) ext"
  assumes laws: "header_laws X" "value_laws X" "percent_laws X" "base64_laws X" "compressor_laws X"
    and net: "network_laws carry" "1 < n" and codecs: "codec_laws E DS" "codec_laws ES D"
    and uri: "client_uri X U C path = Inr p" and enc: "gc_send C = None"
    and msg: "deliverable X E None (gc_max_encoding C) None (rq_message request)"
    and ends: "\<forall>b. is_end b \<longrightarrow> b = []" and rt: "route iter R p = Some (as_service X handler)"
    and handler: "\<forall>r. hq_path r = p \<longrightarrow> handler r = server_server_streaming X (grpc_server_new ES DS) svc r"
    and svc: "\<forall>req. rq_message req = rq_message request \<longrightarrow> svc req = Inr (response_new X (map SrcItem ms))"
    and replies: "\<forall>m\<in>set ms. deliverable X ES None None (gc_max_decoding C) m" "length ms < n"
  shows "\<exists>resp. client_server_streaming X U C E D (reaching X carry n (served X is_end iter R None peer_certs delay)) request path
    = Inr resp \<and> stream_yields X (rs_message resp) ms (Inr ())"
proof -
  let ?G = "grpc_server_new ES DS"
  have ans: "answerable X ?G None (gc_max_decoding C) n (Inr (response_new X (map SrcItem ms)))"
    using replies by (intro items_answerable) (simp_all add: plain_server)
  have "\<exists>req. rq_message req = rq_message request \<and> same_metadata X (rq_metadata request) (rq_metadata req) \<and>
      stream_result X ?G (negotiated C ?G) (timed_result X None delay (svc req))
        (client_server_streaming X U C E D (reaching X carry n (served X is_end iter R None peer_certs delay)) request path)"
    using laws net codecs uri enc msg ends rt handler svc ans
    by (intro lister_service_call) (simp_all add: plain_server)
  then have "stream_result X ?G None (Inr (response_new X (map SrcItem ms)))
      (client_server_streaming X U C E D (reaching X carry n (served X is_end iter R None peer_certs delay)) request path)"
    using svc by (auto simp: timed_result_def plain_server)
  from items_complete [OF this, of "gc_max_decoding C"] replies(1) show ?thesis by (simp add: plain_server)
qed

lemma plain_recorder_call:
  fixes X :: "('h, 'x) ext" and request :: "('h, 'x, 'm poll list) request"
  assumes laws: "header_laws X" "value_laws X" "percent_laws X" "base64_laws X" "compressor_laws X"
    and net: "network_laws carry" "1 < n" "length (rq_message request) < n" and codecs: "codec_laws E DS" "codec_laws ES D"
    and uri: "client_uri X U C path = Inr p" and enc: "gc_send C = None"
    and msgs: "rq_message request = map Ready qs" "\<forall>q\<in>set qs. deliverable X E None (gc_max_encoding C) None q"
    and ends: "\<forall>b. is_end b \<longrightarrow> b = []" and rt: "route iter R p = Some (as_service X handler)"
    and handler: "\<forall>r. hq_path r = p \<longrightarrow> handler r = Some (server_client_streaming X (grpc_server_new ES DS) svc r)"
    and svc: "\<forall>req. stream_yields X (rq_message req) qs (Inr ()) \<longrightarrow> svc req = Inr (response_new X a)"
    and reply: "deliverable X ES None None (gc_max_decoding C) a"
  shows "\<exists>resp. client_client_streaming X U C E D (reaching X carry n (served X is_end iter R None peer_certs delay)) request path
    = Some (Inr resp) \<and> rs_message resp = a"
proof -
  let ?G = "grpc_server_new ES DS"
  have ans: "answerable_once X ?G (negotiated C ?G) (gc_max_decoding C) (Inr (response_new X a))"
    unfolding plain_server using reply by (simp add: answerable_once_def response_new_def plain_server)
  have "\<exists>req r. stream_yields X (rq_message req) (stream_items (rq_message request)) (Inr ()) \<and>
      same_metadata X (rq_metadata request) (rq_metadata req) \<and>
      client_client_streaming X U C E D (reaching X carry n (served X is_end iter R None peer_certs delay)) request path = Some r \<and>
      once_result X (timed_result X None delay (svc req)) r"
  proof (rule recorder_service_call [OF laws net _ _ uri _ _ ends rt handler])
    show "\<forall>req. stream_yields X (rq_message req) (stream_items (rq_message request)) (Inr ()) \<longrightarrow>
        answerable_once X ?G (negotiated C ?G) (gc_max_decoding C) (svc req)"
      using svc ans by (metis msgs(1) ready_stream(1))
  qed (use codecs enc items_encode(1) [OF msgs(2)] in \<open>simp_all add: plain_server msgs(1)\<close>)
  then show ?thesis using svc by (auto simp: timed_result_def once_result_def response_new_def msgs(1))
qed

lemma plain_bidi_call:
  fixes X :: "('h, 'x) ext" and request :: "('h, 'x, 'm poll list) request"
  assumes laws: "header_laws X" "value_laws X" "percent_laws X" "base64_laws X" "compressor_laws X"
    and net: "network_laws carry" "length (rq_message request) < n" and codecs: "codec_laws E DS" "codec_laws ES D"
    and uri: "client_uri X U C path = Inr p" and enc: "gc_send C = None"
    and msgs: "rq_message request = map Ready qs" "\<forall>q\<in>set qs. deliverable X E None (gc_max_encoding C) None q"
    and ends: "\<forall>b. is_end b \<longrightarrow> b = []" and rt: "route iter R p = Some (as_service X handler)"
    and handler: "\<forall>r. hq_path r = p \<longrightarrow> handler r = Some (server_streaming X (grpc_server_new ES DS) svc r)"
    and svc: "\<forall>req. stream_yields X (rq_message req) qs (Inr ()) \<longrightarrow> svc req = Inr (response_new X (map SrcItem ms))"
    and replies: "\<forall>m\<in>set ms. deliverable X ES None None (gc_max_decoding C) m" "length ms < n"
  shows "\<exists>resp. client_streaming_call X U C E D (reaching X carry n (served X is_end iter R None peer_certs delay)) request path
    = Inr resp \<and> stream_yields X (rs_message resp) ms (Inr ())"
proof -
  let ?G = "grpc_server_new ES DS"
  have ans: "answerable X ?G None (gc_max_decoding C) n (Inr (response_new X (map SrcItem ms)))"
    using replies by (intro items_answerable) (simp_all add: plain_server)
  have "\<exists>req. stream_yields X (rq_message req) (stream_items (rq_message request)) (Inr ()) \<and>
      same_metadata X (rq_metadata request) (rq_metadata req) \<and>
      stream_result X ?G (negotiated C ?G) (timed_result X None delay (svc req))
        (client_streaming_call X U C E D (reaching X carry n (served X is_end iter R None peer_certs delay)) request path)"
    using laws net codecs uri enc ends rt handler svc ans items_encode(1) [OF msgs(2)]
    by (intro bidi_service_call) (simp_all add: plain_server msgs(1))
  then have "stream_result X ?G None (Inr (response_new X (map SrcItem ms)))
      (client_streaming_call X U C E D (reaching X carry n (served X is_end iter R None peer_certs delay)) request path)"
    using svc by (auto simp: timed_result_def plain_server msgs(1))
  from items_complete [OF this, of "gc_max_decoding C"] replies(1) show ?thesis by (simp add: plain_server)
qed

end
