(* ===== verification/Bench.thy ===== *)
theory Bench
  imports Calls
begin

section \<open>The benchmark service over the wire\<close>

text \<open>
  \<^verbatim>\<open>benchmarks/bin/prost_benchmark_server.rs\<close>, a service with one method of each
  kind, and its client in \<^verbatim>\<open>benchmarks/bin/streaming_load_test.rs\<close>, with the whole
  library between them. The server generated from the schema is a parameter that takes each path to
  its method. The property states what each method of the client returns.
\<close>

subsection \<open>Messages\<close>

record benchmark_request =
  br_id :: "64 word"
  br_payload :: string
  br_numbers :: "64 word list"

record benchmark_response =
  bp_id :: "64 word"
  bp_payload :: string
  bp_numbers :: "64 word list"

datatype payload_size = Tiny | Small | Medium | Large

definition payload_bytes :: "payload_size \<Rightarrow> nat" where
  "payload_bytes s = (case s of Tiny \<Rightarrow> 64 | Small \<Rightarrow> 1024 | Medium \<Rightarrow> 64 * 1024 | Large \<Rightarrow> 1024 * 1024)"

definition BENCHMARK_NUMBERS_COUNT :: nat where "BENCHMARK_NUMBERS_COUNT = 10"

definition benchmark_request_new :: "64 word \<Rightarrow> payload_size \<Rightarrow> benchmark_request" where
  "benchmark_request_new i s =
     (let payload_len = payload_bytes s - 24
      in \<lparr>br_id = i, br_payload = replicate (max payload_len 1) CHR ''x'',
          br_numbers = map of_nat [0..<BENCHMARK_NUMBERS_COUNT]\<rparr>)"

subsection \<open>The server\<close>

definition STREAM_COUNT :: nat where "STREAM_COUNT = 1000"

definition bench_unary_call ::
  "('h, 'x) ext \<Rightarrow> ('h, 'x, benchmark_request) request \<Rightarrow> 'h status + ('h, 'x, benchmark_response) response" where
  "bench_unary_call X request =
     (let req = rq_message request
      in Inr (response_new X \<lparr>bp_id = br_id req, bp_payload = br_payload req, bp_numbers = br_numbers req\<rparr>))"

text \<open>
  Identifiers wrap, as in the release build the benchmark runs. A method that reads a request stream
  which never ends does not answer; the value given for it stands for no behaviour of the server, and no
  statement reaches it.
\<close>

definition bench_server_stream ::
  "('h, 'x) ext \<Rightarrow> ('h, 'x, benchmark_request) request
     \<Rightarrow> 'h status + ('h, 'x, ('h, benchmark_response) src_ev list) response" where
  "bench_server_stream X request =
     (let req = rq_message request
      in Inr (response_new X (map SrcItem (map (\<lambda>i.
           \<lparr>bp_id = br_id req + of_nat i, bp_payload = br_payload req, bp_numbers = br_numbers req\<rparr>) [0..<STREAM_COUNT]))))"

definition bench_accumulate :: "benchmark_request list \<Rightarrow> 64 word \<times> string \<times> 64 word list" where
  "bench_accumulate reqs =
     fold (\<lambda>req (last_id, total_payload, all_numbers).
         (br_id req, total_payload @ br_payload req, all_numbers @ br_numbers req)) reqs (0, [], [])"

definition bench_client_stream ::
  "('h, 'x) ext \<Rightarrow> ('h, 'x, ('h, benchmark_request) streaming) request \<Rightarrow> 'h status + ('h, 'x, benchmark_response) response" where
  "bench_client_stream X request =
     (case stream_read X (rq_message request) of
        Some (reqs, Inr _) \<Rightarrow>
          (case bench_accumulate reqs of (last_id, total_payload, all_numbers) \<Rightarrow>
             Inr (response_new X
               \<lparr>bp_id = last_id, bp_payload = (if utf8_valid total_payload then total_payload else []),
                bp_numbers = all_numbers\<rparr>))
      | Some (reqs, Inl e) \<Rightarrow> Inl e
      | None \<Rightarrow> Inl (status_new X Internal []))"

text \<open>
  The response stream is the request stream with each message turned into a response; the body that
  sends it ends with the first error.
\<close>

definition bench_bi_di_stream ::
  "('h, 'x) ext \<Rightarrow> ('h, 'x, ('h, benchmark_request) streaming) request
     \<Rightarrow> 'h status + ('h, 'x, ('h, benchmark_response) src_ev list) response" where
  "bench_bi_di_stream X request =
     Inr (response_new X
       (case stream_read X (rq_message request) of
          Some (reqs, outcome) \<Rightarrow>
            map SrcItem (map (\<lambda>req. \<lparr>bp_id = br_id req, bp_payload = br_payload req, bp_numbers = br_numbers req\<rparr>) reqs)
              @ (case outcome of Inl e \<Rightarrow> [SrcErr e] | Inr _ \<Rightarrow> [])
        | None \<Rightarrow> []))"

text \<open>What the generated server does with the four paths.\<close>

definition bench_dispatch ::
  "('h, 'x) ext \<Rightarrow> ('h, benchmark_request, benchmark_response) grpc_server
     \<Rightarrow> (('h, 'x) raw_request \<Rightarrow> ('h, 'x, benchmark_response) grpc_http_response option) \<Rightarrow> bool" where
  "bench_dispatch X G handler \<longleftrightarrow> (\<forall>r.
     (hq_path r = ''/benchmark.BenchmarkService/UnaryCall'' \<longrightarrow> handler r = server_unary X G (bench_unary_call X) r) \<and>
     (hq_path r = ''/benchmark.BenchmarkService/ServerStream'' \<longrightarrow>
        handler r = server_server_streaming X G (bench_server_stream X) r) \<and>
     (hq_path r = ''/benchmark.BenchmarkService/ClientStream'' \<longrightarrow>
        handler r = Some (server_client_streaming X G (bench_client_stream X) r)) \<and>
     (hq_path r = ''/benchmark.BenchmarkService/BiDiStream'' \<longrightarrow>
        handler r = Some (server_streaming X G (bench_bi_di_stream X) r)))"

subsection \<open>The client\<close>

definition bc_unary_call ::
  "('h, 'x) ext \<Rightarrow> 'o uri_ops \<Rightarrow> 'o grpc_client \<Rightarrow> (grpc_method \<Rightarrow> 'x \<Rightarrow> 'x) \<Rightarrow> 'h err + unit
     \<Rightarrow> ('h, benchmark_request) encoder \<Rightarrow> ('h, benchmark_response) decoder \<Rightarrow> ('h, 'x, benchmark_request) transport
     \<Rightarrow> 64 word \<Rightarrow> payload_size \<Rightarrow> ('h status + unit) option" where
  "bc_unary_call X U C put_method ready E D transport i s =
     (let req = method_request X put_method ''benchmark.BenchmarkService'' ''UnaryCall'' (benchmark_request_new i s)
      in case client_ready X ready of
           Inl st \<Rightarrow> Some (Inl st)
         | Inr _ \<Rightarrow> map_option (map_sum id (\<lambda>_. ()))
             (client_unary X U C E D transport req ''/benchmark.BenchmarkService/UnaryCall''))"

definition bc_server_stream ::
  "('h, 'x) ext \<Rightarrow> 'o uri_ops \<Rightarrow> 'o grpc_client \<Rightarrow> (grpc_method \<Rightarrow> 'x \<Rightarrow> 'x) \<Rightarrow> 'h err + unit
     \<Rightarrow> ('h, benchmark_request) encoder \<Rightarrow> ('h, benchmark_response) decoder \<Rightarrow> ('h, 'x, benchmark_request) transport
     \<Rightarrow> 64 word \<Rightarrow> payload_size \<Rightarrow> ('h status + benchmark_response list) option" where
  "bc_server_stream X U C put_method ready E D transport i s =
     (let req = method_request X put_method ''benchmark.BenchmarkService'' ''ServerStream'' (benchmark_request_new i s)
      in case client_ready X ready of
           Inl st \<Rightarrow> Some (Inl st)
         | Inr _ \<Rightarrow>
             (case client_server_streaming X U C E D transport req ''/benchmark.BenchmarkService/ServerStream'' of
                Inl st \<Rightarrow> Some (Inl st)
              | Inr response \<Rightarrow> stream_to_list X (rs_message response)))"

definition bench_requests :: "nat \<Rightarrow> payload_size \<Rightarrow> benchmark_request list" where
  "bench_requests amount s = map (\<lambda>i. benchmark_request_new (of_nat i) s) [0..<amount]"

definition bc_client_stream ::
  "('h, 'x) ext \<Rightarrow> 'o uri_ops \<Rightarrow> 'o grpc_client \<Rightarrow> (grpc_method \<Rightarrow> 'x \<Rightarrow> 'x) \<Rightarrow> 'h err + unit
     \<Rightarrow> ('h, benchmark_request) encoder \<Rightarrow> ('h, benchmark_response) decoder \<Rightarrow> ('h, 'x, benchmark_request) transport
     \<Rightarrow> nat \<Rightarrow> payload_size \<Rightarrow> ('h status + benchmark_response) option" where
  "bc_client_stream X U C put_method ready E D transport amount s =
     (let req = method_request X put_method ''benchmark.BenchmarkService'' ''ClientStream'' (map Ready (bench_requests amount s))
      in case client_ready X ready of
           Inl st \<Rightarrow> Some (Inl st)
         | Inr _ \<Rightarrow> map_option (map_sum id rs_message)
             (client_client_streaming X U C E D transport req ''/benchmark.BenchmarkService/ClientStream''))"

definition bc_bi_di_stream ::
  "('h, 'x) ext \<Rightarrow> 'o uri_ops \<Rightarrow> 'o grpc_client \<Rightarrow> (grpc_method \<Rightarrow> 'x \<Rightarrow> 'x) \<Rightarrow> 'h err + unit
     \<Rightarrow> ('h, benchmark_request) encoder \<Rightarrow> ('h, benchmark_response) decoder \<Rightarrow> ('h, 'x, benchmark_request) transport
     \<Rightarrow> nat \<Rightarrow> payload_size \<Rightarrow> ('h status + benchmark_response list) option" where
  "bc_bi_di_stream X U C put_method ready E D transport amount s =
     (let req = method_request X put_method ''benchmark.BenchmarkService'' ''BiDiStream'' (map Ready (bench_requests amount s))
      in case client_ready X ready of
           Inl st \<Rightarrow> Some (Inl st)
         | Inr _ \<Rightarrow>
             (case client_streaming_call X U C E D transport req ''/benchmark.BenchmarkService/BiDiStream'' of
                Inl st \<Rightarrow> Some (Inl st)
              | Inr response \<Rightarrow> stream_to_list X (rs_message response)))"

subsection \<open>Lemmas\<close>

text \<open>The response to the request with an identifier, and to a stream of requests.\<close>

definition bench_text :: "payload_size \<Rightarrow> string" where
  "bench_text s = replicate (max (payload_bytes s - 24) 1) CHR ''x''"

definition bench_numbers :: "64 word list" where
  "bench_numbers = map of_nat [0..<BENCHMARK_NUMBERS_COUNT]"

definition bench_response :: "64 word \<Rightarrow> payload_size \<Rightarrow> benchmark_response" where
  "bench_response i s = \<lparr>bp_id = i, bp_payload = bench_text s, bp_numbers = bench_numbers\<rparr>"

definition bench_total :: "nat \<Rightarrow> payload_size \<Rightarrow> benchmark_response" where
  "bench_total amount s =
     \<lparr>bp_id = (if amount = 0 then 0 else of_nat (amount - 1)), bp_payload = concat (replicate amount (bench_text s)),
      bp_numbers = concat (replicate amount bench_numbers)\<rparr>"

lemma request_fields:
  "br_id (benchmark_request_new i s) = i" "br_payload (benchmark_request_new i s) = bench_text s"
  "br_numbers (benchmark_request_new i s) = bench_numbers"
  by (simp_all add: benchmark_request_new_def Let_def bench_text_def bench_numbers_def)

lemma concat_snoc: "concat (replicate k xs) @ xs = xs @ concat (replicate k xs)"
  by (induction k) simp_all

lemma accumulate_requests:
  "bench_accumulate (bench_requests amount s)
    = (bp_id (bench_total amount s), bp_payload (bench_total amount s), bp_numbers (bench_total amount s))"
proof (induction amount)
  case 0
  show ?case by (simp add: bench_accumulate_def bench_requests_def bench_total_def)
next
  case (Suc amount)
  then show ?case
    by (simp add: bench_accumulate_def bench_requests_def bench_total_def request_fields concat_snoc)
qed

lemma total_payload_valid: "utf8_valid (bp_payload (bench_total amount s))"
proof -
  have "set (bp_payload (bench_total amount s)) \<subseteq> {CHR ''x''}"
    by (auto simp: bench_total_def bench_text_def)
  then show ?thesis unfolding utf8_valid_def by (intro utf8_ok_ascii) auto
qed

text \<open>What the methods answer to the requests of the client.\<close>

lemma bench_answers:
  "rq_message q = benchmark_request_new i s \<Longrightarrow> bench_unary_call X q = Inr (response_new X (bench_response i s))"
  "rq_message q = benchmark_request_new i s \<Longrightarrow>
    bench_server_stream X q = Inr (response_new X (map SrcItem (map (\<lambda>k. bench_response (i + of_nat k) s) [0..<STREAM_COUNT])))"
  by (simp_all add: bench_unary_call_def bench_server_stream_def Let_def bench_response_def request_fields)

lemma bench_stream_answers:
  assumes "stream_yields X (rq_message q) (bench_requests amount s) (Inr ())"
  shows "bench_client_stream X q = Inr (response_new X (bench_total amount s))"
    and "bench_bi_di_stream X q = Inr (response_new X (map SrcItem (map (\<lambda>k. bench_response (of_nat k) s) [0..<amount])))"
proof -
  note read = stream_read_yields [OF assms]
  show "bench_client_stream X q = Inr (response_new X (bench_total amount s))"
    by (simp add: bench_client_stream_def read accumulate_requests total_payload_valid)
       (simp add: bench_total_def)
  show "bench_bi_di_stream X q = Inr (response_new X (map SrcItem (map (\<lambda>k. bench_response (of_nat k) s) [0..<amount])))"
    by (simp add: bench_bi_di_stream_def read bench_requests_def bench_response_def request_fields comp_def)
qed

subsection \<open>The property\<close>

definition bench_transport ::
  "('h, 'x) ext \<Rightarrow> ('h body \<Rightarrow> 'h body) \<Rightarrow> nat \<Rightarrow> (('h, 'h err) raw_body \<Rightarrow> bool)
     \<Rightarrow> ((string \<times> ('h, 'x, ('h, 'h err) raw_body body_kind body_kind, ('h, benchmark_response) encode_body body_kind) service) list
         \<Rightarrow> (string \<times> ('h, 'x, ('h, 'h err) raw_body body_kind body_kind, ('h, benchmark_response) encode_body body_kind) service) list)
     \<Rightarrow> (('h, 'x) raw_request \<Rightarrow> ('h, 'x, benchmark_response) grpc_http_response option) \<Rightarrow> nat
     \<Rightarrow> ('h, 'x, benchmark_request) transport" where
  "bench_transport X carry n is_end iter handler delay =
     reaching X carry n (served X is_end iter
       (add_service router_new ''benchmark.BenchmarkService'' (as_service X handler)) None None delay)"

text \<open>
  C15: What each method of the benchmark client returns, through the network, the server and the router,
  when the messages are within the limits of size. A unary call succeeds; a server stream gives its
  thousand responses in order, with identifiers counted from that of the request; a client stream
  gives one response with the last identifier and the payloads and numbers of all requests put
  together; a bidirectional stream gives one response for each request, in order.
\<close>

theorem benchmark_calls_over_the_wire:
  fixes X :: "('h, 'x) ext" and ES :: "('h, benchmark_response) encoder" and DS :: "('h, benchmark_request) decoder"
  assumes laws: "header_laws X" "value_laws X" "percent_laws X" "base64_laws X" "compressor_laws X"
    and net: "network_laws carry" "STREAM_COUNT < n" "amount < n"
    and codecs: "codec_laws E DS" "codec_laws ES D"
    and uri: "\<forall>m. client_uri X U C (''/benchmark.BenchmarkService/'' @ m) = Inr (''/benchmark.BenchmarkService/'' @ m)"
    and enc: "gc_send C = None"
    and requests: "\<forall>i. deliverable X E None (gc_max_encoding C) None (benchmark_request_new i s)"
    and responses: "\<forall>i. deliverable X ES None None (gc_max_decoding C) (bench_response i s)"
      "deliverable X ES None None (gc_max_decoding C) (bench_total amount s)"
    and env: "\<forall>b. is_end b \<longrightarrow> b = []" "\<forall>xs. mset (iter xs) = mset xs"
    and dispatch: "bench_dispatch X (grpc_server_new ES DS) handler"
  shows "bc_unary_call X U C put_method (Inr ()) E D (bench_transport X carry n is_end iter handler delay) i s = Some (Inr ()) \<and>
    bc_server_stream X U C put_method (Inr ()) E D (bench_transport X carry n is_end iter handler delay) i s
      = Some (Inr (map (\<lambda>k. bench_response (i + of_nat k) s) [0..<STREAM_COUNT])) \<and>
    bc_client_stream X U C put_method (Inr ()) E D (bench_transport X carry n is_end iter handler delay) amount s
      = Some (Inr (bench_total amount s)) \<and>
    bc_bi_di_stream X U C put_method (Inr ()) E D (bench_transport X carry n is_end iter handler delay) amount s
      = Some (Inr (map (\<lambda>k. bench_response (of_nat k) s) [0..<amount]))"
proof -
  let ?name = "''benchmark.BenchmarkService''" and ?tr = "bench_transport X carry n is_end iter handler delay"
  let ?ss = "map (\<lambda>k. bench_response (i + of_nat k) s) [0..<STREAM_COUNT]" and ?bs = "map (\<lambda>k. bench_response (of_nat k) s) [0..<amount]"
  have n: "1 < n" using net(2) by (simp add: STREAM_COUNT_def)
  have name: "CHR ''/'' \<notin> set ?name" by simp
  note at = uri [rule_format] route_only [OF env(2) name, of "as_service X handler"]
  have msgs: "\<forall>q\<in>set (bench_requests amount s). deliverable X E None (gc_max_encoding C) None q"
    using requests by (auto simp: bench_requests_def)
  have "\<exists>resp. client_unary X U C E D ?tr (method_request X put_method ?name ''UnaryCall'' (benchmark_request_new i s))
      ''/benchmark.BenchmarkService/UnaryCall'' = Some (Inr resp) \<and> rs_message resp = bench_response i s"
    unfolding bench_transport_def
    by (rule plain_unary_call [OF laws net(1) n codecs _ enc _ env(1) at(2) [of "''UnaryCall''"]])
       (use at(1) [of "''UnaryCall''"] requests responses(1) dispatch in \<open>auto simp: bench_dispatch_def bench_answers\<close>)
  then have "bc_unary_call X U C put_method (Inr ()) E D ?tr i s = Some (Inr ())"
    by (auto simp: bc_unary_call_def client_ready_def Let_def)
  moreover have "\<exists>resp. client_server_streaming X U C E D ?tr (method_request X put_method ?name ''ServerStream'' (benchmark_request_new i s))
      ''/benchmark.BenchmarkService/ServerStream'' = Inr resp \<and> stream_yields X (rs_message resp) ?ss (Inr ())"
    unfolding bench_transport_def
    by (rule plain_lister_call [OF laws net(1) n codecs _ enc _ env(1) at(2) [of "''ServerStream''"]])
       (use at(1) [of "''ServerStream''"] requests responses(1) net(2) dispatch in \<open>auto simp: bench_dispatch_def bench_answers\<close>)
  then have "bc_server_stream X U C put_method (Inr ()) E D ?tr i s = Some (Inr ?ss)"
    by (auto simp: bc_server_stream_def client_ready_def Let_def complete_list)
  moreover have "\<exists>resp. client_client_streaming X U C E D ?tr
      (method_request X put_method ?name ''ClientStream'' (map Ready (bench_requests amount s)))
      ''/benchmark.BenchmarkService/ClientStream'' = Some (Inr resp) \<and> rs_message resp = bench_total amount s"
    unfolding bench_transport_def
    by (rule plain_recorder_call [OF laws net(1) n _ codecs _ enc _ msgs env(1) at(2) [of "''ClientStream''"]])
       (use at(1) [of "''ClientStream''"] net(3) responses(2) dispatch in
         \<open>auto simp: bench_dispatch_def bench_stream_answers bench_requests_def\<close>)
  then have "bc_client_stream X U C put_method (Inr ()) E D ?tr amount s = Some (Inr (bench_total amount s))"
    by (auto simp: bc_client_stream_def client_ready_def Let_def)
  moreover have "\<exists>resp. client_streaming_call X U C E D ?tr
      (method_request X put_method ?name ''BiDiStream'' (map Ready (bench_requests amount s)))
      ''/benchmark.BenchmarkService/BiDiStream'' = Inr resp \<and> stream_yields X (rs_message resp) ?bs (Inr ())"
    unfolding bench_transport_def
    by (rule plain_bidi_call [OF laws net(1) _ codecs _ enc _ msgs env(1) at(2) [of "''BiDiStream''"]])
       (use at(1) [of "''BiDiStream''"] net(3) responses(1) dispatch in
         \<open>auto simp: bench_dispatch_def bench_stream_answers bench_requests_def\<close>)
  then have "bc_bi_di_stream X U C put_method (Inr ()) E D ?tr amount s = Some (Inr ?bs)"
    by (auto simp: bc_bi_di_stream_def client_ready_def Let_def complete_list)
  ultimately show ?thesis by blast
qed

definition wire_request :: "benchmark_request wire_format" where
  "wire_request = wire_map (\<lambda>r. (br_id r, br_payload r, br_numbers r))
     (\<lambda>(i, p, n). \<lparr>br_id = i, br_payload = p, br_numbers = n\<rparr>) (wire_pair wire_word (wire_pair wire_text (wire_list wire_word)))"

definition wire_response :: "benchmark_response wire_format" where
  "wire_response = wire_map (\<lambda>r. (bp_id r, bp_payload r, bp_numbers r))
     (\<lambda>(i, p, n). \<lparr>bp_id = i, bp_payload = p, bp_numbers = n\<rparr>) (wire_pair wire_word (wire_pair wire_text (wire_list wire_word)))"

lemma bench_formats: "wire_ok wire_request" "wire_ok wire_response"
  unfolding wire_request_def wire_response_def by (intro wire_ok_parts wire_ok_scalars; simp)+

definition example_dispatch ::
  "(alist, benchmark_request, benchmark_response) grpc_server \<Rightarrow> (alist, bytes list option) raw_request
     \<Rightarrow> (alist, bytes list option, benchmark_response) grpc_http_response option" where
  "example_dispatch G r =
     (if hq_path r = ''/benchmark.BenchmarkService/UnaryCall'' then server_unary ref_ext G (bench_unary_call ref_ext) r
      else if hq_path r = ''/benchmark.BenchmarkService/ServerStream''
      then server_server_streaming ref_ext G (bench_server_stream ref_ext) r
      else if hq_path r = ''/benchmark.BenchmarkService/ClientStream''
      then Some (server_client_streaming ref_ext G (bench_client_stream ref_ext) r)
      else Some (server_streaming ref_ext G (bench_bi_di_stream ref_ext) r))"

theorem benchmark_calls_over_the_wire_witness:
  "bc_client_stream ref_ext plain_uri plain_client (\<lambda>_ x. x) (Inr ()) (prost_encoder ref_ext (wire_encode wire_request))
     (prost_decoder ref_ext (wire_decode wire_response))
     (bench_transport ref_ext byte_wise 1001 (\<lambda>b. b = []) rev
        (example_dispatch (grpc_server_new (prost_encoder ref_ext (wire_encode wire_response))
          (prost_decoder ref_ext (wire_decode wire_request)))) 3) 3 Tiny
   = Some (Inr \<lparr>bp_id = 2, bp_payload = replicate 120 CHR ''x'', bp_numbers = concat (replicate 3 [0, 1, 2, 3, 4, 5, 6, 7, 8, 9])\<rparr>)"
proof -
  note small = wire_length wire_request_def wire_response_def bench_response_def bench_total_def request_fields bench_text_def
    bench_numbers_def BENCHMARK_NUMBERS_COUNT_def payload_bytes_def recv_limit_def DEFAULT_MAX_RECV_MESSAGE_SIZE_def
    length_concat sum_list_replicate
  have enc: "gc_send plain_client = None" "gc_max_encoding plain_client = None" "gc_max_decoding plain_client = None"
    by (simp_all add: plain_client_def client_with_origin_def)
  have uri: "\<forall>m. client_uri ref_ext plain_uri plain_client (''/benchmark.BenchmarkService/'' @ m) = Inr (''/benchmark.BenchmarkService/'' @ m)"
    by (simp add: plain_client_def client_with_origin_def client_uri_def plain_uri_def)
  have req: "\<forall>i. deliverable ref_ext (prost_encoder ref_ext (wire_encode wire_request)) None (gc_max_encoding plain_client) None
      (benchmark_request_new i Tiny)"
    unfolding enc by (intro allI wire_deliverable) (simp_all add: small)
  have resp: "\<forall>i. deliverable ref_ext (prost_encoder ref_ext (wire_encode wire_response)) None None (gc_max_decoding plain_client)
      (bench_response i Tiny)"
    unfolding enc by (intro allI wire_deliverable) (simp_all add: small)
  have total: "deliverable ref_ext (prost_encoder ref_ext (wire_encode wire_response)) None None (gc_max_decoding plain_client)
      (bench_total 3 Tiny)"
    unfolding enc by (intro wire_deliverable) (simp_all add: small)
  have dispatch: "bench_dispatch ref_ext G (example_dispatch G)" for G
    by (simp add: bench_dispatch_def example_dispatch_def)
  have size: "STREAM_COUNT < 1001" "(3::nat) < 1001" by (simp_all add: STREAM_COUNT_def)
  have env: "\<forall>b. b = [] \<longrightarrow> b = []" "\<forall>xs. mset (rev xs) = mset xs" by simp_all
  have response: "bench_total 3 Tiny = \<lparr>bp_id = 2, bp_payload = replicate 120 CHR ''x'',
      bp_numbers = concat (replicate 3 [0, 1, 2, 3, 4, 5, 6, 7, 8, 9])\<rparr>"
    by (simp add: bench_total_def bench_text_def bench_numbers_def BENCHMARK_NUMBERS_COUNT_def payload_bytes_def
        numeral_3_eq_3 upt_rec replicate_add [symmetric])
  show ?thesis
    unfolding response [symmetric]
    using benchmark_calls_over_the_wire [OF ref_header_laws ref_value_laws ref_percent_laws ref_base64_laws ref_compressor_laws
        byte_wise_network size wire_codec_laws [OF bench_formats(1)] wire_codec_laws [OF bench_formats(2)] uri enc(1) req resp
        total env dispatch]
    by blast
qed

end
