(* ===== verification/Greeter.thy ===== *)
theory Greeter
  imports Calls
begin

section \<open>The greeter examples\<close>

text \<open>
  \<^verbatim>\<open>examples/greeter-proto\<close>, whose server has a method of each kind and is put on a router
  beside the reflection service, and whose client calls them one after the other and prints what it
  gets, and the server of \<^verbatim>\<open>examples/greeter-fbs\<close>. The code generated from the schema is a
  parameter. The property states what the client prints.
\<close>

subsection \<open>The servers\<close>

record hello_request =
  hr_name :: string

record hello_reply =
  hy_message :: string

definition greet :: "string \<Rightarrow> hello_reply" where
  "greet name = \<lparr>hy_message = ''Hello, '' @ name @ ''!''\<rparr>"

definition say_hello ::
  "('h, 'x) ext \<Rightarrow> ('h, 'x, hello_request) request \<Rightarrow> 'h status + ('h, 'x, hello_reply) response" where
  "say_hello X request = (let name = hr_name (rq_message request) in Inr (response_new X (greet name)))"

definition say_hello_server_stream ::
  "('h, 'x) ext \<Rightarrow> ('h, 'x, hello_request) request \<Rightarrow> 'h status + ('h, 'x, ('h, hello_reply) src_ev list) response" where
  "say_hello_server_stream X request =
     (let name = hr_name (rq_message request)
      in Inr (response_new X (map SrcItem (map (\<lambda>i.
           \<lparr>hy_message = ''Hello, '' @ name @ ''! (message '' @ show_nat i @ '')''\<rparr>) [0..<3]))))"

text \<open>
  A method that reads a request stream which never ends does not answer; the value given for it stands
  for no behaviour of the server, and no statement reaches it.
\<close>

definition say_hello_client_stream ::
  "('h, 'x) ext \<Rightarrow> ('h, 'x, ('h, hello_request) streaming) request \<Rightarrow> 'h status + ('h, 'x, hello_reply) response" where
  "say_hello_client_stream X request =
     (case stream_read X (rq_message request) of
        Some (msgs, Inr _) \<Rightarrow> (let names = map hr_name msgs in Inr (response_new X (greet (str_join '', '' names))))
      | Some (msgs, Inl e) \<Rightarrow> Inl e
      | None \<Rightarrow> Inl (status_new X Internal []))"

text \<open>The task that answers stops at the end of the requests and at an error alike, and ends the replies there.\<close>

definition say_hello_bidi_stream ::
  "('h, 'x) ext \<Rightarrow> ('h, 'x, ('h, hello_request) streaming) request
     \<Rightarrow> 'h status + ('h, 'x, ('h, hello_reply) src_ev list) response" where
  "say_hello_bidi_stream X request =
     Inr (response_new X
       (case stream_read X (rq_message request) of
          Some (msgs, _) \<Rightarrow> map SrcItem (map (\<lambda>msg. greet (hr_name msg)) msgs)
        | None \<Rightarrow> []))"

text \<open>The server over FlatBuffers, whose name may be missing.\<close>

record fbs_hello_request =
  fr_name :: "string option"

record fbs_hello_reply =
  fy_message :: "string option"

definition fbs_say_hello ::
  "('h, 'x) ext \<Rightarrow> ('h, 'x, fbs_hello_request) request \<Rightarrow> 'h status + ('h, 'x, fbs_hello_reply) response" where
  "fbs_say_hello X request =
     (let name = (case fr_name (rq_message request) of Some n \<Rightarrow> n | None \<Rightarrow> []);
          reply = \<lparr>fy_message = Some (''Hello (FlatBuffers), '' @ name @ ''!'')\<rparr>
      in Inr (response_new X reply))"

text \<open>What the generated server does with the four paths, and the router of the example.\<close>

definition greeter_dispatch ::
  "('h, 'x) ext \<Rightarrow> ('h, hello_request, hello_reply) grpc_server
     \<Rightarrow> (('h, 'x) raw_request \<Rightarrow> ('h, 'x, hello_reply) grpc_http_response option) \<Rightarrow> bool" where
  "greeter_dispatch X G handler \<longleftrightarrow> (\<forall>r.
     (hq_path r = ''/helloworld.Greeter/SayHello'' \<longrightarrow> handler r = server_unary X G (say_hello X) r) \<and>
     (hq_path r = ''/helloworld.Greeter/SayHelloServerStream'' \<longrightarrow>
        handler r = server_server_streaming X G (say_hello_server_stream X) r) \<and>
     (hq_path r = ''/helloworld.Greeter/SayHelloClientStream'' \<longrightarrow>
        handler r = Some (server_client_streaming X G (say_hello_client_stream X) r)) \<and>
     (hq_path r = ''/helloworld.Greeter/SayHelloBidiStream'' \<longrightarrow>
        handler r = Some (server_streaming X G (say_hello_bidi_stream X) r)))"

definition greeter_router :: "'s \<Rightarrow> 's \<Rightarrow> 's router" where
  "greeter_router greeter reflection =
     add_service (add_service router_new ''helloworld.Greeter'' greeter) ''grpc.reflection.v1.ServerReflection'' reflection"

subsection \<open>The client\<close>

text \<open>
  The lines printed and how the program ends. \<open>go_on\<close> goes on after a part that succeeded;
  \<open>None\<close>: the part does not end.
\<close>

type_synonym 'h run = "(string list \<times> ('h status + unit)) option"

definition go_on :: "'h run \<Rightarrow> 'h run \<Rightarrow> 'h run" where
  "go_on p q =
     (case p of
        None \<Rightarrow> None
      | Some (out, Inl e) \<Rightarrow> Some (out, Inl e)
      | Some (out, Inr _) \<Rightarrow> map_option (apfst (\<lambda>rest. out @ rest)) q)"

definition print_line :: "string \<Rightarrow> 'h run" where "print_line l = Some ([l], Inr ())"

definition print_response :: "hello_reply \<Rightarrow> string" where "print_response r = ''  Response: '' @ hy_message r"

definition print_single :: "('h status + ('h, 'x, hello_reply) response) option \<Rightarrow> 'h run" where
  "print_single call =
     (case call of
        None \<Rightarrow> None
      | Some (Inl e) \<Rightarrow> Some ([], Inl e)
      | Some (Inr response) \<Rightarrow> print_line (print_response (rs_message response)))"

definition print_stream :: "('h, 'x) ext \<Rightarrow> 'h status + ('h, 'x, ('h, hello_reply) streaming) response \<Rightarrow> 'h run" where
  "print_stream X call =
     (case call of
        Inl e \<Rightarrow> Some ([], Inl e)
      | Inr response \<Rightarrow>
          (case stream_read X (rs_message response) of
             None \<Rightarrow> None
           | Some (replies, outcome) \<Rightarrow> Some (map print_response replies, outcome)))"

definition greeter_client_main ::
  "('h, 'x) ext \<Rightarrow> 'o uri_ops \<Rightarrow> 'o grpc_client \<Rightarrow> (grpc_method \<Rightarrow> 'x \<Rightarrow> 'x)
     \<Rightarrow> ('h, hello_request) encoder \<Rightarrow> ('h, hello_reply) decoder \<Rightarrow> ('h, 'x, hello_request) transport \<Rightarrow> 'h run" where
  "greeter_client_main X U C put_method E D transport =
     (let request = (\<lambda>m msg. method_request X put_method ''helloworld.Greeter'' m msg);
          stream = (\<lambda>m names. method_request X put_method ''helloworld.Greeter'' m (map (\<lambda>n. Ready \<lparr>hr_name = n\<rparr>) names))
      in go_on (print_line ''--- Unary ---'')
        (go_on (print_single (client_unary X U C E D transport
            (request ''SayHello'' \<lparr>hr_name = ''unary-test''\<rparr>) ''/helloworld.Greeter/SayHello''))
        (go_on (print_line ''--- Server Streaming ---'')
        (go_on (print_stream X (client_server_streaming X U C E D transport
            (request ''SayHelloServerStream'' \<lparr>hr_name = ''stream-test''\<rparr>) ''/helloworld.Greeter/SayHelloServerStream''))
        (go_on (print_line ''--- Client Streaming ---'')
        (go_on (print_single (client_client_streaming X U C E D transport
            (stream ''SayHelloClientStream'' [''Alice'', ''Bob'', ''Charlie'']) ''/helloworld.Greeter/SayHelloClientStream''))
        (go_on (print_line ''--- Bidi Streaming ---'')
        (go_on (print_stream X (client_streaming_call X U C E D transport
            (stream ''SayHelloBidiStream'' [''Dave'', ''Eve'']) ''/helloworld.Greeter/SayHelloBidiStream''))
        (print_line ''--- All patterns succeeded ---'')))))))))"

subsection \<open>Lemmas\<close>

lemma go_on_Inr [simp]: "go_on (Some (out, Inr ())) q = map_option (apfst (\<lambda>rest. out @ rest)) q"
  by (simp add: go_on_def)

lemma print_parts:
  "print_single (Some (Inr resp)) = Some ([print_response (rs_message resp)], Inr ())"
  "stream_yields X (rs_message resps) ms (Inr ()) \<Longrightarrow> print_stream X (Inr resps) = Some (map print_response ms, Inr ())"
  by (simp_all add: print_single_def print_stream_def print_line_def stream_read_yields)

text \<open>What the methods answer to the client's requests.\<close>

lemma greeter_answers:
  "rq_message q = \<lparr>hr_name = name\<rparr> \<Longrightarrow> say_hello X q = Inr (response_new X (greet name))"
  "rq_message q = \<lparr>hr_name = name\<rparr> \<Longrightarrow> say_hello_server_stream X q = Inr (response_new X (map SrcItem
     [\<lparr>hy_message = ''Hello, '' @ name @ ''! (message 0)''\<rparr>, \<lparr>hy_message = ''Hello, '' @ name @ ''! (message 1)''\<rparr>,
      \<lparr>hy_message = ''Hello, '' @ name @ ''! (message 2)''\<rparr>]))"
  "stream_yields X (rq_message qs) (map (\<lambda>n. \<lparr>hr_name = n\<rparr>) names) (Inr ()) \<Longrightarrow>
    say_hello_client_stream X qs = Inr (response_new X (greet (str_join '', '' names)))"
  "stream_yields X (rq_message qs) (map (\<lambda>n. \<lparr>hr_name = n\<rparr>) names) (Inr ()) \<Longrightarrow>
    say_hello_bidi_stream X qs = Inr (response_new X (map SrcItem (map greet names)))"
  by (simp_all add: say_hello_def say_hello_server_stream_def say_hello_client_stream_def say_hello_bidi_stream_def
      stream_read_yields comp_def upt_rec show_nat.simps digit_char_def)

lemma greeter_route:
  assumes "\<forall>xs. mset (iter xs) = mset xs"
  shows "route iter (greeter_router greeter reflection) (''/helloworld.Greeter/'' @ m) = Some greeter"
proof -
  have ok: "router_ok (greeter_router greeter reflection)"
    unfolding greeter_router_def by (intro router_ok_add router_ok_new) simp_all
  have "route iter (greeter_router greeter reflection) (''/'' @ ''helloworld.Greeter'' @ ''/'' @ m) = Some greeter"
    using route_segment [OF ok, of iter "''helloworld.Greeter''" m] assms
    by (simp add: greeter_router_def add_service_def router_new_def Let_def update_conv)
  then show ?thesis by simp
qed

text \<open>
  A request stream that breaks off: the client-streaming method fails with its error, while the
  bidirectional one answers what came before and ends as if the requests had ended.
\<close>

lemma greeter_broken_stream:
  assumes "stream_yields X (rq_message q) (map (\<lambda>n. \<lparr>hr_name = n\<rparr>) names) (Inl e)"
  shows "say_hello_client_stream X q = Inl e \<and>
    say_hello_bidi_stream X q = Inr (response_new X (map SrcItem (map greet names)))"
  using stream_read_yields [OF assms] by (simp add: say_hello_client_stream_def say_hello_bidi_stream_def comp_def)

subsection \<open>The property\<close>

text \<open>
  C37: What the client of the example prints when it runs against the server, through the network, the
  adapter, the router with both services and the generated dispatch: a greeting for the unary call, three
  numbered ones for the server stream, one with all the names for the client stream, one for each
  name of the bidirectional stream, and that all succeeded.
\<close>

theorem greeter_client_output:
  fixes X :: "('h, 'x) ext" and ES :: "('h, hello_reply) encoder" and DS :: "('h, hello_request) decoder"
  assumes laws: "header_laws X" "value_laws X" "percent_laws X" "base64_laws X" "compressor_laws X"
    and net: "network_laws carry" "3 < n" and codecs: "codec_laws E DS" "codec_laws ES D"
    and uri: "\<forall>m. client_uri X U C (''/helloworld.Greeter/'' @ m) = Inr (''/helloworld.Greeter/'' @ m)" and enc: "gc_send C = None"
    and requests: "\<forall>q. length (hr_name q) \<le> 64 \<longrightarrow> deliverable X E None (gc_max_encoding C) None q"
    and replies: "\<forall>r. length (hy_message r) \<le> 64 \<longrightarrow> deliverable X ES None None (gc_max_decoding C) r"
    and env: "\<forall>b. is_end b \<longrightarrow> b = []" "\<forall>xs. mset (iter xs) = mset xs"
    and dispatch: "greeter_dispatch X (grpc_server_new ES DS) handler"
  shows "greeter_client_main X U C put_method E D
      (reaching X carry n (served X is_end iter (greeter_router (as_service X handler) reflection) None None delay))
    = Some ([''--- Unary ---'', ''  Response: Hello, unary-test!'',
        ''--- Server Streaming ---'', ''  Response: Hello, stream-test! (message 0)'',
        ''  Response: Hello, stream-test! (message 1)'', ''  Response: Hello, stream-test! (message 2)'',
        ''--- Client Streaming ---'', ''  Response: Hello, Alice, Bob, Charlie!'',
        ''--- Bidi Streaming ---'', ''  Response: Hello, Dave!'', ''  Response: Hello, Eve!'',
        ''--- All patterns succeeded ---''], Inr ())"
proof -
  let ?name = "''helloworld.Greeter''"
    and ?tr = "reaching X carry n (served X is_end iter (greeter_router (as_service X handler) reflection) None None delay)"
  have n: "1 < n" using net(2) by simp
  note at = uri [rule_format] greeter_route [OF env(2), of "as_service X handler"]
  have "\<exists>resp. client_unary X U C E D ?tr (method_request X put_method ?name ''SayHello'' \<lparr>hr_name = ''unary-test''\<rparr>)
      ''/helloworld.Greeter/SayHello'' = Some (Inr resp) \<and> rs_message resp = greet ''unary-test''"
    by (rule plain_unary_call [OF laws net(1) n codecs _ enc _ env(1) at(2) [of _ "''SayHello''"]])
       (use at(1) [of "''SayHello''"] requests replies dispatch in \<open>auto simp: greeter_dispatch_def greeter_answers greet_def\<close>)
  then obtain r1 where r1: "client_unary X U C E D ?tr (method_request X put_method ?name ''SayHello'' \<lparr>hr_name = ''unary-test''\<rparr>)
      ''/helloworld.Greeter/SayHello'' = Some (Inr r1)" "rs_message r1 = greet ''unary-test''" by blast
  let ?three = "[\<lparr>hy_message = ''Hello, stream-test! (message 0)''\<rparr>, \<lparr>hy_message = ''Hello, stream-test! (message 1)''\<rparr>,
      \<lparr>hy_message = ''Hello, stream-test! (message 2)''\<rparr>]"
  have "\<exists>resp. client_server_streaming X U C E D ?tr
      (method_request X put_method ?name ''SayHelloServerStream'' \<lparr>hr_name = ''stream-test''\<rparr>)
      ''/helloworld.Greeter/SayHelloServerStream'' = Inr resp \<and> stream_yields X (rs_message resp) ?three (Inr ())"
    by (rule plain_lister_call [OF laws net(1) n codecs _ enc _ env(1) at(2) [of _ "''SayHelloServerStream''"]])
       (use at(1) [of "''SayHelloServerStream''"] requests replies net(2) dispatch in \<open>auto simp: greeter_dispatch_def greeter_answers\<close>)
  then obtain r2 where r2: "client_server_streaming X U C E D ?tr
      (method_request X put_method ?name ''SayHelloServerStream'' \<lparr>hr_name = ''stream-test''\<rparr>)
      ''/helloworld.Greeter/SayHelloServerStream'' = Inr r2" "stream_yields X (rs_message r2) ?three (Inr ())" by blast
  have "\<exists>resp. client_client_streaming X U C E D ?tr (method_request X put_method ?name ''SayHelloClientStream''
        (map (\<lambda>n. Ready \<lparr>hr_name = n\<rparr>) [''Alice'', ''Bob'', ''Charlie'']))
      ''/helloworld.Greeter/SayHelloClientStream'' = Some (Inr resp) \<and> rs_message resp = greet (str_join '', '' [''Alice'', ''Bob'', ''Charlie''])"
    by (rule plain_recorder_call [where qs = "map (\<lambda>n. \<lparr>hr_name = n\<rparr>) [''Alice'', ''Bob'', ''Charlie'']",
          OF laws net(1) n _ codecs _ enc _ _ env(1) at(2) [of _ "''SayHelloClientStream''"]])
       (use at(1) [of "''SayHelloClientStream''"] requests replies net(2) dispatch
         greeter_answers(3) [where names = "[''Alice'', ''Bob'', ''Charlie'']"] in \<open>auto simp: greeter_dispatch_def greet_def\<close>)
  then obtain r3 where r3: "client_client_streaming X U C E D ?tr (method_request X put_method ?name ''SayHelloClientStream''
        (map (\<lambda>n. Ready \<lparr>hr_name = n\<rparr>) [''Alice'', ''Bob'', ''Charlie'']))
      ''/helloworld.Greeter/SayHelloClientStream'' = Some (Inr r3)" "rs_message r3 = greet (str_join '', '' [''Alice'', ''Bob'', ''Charlie''])"
    by blast
  have "\<exists>resp. client_streaming_call X U C E D ?tr (method_request X put_method ?name ''SayHelloBidiStream''
        (map (\<lambda>n. Ready \<lparr>hr_name = n\<rparr>) [''Dave'', ''Eve'']))
      ''/helloworld.Greeter/SayHelloBidiStream'' = Inr resp \<and> stream_yields X (rs_message resp) (map greet [''Dave'', ''Eve'']) (Inr ())"
    by (rule plain_bidi_call [where qs = "map (\<lambda>n. \<lparr>hr_name = n\<rparr>) [''Dave'', ''Eve'']",
          OF laws net(1) _ codecs _ enc _ _ env(1) at(2) [of _ "''SayHelloBidiStream''"]])
       (use at(1) [of "''SayHelloBidiStream''"] requests replies net(2) dispatch
         greeter_answers(4) [where names = "[''Dave'', ''Eve'']"] in \<open>auto simp: greeter_dispatch_def greet_def\<close>)
  then obtain r4 where r4: "client_streaming_call X U C E D ?tr (method_request X put_method ?name ''SayHelloBidiStream''
        (map (\<lambda>n. Ready \<lparr>hr_name = n\<rparr>) [''Dave'', ''Eve'']))
      ''/helloworld.Greeter/SayHelloBidiStream'' = Inr r4" "stream_yields X (rs_message r4) (map greet [''Dave'', ''Eve'']) (Inr ())"
    by blast
  show ?thesis
    unfolding greeter_client_main_def Let_def r1(1) r2(1) r3(1) r4(1) print_parts(1) print_parts(2) [OF r2(2)] print_parts(2) [OF r4(2)]
      print_line_def
    by (simp add: r1(2) r3(2) print_response_def greet_def)
qed

definition wire_name :: "hello_request wire_format" where
  "wire_name = wire_map hr_name (\<lambda>n. \<lparr>hr_name = n\<rparr>) wire_text"

definition wire_message :: "hello_reply wire_format" where
  "wire_message = wire_map hy_message (\<lambda>m. \<lparr>hy_message = m\<rparr>) wire_text"

definition example_greeter ::
  "(alist, hello_request, hello_reply) grpc_server \<Rightarrow> (alist, bytes list option) raw_request
     \<Rightarrow> (alist, bytes list option, hello_reply) grpc_http_response option" where
  "example_greeter G r =
     (if hq_path r = ''/helloworld.Greeter/SayHello'' then server_unary ref_ext G (say_hello ref_ext) r
      else if hq_path r = ''/helloworld.Greeter/SayHelloServerStream''
      then server_server_streaming ref_ext G (say_hello_server_stream ref_ext) r
      else if hq_path r = ''/helloworld.Greeter/SayHelloClientStream''
      then Some (server_client_streaming ref_ext G (say_hello_client_stream ref_ext) r)
      else Some (server_streaming ref_ext G (say_hello_bidi_stream ref_ext) r))"

theorem greeter_client_output_witness:
  "\<exists>out. greeter_client_main ref_ext plain_uri plain_client (\<lambda>_ x. x) (prost_encoder ref_ext (wire_encode wire_name))
      (prost_decoder ref_ext (wire_decode wire_message))
      (reaching ref_ext byte_wise 4 (served ref_ext (\<lambda>b. b = []) rev
        (greeter_router (as_service ref_ext (example_greeter (grpc_server_new (prost_encoder ref_ext (wire_encode wire_message))
          (prost_decoder ref_ext (wire_decode wire_name))))) (\<lambda>_. status_into_http ref_ext body_empty (status_new ref_ext Unimplemented []))) None None 3))
    = Some (out, Inr ()) \<and> last out = ''--- All patterns succeeded ---''"
proof -
  have ok: "wire_ok wire_name" "wire_ok wire_message"
    unfolding wire_name_def wire_message_def by (intro wire_ok_parts wire_ok_scalars; simp)+
  have enc: "gc_send plain_client = None" "gc_max_encoding plain_client = None" "gc_max_decoding plain_client = None"
    by (simp_all add: plain_client_def client_with_origin_def)
  have uri: "\<forall>m. client_uri ref_ext plain_uri plain_client (''/helloworld.Greeter/'' @ m) = Inr (''/helloworld.Greeter/'' @ m)"
    by (simp add: plain_client_def client_with_origin_def client_uri_def plain_uri_def)
  note small = wire_length wire_name_def wire_message_def recv_limit_def DEFAULT_MAX_RECV_MESSAGE_SIZE_def
  have requests: "\<forall>q. length (hr_name q) \<le> 64 \<longrightarrow>
      deliverable ref_ext (prost_encoder ref_ext (wire_encode wire_name)) None (gc_max_encoding plain_client) None q"
    unfolding enc by (intro allI impI wire_deliverable) (simp_all add: small)
  have replies: "\<forall>r. length (hy_message r) \<le> 64 \<longrightarrow>
      deliverable ref_ext (prost_encoder ref_ext (wire_encode wire_message)) None None (gc_max_decoding plain_client) r"
    unfolding enc by (intro allI impI wire_deliverable) (simp_all add: small)
  have env: "\<forall>b. b = [] \<longrightarrow> b = []" "\<forall>xs. mset (rev xs) = mset xs" "(3::nat) < 4" by simp_all
  have dispatch: "greeter_dispatch ref_ext G (example_greeter G)" for G
    by (simp add: greeter_dispatch_def example_greeter_def)
  show ?thesis
    by (intro exI conjI, rule greeter_client_output [OF ref_header_laws ref_value_laws ref_percent_laws ref_base64_laws
          ref_compressor_laws byte_wise_network env(3) wire_codec_laws [OF ok(1)] wire_codec_laws [OF ok(2)] uri enc(1) requests
          replies env(1,2) dispatch]) simp
qed

end
