(* ===== verification/Spec2Isabelle.thy ===== *)
theory Spec2Isabelle
  imports Grpc_Client Grpc_Server Router Serve H3 Web Channel FlatBuffers Health Details Reflection Build Tls Stack
    Channel_Rpc H3_Rpc Web_Rpc Health_Rpc Reflection_Rpc Todo_Rpc Todo_Prost Todo_Load Bench Greeter Load
begin

text \<open>
  \<^bold>\<open>What is verified.\<close> pure-grpc-rs is a gRPC framework in Rust: a codec that frames, compresses
  and limits messages over HTTP bodies (crate \<^verbatim>\<open>grpc-core\<close>), clients and servers of
  the four kinds of RPC over HTTP/2 and HTTP/3 (\<^verbatim>\<open>grpc-client\<close>,
  \<^verbatim>\<open>grpc-server\<close>), the gRPC-Web translation (\<^verbatim>\<open>grpc-web\<close>), the
  health and reflection services (\<^verbatim>\<open>grpc-health\<close>,
  \<^verbatim>\<open>grpc-reflection\<close>), typed error details (\<^verbatim>\<open>grpc-types\<close>), a
  second codec (\<^verbatim>\<open>grpc-codec-flatbuffers\<close>), and the generators that make clients and
  servers from a schema (\<^verbatim>\<open>grpc-codegen\<close>, \<^verbatim>\<open>grpc-build\<close>). The
  model is a shallow embedding: every function is an HOL function over the same data, an error is
  the left of a sum, a panic is \<open>None\<close>, an asynchronous body or stream is the list of what polling
  it yields, with an explicit pending event, and a task's loop is a transition system where what
  other tasks do between its steps matters.

  \<^bold>\<open>The theories, from the wire upwards.\<close>

  \<^item> \<open>Prelude\<close>: types, Rust's string functions, big-endian numbers, and the interfaces \<open>codec_pair\<close> and
    \<open>strict_codec\<close> (a writer with its reader; a reader that accepts nothing else), which the
    code table, the encoding names, the frame header and the frame helpers instantiate.
  \<^item> \<open>External\<close>: statuses, HTTP messages, frames, errors, and the record \<open>ext\<close> of every third-party function
    the code calls (the \<^verbatim>\<open>http\<close> crate's header map and values, percent encoding, base64,
    the compressors, the text of foreign errors), with its laws: \<open>header_laws\<close>, \<open>value_laws\<close>,
    \<open>percent_laws\<close>, \<open>base64_laws\<close>, \<open>compressor_laws\<close>. \<open>Reference\<close> has one concrete record with all of
    them; the witnesses run on it.
  \<^item> \<open>Metadata\<close> (\<^verbatim>\<open>grpc-core/src/metadata.rs\<close>), \<open>Status\<close> (\<^verbatim>\<open>status.rs\<close>),
    \<open>Compression\<close> (\<^verbatim>\<open>codec/compression.rs\<close>), \<open>Buffers\<close> (\<^verbatim>\<open>codec/mod.rs\<close>,
    \<^verbatim>\<open>buffer.rs\<close>, \<^verbatim>\<open>prost_codec.rs\<close>).
  \<^item> \<open>Encode\<close> (\<^verbatim>\<open>codec/encode.rs\<close>) and \<open>Decode\<close> (\<^verbatim>\<open>codec/decode.rs\<close>):
    \<open>encode_body\<close> is \<^verbatim>\<open>EncodeBody\<close> with the stream it polls, \<open>encode_poll_frame\<close> its
    \<^verbatim>\<open>poll_frame\<close>; \<open>streaming_inner\<close> is \<^verbatim>\<open>StreamingInner\<close> with the body
    it polls, \<open>poll_pass\<close> one turn of the loop of \<^verbatim>\<open>poll_next\<close>, \<open>message\<close> and
    \<open>streaming_trailers\<close> the two asynchronous operations. \<open>Framing\<close> composes them: what one side encodes
    the other decodes, however the bytes are cut, and what happens to truncated, oversized and broken
    bodies.
  \<^item> \<open>Messages\<close> (\<^verbatim>\<open>request.rs\<close>, \<^verbatim>\<open>response.rs\<close>, \<^verbatim>\<open>body.rs\<close>):
    messages with metadata and the deadline header.
  \<^item> \<open>Grpc_Server\<close> (\<^verbatim>\<open>grpc-server/src/grpc.rs\<close>) and \<open>Grpc_Client\<close>
    (\<^verbatim>\<open>grpc-client/src/grpc.rs\<close>): the four kinds of RPC on both sides. \<open>Rpc\<close> (unary) and
    \<open>Streaming_Rpc\<close> (the three kinds with streams) compose them over an arbitrary network that keeps
    the order of the bytes; \<open>Stack\<close> puts deadline, router, interceptor and handler behind the network,
    and states what a call of a service of either shape returns through them.
  \<^item> \<open>Router\<close> (\<^verbatim>\<open>router.rs\<close>, \<^verbatim>\<open>interceptor.rs\<close>, \<^verbatim>\<open>mtls.rs\<close>):
    dispatch on the path in any iteration order of the hash map, and the gate before a service.
  \<^item> \<open>Serve\<close> (\<^verbatim>\<open>server.rs\<close>, the accept loop of \<^verbatim>\<open>h3_server.rs\<close>,
    \<^verbatim>\<open>http2_config.rs\<close>): \<open>accept_step\<close> is the step relation of the accept loops with
    their semaphore, ends of connections and the shutdown signal; \<open>deadlined\<close> is the interface of
    everything that answers within a deadline, and has the TCP and HTTP/3 servers and both channels as
    its instances.
  \<^item> \<open>Tls\<close>: the TLS settings of both servers and of the HTTP/3 channel, the task of an accepted
    connection with the client's certificates, the entry points of the servers and
    \<^verbatim>\<open>H3Channel::connect\<close>.
  \<^item> \<open>Bodies\<close>: the interface \<open>fused_body\<close> of a body that stays ended, with the raw, encoded,
    received and translated bodies as instances. \<open>H3\<close> (\<^verbatim>\<open>h3_server.rs\<close>,
    \<^verbatim>\<open>h3_channel.rs\<close>), \<open>Web\<close> (\<^verbatim>\<open>grpc-web/src\<close>).
  \<^item> \<open>Channel\<close> (\<^verbatim>\<open>channel.rs\<close>, \<^verbatim>\<open>endpoint.rs\<close>, \<^verbatim>\<open>balance.rs\<close>),
    \<open>FlatBuffers\<close>, \<open>Health\<close>, \<open>Reflection\<close>, \<open>Details\<close>: one crate or module group each.
  \<^item> \<open>Channel_Rpc\<close>: a call over the channel an endpoint connected, or over a balanced channel, to the
    hosts of a network. It shows which host a request reaches: the one the client's origin names,
    as no channel uses the address it was made with.
  \<^item> \<open>H3_Rpc\<close>, \<open>Web_Rpc\<close>, \<open>Health_Rpc\<close> and \<open>Reflection_Rpc\<close>: whole calls over the other paths through the
    code. The first sends a request with \<^verbatim>\<open>H3Channel::call\<close> through
    \<^verbatim>\<open>handle_h3_request\<close> and \<^verbatim>\<open>send_response\<close>, over a connection that cuts
    and delays the data of either direction; the second puts the gRPC-Web layer before the router; the
    last two ask the health and the reflection service, as a client does, through \<open>Stack\<close>.
  \<^item> The programs that use the library: \<open>Loops\<close> (what a client does before a call, with the extension
    of \<^verbatim>\<open>grpc-core/src/extensions.rs\<close>, and the loop that reads a stream to its end) and \<open>Calls\<close>
    (the four kinds of calls that succeed) serve them all. \<open>Todo\<close> is the service with state of
    \<^verbatim>\<open>benchmarks/bin/flatbuffers_todo_server.rs\<close>, written by hand on the FlatBuffers codec,
    beside \<^verbatim>\<open>prost_todo_server.rs\<close>; \<open>Boxed\<close> makes one response type of the four its methods
    have; \<open>Todo_Rpc\<close> calls it with the client of \<^verbatim>\<open>todo_load_test.rs\<close>,
    \<open>Todo_Prost\<close> calls the other server with the other client of that program and compares the two, and \<open>Todo_Load\<close> is a worker
    of that load test. \<open>Bench\<close> is the server of \<^verbatim>\<open>prost_benchmark_server.rs\<close> with the client of
    \<^verbatim>\<open>streaming_load_test.rs\<close>, \<open>Load\<close> the tasks and the channel of the two load tests as
    transition systems, \<open>Greeter\<close> the programs of \<^verbatim>\<open>examples/greeter-proto\<close> and the server of
    \<^verbatim>\<open>examples/greeter-fbs\<close>. \<open>Formats\<close> has concrete encodings for their witnesses.
  \<^item> \<open>Codegen\<close> (\<^verbatim>\<open>client_gen.rs\<close>, \<^verbatim>\<open>server_gen.rs\<close>, \<^verbatim>\<open>protobuf.rs\<close>,
    \<^verbatim>\<open>ir.rs\<close>), \<open>Dart\<close> (\<^verbatim>\<open>dart_client_gen.rs\<close>), \<open>Stubs\<close>
    (\<^verbatim>\<open>grpc-codegen/src/flatbuffers.rs\<close>) and \<open>Build\<close> (\<^verbatim>\<open>grpc-build/src\<close>):
    generated code as token trees or lines of text, output files as a map.

  \<^bold>\<open>What the theorems show.\<close> End to end: a call of each of the four kinds, over any network, reaches
  the method with what the caller sent and returns what the method answered, streams included; the same
  holds over HTTP/3 and from a gRPC-Web client in both modes, and the health and reflection services
  answer a client with what was set and what was registered. For the programs: any sequence of calls
  of the todo client is answered by what the calls before it did, alike over FlatBuffers and prost, each method of the benchmark client
  returns what its service computes, the greeter client prints its greetings, and a streaming load test
  always ends with the same result. On the way: the shape
  of every request and response, the round trip of statuses and details through headers, the
  negotiation of compression, the receive limit as an invariant of the decoder, the completeness of
  a server's body, the dispatch of requests, the limit on connections, when a server returns, whose
  certificates a handler sees, deadlines, the fairness of the balancer's choice, the translation to and from gRPC-Web and HTTP/3. For the generators: the generated
  client calls the paths the generated server dispatches, with mirrored codecs. Where the code does
  not do what it should, the theorem states what it does: the balanced channel whose
  addresses no call uses, the truncated stream that looks complete,
  the batch lost with a message that fails to encode, the response of a native call behind the
  gRPC-Web layer, the message sent after an error over HTTP/3, the race between setting and
  watching a health status, the shutdown signal that goes unseen while one connection beyond the limit
  waits for its permit, the load test that waits for its own sender, and its calls that ask for todos nobody made.

  \<^bold>\<open>Bounds and fuel.\<close> Widths are those of the code: the length field of a frame is a 32-bit word and
  \<open>finish_encoding\<close> refuses what does not fit, the balancer's counter wraps at 64 bits, the deadline
  header has at most eight digits. Sizes of buffers are natural numbers, as a buffer's length cannot
  overflow before memory ends. \<open>body_events X n\<close> polls a body \<open>n\<close> times: the theorems about it ask that
  \<open>n\<close> exceeds the number of events of the source, which is enough as one poll takes at least one event
  or ends the body; the bodies over HTTP/3 are polled once more than they have events, for the trailers.
  \<open>drain\<close> is a partial function (option), with a theorem that it returns, and so are \<open>read_all\<close> and
  \<open>answer_loop\<close>, which return on every stream whose reading ends; every other loop is total, with its measure where the
  recursion is not structural. A run of a load test has no bound given: a weight that every step lowers
  ends it.

  \<^bold>\<open>Parameters.\<close> The functions of \<open>ext\<close>; \<open>uri_ops\<close> (parsing and joining URIs); the transport of a client,
  the methods of a server and the services behind a router; prost, the FlatBuffers messages and the
  generated types of \<^verbatim>\<open>google.rpc\<close> and the reflection protocol; tokio's watch channel;
  hyper's client and connections, rustls and its PEM reader, quinn and h3 (\<open>quic\<close>: opening a
  stream, sending and receiving heads, cutting data); heck, proc-macro2, codegen-schema, the schema compilers and the
  formatter of the generators; for the programs, the code generated from their schemas (the tables of
  flatc, the dispatch of a service), fresh UUIDs, the clock and floating point numbers. Their laws state documented behaviour and are hypotheses of the
  theorems that need them; every such theorem has a witness where they hold.

  \<^bold>\<open>Not modelled.\<close> What rustls, quinn, h3 and hyper do themselves (parsing PEM, handshakes, verifying
  certificates, the HTTP/2 and HTTP/3 protocols): the code under \<^verbatim>\<open>src/\<close> only calls them. The service traits and re-exports in the
  \<^verbatim>\<open>lib.rs\<close> files and \<^verbatim>\<open>service.rs\<close>: the handlers take them as functions. Wakers: a pending poll is an event, and a task polls again. Tracing output. Of the programs: the
  command lines, the printed reports, the clients and servers of tonic, the WebTransport example, which
  runs on h3-webtransport, the variants over TLS, the Criterion benchmarks, and the tests. The load
  tests are modelled from the end of their warm-up, and their workers' calls return.
\<close>

end
